(* ===== verification/Prelude.thy ===== *)
theory Prelude
  imports Main "HOL-Library.Word"
begin

text \<open>
  Shared vocabulary of the development: byte strings, Go strings, error results, the byte-order
  helpers of \<open>encoding/binary\<close>, block splitting and the generic lemmas every component uses.

  A Go \<open>[]byte\<close> is a list of 8-bit words, a Go \<open>string\<close> is an Isabelle \<open>string\<close> (a list of 8-bit
  characters, so exactly a byte string), and the conversions between the two are \<open>to_bytes\<close> and
  \<open>of_bytes\<close>. A Go function that returns \<open>(T, error)\<close> returns a sum whose left side is the text of
  the error.
\<close>

unbundle bit_operations_syntax

type_synonym byte = "8 word"
type_synonym bytes = "8 word list"
type_synonym u32 = "32 word"
type_synonym u64 = "64 word"
type_synonym goerr = string
type_synonym 'a result = "string + 'a"

named_theorems len_simps \<open>lengths of the byte strings the primitives and encoders produce\<close>
named_theorems codec_simps \<open>decoders applied to the output of their encoders\<close>

section \<open>Errors as values\<close>

text \<open>The \<open>if err != nil { return err }\<close> chain of the source.\<close>

definition rbind :: "'a result \<Rightarrow> ('a \<Rightarrow> 'b result) \<Rightarrow> 'b result" where
  "rbind m f = (case m of Inl e \<Rightarrow> Inl e | Inr x \<Rightarrow> f x)"

definition is_ok :: "'a result \<Rightarrow> bool" where
  "is_ok m = (case m of Inl _ \<Rightarrow> False | Inr _ \<Rightarrow> True)"

lemma rbind_simps [simp]:
  "rbind (Inl e) f = Inl e"
  "rbind (Inr x) f = f x"
  by (simp_all add: rbind_def)

lemma rbind_eq_Inr_iff: "rbind m f = Inr y \<longleftrightarrow> (\<exists>x. m = Inr x \<and> f x = Inr y)"
  by (cases m) simp_all

lemma rbind_cong [fundef_cong]:
  "m = m' \<Longrightarrow> (\<And>x. m' = Inr x \<Longrightarrow> f x = g x) \<Longrightarrow> rbind m f = rbind m' g"
  by (cases m') simp_all

lemma is_ok_simps [simp]:
  "is_ok (Inr x)"
  "\<not> is_ok (Inl e)"
  by (simp_all add: is_ok_def)

lemma is_ok_iff: "is_ok m \<longleftrightarrow> (\<exists>x. m = Inr x)"
  by (cases m) simp_all

section \<open>Byte strings and Go strings\<close>

definition byte_of :: "char \<Rightarrow> byte" where
  "byte_of c = of_nat (of_char c)"

definition char_of_byte :: "byte \<Rightarrow> char" where
  "char_of_byte b = char_of (unat b)"

definition to_bytes :: "string \<Rightarrow> bytes" where
  "to_bytes = map byte_of"

definition of_bytes :: "bytes \<Rightarrow> string" where
  "of_bytes = map char_of_byte"

lemma unat_byte_of [simp]: "unat (byte_of c) = of_char c"
proof -
  have "(of_char c :: nat) < 2 ^ 8" by simp
  then show ?thesis by (simp add: byte_of_def unsigned_of_nat take_bit_nat_eq_self)
qed

lemma char_of_byte_byte_of [simp]: "char_of_byte (byte_of c) = c"
  by (simp add: char_of_byte_def)

lemma byte_of_char_of_byte [simp]: "byte_of (char_of_byte b) = b"
proof -
  have "unat b < 256" using unsigned_less [of b] by simp
  then show ?thesis by (simp add: byte_of_def char_of_byte_def)
qed

lemma of_bytes_to_bytes [simp]: "of_bytes (to_bytes s) = s"
  by (induction s) (simp_all add: of_bytes_def to_bytes_def)

lemma to_bytes_of_bytes [simp]: "to_bytes (of_bytes b) = b"
  by (induction b) (simp_all add: of_bytes_def to_bytes_def)

lemma length_to_bytes [simp]: "length (to_bytes s) = length s"
  by (simp add: to_bytes_def)

lemma length_of_bytes [simp]: "length (of_bytes b) = length b"
  by (simp add: of_bytes_def)

lemma to_bytes_inject [simp]: "to_bytes s = to_bytes t \<longleftrightarrow> s = t"
  by (metis of_bytes_to_bytes)

lemma of_bytes_inject [simp]: "of_bytes a = of_bytes b \<longleftrightarrow> a = b"
  by (metis to_bytes_of_bytes)

text \<open>The bytewise lexicographic order of \<open>bytes.Compare\<close> and of Go's string comparison.\<close>

fun bytes_le :: "bytes \<Rightarrow> bytes \<Rightarrow> bool" where
  "bytes_le [] ys = True"
| "bytes_le (x # xs) [] = False"
| "bytes_le (x # xs) (y # ys) = (x < y \<or> (x = y \<and> bytes_le xs ys))"

lemma bytes_le_refl [simp]: "bytes_le xs xs"
  by (induction xs) simp_all

lemma bytes_le_total: "bytes_le xs ys \<or> bytes_le ys xs"
  by (induction xs ys rule: bytes_le.induct) auto

lemma bytes_le_antisym: "bytes_le xs ys \<Longrightarrow> bytes_le ys xs \<Longrightarrow> xs = ys"
  by (induction xs ys rule: bytes_le.induct) (auto dest: leD elim: bytes_le.elims)

definition string_le :: "string \<Rightarrow> string \<Rightarrow> bool" where
  "string_le s t = bytes_le (to_bytes s) (to_bytes t)"

lemma string_le_total: "string_le s t \<or> string_le t s"
  by (simp add: string_le_def bytes_le_total)

lemma string_le_antisym: "string_le s t \<Longrightarrow> string_le t s \<Longrightarrow> s = t"
  unfolding string_le_def by (metis bytes_le_antisym to_bytes_inject)

section \<open>Big-endian integers\<close>

text \<open>\<open>binary.BigEndian.PutUint16\<close>, \<open>PutUint32\<close>, \<open>PutUint64\<close> and \<open>Uint32\<close>.\<close>

definition be16 :: "16 word \<Rightarrow> bytes" where
  "be16 w = [ucast (drop_bit 8 w), ucast w]"

definition be32 :: "u32 \<Rightarrow> bytes" where
  "be32 w = [ucast (drop_bit 24 w), ucast (drop_bit 16 w), ucast (drop_bit 8 w), ucast w]"

definition be64 :: "u64 \<Rightarrow> bytes" where
  "be64 w = map (\<lambda>i. ucast (drop_bit i w)) [56, 48, 40, 32, 24, 16, 8, 0]"

definition be_word :: "bytes \<Rightarrow> 'a::len word" where
  "be_word bs = foldl (\<lambda>acc b. push_bit 8 acc OR ucast b) 0 bs"

lemma length_be [simp, len_simps]:
  "length (be16 a) = 2"
  "length (be32 b) = 4"
  "length (be64 c) = 8"
  by (simp_all add: be16_def be32_def be64_def)

lemma be_word_be32 [simp, codec_simps]: "be_word (be32 w) = w"
proof (rule bit_word_eqI)
  fix n assume "n < LENGTH(32)"
  then consider "n < 8" | "8 \<le> n" "n < 16" | "16 \<le> n" "n < 24" | "24 \<le> n" "n < 32"
    by fastforce
  then show "bit (be_word (be32 w) :: u32) n = bit w n"
    by cases (auto simp: be_word_def be32_def bit_simps)
qed

lemma be32_inject [simp]: "be32 v = be32 w \<longleftrightarrow> v = w"
  by (metis be_word_be32)

section \<open>Counters that do not wrap\<close>

lemma unat_inc: "unat x + 1 < 2 ^ LENGTH('a) \<Longrightarrow> unat (x + 1) = unat x + 1" for x :: "'a::len word"
  by (simp add: unat_word_ariths)

lemma unat_inc_less: "x < y \<Longrightarrow> unat (x + 1) = unat x + 1" for x y :: "'a::len word"
proof -
  assume "x < y"
  then have "unat x + 1 \<le> unat y" by (simp add: word_less_nat_alt)
  also have "unat y < 2 ^ LENGTH('a)" by (rule unsigned_less)
  finally show ?thesis by (rule unat_inc)
qed

lemma unat_add_const:
  "unat x + n < 2 ^ LENGTH('a) \<Longrightarrow> unat (x + of_nat n) = unat x + n" for x :: "'a::len word"
  by (simp add: unat_word_ariths unsigned_of_nat take_bit_nat_eq_self)

lemma unat_of_nat_small: "n < 2 ^ LENGTH('a) \<Longrightarrow> unat (of_nat n :: 'a::len word) = n"
  by (simp add: unsigned_of_nat take_bit_nat_eq_self)

lemma of_nat_word_inject:
  "m < 2 ^ LENGTH('a) \<Longrightarrow> n < 2 ^ LENGTH('a) \<Longrightarrow> (of_nat m :: 'a::len word) = of_nat n \<longleftrightarrow> m = n"
  by (metis unat_of_nat_small)

section \<open>Lists: xor, blocks, padding\<close>

definition xor_bytes :: "bytes \<Rightarrow> bytes \<Rightarrow> bytes" where
  "xor_bytes xs ys = map2 (\<lambda>x y. x XOR y) xs ys"

lemma length_xor_bytes [simp, len_simps]: "length (xor_bytes xs ys) = min (length xs) (length ys)"
  by (simp add: xor_bytes_def)

lemma xor_bytes_Cons [simp]:
  "xor_bytes [] ys = []"
  "xor_bytes (x # xs) (y # ys) = (x XOR y) # xor_bytes xs ys"
  by (simp_all add: xor_bytes_def)

lemma xor_bytes_cancel [simp]:
  "length xs \<le> length ks \<Longrightarrow> xor_bytes (xor_bytes xs ks) ks = xs"
proof (induction xs arbitrary: ks)
  case (Cons x xs)
  then obtain k ks' where "ks = k # ks'" by (cases ks) auto
  with Cons show ?case by (simp add: xor.assoc)
qed simp

text \<open>Consecutive blocks of \<open>n\<close> elements, the last one possibly shorter.\<close>

function blocks :: "nat \<Rightarrow> 'a list \<Rightarrow> 'a list list" where
  "blocks n xs = (if n = 0 \<or> xs = [] then [] else take n xs # blocks n (drop n xs))"
  by pat_completeness auto
termination by (relation "measure (\<lambda>(n, xs). length xs)") auto

declare blocks.simps [simp del]

lemma blocks_Nil [simp]: "blocks n [] = []"
  by (simp add: blocks.simps)

lemma blocks_step: "0 < n \<Longrightarrow> xs \<noteq> [] \<Longrightarrow> blocks n xs = take n xs # blocks n (drop n xs)"
  by (simp add: blocks.simps [of n xs])

lemma concat_blocks [simp]: "0 < n \<Longrightarrow> concat (blocks n xs) = xs"
proof (induction n xs rule: blocks.induct)
  case (1 n xs)
  then show ?case by (cases "xs = []") (simp_all add: blocks_step)
qed

lemma length_blocks: "0 < n \<Longrightarrow> length (blocks n xs) = (length xs + n - 1) div n"
proof (induction n xs rule: blocks.induct)
  case (1 n xs)
  show ?case
  proof (cases "xs = []")
    case False
    with 1 have "length (blocks n xs) = Suc ((length xs - n + n - 1) div n)"
      by (simp add: blocks_step)
    also have "\<dots> = (length xs + n - 1) div n"
    proof (cases "n \<le> length xs")
      case True
      then have "length xs + n - 1 = (length xs - n + n - 1) + n"
        using 1(2) by simp
      then show ?thesis using 1(2) by (metis div_add_self2 less_numeral_extra(3) Suc_eq_plus1)
    next
      case small: False
      with False 1(2) have "n \<le> length xs + n - 1" "length xs + n - 1 < 2 * n"
        by (cases xs; simp)+
      then have "(length xs + n - 1) div n = 1"
        by (intro div_nat_eqI) simp_all
      moreover have "(length xs - n + n - 1) div n = 0" using small 1(2) by simp
      ultimately show ?thesis by simp
    qed
    finally show ?thesis .
  qed (use 1 in simp)
qed

lemma blocks_length_le: "b \<in> set (blocks n xs) \<Longrightarrow> length b \<le> n \<and> b \<noteq> []"
proof (induction n xs rule: blocks.induct)
  case (1 n xs)
  then show ?case
    by (cases "n = 0 \<or> xs = []") (auto simp: blocks.simps [of n xs] split: if_splits)
qed

end
