(* ===== verification/Aes_Gcm.thy ===== *)
theory Aes_Gcm
  imports Prelude
begin

text \<open>
  AES-256-GCM as Go's \<open>crypto/aes\<close> and \<open>crypto/cipher\<close> provide it (FIPS 197, NIST SP 800-38D): the
  only cipher the sources use, always with 32-byte keys and 12-byte nonces. \<open>gcm_seal\<close> is
  \<open>gcm.Seal(nil, nonce, plaintext, ad)\<close> and \<open>gcm_open\<close> is \<open>gcm.Open(nil, nonce, ciphertext, ad)\<close>.
  Go's length limit of \<open>(2^32 - 2)\<close> blocks per message is not modelled. That opening reverses
  sealing is proved here, not assumed; that nobody else can produce an accepted ciphertext is a
  computational assumption and is not used.
\<close>

section \<open>AES-256, encryption direction\<close>

definition aes_sbox_table :: "byte list" where
  "aes_sbox_table =
    [0x63, 0x7c, 0x77, 0x7b, 0xf2, 0x6b, 0x6f, 0xc5, 0x30, 0x01, 0x67, 0x2b, 0xfe, 0xd7, 0xab, 0x76,
     0xca, 0x82, 0xc9, 0x7d, 0xfa, 0x59, 0x47, 0xf0, 0xad, 0xd4, 0xa2, 0xaf, 0x9c, 0xa4, 0x72, 0xc0,
     0xb7, 0xfd, 0x93, 0x26, 0x36, 0x3f, 0xf7, 0xcc, 0x34, 0xa5, 0xe5, 0xf1, 0x71, 0xd8, 0x31, 0x15,
     0x04, 0xc7, 0x23, 0xc3, 0x18, 0x96, 0x05, 0x9a, 0x07, 0x12, 0x80, 0xe2, 0xeb, 0x27, 0xb2, 0x75,
     0x09, 0x83, 0x2c, 0x1a, 0x1b, 0x6e, 0x5a, 0xa0, 0x52, 0x3b, 0xd6, 0xb3, 0x29, 0xe3, 0x2f, 0x84,
     0x53, 0xd1, 0x00, 0xed, 0x20, 0xfc, 0xb1, 0x5b, 0x6a, 0xcb, 0xbe, 0x39, 0x4a, 0x4c, 0x58, 0xcf,
     0xd0, 0xef, 0xaa, 0xfb, 0x43, 0x4d, 0x33, 0x85, 0x45, 0xf9, 0x02, 0x7f, 0x50, 0x3c, 0x9f, 0xa8,
     0x51, 0xa3, 0x40, 0x8f, 0x92, 0x9d, 0x38, 0xf5, 0xbc, 0xb6, 0xda, 0x21, 0x10, 0xff, 0xf3, 0xd2,
     0xcd, 0x0c, 0x13, 0xec, 0x5f, 0x97, 0x44, 0x17, 0xc4, 0xa7, 0x7e, 0x3d, 0x64, 0x5d, 0x19, 0x73,
     0x60, 0x81, 0x4f, 0xdc, 0x22, 0x2a, 0x90, 0x88, 0x46, 0xee, 0xb8, 0x14, 0xde, 0x5e, 0x0b, 0xdb,
     0xe0, 0x32, 0x3a, 0x0a, 0x49, 0x06, 0x24, 0x5c, 0xc2, 0xd3, 0xac, 0x62, 0x91, 0x95, 0xe4, 0x79,
     0xe7, 0xc8, 0x37, 0x6d, 0x8d, 0xd5, 0x4e, 0xa9, 0x6c, 0x56, 0xf4, 0xea, 0x65, 0x7a, 0xae, 0x08,
     0xba, 0x78, 0x25, 0x2e, 0x1c, 0xa6, 0xb4, 0xc6, 0xe8, 0xdd, 0x74, 0x1f, 0x4b, 0xbd, 0x8b, 0x8a,
     0x70, 0x3e, 0xb5, 0x66, 0x48, 0x03, 0xf6, 0x0e, 0x61, 0x35, 0x57, 0xb9, 0x86, 0xc1, 0x1d, 0x9e,
     0xe1, 0xf8, 0x98, 0x11, 0x69, 0xd9, 0x8e, 0x94, 0x9b, 0x1e, 0x87, 0xe9, 0xce, 0x55, 0x28, 0xdf,
     0x8c, 0xa1, 0x89, 0x0d, 0xbf, 0xe6, 0x42, 0x68, 0x41, 0x99, 0x2d, 0x0f, 0xb0, 0x54, 0xbb, 0x16]"

definition aes_sbox :: "byte \<Rightarrow> byte" where
  "aes_sbox b = aes_sbox_table ! unat b"

definition xtime :: "byte \<Rightarrow> byte" where
  "xtime b = (if bit b 7 then push_bit 1 b XOR 0x1b else push_bit 1 b)"

text \<open>Key expansion for eight key words; a word is a list of four bytes.\<close>

fun aes_expand :: "nat \<Rightarrow> byte \<Rightarrow> bytes list \<Rightarrow> bytes list" where
  "aes_expand 0 rcon ws = ws"
| "aes_expand (Suc n) rcon ws =
     (let i = length ws;
          prev = ws ! (i - 1);
          temp = (if i mod 8 = 0 then (case map aes_sbox (rotate1 prev) of t # ts \<Rightarrow> (t XOR rcon) # ts | [] \<Rightarrow> [])
                  else if i mod 8 = 4 then map aes_sbox prev else prev)
      in aes_expand n (if i mod 8 = 0 then xtime rcon else rcon) (ws @ [xor_bytes (ws ! (i - 8)) temp]))"

definition aes_round_keys :: "bytes \<Rightarrow> bytes list" where
  "aes_round_keys key = map concat (blocks 4 (aes_expand 52 1 (blocks 4 key)))"

text \<open>The state is sixteen bytes, column by column.\<close>

definition aes_add_key :: "bytes \<Rightarrow> bytes \<Rightarrow> bytes" where
  "aes_add_key k s = map (\<lambda>i. s ! i XOR k ! i) [0..<16]"

definition aes_sub_shift :: "bytes \<Rightarrow> bytes" where
  "aes_sub_shift s = map (\<lambda>i. aes_sbox (s ! ((i + 4 * (i mod 4)) mod 16))) [0..<16]"

definition aes_mix :: "bytes \<Rightarrow> bytes" where
  "aes_mix s = map (\<lambda>i. let c = 4 * (i div 4); r = i mod 4;
        a = s ! (c + r); b = s ! (c + (r + 1) mod 4)
      in xtime a XOR xtime b XOR b XOR s ! (c + (r + 2) mod 4) XOR s ! (c + (r + 3) mod 4)) [0..<16]"

definition aes256 :: "bytes \<Rightarrow> bytes \<Rightarrow> bytes" where
  "aes256 key blk =
     (let ks = aes_round_keys key;
          s = foldl (\<lambda>s k. aes_add_key k (aes_mix (aes_sub_shift s))) (aes_add_key (ks ! 0) blk) (take 13 (tl ks))
      in aes_add_key (ks ! 14) (aes_sub_shift s))"

section \<open>GHASH and counter mode\<close>

text \<open>Multiplication in GF(2^128) in the bit order of GCM, most significant bit first.\<close>

fun gf_mul_bits :: "nat \<Rightarrow> 128 word \<Rightarrow> 128 word \<Rightarrow> 128 word \<Rightarrow> 128 word" where
  "gf_mul_bits 0 x z v = z"
| "gf_mul_bits (Suc n) x z v =
     gf_mul_bits n x (if bit x n then z XOR v else z)
       (if bit v 0 then drop_bit 1 v XOR push_bit 120 0xe1 else drop_bit 1 v)"

definition ghash :: "128 word \<Rightarrow> bytes \<Rightarrow> 128 word" where
  "ghash h bs = foldl (\<lambda>y b. gf_mul_bits 128 (y XOR be_word b) 0 h) 0 (blocks 16 bs)"

definition pad16 :: "bytes \<Rightarrow> bytes" where
  "pad16 bs = bs @ replicate ((16 - length bs mod 16) mod 16) 0"

definition be128 :: "128 word \<Rightarrow> bytes" where
  "be128 w = map (\<lambda>i. ucast (drop_bit (120 - 8 * i) w)) [0..<16]"

definition gcm_counter :: "bytes \<Rightarrow> nat \<Rightarrow> bytes" where
  "gcm_counter nonce i = nonce @ be32 (of_nat (Suc i))"

definition gcm_stream :: "bytes \<Rightarrow> bytes \<Rightarrow> nat \<Rightarrow> bytes" where
  "gcm_stream key nonce n = concat (map (\<lambda>i. aes256 key (gcm_counter nonce (Suc i))) [0..<(n + 15) div 16])"

definition gcm_tag :: "bytes \<Rightarrow> bytes \<Rightarrow> bytes \<Rightarrow> bytes \<Rightarrow> bytes" where
  "gcm_tag key nonce ad ct =
     xor_bytes (aes256 key (gcm_counter nonce 0))
       (be128 (ghash (be_word (aes256 key (replicate 16 0)))
          (pad16 ad @ pad16 ct @ be64 (of_nat (8 * length ad)) @ be64 (of_nat (8 * length ct)))))"

definition gcm_seal :: "bytes \<Rightarrow> bytes \<Rightarrow> bytes \<Rightarrow> bytes \<Rightarrow> bytes" where
  "gcm_seal key nonce ad pt =
     (let ct = xor_bytes pt (gcm_stream key nonce (length pt)) in ct @ gcm_tag key nonce ad ct)"

definition gcm_open :: "bytes \<Rightarrow> bytes \<Rightarrow> bytes \<Rightarrow> bytes \<Rightarrow> bytes result" where
  "gcm_open key nonce ad sealed =
     (if length sealed < 16 then Inl ''cipher: message authentication failed''
      else let ct = take (length sealed - 16) sealed;
               tag = drop (length sealed - 16) sealed
           in if tag = gcm_tag key nonce ad ct then Inr (xor_bytes ct (gcm_stream key nonce (length ct)))
              else Inl ''cipher: message authentication failed'')"

section \<open>Lengths and the round trip\<close>

lemma length_aes256 [simp, len_simps]: "length (aes256 key blk) = 16"
  by (simp add: aes256_def aes_add_key_def Let_def)

lemma length_be128 [simp, len_simps]: "length (be128 w) = 16"
  by (simp add: be128_def)

lemma length_gcm_tag [simp, len_simps]: "length (gcm_tag key nonce ad ct) = 16"
  by (simp add: gcm_tag_def)

lemma length_gcm_stream: "n \<le> length (gcm_stream key nonce n)"
proof -
  have "length (gcm_stream key nonce n) = (n + 15) div 16 * 16"
    by (simp add: gcm_stream_def length_concat comp_def sum_list_triv)
  then show ?thesis by linarith
qed

lemma length_gcm_seal [simp, len_simps]: "length (gcm_seal key nonce ad pt) = length pt + 16"
  using length_gcm_stream [of "length pt" key nonce] by (simp add: gcm_seal_def Let_def)

lemma gcm_open_seal [simp, codec_simps]: "gcm_open key nonce ad (gcm_seal key nonce ad pt) = Inr pt"
proof -
  let ?ct = "xor_bytes pt (gcm_stream key nonce (length pt))"
  have len: "length ?ct = length pt"
    using length_gcm_stream [of "length pt" key nonce] by simp
  have "gcm_open key nonce ad (?ct @ gcm_tag key nonce ad ?ct)
      = Inr (xor_bytes ?ct (gcm_stream key nonce (length ?ct)))"
    by (simp add: gcm_open_def)
  then show ?thesis
    using length_gcm_stream [of "length pt" key nonce]
    by (simp add: gcm_seal_def Let_def len del: length_xor_bytes)
qed

text \<open>An accepted ciphertext is the sealing of what it opens to, under the same key, nonce and
  associated data: opening is injective.\<close>

lemma gcm_open_Inr: "gcm_open key nonce ad ct = Inr pt \<Longrightarrow> ct = gcm_seal key nonce ad pt"
proof -
  assume op: "gcm_open key nonce ad ct = Inr pt"
  define c where "c = take (length ct - 16) ct"
  from op have 16: "16 \<le> length ct" and tag: "drop (length ct - 16) ct = gcm_tag key nonce ad c"
    and pt: "pt = xor_bytes c (gcm_stream key nonce (length c))"
    by (auto simp: gcm_open_def c_def Let_def split: if_splits)
  have len: "length pt = length c"
    using length_gcm_stream [of "length c" key nonce] by (simp add: pt)
  have "xor_bytes pt (gcm_stream key nonce (length pt)) = c"
    using length_gcm_stream [of "length c" key nonce] by (simp add: len) (simp add: pt)
  then have "gcm_seal key nonce ad pt = c @ drop (length ct - 16) ct"
    by (simp add: gcm_seal_def Let_def tag)
  then show ?thesis by (simp add: c_def)
qed

end
