(* ===== verification/Sha2.thy ===== *)
theory Sha2
  imports Prelude
begin

text \<open>
  The hash functions of Go's standard library that the sources call: SHA-256 (\<open>crypto/sha256\<close>),
  SHA-512 (\<open>crypto/sha512\<close>) and HMAC-SHA256 (\<open>crypto/hmac\<close> over \<open>sha256.New\<close>), following FIPS 180-4
  and RFC 2104. They are executable; the components only rely on their being functions and on the
  lengths of their outputs. \<open>h.Write(a); h.Write(b); h.Sum(nil)\<close> is the hash of \<open>a @ b\<close>.
\<close>

definition rotr :: "nat \<Rightarrow> 'a::len word \<Rightarrow> 'a word" where
  "rotr n w = drop_bit n w OR push_bit (LENGTH('a) - n) w"

section \<open>The parts SHA-256 and SHA-512 share\<close>

type_synonym 'a sha_state = "'a word \<times> 'a word \<times> 'a word \<times> 'a word \<times> 'a word \<times> 'a word \<times> 'a word \<times> 'a word"

definition sha_ch :: "'a::len word \<Rightarrow> 'a word \<Rightarrow> 'a word \<Rightarrow> 'a word" where
  "sha_ch x y z = (x AND y) XOR (NOT x AND z)"

definition sha_maj :: "'a::len word \<Rightarrow> 'a word \<Rightarrow> 'a word \<Rightarrow> 'a word" where
  "sha_maj x y z = (x AND y) XOR (x AND z) XOR (y AND z)"

text \<open>One round, with the two \<open>\<Sigma>\<close> functions of the word size and the pair of round constant and
  scheduled word.\<close>

fun sha_round :: "('a word \<Rightarrow> 'a word) \<Rightarrow> ('a word \<Rightarrow> 'a word) \<Rightarrow> 'a::len sha_state \<Rightarrow> 'a word \<times> 'a word \<Rightarrow> 'a sha_state" where
  "sha_round S0 S1 (a, b, c, d, e, f, g, h) (k, w) =
     (let t1 = h + S1 e + sha_ch e f g + k + w;
          t2 = S0 a + sha_maj a b c
      in (t1 + t2, a, b, c, d + t1, e, f, g))"

fun sha_add :: "'a::len sha_state \<Rightarrow> 'a sha_state \<Rightarrow> 'a sha_state" where
  "sha_add (a, b, c, d, e, f, g, h) (a', b', c', d', e', f', g', h') =
     (a + a', b + b', c + c', d + d', e + e', f + f', g + g', h + h')"

text \<open>The message schedule, extended by \<open>n\<close> words.\<close>

fun sha_sched :: "('a word \<Rightarrow> 'a word) \<Rightarrow> ('a word \<Rightarrow> 'a word) \<Rightarrow> nat \<Rightarrow> 'a::len word list \<Rightarrow> 'a word list" where
  "sha_sched s0 s1 0 ws = ws"
| "sha_sched s0 s1 (Suc n) ws =
     (let t = length ws
      in sha_sched s0 s1 n (ws @ [s1 (ws ! (t - 2)) + ws ! (t - 7) + s0 (ws ! (t - 15)) + ws ! (t - 16)]))"

fun sha_words :: "'a sha_state \<Rightarrow> 'a::len word list" where
  "sha_words (a, b, c, d, e, f, g, h) = [a, b, c, d, e, f, g, h]"

section \<open>Constants\<close>

text \<open>The first 64 bits of the fractional parts of the cube roots of the first 80 primes, and of the
  square roots of the first 8. SHA-512 uses them as they are, SHA-256 the upper halves (of the first
  64 of the cube roots).\<close>

definition sha512_K :: "u64 list" where
  "sha512_K =
    [4794697086780616226, 8158064640168781261, 13096744586834688815, 16840607885511220156,
     4131703408338449720, 6480981068601479193, 10538285296894168987, 12329834152419229976,
     15566598209576043074, 1334009975649890238, 2608012711638119052, 6128411473006802146,
     8268148722764581231, 9286055187155687089, 11230858885718282805, 13951009754708518548,
     16472876342353939154, 17275323862435702243, 1135362057144423861, 2597628984639134821,
     3308224258029322869, 5365058923640841347, 6679025012923562964, 8573033837759648693,
     10970295158949994411, 12119686244451234320, 12683024718118986047, 13788192230050041572,
     14330467153632333762, 15395433587784984357, 489312712824947311, 1452737877330783856,
     2861767655752347644, 3322285676063803686, 5560940570517711597, 5996557281743188959,
     7280758554555802590, 8532644243296465576, 9350256976987008742, 10552545826968843579,
     11727347734174303076, 12113106623233404929, 14000437183269869457, 14369950271660146224,
     15101387698204529176, 15463397548674623760, 17586052441742319658, 1182934255886127544,
     1847814050463011016, 2177327727835720531, 2830643537854262169, 3796741975233480872,
     4115178125766777443, 5681478168544905931, 6601373596472566643, 7507060721942968483,
     8399075790359081724, 8693463985226723168, 9568029438360202098, 10144078919501101548,
     10430055236837252648, 11840083180663258601, 13761210420658862357, 14299343276471374635,
     14566680578165727644, 15097957966210449927, 16922976911328602910, 17689382322260857208,
     500013540394364858, 748580250866718886, 1242879168328830382, 1977374033974150939,
     2944078676154940804, 3659926193048069267, 4368137639120453308, 4836135668995329356,
     5532061633213252278, 6448918945643986474, 6902733635092675308, 7801388544844847127]"

definition sha512_H0 :: "64 sha_state" where
  "sha512_H0 =
    (7640891576956012808, 13503953896175478587, 4354685564936845355, 11912009170470909681,
     5840696475078001361, 11170449401992604703, 2270897969802886507, 6620516959819538809)"

definition sha256_K :: "u32 list" where
  "sha256_K = map (\<lambda>k. ucast (drop_bit 32 k)) (take 64 sha512_K)"

definition sha256_H0 :: "32 sha_state" where
  "sha256_H0 =
     (case sha512_H0 of (a, b, c, d, e, f, g, h) \<Rightarrow>
        (ucast (drop_bit 32 a), ucast (drop_bit 32 b), ucast (drop_bit 32 c), ucast (drop_bit 32 d),
         ucast (drop_bit 32 e), ucast (drop_bit 32 f), ucast (drop_bit 32 g), ucast (drop_bit 32 h)))"

section \<open>SHA-256\<close>

definition sha256_block :: "32 sha_state \<Rightarrow> bytes \<Rightarrow> 32 sha_state" where
  "sha256_block st blk =
     (let ws = sha_sched
                 (\<lambda>x. rotr 7 x XOR rotr 18 x XOR drop_bit 3 x)
                 (\<lambda>x. rotr 17 x XOR rotr 19 x XOR drop_bit 10 x)
                 48 (map be_word (blocks 4 blk))
      in sha_add st
           (foldl (sha_round (\<lambda>x. rotr 2 x XOR rotr 13 x XOR rotr 22 x)
                             (\<lambda>x. rotr 6 x XOR rotr 11 x XOR rotr 25 x))
              st (zip sha256_K ws)))"

definition sha256_pad :: "bytes \<Rightarrow> bytes" where
  "sha256_pad m = m @ 0x80 # replicate ((119 - length m mod 64) mod 64) 0 @ be64 (of_nat (8 * length m))"

definition sha256 :: "bytes \<Rightarrow> bytes" where
  "sha256 m = concat (map be32 (sha_words (foldl sha256_block sha256_H0 (blocks 64 (sha256_pad m)))))"

section \<open>SHA-512\<close>

definition sha512_block :: "64 sha_state \<Rightarrow> bytes \<Rightarrow> 64 sha_state" where
  "sha512_block st blk =
     (let ws = sha_sched
                 (\<lambda>x. rotr 1 x XOR rotr 8 x XOR drop_bit 7 x)
                 (\<lambda>x. rotr 19 x XOR rotr 61 x XOR drop_bit 6 x)
                 64 (map be_word (blocks 8 blk))
      in sha_add st
           (foldl (sha_round (\<lambda>x. rotr 28 x XOR rotr 34 x XOR rotr 39 x)
                             (\<lambda>x. rotr 14 x XOR rotr 18 x XOR rotr 41 x))
              st (zip sha512_K ws)))"

definition sha512_pad :: "bytes \<Rightarrow> bytes" where
  "sha512_pad m = m @ 0x80 # replicate ((239 - length m mod 128) mod 128) 0 @ replicate 8 0 @ be64 (of_nat (8 * length m))"

definition sha512 :: "bytes \<Rightarrow> bytes" where
  "sha512 m = concat (map be64 (sha_words (foldl sha512_block sha512_H0 (blocks 128 (sha512_pad m)))))"

section \<open>HMAC-SHA256\<close>

definition hmac_key :: "bytes \<Rightarrow> bytes" where
  "hmac_key key =
     (let k = (if 64 < length key then sha256 key else key)
      in k @ replicate (64 - length k) 0)"

definition hmac_sha256 :: "bytes \<Rightarrow> bytes \<Rightarrow> bytes" where
  "hmac_sha256 key msg =
     sha256 (xor_bytes (hmac_key key) (replicate 64 0x5c) @
       sha256 (xor_bytes (hmac_key key) (replicate 64 0x36) @ msg))"

section \<open>Lengths\<close>

lemma length_sha_words [simp]: "length (sha_words st) = 8"
  by (cases st rule: sha_words.cases) simp

lemma length_sha256 [simp, len_simps]: "length (sha256 m) = 32"
  by (simp add: sha256_def length_concat comp_def sum_list_triv)

lemma length_sha512 [simp, len_simps]: "length (sha512 m) = 64"
  by (simp add: sha512_def length_concat comp_def sum_list_triv)

lemma length_hmac_sha256 [simp, len_simps]: "length (hmac_sha256 k m) = 32"
  by (simp add: hmac_sha256_def)

lemma hmac_sha256_nonempty [simp]: "hmac_sha256 k m \<noteq> []"
  by (metis length_hmac_sha256 list.size(3) zero_neq_numeral)

text \<open>The padded message is a whole number of blocks, so no block is short.\<close>

lemma pad_to_multiple:
  fixes l n k :: nat
  assumes "k < n"
  shows "n dvd l + (k + (2 * n - k - l mod n) mod n)"
proof -
  define r where "r = l mod n"
  define q where "q = 2 * n - k - r"
  have r: "r < n" using assms by (simp add: r_def)
  then have sum: "r + (k + q) = 2 * n" using assms by (simp add: q_def)
  have "(l + (k + q mod n)) mod n = (r + (k + q mod n)) mod n"
    unfolding r_def by (rule mod_add_left_eq [symmetric])
  also have "\<dots> = (r + k + q mod n) mod n" by (simp only: add.assoc)
  also have "\<dots> = (r + k + q) mod n" by (rule mod_add_right_eq)
  also have "\<dots> = 0" using sum by (simp add: add.assoc)
  finally show ?thesis unfolding q_def r_def by (rule mod_0_imp_dvd)
qed

lemma sha256_pad_blocks: "64 dvd length (sha256_pad m)"
  using pad_to_multiple [of 9 64 "length m"] by (simp add: sha256_pad_def ac_simps)

lemma sha512_pad_blocks: "128 dvd length (sha512_pad m)"
  using pad_to_multiple [of 17 128 "length m"] by (simp add: sha512_pad_def ac_simps)

end
