(* ===== verification/Vault.thy ===== *)
theory Vault
  imports Aes_Gcm Sha2
begin

text \<open>
  \<open>src/core/pkg/vault/vault.go\<close>: authenticated encryption at rest and the PBKDF2 key derivation. The
  nonce of \<open>Seal\<close> is a draw. \<open>pbkdf2\<close> keeps the two nested loops of the source (\<open>pbkdf2_inner\<close> carries
  the accumulated block \<open>t\<close> and the last PRF output \<open>u\<close>); \<open>rfc2898\<close> is the construction of the RFC.
\<close>

definition KeySize :: nat where
  "KeySize = 32"

definition newGCM :: "bytes \<Rightarrow> bytes result" where
  "newGCM key = (if length key \<noteq> KeySize then Inl ''vault: key must be 32 bytes'' else Inr key)"

definition vault_Seal :: "bytes \<Rightarrow> bytes \<Rightarrow> bytes result \<Rightarrow> bytes result" where
  "vault_Seal key plaintext nonceDraw =
     rbind (newGCM key) (\<lambda>gcm. rbind nonceDraw (\<lambda>nonce. Inr (nonce @ gcm_seal gcm nonce [] plaintext)))"

definition vault_Open :: "bytes \<Rightarrow> bytes \<Rightarrow> bytes result" where
  "vault_Open key sealed =
     rbind (newGCM key) (\<lambda>gcm.
       if length sealed < 12 then Inl ''vault: ciphertext too short''
       else gcm_open gcm (take 12 sealed) [] (drop 12 sealed))"

section \<open>PBKDF2\<close>

text \<open>The loop \<open>for n := 2; n <= iter; n++\<close>, with \<open>k\<close> rounds to go.\<close>

primrec pbkdf2_inner :: "bytes \<Rightarrow> nat \<Rightarrow> bytes \<Rightarrow> bytes \<Rightarrow> bytes" where
  "pbkdf2_inner password 0 t u = t"
| "pbkdf2_inner password (Suc k) t u =
     (let u' = hmac_sha256 password u in pbkdf2_inner password k (xor_bytes t u') u')"

definition pbkdf2_block :: "bytes \<Rightarrow> bytes \<Rightarrow> int \<Rightarrow> nat \<Rightarrow> bytes" where
  "pbkdf2_block password salt iter block =
     (let t = hmac_sha256 password (salt @ be32 (of_nat block))
      in pbkdf2_inner password (nat (iter - 1)) t t)"

definition pbkdf2 :: "bytes \<Rightarrow> bytes \<Rightarrow> int \<Rightarrow> nat \<Rightarrow> bytes" where
  "pbkdf2 password salt iter keyLen =
     (let hashLen = 32; numBlocks = (keyLen + hashLen - 1) div hashLen
      in take keyLen (foldl (\<lambda>out block. out @ pbkdf2_block password salt iter block) [] [1..<numBlocks + 1]))"

definition DeriveKey :: "string \<Rightarrow> bytes \<Rightarrow> int \<Rightarrow> bytes" where
  "DeriveKey passphrase salt iterations = pbkdf2 (to_bytes passphrase) salt iterations KeySize"

section \<open>The reference\<close>

primrec rfc_u :: "bytes \<Rightarrow> bytes \<Rightarrow> nat \<Rightarrow> nat \<Rightarrow> bytes" where
  "rfc_u password salt i 0 = hmac_sha256 password (salt @ be32 (of_nat i))"
| "rfc_u password salt i (Suc j) = hmac_sha256 password (rfc_u password salt i j)"

definition rfc_f :: "bytes \<Rightarrow> bytes \<Rightarrow> nat \<Rightarrow> nat \<Rightarrow> bytes" where
  "rfc_f password salt c i = foldl (\<lambda>t j. xor_bytes t (rfc_u password salt i j)) (rfc_u password salt i 0) [1..<c]"

definition rfc2898 :: "bytes \<Rightarrow> bytes \<Rightarrow> nat \<Rightarrow> nat \<Rightarrow> bytes" where
  "rfc2898 password salt c n = take n (concat (map (rfc_f password salt c) [1..<(n + 31) div 32 + 1]))"

lemma pbkdf2_inner_rfc:
  "pbkdf2_inner password k (foldl (\<lambda>t j. xor_bytes t (rfc_u password salt i j)) (rfc_u password salt i 0) [1..<Suc m])
     (rfc_u password salt i m) =
   foldl (\<lambda>t j. xor_bytes t (rfc_u password salt i j)) (rfc_u password salt i 0) [1..<Suc m + k]"
proof (induction k arbitrary: m)
  case (Suc k)
  show ?case using Suc [of "Suc m"] by (simp add: Let_def)
qed simp

lemma pbkdf2_block_rfc: "0 < c \<Longrightarrow> pbkdf2_block password salt (int c) i = rfc_f password salt c i"
  using pbkdf2_inner_rfc [of password "c - 1" salt i 0] by (simp add: pbkdf2_block_def rfc_f_def nat_diff_distrib)

lemma foldl_append_concat: "foldl (\<lambda>out x. out @ f x) acc xs = acc @ concat (map f xs)"
  by (induction xs arbitrary: acc) simp_all

lemma length_pbkdf2_inner [simp, len_simps]:
  "length t = 32 \<Longrightarrow> length (pbkdf2_inner password k t u) = 32"
  by (induction k arbitrary: t u) (simp_all add: Let_def)

lemma length_pbkdf2_block [simp, len_simps]: "length (pbkdf2_block password salt iter i) = 32"
  by (simp add: pbkdf2_block_def Let_def)

section \<open>Properties\<close>

lemma vault_Open_Seal:
  "length nonce = 12 \<Longrightarrow> vault_Seal key p (Inr nonce) = Inr sealed \<Longrightarrow> vault_Open key sealed = Inr p"
  by (auto simp: vault_Seal_def vault_Open_def newGCM_def split: if_splits)

text \<open>Sealed data opens again: under a 32-byte key \<open>Seal\<close> succeeds, \<open>Open\<close> returns the plaintext, and the
  only accepted inputs are a nonce followed by a sealing of the returned plaintext under that key
  and nonce.\<close>

theorem vault_roundtrip:
  assumes "length key = 32" "length nonce = 12"
  shows "(\<exists>sealed. vault_Seal key plaintext (Inr nonce) = Inr sealed \<and> vault_Open key sealed = Inr plaintext \<and>
      length sealed = length plaintext + 28) \<and>
    (\<forall>sealed p. vault_Open key sealed = Inr p \<longrightarrow>
       vault_Seal key p (Inr (take 12 sealed)) = Inr sealed \<and> 28 \<le> length sealed)"
proof -
  have "vault_Seal key p (Inr (take 12 sealed)) = Inr sealed \<and> 28 \<le> length sealed" if "vault_Open key sealed = Inr p" for sealed p
  proof -
    have s: "12 \<le> length sealed" "drop 12 sealed = gcm_seal key (take 12 sealed) [] p"
      using that assms(1) by (auto simp: vault_Open_def newGCM_def KeySize_def dest: gcm_open_Inr split: if_splits)
    moreover have "length (drop 12 sealed) = length p + 16" unfolding s(2) by simp
    ultimately show ?thesis
      using assms(1) by (simp add: vault_Seal_def newGCM_def KeySize_def flip: s(2))
  qed
  then show ?thesis using assms by (simp add: vault_Seal_def vault_Open_def newGCM_def KeySize_def)
qed

theorem vault_roundtrip_witness:
  "\<exists>sealed. vault_Seal (replicate 32 1) [42] (Inr (replicate 12 2)) = Inr sealed \<and>
     vault_Open (replicate 32 1) sealed = Inr [42]"
  using vault_roundtrip [of "replicate 32 1" "replicate 12 2" "[42]"] by auto

text \<open>C30. \<open>DeriveKey\<close> is PBKDF2-HMAC-SHA256 of RFC 2898 for every positive iteration count, and the key
  it returns always has the size that \<open>Seal\<close> and \<open>Open\<close> require.\<close>

theorem derive_key_is_pbkdf2:
  "length (DeriveKey pass salt iterations) = 32 \<and>
   (0 < c \<longrightarrow> DeriveKey pass salt (int c) = rfc2898 (to_bytes pass) salt c 32)"
proof -
  have "length (DeriveKey pass salt iterations) = 32"
    by (simp add: DeriveKey_def pbkdf2_def KeySize_def foldl_append_concat)
  moreover have "DeriveKey pass salt (int c) = rfc2898 (to_bytes pass) salt c 32" if "0 < c"
    using that by (simp add: DeriveKey_def pbkdf2_def rfc2898_def KeySize_def foldl_append_concat pbkdf2_block_rfc)
  ultimately show ?thesis by blast
qed

theorem derive_key_is_pbkdf2_witness:
  "DeriveKey ''pin'' [1, 2] 3 = rfc2898 (to_bytes ''pin'') [1, 2] 3 32"
  using derive_key_is_pbkdf2 [of "''pin''" "[1, 2]" 3 3] by simp

end
