(* ===== verification/Go_Io.thy ===== *)
theory Go_Io
  imports Prelude
begin

text \<open>
  Go functions that change state, may fail and may block. An operation takes the state it works on
  and gives its result and the state it leaves; a failure leaves a state too, since the source does
  not roll back. \<open>None\<close> is an operation that does not return from this state: it blocks on a channel, or
  the program panics.
  \<open>go_bind\<close> is the chain \<open>x, err := f(); if err != nil \{ return err \}\<close>, \<open>go_ignore\<close> is \<open>_ = f()\<close> and
  \<open>go_on\<close> runs an operation on a part of the state.
\<close>

type_synonym ('s, 'a) go = "'s \<Rightarrow> ('a result \<times> 's) option"

definition go_ret :: "'a \<Rightarrow> ('s, 'a) go" where
  "go_ret x s = Some (Inr x, s)"

definition go_err :: "goerr \<Rightarrow> ('s, 'a) go" where
  "go_err e s = Some (Inl e, s)"

definition go_of :: "'a result \<Rightarrow> ('s, 'a) go" where
  "go_of r s = Some (r, s)"

definition go_bind :: "('s, 'a) go \<Rightarrow> ('a \<Rightarrow> ('s, 'b) go) \<Rightarrow> ('s, 'b) go" where
  "go_bind m f s =
     (case m s of
        None \<Rightarrow> None
      | Some (Inl e, t) \<Rightarrow> Some (Inl e, t)
      | Some (Inr x, t) \<Rightarrow> f x t)"

definition go_seq :: "('s, 'a) go \<Rightarrow> ('s, 'b) go \<Rightarrow> ('s, 'b) go" where
  "go_seq m n = go_bind m (\<lambda>_. n)"

definition go_ignore :: "('s, 'a) go \<Rightarrow> ('s, unit) go" where
  "go_ignore m s = (case m s of None \<Rightarrow> None | Some (_, t) \<Rightarrow> Some (Inr (), t))"

definition go_catch :: "('s, 'a) go \<Rightarrow> (goerr \<Rightarrow> ('s, 'a) go) \<Rightarrow> ('s, 'a) go" where
  "go_catch m h s = (case m s of None \<Rightarrow> None | Some (Inl e, t) \<Rightarrow> h e t | Some (Inr x, t) \<Rightarrow> Some (Inr x, t))"

text \<open>\<open>if err != nil\<close> with a handler that goes on, and reading the state first.\<close>

definition go_either :: "('s, 'a) go \<Rightarrow> (goerr \<Rightarrow> ('s, 'b) go) \<Rightarrow> ('a \<Rightarrow> ('s, 'b) go) \<Rightarrow> ('s, 'b) go" where
  "go_either m h f s = (case m s of None \<Rightarrow> None | Some (Inl e, t) \<Rightarrow> h e t | Some (Inr x, t) \<Rightarrow> f x t)"

definition go_read :: "('s \<Rightarrow> ('s, 'a) go) \<Rightarrow> ('s, 'a) go" where
  "go_read f s = f s s"

definition go_block :: "('s, 'a) go" where
  "go_block s = None"

definition go_get :: "('s \<Rightarrow> 'a) \<Rightarrow> ('s, 'a) go" where
  "go_get f s = Some (Inr (f s), s)"

definition go_put :: "('s \<Rightarrow> 's) \<Rightarrow> ('s, unit) go" where
  "go_put f s = Some (Inr (), f s)"

definition go_on :: "('s \<Rightarrow> 'p) \<Rightarrow> ('p \<Rightarrow> 's \<Rightarrow> 's) \<Rightarrow> ('p, 'a) go \<Rightarrow> ('s, 'a) go" where
  "go_on get put m s = (case m (get s) of None \<Rightarrow> None | Some (r, p) \<Rightarrow> Some (r, put p s))"

definition on_fst :: "('p, 'a) go \<Rightarrow> ('p \<times> 'q, 'a) go" where
  "on_fst = go_on fst (\<lambda>p (_, q). (p, q))"

definition on_snd :: "('q, 'a) go \<Rightarrow> ('p \<times> 'q, 'a) go" where
  "on_snd = go_on snd (\<lambda>q (p, _). (p, q))"

text \<open>An operation that always returns.\<close>

definition go_call :: "('s \<Rightarrow> 'a result \<times> 's) \<Rightarrow> ('s, 'a) go" where
  "go_call f s = Some (f s)"

lemmas go_base = go_ret_def go_err_def go_of_def go_get_def go_put_def go_call_def

lemmas go_defs = go_base go_bind_def go_seq_def go_ignore_def go_catch_def go_either_def go_read_def go_block_def go_on_def on_fst_def on_snd_def

lemma go_bind_base [simp]:
  "go_bind (go_ret x) f s = f x s"
  "go_bind (go_err e) f' s = Some (Inl e, s)"
  "go_bind (go_get h) k s = k (h s) s"
  "go_bind (go_put u) g s = g () (u s)"
  "go_seq (go_put u) n s = n (u s)"
  by (simp_all add: go_base go_bind_def go_seq_def)

lemma go_bind_run:
  "m s = Some (Inr x, t) \<Longrightarrow> go_bind m f s = f x t"
  "m s = Some (Inl e, t) \<Longrightarrow> go_bind m f s = Some (Inl e, t)"
  "m s = None \<Longrightarrow> go_bind m f s = None"
  by (simp_all add: go_bind_def)

lemma go_bind_Inr:
  "go_bind m f s = Some (Inr y, u) \<longleftrightarrow> (\<exists>x t. m s = Some (Inr x, t) \<and> f x t = Some (Inr y, u))"
  by (auto simp: go_bind_def split: option.splits sum.splits)

lemma go_bind_assoc: "go_bind (go_bind m f) g = go_bind m (\<lambda>x. go_bind (f x) g)"
  by (rule ext) (simp add: go_bind_def split: option.split sum.split)

section \<open>Relations that operations respect\<close>

text \<open>\<open>law m\<close>: whenever \<open>m\<close> returns, the state it leaves is related to the one it found. A reflexive and
  transitive relation passes through every composition.\<close>

locale step_law =
  fixes R :: "'s \<Rightarrow> 's \<Rightarrow> bool"
  assumes R_refl: "R r r"
    and R_trans: "R r s \<Longrightarrow> R s t \<Longrightarrow> R r t"
begin

definition law :: "('s, 'a) go \<Rightarrow> bool" where
  "law m \<longleftrightarrow> (\<forall>r x r'. m r = Some (x, r') \<longrightarrow> R r r')"

lemma lawD: "law m \<Longrightarrow> m r = Some (x, r') \<Longrightarrow> R r r'"
  by (auto simp: law_def)

lemma law_ret: "law (go_ret x)"
  by (simp add: law_def go_ret_def R_refl)

lemma law_of: "law (go_of x)"
  by (simp add: law_def go_of_def R_refl)

lemma law_block: "law go_block"
  by (simp add: law_def go_block_def)

lemma law_put: "(\<And>r. R r (f r)) \<Longrightarrow> law (go_put f)"
  by (simp add: law_def go_put_def)

lemma law_call: "(\<And>r. R r (snd (f r))) \<Longrightarrow> law (go_call f)"
  by (auto simp: law_def go_call_def) (metis snd_conv)

lemma law_either: "law m \<Longrightarrow> (\<And>e. law (h e)) \<Longrightarrow> (\<And>x. law (f x)) \<Longrightarrow> law (go_either m h f)"
  unfolding law_def go_either_def by (auto split: option.splits sum.splits) (meson R_trans)+

lemma law_bind: "law m \<Longrightarrow> (\<And>x. law (f x)) \<Longrightarrow> law (go_bind m f)"
  unfolding law_def go_bind_def by (auto split: option.splits sum.splits intro: R_refl) (meson R_trans)+

lemma law_seq: "law m \<Longrightarrow> law n \<Longrightarrow> law (go_seq m n)"
  unfolding go_seq_def by (rule law_bind)

lemma law_ignore: "law m \<Longrightarrow> law (go_ignore m)"
  by (auto simp: law_def go_ignore_def split: option.splits)

lemma law_read: "(\<And>r. law (f r)) \<Longrightarrow> law (go_read f)"
  by (auto simp: law_def go_read_def)

lemma law_if: "(b \<Longrightarrow> law m) \<Longrightarrow> (\<not> b \<Longrightarrow> law n) \<Longrightarrow> law (if b then m else n)"
  by simp

lemma law_option: "law m \<Longrightarrow> (\<And>y. x = Some y \<Longrightarrow> law (f y)) \<Longrightarrow> law (case x of None \<Rightarrow> m | Some y \<Rightarrow> f y)"
  by (simp split: option.split)

lemma law_sum: "(\<And>e. x = Inl e \<Longrightarrow> law (h e)) \<Longrightarrow> (\<And>y. x = Inr y \<Longrightarrow> law (f y)) \<Longrightarrow> law (case x of Inl e \<Rightarrow> h e | Inr y \<Rightarrow> f y)"
  by (simp split: sum.split)

lemmas laws = law_ret law_of law_block law_put law_either law_bind law_seq law_ignore law_read law_if law_option law_sum

end

end
