(* ===== verification/Go_Map.thy ===== *)
theory Go_Map
  imports Prelude "HOL-Library.AList" "HOL-Library.Multiset"
begin

text \<open>
  Go maps. A map is the list of its entries, each key once; the order of the list stands for the
  unspecified iteration order of the language. \<open>map_laws\<close> is what the components rely on, and the
  interpretation at the end discharges it for the entry lists. \<open>sort_keys\<close> gives the order in which
  \<open>encoding/json\<close> and the sorted listings visit a map.
\<close>

type_synonym 'v gomap = "(string \<times> 'v) list"

definition gm_get :: "'v gomap \<Rightarrow> string \<Rightarrow> 'v option" where
  "gm_get m k = map_of m k"

definition gm_put :: "string \<Rightarrow> 'v \<Rightarrow> 'v gomap \<Rightarrow> 'v gomap" where
  "gm_put k v m = AList.update k v m"

definition gm_del :: "string \<Rightarrow> 'v gomap \<Rightarrow> 'v gomap" where
  "gm_del k m = AList.delete k m"

definition gm_ok :: "'v gomap \<Rightarrow> bool" where
  "gm_ok m \<longleftrightarrow> distinct (map fst m)"

locale map_laws =
  fixes empty :: 'm
    and get :: "'m \<Rightarrow> 'k \<Rightarrow> 'v option"
    and put :: "'k \<Rightarrow> 'v \<Rightarrow> 'm \<Rightarrow> 'm"
    and del :: "'k \<Rightarrow> 'm \<Rightarrow> 'm"
    and ok :: "'m \<Rightarrow> bool"
  assumes get_empty: "get empty k = None"
    and get_put: "get (put k v m) k' = (if k' = k then Some v else get m k')"
    and get_del: "ok m \<Longrightarrow> get (del k m) k' = (if k' = k then None else get m k')"
    and ok_empty: "ok empty"
    and ok_put: "ok m \<Longrightarrow> ok (put k v m)"
    and ok_del: "ok m \<Longrightarrow> ok (del k m)"
begin

lemma put_put: "get (put k w (put k v m)) = get (put k w m)"
  by (rule ext) (simp add: get_put)

lemma del_put: "ok m \<Longrightarrow> get (del k (put k v m)) = get (del k m)"
  by (rule ext) (simp add: get_put get_del ok_put)

lemma put_same: "get m k = Some v \<Longrightarrow> get (put k v m) = get m"
  by (rule ext) (simp add: get_put)

end

interpretation gm: map_laws "[]" gm_get gm_put gm_del gm_ok
  by unfold_locales
     (simp_all add: gm_get_def gm_put_def gm_del_def gm_ok_def update_conv' delete_conv' distinct_update distinct_delete)

lemmas gm_simps [simp] = gm.get_empty gm.get_put gm.get_del gm.ok_empty gm.ok_put gm.ok_del

text \<open>The values of a map, in the order of the entries.\<close>

definition gm_values :: "'v gomap \<Rightarrow> 'v list" where
  "gm_values m = map snd m"

lemma gm_values_iff: "gm_ok m \<Longrightarrow> v \<in> set (gm_values m) \<longleftrightarrow> (\<exists>k. gm_get m k = Some v)"
  by (force simp: gm_values_def gm_ok_def gm_get_def map_of_eq_Some_iff image_iff)

section \<open>Sorting by keys\<close>

text \<open>Insertion sort by Go's string order.\<close>

fun insert_key :: "('a \<Rightarrow> string) \<Rightarrow> 'a \<Rightarrow> 'a list \<Rightarrow> 'a list" where
  "insert_key f x [] = [x]"
| "insert_key f x (y # ys) = (if string_le (f x) (f y) then x # y # ys else y # insert_key f x ys)"

definition sort_by :: "('a \<Rightarrow> string) \<Rightarrow> 'a list \<Rightarrow> 'a list" where
  "sort_by f xs = foldr (insert_key f) xs []"

definition sort_keys :: "'v gomap \<Rightarrow> 'v gomap" where
  "sort_keys m = sort_by fst m"

fun ascending :: "string list \<Rightarrow> bool" where
  "ascending (s # t # r) = (string_le s t \<and> ascending (t # r))"
| "ascending _ = True"

lemma mset_insert_key [simp]: "mset (insert_key f x ys) = add_mset x (mset ys)"
  by (induction ys) auto

lemma mset_sort_by [simp]: "mset (sort_by f xs) = mset xs"
  by (induction xs) (simp_all add: sort_by_def)

lemma set_sort_by [simp]: "set (sort_by f xs) = set xs"
  by (rule mset_eq_setD) simp

lemma ascending_insert: "ascending (map f ys) \<Longrightarrow> ascending (map f (insert_key f x ys))"
proof (induction ys rule: induct_list012)
  case (3 y z zs)
  then show ?case using string_le_total [of "f x"] by auto
qed (use string_le_total in auto)

lemma ascending_sort_by: "ascending (map f (sort_by f xs))"
  by (induction xs) (simp_all add: sort_by_def ascending_insert)

lemma sort_keys_get: "gm_ok m \<Longrightarrow> gm_get (sort_keys m) = gm_get m \<and> gm_ok (sort_keys m)"
proof -
  assume ok: "gm_ok m"
  have "mset (map fst (sort_keys m)) = mset (map fst m)" by (simp add: sort_keys_def)
  then have d: "distinct (map fst (sort_keys m))" using ok by (metis gm_ok_def mset_eq_imp_distinct_iff)
  then have "map_of (sort_keys m) = map_of m"
    using ok by (intro map_of_eqI) (auto simp: gm_ok_def sort_keys_def)
  then show ?thesis using d by (auto simp: gm_get_def gm_ok_def)
qed

end
