(* ===== verification/Encoding.thy ===== *)
theory Encoding
  imports Prelude
begin

text \<open>
  The text encodings of Go's standard library that the sources use: lower-case hexadecimal
  (\<open>encoding/hex\<close>), base64 with the standard alphabet and padding (how \<open>encoding/json\<close> writes a
  \<open>[]byte\<close>) and with the URL alphabet and no padding (\<open>base64.RawURLEncoding\<close>), base32 without
  padding (\<open>encoding/base32\<close>), and decimal numerals. The decoders follow the library's rules: base64
  skips carriage returns and newlines and does not check the unused bits of the last character.
\<close>

section \<open>Digits and alphabets\<close>

text \<open>Induction three elements at a time, for the base64 groups.\<close>

lemma triple_induct [case_names Nil One Two Three]:
  assumes "P []" "\<And>a. P [a]" "\<And>a b. P [a, b]" "\<And>a b c xs. P xs \<Longrightarrow> P (a # b # c # xs)"
  shows "P xs"
proof (induction xs rule: length_induct)
  case (1 xs)
  consider "xs = []" | a where "xs = [a]" | a b where "xs = [a, b]"
    | a b c ys where "xs = a # b # c # ys"
    by (metis list.exhaust)
  then show ?case using 1 by cases (auto intro: assms)
qed

text \<open>Position of a character in an alphabet.\<close>

primrec index_of :: "char \<Rightarrow> string \<Rightarrow> nat option" where
  "index_of c [] = None"
| "index_of c (x # xs) = (if x = c then Some 0 else map_option Suc (index_of c xs))"

lemma index_of_nth: "distinct xs \<Longrightarrow> i < length xs \<Longrightarrow> index_of (xs ! i) xs = Some i"
proof (induction xs arbitrary: i)
  case (Cons x xs)
  then show ?case by (cases i) auto
qed simp

lemma index_of_None: "index_of c xs = None \<longleftrightarrow> c \<notin> set xs"
  by (induction xs) auto

definition hex_digits :: string where
  "hex_digits = ''0123456789abcdef''"

text \<open>The UTF-8 form of the dash in the program's messages.\<close>

definition em_dash :: string where
  "em_dash = [CHR 0xE2, CHR 0x80, CHR 0x94]"

definition dec_digits :: string where
  "dec_digits = ''0123456789''"

definition b64_std :: string where
  "b64_std = ''ABCDEFGHIJKLMNOPQRSTUVWXYZabcdefghijklmnopqrstuvwxyz0123456789+/''"

definition b64_url :: string where
  "b64_url = ''ABCDEFGHIJKLMNOPQRSTUVWXYZabcdefghijklmnopqrstuvwxyz0123456789-_''"

definition b32_std :: string where
  "b32_std = ''ABCDEFGHIJKLMNOPQRSTUVWXYZ234567''"

section \<open>Hexadecimal\<close>

definition hex_byte :: "byte \<Rightarrow> string" where
  "hex_byte b = [hex_digits ! (unat b div 16), hex_digits ! (unat b mod 16)]"

definition hex_encode :: "bytes \<Rightarrow> string" where
  "hex_encode bs = concat (map hex_byte bs)"

lemma unat_byte_less [simp]: "unat (b :: byte) < 256"
  using unsigned_less [of b] by simp

lemma hex_digits_props: "length hex_digits = 16" "distinct hex_digits"
  by (simp_all add: hex_digits_def)

lemma hex_digits_inject: "i < 16 \<Longrightarrow> j < 16 \<Longrightarrow> hex_digits ! i = hex_digits ! j \<longleftrightarrow> i = j"
  by (simp add: nth_eq_iff_index_eq hex_digits_props)

lemma hex_byte_inject [simp]: "hex_byte a = hex_byte b \<longleftrightarrow> a = b"
proof
  assume eq: "hex_byte a = hex_byte b"
  have "unat a div 16 < 16" "unat b div 16 < 16" by (simp_all add: less_mult_imp_div_less)
  with eq have "unat a div 16 = unat b div 16" "unat a mod 16 = unat b mod 16"
    by (simp_all add: hex_byte_def hex_digits_inject)
  then have "unat a = unat b" by (metis div_mult_mod_eq)
  then show "a = b" by (simp add: word_unat_eq_iff)
qed simp

lemma hex_encode_Cons [simp]:
  "hex_encode [] = []"
  "hex_encode (b # bs) = hex_byte b @ hex_encode bs"
  by (simp_all add: hex_encode_def)

lemma length_hex_encode [simp, len_simps]: "length (hex_encode bs) = 2 * length bs"
  by (induction bs) (simp_all add: hex_byte_def)

lemma hex_encode_inject [simp]: "hex_encode a = hex_encode b \<longleftrightarrow> a = b"
proof
  assume "hex_encode a = hex_encode b"
  moreover from this have "length a = length b"
    by (metis length_hex_encode mult_cancel1 zero_neq_numeral)
  ultimately show "a = b"
    by (induction a b rule: list_induct2') (auto simp: hex_byte_def hex_digits_inject
        dest: arg_cong [where f = length] intro: hex_byte_inject [THEN iffD1])
qed simp

lemma hex_encode_chars: "set (hex_encode bs) \<subseteq> set hex_digits"
proof (induction bs)
  case (Cons b bs)
  have "unat b div 16 < length hex_digits" "unat b mod 16 < length hex_digits"
    by (simp_all add: hex_digits_props less_mult_imp_div_less)
  then have "set (hex_byte b) \<subseteq> set hex_digits" by (simp add: hex_byte_def)
  with Cons show ?case by simp
qed simp

section \<open>Decimal numerals\<close>

fun dec_string :: "nat \<Rightarrow> string" where
  "dec_string n = (if n < 10 then [dec_digits ! n] else dec_string (n div 10) @ [dec_digits ! (n mod 10)])"

declare dec_string.simps [simp del]

text \<open>The value of a string of digits, \<open>None\<close> when some character is not a digit.\<close>

fun dec_value :: "nat \<Rightarrow> string \<Rightarrow> nat option" where
  "dec_value acc [] = Some acc"
| "dec_value acc (c # cs) =
     (case index_of c dec_digits of None \<Rightarrow> None | Some d \<Rightarrow> dec_value (10 * acc + d) cs)"

lemma index_of_dec_digit [simp]: "d < 10 \<Longrightarrow> index_of (dec_digits ! d) dec_digits = Some d"
  by (rule index_of_nth) (simp_all add: dec_digits_def)

lemma dec_value_append:
  "dec_value acc (xs @ ys) = (case dec_value acc xs of None \<Rightarrow> None | Some v \<Rightarrow> dec_value v ys)"
  by (induction xs arbitrary: acc) (simp_all split: option.splits)

lemma dec_value_dec_string [simp, codec_simps]: "dec_value 0 (dec_string n) = Some n"
proof (induction n rule: dec_string.induct)
  case (1 n)
  then show ?case
    by (cases "n < 10") (simp_all add: dec_string.simps [of n] dec_value_append)
qed

lemma dec_string_inject [simp]: "dec_string m = dec_string n \<longleftrightarrow> m = n"
  by (metis dec_value_dec_string option.inject)

lemma dec_string_chars: "set (dec_string n) \<subseteq> set dec_digits"
proof (induction n rule: dec_string.induct)
  case (1 n)
  have "k < 10 \<Longrightarrow> dec_digits ! k \<in> set dec_digits" for k
    by (rule nth_mem) (simp add: dec_digits_def)
  with 1 show ?case
    by (cases "n < 10") (simp_all add: dec_string.simps [of n])
qed

lemma dec_string_nonempty [simp]: "dec_string n \<noteq> []"
  by (simp add: dec_string.simps [of n])

lemma length_dec_string: "n < 10 ^ Suc k \<Longrightarrow> length (dec_string n) \<le> Suc k"
proof (induction k arbitrary: n)
  case (Suc k)
  then have "n div 10 < 10 ^ Suc k" by (simp add: less_mult_imp_div_less)
  with Suc show ?case by (cases "n < 10") (simp_all add: dec_string.simps [of n])
qed (simp add: dec_string.simps)

section \<open>Base64\<close>

fun b64_encode :: "string \<Rightarrow> string \<Rightarrow> bytes \<Rightarrow> string" where
  "b64_encode al pad [] = []"
| "b64_encode al pad [a] =
     [al ! (unat a div 4), al ! (unat a mod 4 * 16)] @ pad @ pad"
| "b64_encode al pad [a, b] =
     [al ! (unat a div 4), al ! (unat a mod 4 * 16 + unat b div 16), al ! (unat b mod 16 * 4)] @ pad"
| "b64_encode al pad (a # b # c # rest) =
     [al ! (unat a div 4), al ! (unat a mod 4 * 16 + unat b div 16),
      al ! (unat b mod 16 * 4 + unat c div 64), al ! (unat c mod 64)] @ b64_encode al pad rest"

text \<open>\<open>padded\<close> tells whether the encoding has a padding character.\<close>

fun b64_quads :: "string \<Rightarrow> bool \<Rightarrow> string \<Rightarrow> bytes option" where
  "b64_quads al padded [] = Some []"
| "b64_quads al padded [w] = None"
| "b64_quads al padded [w, x] =
     (if padded then None
      else case (index_of w al, index_of x al) of
          (Some i, Some j) \<Rightarrow> Some [of_nat (i * 4 + j div 16)]
        | _ \<Rightarrow> None)"
| "b64_quads al padded [w, x, y] =
     (if padded then None
      else case (index_of w al, index_of x al, index_of y al) of
          (Some i, Some j, Some k) \<Rightarrow> Some [of_nat (i * 4 + j div 16), of_nat (j mod 16 * 16 + k div 4)]
        | _ \<Rightarrow> None)"
| "b64_quads al padded (w # x # y # z # rest) =
     (case (index_of w al, index_of x al) of
        (Some i, Some j) \<Rightarrow>
          (if padded \<and> y = CHR ''='' then
             (if z = CHR ''='' \<and> rest = [] then Some [of_nat (i * 4 + j div 16)] else None)
           else case index_of y al of
               None \<Rightarrow> None
             | Some k \<Rightarrow>
                 (if padded \<and> z = CHR ''='' then
                    (if rest = [] then Some [of_nat (i * 4 + j div 16), of_nat (j mod 16 * 16 + k div 4)] else None)
                  else case index_of z al of
                      None \<Rightarrow> None
                    | Some l \<Rightarrow>
                        map_option (\<lambda>bs. of_nat (i * 4 + j div 16) # of_nat (j mod 16 * 16 + k div 4) #
                            of_nat (k mod 4 * 64 + l) # bs)
                          (b64_quads al padded rest)))
      | _ \<Rightarrow> None)"

definition is_crlf :: "char \<Rightarrow> bool" where
  "is_crlf c = (c = CHR 0x0A \<or> c = CHR 0x0D)"

definition b64_decode :: "string \<Rightarrow> bool \<Rightarrow> string \<Rightarrow> bytes option" where
  "b64_decode al padded s = b64_quads al padded (filter (\<lambda>c. \<not> is_crlf c) s)"

text \<open>What an alphabet must satisfy for decoding to reverse encoding; both alphabets do.\<close>

locale b64_alphabet =
  fixes al :: string
  assumes al_length: "length al = 64"
    and al_distinct: "distinct al"
    and al_chars: "CHR ''='' \<notin> set al" "CHR 0x0A \<notin> set al" "CHR 0x0D \<notin> set al"
begin

lemma al_index [simp]: "i < 64 \<Longrightarrow> index_of (al ! i) al = Some i"
  by (rule index_of_nth) (simp_all add: al_length al_distinct)

lemma al_not_eq [simp]: "i < 64 \<Longrightarrow> al ! i \<noteq> CHR ''=''" "i < 64 \<Longrightarrow> \<not> is_crlf (al ! i)"
  using al_chars al_length nth_mem unfolding is_crlf_def by metis+

lemma sextets [simp]:
  "unat (a :: byte) div 4 < 64" "unat a mod 4 * 16 < 64" "unat a mod 4 * 16 + unat (b :: byte) div 16 < 64"
  "unat a mod 16 * 4 < 64" "unat a mod 16 * 4 + unat b div 64 < 64" "unat a mod 64 < 64"
  using unat_byte_less [of a] unat_byte_less [of b] by linarith+

lemma quad_bytes [simp]:
  "unat (b :: byte) div 16 div 16 = 0" "unat b div 16 mod 16 = unat b div 16"
  "unat b div 64 div 4 = 0" "unat b div 64 mod 4 = unat b div 64"
proof -
  have "unat b div 16 < 16" "unat b div 64 < 4"
    using unat_byte_less [of b] by linarith+
  then show "unat b div 16 div 16 = 0" "unat b div 16 mod 16 = unat b div 16"
    "unat b div 64 div 4 = 0" "unat b div 64 mod 4 = unat b div 64"
    by simp_all
qed

lemma byte_recombine [simp]:
  "(of_nat (unat (b :: byte) div 4) :: byte) * 4 + of_nat (unat b mod 4) = b"
  "(of_nat (unat b div 16) :: byte) * 16 + of_nat (unat b mod 16) = b"
  "(of_nat (unat b div 64) :: byte) * 64 + of_nat (unat b mod 64) = b"
proof -
  have "(of_nat (unat b div k * k + unat b mod k) :: byte) = b" for k by simp
  from this [of 4] this [of 16] this [of 64] show
    "(of_nat (unat b div 4) :: byte) * 4 + of_nat (unat b mod 4) = b"
    "(of_nat (unat b div 16) :: byte) * 16 + of_nat (unat b mod 16) = b"
    "(of_nat (unat b div 64) :: byte) * 64 + of_nat (unat b mod 64) = b"
    by (simp_all only: of_nat_add of_nat_mult of_nat_numeral)
qed

lemma encode_no_crlf: "\<forall>c \<in> set (b64_encode al pad bs). \<not> is_crlf c" if "\<forall>c \<in> set pad. \<not> is_crlf c"
  using that by (induction bs rule: triple_induct) auto

lemma quads_encode_padded: "b64_quads al True (b64_encode al ''='' bs) = Some bs"
  by (induction bs rule: triple_induct) simp_all

lemma quads_encode_raw: "b64_quads al False (b64_encode al [] bs) = Some bs"
  by (induction bs rule: triple_induct) simp_all

lemma decode_encode_padded: "b64_decode al True (b64_encode al ''='' bs) = Some bs"
proof -
  have "filter (\<lambda>c. \<not> is_crlf c) (b64_encode al ''='' bs) = b64_encode al ''='' bs"
    using encode_no_crlf [of "''=''" bs] by (simp add: is_crlf_def)
  then show ?thesis by (simp add: b64_decode_def quads_encode_padded)
qed

lemma decode_encode_raw: "b64_decode al False (b64_encode al [] bs) = Some bs"
proof -
  have "filter (\<lambda>c. \<not> is_crlf c) (b64_encode al [] bs) = b64_encode al [] bs"
    using encode_no_crlf [of "[]" bs] by simp
  then show ?thesis by (simp add: b64_decode_def quads_encode_raw)
qed

lemma encode_chars: "set (b64_encode al pad bs) \<subseteq> set al \<union> set pad"
  by (induction bs rule: triple_induct) (auto simp: al_length)

end

interpretation std64: b64_alphabet b64_std
  by unfold_locales (simp_all add: b64_std_def)

interpretation url64: b64_alphabet b64_url
  by unfold_locales (simp_all add: b64_url_def)

text \<open>\<open>base64.StdEncoding\<close> and \<open>base64.RawURLEncoding\<close>.\<close>

definition std_encode :: "bytes \<Rightarrow> string" where
  "std_encode bs = b64_encode b64_std ''='' bs"

definition std_decode :: "string \<Rightarrow> bytes option" where
  "std_decode s = b64_decode b64_std True s"

definition rawurl_encode :: "bytes \<Rightarrow> string" where
  "rawurl_encode bs = b64_encode b64_url [] bs"

definition rawurl_decode :: "string \<Rightarrow> bytes option" where
  "rawurl_decode s = b64_decode b64_url False s"

lemma std_decode_encode [simp, codec_simps]: "std_decode (std_encode bs) = Some bs"
  by (simp add: std_decode_def std_encode_def std64.decode_encode_padded)

lemma rawurl_decode_encode [simp, codec_simps]: "rawurl_decode (rawurl_encode bs) = Some bs"
  by (simp add: rawurl_decode_def rawurl_encode_def url64.decode_encode_raw)

lemma std_encode_inject [simp]: "std_encode a = std_encode b \<longleftrightarrow> a = b"
  by (metis option.inject std_decode_encode)

lemma rawurl_encode_inject [simp]: "rawurl_encode a = rawurl_encode b \<longleftrightarrow> a = b"
  by (metis option.inject rawurl_decode_encode)

section \<open>Base32 without padding\<close>

definition byte_bits :: "byte \<Rightarrow> bool list" where
  "byte_bits b = map (bit b) [7, 6, 5, 4, 3, 2, 1, 0]"

definition bits_value :: "bool list \<Rightarrow> nat" where
  "bits_value bs = foldl (\<lambda>acc b. 2 * acc + of_bool b) 0 bs"

text \<open>The bits of the input, five at a time, the last group filled with zeros.\<close>

definition b32_encode :: "bytes \<Rightarrow> string" where
  "b32_encode bs =
     map (\<lambda>g. b32_std ! bits_value (g @ replicate (5 - length g) False)) (blocks 5 (concat (map byte_bits bs)))"

lemma length_b32_encode [len_simps]: "length (b32_encode bs) = (8 * length bs + 4) div 5"
  by (simp add: b32_encode_def length_blocks length_concat comp_def byte_bits_def sum_list_triv)

lemma b32_std_props: "length b32_std = 32" "distinct b32_std"
  by (simp_all add: b32_std_def)

lemma bits_value_snoc: "bits_value (g @ [b]) = 2 * bits_value g + of_bool b"
  by (simp add: bits_value_def)

lemma bits_value_less: "bits_value g < 2 ^ length g"
  by (induction g rule: rev_induct) (simp_all add: bits_value_snoc, simp add: bits_value_def)

lemma double_plus_bool: "2 * a + of_bool b = 2 * c + of_bool d \<Longrightarrow> a = c \<and> b = d" for a c :: nat
  by (cases b; cases d) (simp_all, presburger+)

lemma bits_value_inject: "length g = length h \<Longrightarrow> bits_value g = bits_value h \<Longrightarrow> g = h"
proof (induction g arbitrary: h rule: rev_induct)
  case (snoc b g)
  then obtain h' d where h: "h = h' @ [d]" by (cases h rule: rev_cases) simp_all
  with snoc double_plus_bool [of "bits_value g" b "bits_value h'" d] show ?case
    by (simp add: bits_value_snoc)
qed simp

definition b32_group :: "bool list \<Rightarrow> char" where
  "b32_group g = b32_std ! bits_value (g @ replicate (5 - length g) False)"

lemma b32_group_inject:
  "length g = length h \<Longrightarrow> length h \<le> 5 \<Longrightarrow> b32_group g = b32_group h \<Longrightarrow> g = h"
  using bits_value_less [of "g @ replicate (5 - length g) False"] bits_value_less [of "h @ replicate (5 - length h) False"]
    bits_value_inject [of "g @ replicate (5 - length g) False" "h @ replicate (5 - length h) False"]
  by (simp add: b32_group_def nth_eq_iff_index_eq [OF b32_std_props(2)] b32_std_props)

lemma b32_groups_inject:
  "length xs = length ys \<Longrightarrow> map b32_group (blocks 5 xs) = map b32_group (blocks 5 ys) \<Longrightarrow> xs = ys"
proof (induction "5 :: nat" xs arbitrary: ys rule: blocks.induct)
  case (1 xs)
  show ?case
  proof (cases "xs = []")
    case False
    with 1(2) have ys: "ys \<noteq> []" by auto
    with False 1(3) have eq: "b32_group (take 5 xs) = b32_group (take 5 ys)"
      "map b32_group (blocks 5 (drop 5 xs)) = map b32_group (blocks 5 (drop 5 ys))"
      by (simp_all add: blocks_step)
    have "take 5 xs = take 5 ys" using 1(2) by (intro b32_group_inject [OF _ _ eq(1)]) simp_all
    moreover have "drop 5 xs = drop 5 ys" using 1(1) [of "drop 5 ys"] 1(2) False eq(2) by simp
    ultimately show ?thesis by (metis append_take_drop_id)
  qed (use 1 in simp)
qed

lemma byte_bits_inject: "byte_bits a = byte_bits b \<Longrightarrow> a = b"
proof (rule bit_word_eqI)
  fix n assume eq: "byte_bits a = byte_bits b" and "n < LENGTH(8)"
  then have "n \<in> {7, 6, 5, 4, 3, 2, 1, 0}" by auto
  with eq show "bit a n = bit b n" by (auto simp: byte_bits_def)
qed

lemma byte_bits_concat_inject:
  "concat (map byte_bits as) = concat (map byte_bits bs) \<Longrightarrow> as = bs"
proof (induction as arbitrary: bs)
  case Nil
  then show ?case by (cases bs) (simp_all add: byte_bits_def)
next
  case (Cons a as)
  then obtain b bs' where bs: "bs = b # bs'" by (cases bs) (simp_all add: byte_bits_def)
  have "length (byte_bits a) = length (byte_bits b)" by (simp add: byte_bits_def)
  with Cons.prems bs have "byte_bits a = byte_bits b" "concat (map byte_bits as) = concat (map byte_bits bs')"
    by simp_all
  with bs Cons.IH show ?case by (simp add: byte_bits_inject)
qed

lemma b32_encode_inject: "length as = length bs \<Longrightarrow> b32_encode as = b32_encode bs \<longleftrightarrow> as = bs"
proof
  assume len: "length as = length bs" and "b32_encode as = b32_encode bs"
  then have "map b32_group (blocks 5 (concat (map byte_bits as))) = map b32_group (blocks 5 (concat (map byte_bits bs)))"
    by (simp add: b32_encode_def b32_group_def [abs_def])
  moreover have "length (concat (map byte_bits xs)) = 8 * length xs" for xs
    by (induction xs) (simp_all add: byte_bits_def)
  ultimately show "as = bs" by (intro byte_bits_concat_inject b32_groups_inject) (simp_all add: len)
qed simp

lemma b32_encode_chars: "set (b32_encode bs) \<subseteq> set b32_std"
proof
  fix c assume "c \<in> set (b32_encode bs)"
  then obtain g where g: "g \<in> set (blocks 5 (concat (map byte_bits bs)))" "c = b32_group g"
    by (auto simp: b32_encode_def b32_group_def)
  with blocks_length_le [OF g(1)] have "bits_value (g @ replicate (5 - length g) False) < length b32_std"
    using bits_value_less [of "g @ replicate (5 - length g) False"] by (simp add: b32_std_props)
  then show "c \<in> set b32_std" using g(2) by (simp add: b32_group_def)
qed

end
