(* ===== verification/Signaling.thy ===== *)
theory Signaling
  imports Go_Io Go_Map Encoding
begin

text \<open>
  \<open>src/core/pkg/signaling\<close>: discovery and the exchange of session descriptions. \<open>memory.go\<close> is the
  in-process registry: a fabric holds the shared registry and, per peer id, the \<open>lastRemote\<close> field of
  the signaler \<open>Join\<close> returned for it. Sending to a full channel and receiving from an empty one block.
  The DHT signaler of \<open>libp2p.go\<close> is in \<open>Signaling_Dht\<close>. The locales at the end state what a transport
  relies on when it exchanges session descriptions.
\<close>

record peerInfo =
  pi_peerID :: string
  pi_addresses :: "string list"

definition ErrNotImplemented :: string where
  "ErrNotImplemented = ''signaling: peer not found''"

record 'g signaler =
  sg_Advertise :: "bytes \<Rightarrow> ('g, unit) go"
  sg_Find :: "bytes \<Rightarrow> ('g, peerInfo) go"
  sg_SendSDP :: "string \<Rightarrow> bytes \<Rightarrow> ('g, unit) go"
  sg_RecvSDP :: "string \<Rightarrow> ('g, bytes) go"
  sg_SendCandidate :: "string \<Rightarrow> bytes \<Rightarrow> ('g, unit) go"
  sg_RecvCandidate :: "string \<Rightarrow> ('g, bytes) go"
  sg_Presence :: "string \<Rightarrow> ('g, bool) go"
  sg_Close :: "('g, unit) go"

section \<open>The in-process registry\<close>

record inbox =
  ib_offers :: "(string \<times> bytes) list"
  ib_cands :: "bytes list"
  ib_answers :: "bytes list gomap"

record registry =
  rg_advert :: "string gomap"
  rg_online :: "bool gomap"
  rg_boxes :: "inbox gomap"

record fabric =
  fb_reg :: registry
  fb_last :: "string \<Rightarrow> string"

definition newInbox :: inbox where
  "newInbox = \<lparr> ib_offers = [], ib_cands = [], ib_answers = [] \<rparr>"

definition offers_cap :: nat where "offers_cap = 16"
definition answers_cap :: nat where "answers_cap = 8"

definition NewRegistry :: registry where
  "NewRegistry = \<lparr> rg_advert = [], rg_online = [], rg_boxes = [] \<rparr>"

definition reg_box :: "registry \<Rightarrow> string \<Rightarrow> inbox \<times> registry" where
  "reg_box r peerID =
     (case gm_get (rg_boxes r) peerID of
        Some b \<Rightarrow> (b, r)
      | None \<Rightarrow> (newInbox, r\<lparr> rg_boxes := gm_put peerID newInbox (rg_boxes r) \<rparr>))"

definition answerChan :: "inbox \<Rightarrow> string \<Rightarrow> bytes list \<times> inbox" where
  "answerChan b from =
     (case gm_get (ib_answers b) from of
        Some q \<Rightarrow> (q, b)
      | None \<Rightarrow> ([], b\<lparr> ib_answers := gm_put from [] (ib_answers b) \<rparr>))"

definition put_box :: "string \<Rightarrow> inbox \<Rightarrow> registry \<Rightarrow> registry" where
  "put_box peerID b r = r\<lparr> rg_boxes := gm_put peerID b (rg_boxes r) \<rparr>"

definition reg_Join :: "string \<Rightarrow> fabric \<Rightarrow> fabric" where
  "reg_Join peerID f =
     (let r = fb_reg f;
          r = (if gm_get (rg_boxes r) peerID = None then put_box peerID newInbox r else r)
      in \<lparr> fb_reg = r\<lparr> rg_online := gm_put peerID True (rg_online r) \<rparr>, fb_last = (fb_last f)(peerID := []) \<rparr>)"

definition mem_Advertise :: "string \<Rightarrow> bytes \<Rightarrow> (fabric, unit) go" where
  "mem_Advertise me discoveryKey f =
     Some (Inr (), f\<lparr> fb_reg := (fb_reg f)\<lparr> rg_advert := gm_put (hex_encode discoveryKey) me (rg_advert (fb_reg f)) \<rparr> \<rparr>)"

definition mem_Find :: "bytes \<Rightarrow> (fabric, peerInfo) go" where
  "mem_Find discoveryKey f =
     (case gm_get (rg_advert (fb_reg f)) (hex_encode discoveryKey) of
        None \<Rightarrow> Some (Inl ErrNotImplemented, f)
      | Some peerID \<Rightarrow> Some (Inr \<lparr> pi_peerID = peerID, pi_addresses = [''inproc://'' @ peerID] \<rparr>, f))"

definition mem_SendSDP :: "string \<Rightarrow> string \<Rightarrow> bytes \<Rightarrow> (fabric, unit) go" where
  "mem_SendSDP me peerID sdp f =
     (if peerID \<noteq> [] then
        (case reg_box (fb_reg f) peerID of (b, r) \<Rightarrow>
           if length (ib_offers b) < offers_cap
           then Some (Inr (), f\<lparr> fb_reg := put_box peerID (b\<lparr> ib_offers := ib_offers b @ [(me, sdp)] \<rparr>) r \<rparr>)
           else None)
      else
        let to = fb_last f me in
        if to = [] then Some (Inl ErrNotImplemented, f)
        else
          (case reg_box (fb_reg f) to of (b, r) \<Rightarrow>
           case answerChan b me of (q, b') \<Rightarrow>
             if length q < answers_cap
             then Some (Inr (), f\<lparr> fb_reg := put_box to (b'\<lparr> ib_answers := gm_put me (q @ [sdp]) (ib_answers b') \<rparr>) r \<rparr>)
             else None))"

definition mem_RecvSDP :: "string \<Rightarrow> string \<Rightarrow> (fabric, bytes) go" where
  "mem_RecvSDP me peerID f =
     (case reg_box (fb_reg f) me of (b, r) \<Rightarrow>
        if peerID = [] then
          (case ib_offers b of
             [] \<Rightarrow> None
           | (from, d) # rest \<Rightarrow>
               Some (Inr d, f\<lparr> fb_reg := put_box me (b\<lparr> ib_offers := rest \<rparr>) r, fb_last := (fb_last f)(me := from) \<rparr>))
        else
          (case answerChan b peerID of (q, b') \<Rightarrow>
             (case q of
                [] \<Rightarrow> None
              | d # rest \<Rightarrow>
                  Some (Inr d, f\<lparr> fb_reg := put_box me (b'\<lparr> ib_answers := gm_put peerID rest (ib_answers b') \<rparr>) r \<rparr>))))"

definition mem_SendCandidate :: "string \<Rightarrow> string \<Rightarrow> bytes \<Rightarrow> (fabric, unit) go" where
  "mem_SendCandidate me peerID c f =
     (let to = (if peerID = [] then fb_last f me else peerID)
      in if to = [] then Some (Inl ErrNotImplemented, f)
         else
           (case reg_box (fb_reg f) to of (b, r) \<Rightarrow>
              if length (ib_cands b) < offers_cap
              then Some (Inr (), f\<lparr> fb_reg := put_box to (b\<lparr> ib_cands := ib_cands b @ [c] \<rparr>) r \<rparr>)
              else None))"

definition mem_RecvCandidate :: "string \<Rightarrow> (fabric, bytes) go" where
  "mem_RecvCandidate me f =
     (case reg_box (fb_reg f) me of (b, r) \<Rightarrow>
        (case ib_cands b of
           [] \<Rightarrow> None
         | c # cs \<Rightarrow> Some (Inr c, f\<lparr> fb_reg := put_box me (b\<lparr> ib_cands := cs \<rparr>) r \<rparr>)))"

definition mem_Presence :: "string \<Rightarrow> (fabric, bool) go" where
  "mem_Presence peerID f = Some (Inr (gm_get (rg_online (fb_reg f)) peerID = Some True), f)"

definition mem_Close :: "string \<Rightarrow> (fabric, unit) go" where
  "mem_Close me f =
     Some (Inr (), f\<lparr> fb_reg := (fb_reg f)\<lparr> rg_online := gm_put me False (rg_online (fb_reg f)) \<rparr> \<rparr>)"

definition mem_signaler :: "string \<Rightarrow> fabric signaler" where
  "mem_signaler me =
     \<lparr> sg_Advertise = mem_Advertise me, sg_Find = mem_Find, sg_SendSDP = mem_SendSDP me, sg_RecvSDP = mem_RecvSDP me,
       sg_SendCandidate = mem_SendCandidate me, sg_RecvCandidate = (\<lambda>_. mem_RecvCandidate me),
       sg_Presence = mem_Presence, sg_Close = mem_Close me \<rparr>"

section \<open>The exchange of session descriptions\<close>

text \<open>What a transport relies on, for the peers that can be reached and the descriptions that can be carried
  while the exchange is up: an offer is queued at the peer it names, receiving it makes its sender the
  one that the next answer goes to, and answers are queued by sender, apart from offers. Queuing an
  offer may change where its receiver's next answer goes, but nobody else's.\<close>

locale sdp_exchange =
  fixes send :: "string \<Rightarrow> string \<Rightarrow> bytes \<Rightarrow> ('g, unit) go"
    and recv :: "string \<Rightarrow> string \<Rightarrow> ('g, bytes) go"
    and offers :: "'g \<Rightarrow> string \<Rightarrow> (string \<times> bytes) list"
    and answers :: "'g \<Rightarrow> string \<Rightarrow> string \<Rightarrow> bytes list"
    and reply_to :: "'g \<Rightarrow> string \<Rightarrow> string"
    and room :: nat
    and up :: "'g \<Rightarrow> bool"
    and peer :: "string \<Rightarrow> bool"
    and carries :: "bytes \<Rightarrow> bool"
  assumes send_offer: "up g \<Longrightarrow> peer p \<Longrightarrow> carries x \<Longrightarrow> length (offers g p) < room \<Longrightarrow>
      \<exists>g'. send me p x g = Some (Inr (), g') \<and> up g' \<and> offers g' = (offers g)(p := offers g p @ [(me, x)]) \<and>
        answers g' = answers g \<and> (\<forall>q. q \<noteq> p \<longrightarrow> reply_to g' q = reply_to g q)"
    and recv_offer: "up g \<Longrightarrow> offers g me = (from, x) # rest \<Longrightarrow>
      \<exists>g'. recv me [] g = Some (Inr x, g') \<and> up g' \<and> offers g' = (offers g)(me := rest) \<and>
        answers g' = answers g \<and> reply_to g' = (reply_to g)(me := from)"
    and send_answer: "up g \<Longrightarrow> reply_to g me = p \<Longrightarrow> peer p \<Longrightarrow> carries y \<Longrightarrow> length (answers g p me) < room \<Longrightarrow>
      \<exists>g'. send me [] y g = Some (Inr (), g') \<and> up g' \<and> offers g' = offers g \<and> reply_to g' = reply_to g \<and>
        answers g' = (answers g)(p := (answers g p)(me := answers g p me @ [y]))"
    and recv_answer: "up g \<Longrightarrow> answers g me p = y # ys \<Longrightarrow> peer p \<Longrightarrow>
      \<exists>g'. recv me p g = Some (Inr y, g') \<and> up g' \<and> offers g' = offers g \<and> reply_to g' = reply_to g \<and>
        answers g' = (answers g)(me := (answers g me)(p := ys))"
    and room_pos: "0 < room"
begin

text \<open>One round trip: what the dialling side does with what the answering side does in between.\<close>

lemma round_trip:
  assumes "up g" "peer a" "peer b" "carries x" "carries y" "offers g b = []" "answers g a b = []"
  shows "\<exists>g1 g2 g3 g4. send a b x g = Some (Inr (), g1) \<and> recv b [] g1 = Some (Inr x, g2) \<and>
    send b [] y g2 = Some (Inr (), g3) \<and> recv a b g3 = Some (Inr y, g4) \<and>
    up g4 \<and> offers g4 = offers g \<and> answers g4 = answers g"
proof -
  obtain g1 where g1: "send a b x g = Some (Inr (), g1)" "up g1" "offers g1 = (offers g)(b := [(a, x)])" "answers g1 = answers g"
    using send_offer [of g b x a] assms room_pos by auto
  obtain g2 where g2: "recv b [] g1 = Some (Inr x, g2)" "up g2" "offers g2 = (offers g1)(b := [])" "answers g2 = answers g1"
      "reply_to g2 b = a"
    using recv_offer [of g1 b a x "[]"] g1(2,3) by auto
  obtain g3 where g3: "send b [] y g2 = Some (Inr (), g3)" "up g3" "offers g3 = offers g2"
      "answers g3 = (answers g2)(a := (answers g2 a)(b := [y]))"
    using send_answer [OF g2(2,5), of y] assms room_pos g1(4) g2(4) by auto
  obtain g4 where g4: "recv a b g3 = Some (Inr y, g4)" "up g4" "offers g4 = offers g3"
      "answers g4 = (answers g3)(a := (answers g3 a)(b := []))"
    using recv_answer [of g3 a b y "[]"] g3(2,4) assms(3) by auto
  have "offers g4 = offers g" using g1(3) g2(3) g3(3) g4(3) assms(6) by auto
  moreover have "answers g4 = answers g" using g1(4) g2(4) g3(4) g4(4) assms(7) by (auto simp: fun_eq_iff)
  ultimately show ?thesis using g1 g2 g3 g4 by blast
qed

end

text \<open>The stronger contract: an arriving offer does not change where an answer goes. Then an answer reaches
  the peer whose offer was taken, whoever else made an offer in the meantime.\<close>

locale sdp_exchange_stable = sdp_exchange +
  assumes send_offer_reply: "send me p x g = Some (Inr (), g') \<Longrightarrow> p \<noteq> [] \<Longrightarrow> reply_to g' = reply_to g"
begin

lemma answer_to_taken:
  assumes "up g" "peer a" "peer b" "b \<noteq> []" "carries z" "carries y" "offers g b = [(a, x)]" "answers g a b = []"
  shows "\<exists>g1 g2 g3. recv b [] g = Some (Inr x, g1) \<and> send c b z g1 = Some (Inr (), g2) \<and>
    send b [] y g2 = Some (Inr (), g3) \<and> answers g3 a b = [y] \<and> offers g3 b = [(c, z)]"
proof -
  obtain g1 where g1: "recv b [] g = Some (Inr x, g1)" "up g1" "offers g1 = (offers g)(b := [])" "answers g1 = answers g"
      "reply_to g1 b = a"
    using recv_offer [of g b a x "[]"] assms by auto
  obtain g2 where g2: "send c b z g1 = Some (Inr (), g2)" "up g2" "offers g2 b = [(c, z)]" "answers g2 = answers g"
    using send_offer [of g1 b z c] assms room_pos g1 by auto
  have "reply_to g2 b = a" using send_offer_reply [OF g2(1) assms(4)] g1(5) by simp
  with g2 assms obtain g3 where "send b [] y g2 = Some (Inr (), g3)" "offers g3 = offers g2"
      "answers g3 = (answers g2)(a := (answers g2 a)(b := [y]))"
    using send_answer [of g2 b a y] room_pos by auto
  with g1(1) g2 show ?thesis by auto
qed

end

definition mem_offers :: "fabric \<Rightarrow> string \<Rightarrow> (string \<times> bytes) list" where
  "mem_offers f p = ib_offers (fst (reg_box (fb_reg f) p))"

definition mem_answers :: "fabric \<Rightarrow> string \<Rightarrow> string \<Rightarrow> bytes list" where
  "mem_answers f p from = fst (answerChan (fst (reg_box (fb_reg f) p)) from)"

lemmas mem_defs = mem_offers_def mem_answers_def reg_box_def answerChan_def put_box_def newInbox_def

interpretation mem_sdp: sdp_exchange_stable mem_SendSDP mem_RecvSDP mem_offers mem_answers fb_last 8
    "\<lambda>_. True" "\<lambda>p. p \<noteq> []" "\<lambda>_. True"
  by unfold_locales
    (auto simp: fun_eq_iff mem_SendSDP_def mem_RecvSDP_def mem_defs offers_cap_def answers_cap_def Let_def
      split: option.splits if_splits)

text \<open>Over the registry an answer goes to the peer whose offer was taken, also when another peer makes an
  offer before the answer is sent.\<close>

lemma mem_answer_to_taken:
  assumes "a \<noteq> []" "b \<noteq> []" "mem_offers f b = [(a, x)]" "mem_answers f a b = []"
  shows "\<exists>f1 f2 f3. mem_RecvSDP b [] f = Some (Inr x, f1) \<and> mem_SendSDP c b z f1 = Some (Inr (), f2) \<and>
    mem_SendSDP b [] y f2 = Some (Inr (), f3) \<and> mem_answers f3 a b = [y] \<and> mem_offers f3 b = [(c, z)]"
  using mem_sdp.answer_to_taken [where g = f and a = a and b = b and z = z and y = y and x = x and c = c] assms by simp

end
