(* ===== verification/Signaling_Dht.thy ===== *)
theory Signaling_Dht
  imports Signaling
begin

text \<open>
  \<open>src/core/pkg/signaling/libp2p.go\<close>: the DHT signaler. Of the libp2p objects the model keeps what the
  signaler does with them: whether the host and the DHT are open, the advertise loops it started
  (\<open>dh_loops\<close>), the addresses it put into the peer store (\<open>dh_peers\<close>), the peers it dialled (\<open>dh_dials\<close>) and the
  streams it wrote (\<open>dh_streams\<close>, target and bytes). What libp2p answers (the construction of the host and
  of the DHT, decoding of a peer id, opening and writing a stream, the peers found, connectedness) is an
  argument. Peer ids are in their textual form.
\<close>

section \<open>Framing\<close>

text \<open>\<open>writeFrame\<close> gives the two writes it makes; \<open>readFrame\<close> reads from a stream whose remaining bytes are
  given. \<open>io.ReadFull\<close> fails with \<open>EOF\<close> at the end of the stream and with \<open>unexpected EOF\<close> inside.\<close>

definition frame_bytes :: "byte \<Rightarrow> bytes \<Rightarrow> bytes \<times> bytes" where
  "frame_bytes kind d = (kind # be32 (of_nat (length d)), d)"

definition writeFrame :: "(bytes \<Rightarrow> unit result) \<Rightarrow> byte \<Rightarrow> bytes \<Rightarrow> unit result \<times> bytes" where
  "writeFrame w kind d =
     (case frame_bytes kind d of (hdr, body) \<Rightarrow>
        (case w hdr of
           Inl e \<Rightarrow> (Inl e, [])
         | Inr _ \<Rightarrow> (case w body of Inl e \<Rightarrow> (Inl e, hdr) | Inr _ \<Rightarrow> (Inr (), hdr @ body))))"

definition readFull :: "nat \<Rightarrow> bytes \<Rightarrow> (bytes \<times> bytes) result" where
  "readFull n s =
     (if n \<le> length s then Inr (take n s, drop n s)
      else if s = [] then Inl ''EOF'' else Inl ''unexpected EOF'')"

definition readFrame :: "bytes \<Rightarrow> (byte \<times> bytes) result" where
  "readFrame s =
     rbind (readFull 5 s) (\<lambda>(hdr, s').
     rbind (readFull (unat (be_word (drop 1 hdr) :: u32)) s') (\<lambda>(buf, _).
     Inr (hd hdr, buf)))"

section \<open>The signaler\<close>

definition signalProtocol :: string where
  "signalProtocol = ''/stunner/signal/1.0.0''"

record addrInfo =
  ai_ID :: string
  ai_Addrs :: "string list"

record dhtOffer =
  of_from :: string
  of_data :: bytes

record dhtSignaler =
  dh_id :: string
  dh_addrs :: "string list"
  dh_host :: bool
  dh_kad :: bool
  dh_handler :: string
  dh_lastRemote :: string
  dh_answers :: "bytes list gomap"
  dh_advertised :: "unit gomap"
  dh_offerIn :: "dhtOffer list"
  dh_candIn :: "bytes list"
  dh_done :: bool
  dh_loops :: "string list"
  dh_peers :: "addrInfo list"
  dh_dials :: "addrInfo list"
  dh_streams :: "(string \<times> bytes) list"

subsection \<open>Construction\<close>

text \<open>The outcome of the libp2p calls of one \<open>NewDHT\<close>: whether \<open>libp2p.New\<close> gets as far as the routing
  constructor, what \<open>dht.New\<close> answers there, the host \<open>libp2p.New\<close> returns for the listen addresses and the
  constructor's outcome, and \<open>Bootstrap\<close>. \<open>dhtResources\<close> is what \<open>NewDHT\<close> holds while it runs. The context of a
  signaler is derived from one the caller passes and ends with it; \<open>parent\<close> says that this one has ended
  by the time \<open>NewDHT\<close> returns.\<close>

record libp2p_lib =
  lp_routing :: bool
  lp_dhtNew :: "unit result"
  lp_New :: "string list \<Rightarrow> unit result option \<Rightarrow> addrInfo result"
  lp_Bootstrap :: "unit result"

record dhtResources =
  rs_cancelled :: bool
  rs_host :: bool
  rs_kad :: bool

definition defaultListenAddrs :: "string list" where
  "defaultListenAddrs =
     [''/ip4/0.0.0.0/tcp/0'', ''/ip4/0.0.0.0/udp/0/quic-v1'', ''/ip6/::/tcp/0'', ''/ip6/::/udp/0/quic-v1'']"

definition newDHT :: "addrInfo \<Rightarrow> dhtSignaler" where
  "newDHT h = \<lparr> dh_id = ai_ID h, dh_addrs = ai_Addrs h, dh_host = True, dh_kad = True, dh_handler = signalProtocol,
     dh_lastRemote = [], dh_answers = [], dh_advertised = [], dh_offerIn = [], dh_candIn = [],
     dh_done = False, dh_loops = [], dh_peers = [], dh_dials = [], dh_streams = [] \<rparr>"

definition NewDHT :: "bool \<Rightarrow> libp2p_lib \<Rightarrow> string list \<Rightarrow> dhtSignaler result \<times> dhtResources" where
  "NewDHT parent lp listenAddrs =
     (let r = \<lparr> rs_cancelled = parent, rs_host = False, rs_kad = False \<rparr>;
          listenAddrs = (if listenAddrs = [] then defaultListenAddrs else listenAddrs);
          routing = (if lp_routing lp then Some (lp_dhtNew lp) else None);
          r = r\<lparr> rs_kad := (routing = Some (Inr ())) \<rparr>
      in case lp_New lp listenAddrs routing of
           Inl e \<Rightarrow> (Inl e, r\<lparr> rs_cancelled := True \<rparr>)
         | Inr h \<Rightarrow>
             (let r = r\<lparr> rs_host := True \<rparr>
              in if \<not> rs_kad r then
                   (Inl ''signaling: DHT routing not initialized'', r\<lparr> rs_host := False, rs_cancelled := True \<rparr>)
                 else case lp_Bootstrap lp of
                        Inl e \<Rightarrow> (Inl e, r\<lparr> rs_kad := False, rs_host := False, rs_cancelled := True \<rparr>)
                      | Inr _ \<Rightarrow> (Inr ((newDHT h)\<lparr> dh_done := parent \<rparr>), r)))"

text \<open>\<open>relaySource\<close>: the candidates its goroutine puts into the channel of capacity \<open>num\<close>. \<open>info\<close> is the peer
  store, \<open>stop p\<close> says that the \<open>select\<close> at peer \<open>p\<close> takes the cancelled context; making a channel of
  negative capacity panics (\<open>None\<close>).\<close>

fun relay_loop :: "(string \<Rightarrow> string list) \<Rightarrow> (string \<Rightarrow> bool) \<Rightarrow> int \<Rightarrow> string list \<Rightarrow> addrInfo list" where
  "relay_loop info stop num [] = []"
| "relay_loop info stop num (p # ps) =
     (if num \<le> 0 then []
      else let ai = \<lparr> ai_ID = p, ai_Addrs = info p \<rparr>
           in if ai_Addrs ai = [] then relay_loop info stop num ps
              else if stop p then []
              else ai # relay_loop info stop (num - 1) ps)"

definition relaySource ::
    "bool \<Rightarrow> bool \<Rightarrow> string list \<Rightarrow> (string \<Rightarrow> string list) \<Rightarrow> (string \<Rightarrow> bool) \<Rightarrow> int \<Rightarrow> addrInfo list option" where
  "relaySource kad h listPeers info stop num =
     (if num < 0 then None
      else if \<not> kad \<or> \<not> h then Some []
      else Some (relay_loop info stop num listPeers))"

text \<open>\<open>connect\<close> is the host's answer to a dial; the goroutines of \<open>BootstrapPublic\<close> ignore it. \<open>peers\<close> are the
  default bootstrap peers in the order in which the goroutines dial.\<close>

definition dht_dial :: "(addrInfo \<Rightarrow> unit result) \<Rightarrow> addrInfo \<Rightarrow> (dhtSignaler, unit) go" where
  "dht_dial connect info s = Some (connect info, s\<lparr> dh_dials := dh_dials s @ [info] \<rparr>)"

fun dht_BootstrapPublic :: "(addrInfo \<Rightarrow> unit result) \<Rightarrow> addrInfo list \<Rightarrow> (dhtSignaler, unit) go" where
  "dht_BootstrapPublic connect [] = go_ret ()"
| "dht_BootstrapPublic connect (ai # rest) = go_seq (go_ignore (dht_dial connect ai)) (dht_BootstrapPublic connect rest)"

definition dht_ID :: "dhtSignaler \<Rightarrow> string" where
  "dht_ID s = dh_id s"

definition dht_AddrInfo :: "dhtSignaler \<Rightarrow> addrInfo" where
  "dht_AddrInfo s = \<lparr> ai_ID = dh_id s, ai_Addrs = dh_addrs s \<rparr>"

definition dht_AddAddrs :: "addrInfo \<Rightarrow> dhtSignaler \<Rightarrow> dhtSignaler" where
  "dht_AddAddrs info s = s\<lparr> dh_peers := dh_peers s @ [info] \<rparr>"

definition dht_Connect :: "(addrInfo \<Rightarrow> unit result) \<Rightarrow> addrInfo \<Rightarrow> (dhtSignaler, unit) go" where
  "dht_Connect connect info = go_seq (go_put (dht_AddAddrs info)) (dht_dial connect info)"

subsection \<open>Operations\<close>

definition dht_cap :: nat where
  "dht_cap = 8"

definition ctx_err :: string where
  "ctx_err = ''context canceled''"

definition dht_answerChan :: "string \<Rightarrow> dhtSignaler \<Rightarrow> bytes list \<times> dhtSignaler" where
  "dht_answerChan from s =
     (case gm_get (dh_answers s) from of
        Some q \<Rightarrow> (q, s)
      | None \<Rightarrow> ([], s\<lparr> dh_answers := gm_put from [] (dh_answers s) \<rparr>))"

definition dht_Advertise :: "bytes \<Rightarrow> (dhtSignaler, unit) go" where
  "dht_Advertise discoveryKey s =
     (let ns = hex_encode discoveryKey;
          running = (gm_get (dh_advertised s) ns \<noteq> None);
          s = (if running then s else s\<lparr> dh_advertised := gm_put ns () (dh_advertised s) \<rparr>)
      in if running then Some (Inr (), s)
         else Some (Inr (), s\<lparr> dh_loops := dh_loops s @ [ns] \<rparr>))"

text \<open>\<open>findPeers\<close> is the outcome of \<open>FindPeers\<close> with the peers it yields.\<close>

fun dht_find_loop :: "addrInfo list \<Rightarrow> (dhtSignaler, peerInfo) go" where
  "dht_find_loop [] s = Some (Inl ''signaling: peer not found in DHT'', s)"
| "dht_find_loop (ai # rest) s =
     (if ai_ID ai = dh_id s \<or> ai_Addrs ai = [] then dht_find_loop rest s
      else Some (Inr \<lparr> pi_peerID = ai_ID ai, pi_addresses = ai_Addrs ai \<rparr>, dht_AddAddrs ai s))"

definition dht_Find :: "(string \<Rightarrow> addrInfo list result) \<Rightarrow> bytes \<Rightarrow> (dhtSignaler, peerInfo) go" where
  "dht_Find findPeers discoveryKey s =
     (case findPeers (hex_encode discoveryKey) of
        Inl e \<Rightarrow> Some (Inl e, s)
      | Inr found \<Rightarrow> dht_find_loop found s)"

text \<open>\<open>decode\<close> is \<open>peer.Decode\<close>; \<open>open_stream\<close> is \<open>NewStream\<close>, whose result is what the stream answers to
  writes.\<close>

definition dht_target :: "(string \<Rightarrow> string result) \<Rightarrow> string \<Rightarrow> dhtSignaler \<Rightarrow> string result" where
  "dht_target decode peerID s =
     (if peerID = [] then
        (if dh_lastRemote s = [] then Inl ''signaling: no peer to reply to'' else Inr (dh_lastRemote s))
      else decode peerID)"

definition dht_sendStream ::
    "(string \<Rightarrow> string result) \<Rightarrow> (string \<Rightarrow> (bytes \<Rightarrow> unit result) result) \<Rightarrow> string \<Rightarrow> byte \<Rightarrow> bytes \<Rightarrow> (dhtSignaler, unit) go" where
  "dht_sendStream decode open_stream peerID kind d s =
     (case dht_target decode peerID s of
        Inl e \<Rightarrow> Some (Inl e, s)
      | Inr pid \<Rightarrow>
          (case open_stream pid of
             Inl e \<Rightarrow> Some (Inl e, s)
           | Inr w \<Rightarrow>
               (case writeFrame w kind d of (res, out) \<Rightarrow>
                  Some (res, s\<lparr> dh_streams := dh_streams s @ [(pid, out)] \<rparr>))))"

definition dht_SendSDP ::
    "(string \<Rightarrow> string result) \<Rightarrow> (string \<Rightarrow> (bytes \<Rightarrow> unit result) result) \<Rightarrow> string \<Rightarrow> bytes \<Rightarrow> (dhtSignaler, unit) go" where
  "dht_SendSDP decode open_stream peerID sdp =
     (if peerID \<noteq> [] then dht_sendStream decode open_stream peerID (byte_of (CHR ''o'')) sdp
      else dht_sendStream decode open_stream [] (byte_of (CHR ''a'')) sdp)"

definition dht_SendCandidate ::
    "(string \<Rightarrow> string result) \<Rightarrow> (string \<Rightarrow> (bytes \<Rightarrow> unit result) result) \<Rightarrow> string \<Rightarrow> bytes \<Rightarrow> (dhtSignaler, unit) go" where
  "dht_SendCandidate decode open_stream peerID c = dht_sendStream decode open_stream peerID (byte_of (CHR ''c'')) c"

text \<open>The receiving operations select between their queue and the cancelled context; \<open>pick\<close> takes the
  context when both are ready.\<close>

definition dht_RecvSDP :: "(string \<Rightarrow> string result) \<Rightarrow> bool \<Rightarrow> string \<Rightarrow> (dhtSignaler, bytes) go" where
  "dht_RecvSDP decode pick peerID s =
     (if peerID = [] then
        (case dh_offerIn s of
           f # rest \<Rightarrow>
             if dh_done s \<and> pick then Some (Inl ctx_err, s)
             else Some (Inr (of_data f), s\<lparr> dh_offerIn := rest, dh_lastRemote := of_from f \<rparr>)
         | [] \<Rightarrow> if dh_done s then Some (Inl ctx_err, s) else None)
      else
        (case decode peerID of
           Inl e \<Rightarrow> Some (Inl e, s)
         | Inr pid \<Rightarrow>
             (case dht_answerChan pid s of (q, s') \<Rightarrow>
                (case q of
                   d # rest \<Rightarrow>
                     if dh_done s' \<and> pick then Some (Inl ctx_err, s')
                     else Some (Inr d, s'\<lparr> dh_answers := gm_put pid rest (dh_answers s') \<rparr>)
                 | [] \<Rightarrow> if dh_done s' then Some (Inl ctx_err, s') else None))))"

definition dht_RecvCandidate :: "bool \<Rightarrow> (dhtSignaler, bytes) go" where
  "dht_RecvCandidate pick s =
     (case dh_candIn s of
        d # rest \<Rightarrow>
          if dh_done s \<and> pick then Some (Inl ctx_err, s) else Some (Inr d, s\<lparr> dh_candIn := rest \<rparr>)
      | [] \<Rightarrow> if dh_done s then Some (Inl ctx_err, s) else None)"

definition dht_Presence :: "(string \<Rightarrow> string result) \<Rightarrow> (string \<Rightarrow> bool) \<Rightarrow> string \<Rightarrow> bool result" where
  "dht_Presence decode connected peerID = rbind (decode peerID) (\<lambda>pid. Inr (connected pid))"

definition dht_Close :: "unit result \<Rightarrow> (dhtSignaler, unit) go" where
  "dht_Close host_close s = Some (host_close, s\<lparr> dh_done := True, dh_kad := False, dh_host := False \<rparr>)"

text \<open>\<open>onStream\<close>: one inbound stream from \<open>remote\<close> carrying \<open>raw\<close>. \<open>dht_queue\<close> is the \<open>select\<close> at its end, which
  blocks on a full queue until there is room or the context is cancelled; a handler that still waits
  there is reported beside the state, with the message it holds.\<close>

definition enqueue :: "bool \<Rightarrow> bool \<Rightarrow> 'a list \<Rightarrow> 'a \<Rightarrow> 'a list option" where
  "enqueue cancelled pick q x =
     (if length q < dht_cap then (if cancelled \<and> pick then Some q else Some (q @ [x]))
      else if cancelled then Some q else None)"

definition dht_queue :: "bool \<Rightarrow> string \<Rightarrow> byte \<Rightarrow> bytes \<Rightarrow> dhtSignaler \<Rightarrow> dhtSignaler option" where
  "dht_queue pick remote kind d s =
     (if kind = byte_of (CHR ''o'') then
        map_option (\<lambda>q. s\<lparr> dh_offerIn := q \<rparr>) (enqueue (dh_done s) pick (dh_offerIn s) \<lparr> of_from = remote, of_data = d \<rparr>)
      else if kind = byte_of (CHR ''a'') then
        (case dht_answerChan remote s of (q, s') \<Rightarrow>
           map_option (\<lambda>q'. s'\<lparr> dh_answers := gm_put remote q' (dh_answers s') \<rparr>) (enqueue (dh_done s') pick q d))
      else if kind = byte_of (CHR ''c'') then
        map_option (\<lambda>q. s\<lparr> dh_candIn := q \<rparr>) (enqueue (dh_done s) pick (dh_candIn s) d)
      else Some s)"

definition dht_onStream :: "bool \<Rightarrow> string \<Rightarrow> bytes \<Rightarrow> dhtSignaler \<Rightarrow> (byte \<times> bytes) option \<times> dhtSignaler" where
  "dht_onStream pick remote raw s =
     (case readFrame raw of
        Inl _ \<Rightarrow> (None, s)
      | Inr (kind, d) \<Rightarrow>
          let s = (if kind = byte_of (CHR ''o'') then s\<lparr> dh_lastRemote := remote \<rparr> else s)
          in (case dht_queue pick remote kind d s of None \<Rightarrow> (Some (kind, d), s) | Some t \<Rightarrow> (None, t)))"

section \<open>Framing is faithful\<close>

lemma readFrame_frame:
  assumes "length d < 2 ^ 32"
  shows "readFrame (fst (frame_bytes kind d) @ snd (frame_bytes kind d) @ rest) = Inr (kind, d)"
proof -
  have "unat (of_nat (length d) :: u32) = length d" using assms by (intro unat_of_nat_small) simp
  then show ?thesis by (simp add: readFrame_def readFull_def frame_bytes_def)
qed

lemma readFrame_short:
  assumes "length d < 2 ^ 32" "n < 5 + length d"
  shows "\<exists>e. readFrame (take n (fst (frame_bytes kind d) @ snd (frame_bytes kind d))) = Inl e"
proof (cases "n < 5")
  case True
  then show ?thesis by (auto simp: readFrame_def readFull_def frame_bytes_def)
next
  case False
  have l: "unat (of_nat (length d) :: u32) = length d" using assms(1) by (intro unat_of_nat_small) simp
  have t: "take n (kind # be32 (of_nat (length d)) @ d) = kind # be32 (of_nat (length d)) @ take (n - 5) d"
    using False by (cases n) (simp_all add: take_Cons' numeral_eq_Suc)
  have "\<not> length d \<le> length (take (n - 5) d)" using assms(2) False by simp
  then show ?thesis using l t by (auto simp: readFrame_def readFull_def frame_bytes_def)
qed

section \<open>Properties\<close>

text \<open>A signalling message is framed faithfully: what \<open>writeFrame\<close> puts on the stream, \<open>readFrame\<close> reads
  back as the same kind and data whatever follows on the stream, and a stream cut short anywhere is
  an error, never a shorter message. The length field has 32 bits.\<close>

theorem signal_frame_roundtrip:
  assumes "length d < 2 ^ 32"
  shows "snd (writeFrame (\<lambda>_. Inr ()) kind d) = fst (frame_bytes kind d) @ d \<and>
    readFrame (snd (writeFrame (\<lambda>_. Inr ()) kind d) @ rest) = Inr (kind, d) \<and>
    (n < 5 + length d \<longrightarrow> (\<exists>e. readFrame (take n (snd (writeFrame (\<lambda>_. Inr ()) kind d))) = Inl e))"
proof -
  have w: "snd (writeFrame (\<lambda>_. Inr ()) kind d) = fst (frame_bytes kind d) @ snd (frame_bytes kind d)"
    by (simp add: writeFrame_def frame_bytes_def)
  show ?thesis
    unfolding w using readFrame_frame [OF assms, of kind rest] readFrame_short [OF assms, of n kind]
    by (simp add: frame_bytes_def)
qed

theorem signal_frame_roundtrip_witness:
  "readFrame (snd (writeFrame (\<lambda>_. Inr ()) 111 [1, 2, 3]) @ [9]) = Inr (111, [1, 2, 3])"
proof -
  have "length [1, 2, 3 :: byte] < 2 ^ 32" by simp
  from signal_frame_roundtrip [OF this] show ?thesis by blast
qed

text \<open>C38. The answer of a DHT signaler follows the peer whose offer arrived last, not the one whose offer was
  taken from the queue: when another peer's offer arrives between \<open>RecvSDP\<close> and the answer, the answer
  to the first peer's offer is sent to the other peer.\<close>

theorem dht_answer_misrouted:
  assumes s: "dh_offerIn s = [\<lparr> of_from = a, of_data = offer \<rparr>]" "\<not> dh_done s" "length other < 2 ^ 32" "c \<noteq> []"
    and w: "open_stream c = Inr (\<lambda>_. Inr ())"
  shows "\<exists>s1 s3. dht_RecvSDP decode pick [] s = Some (Inr offer, s1) \<and> dh_lastRemote s1 = a \<and>
    dht_SendSDP decode open_stream [] answer
      (snd (dht_onStream pick c (snd (writeFrame (\<lambda>_. Inr ()) (byte_of (CHR ''o'')) other)) s1)) = Some (Inr (), s3) \<and>
    dh_streams s3 = dh_streams s @ [(c, snd (writeFrame (\<lambda>_. Inr ()) (byte_of (CHR ''a'')) answer))]"
proof -
  let ?raw = "snd (writeFrame (\<lambda>_. Inr ()) (byte_of (CHR ''o'')) other)"
  let ?s1 = "s\<lparr> dh_offerIn := [], dh_lastRemote := a \<rparr>"
  have r: "readFrame ?raw = Inr (byte_of (CHR ''o''), other)"
    using readFrame_frame [OF s(3), of "byte_of (CHR ''o'')" "[]"] by (simp add: writeFrame_def frame_bytes_def)
  have "dht_onStream pick c ?raw ?s1 = (None, ?s1\<lparr> dh_lastRemote := c, dh_offerIn := [\<lparr> of_from = c, of_data = other \<rparr>] \<rparr>)"
    using s(2) by (simp add: dht_onStream_def r dht_queue_def enqueue_def dht_cap_def)
  moreover have "dht_RecvSDP decode pick [] s = Some (Inr offer, ?s1)" using s by (simp add: dht_RecvSDP_def)
  ultimately show ?thesis
    using s(4) w by (simp add: dht_SendSDP_def dht_sendStream_def dht_target_def writeFrame_def frame_bytes_def)
qed

theorem dht_answer_misrouted_witness:
  "\<exists>s1 s3. dht_RecvSDP Inr False [] (newDHT \<lparr> ai_ID = ''B'', ai_Addrs = [] \<rparr>\<lparr> dh_offerIn := [\<lparr> of_from = ''A'', of_data = [1] \<rparr>] \<rparr>) = Some (Inr [1], s1) \<and>
    dh_lastRemote s1 = ''A'' \<and>
    dht_SendSDP Inr (\<lambda>_. Inr (\<lambda>_. Inr ())) [] [7]
      (snd (dht_onStream False ''C'' (snd (writeFrame (\<lambda>_. Inr ()) (byte_of (CHR ''o'')) [2])) s1)) = Some (Inr (), s3) \<and>
    dh_streams s3 = dh_streams (newDHT \<lparr> ai_ID = ''B'', ai_Addrs = [] \<rparr>\<lparr> dh_offerIn := [\<lparr> of_from = ''A'', of_data = [1] \<rparr>] \<rparr>) @ [(''C'', snd (writeFrame (\<lambda>_. Inr ()) (byte_of (CHR ''a'')) [7]))]"
  by (rule dht_answer_misrouted) (simp_all add: newDHT_def)

section \<open>Construction and its failures\<close>

text \<open>However \<open>NewDHT\<close> fails, it cancels its context and leaves no host open, and a DHT stays unclosed only
  where \<open>libp2p.New\<close> itself fails after the routing constructor succeeded; when it returns a signaler, host
  and DHT are open, the context has ended only if the caller's has, and the signaler is a fresh one (\<open>newDHT\<close>: the handler of the
  signalling protocol set, every queue empty) for the host that listens on the given addresses, or on
  IPv4 and IPv6, TCP and QUIC, when none are given.\<close>

lemma NewDHT_fails:
  assumes "fst (NewDHT parent lp addrs) = Inl e"
  shows "rs_cancelled (snd (NewDHT parent lp addrs)) \<and> \<not> rs_host (snd (NewDHT parent lp addrs)) \<and>
     (rs_kad (snd (NewDHT parent lp addrs)) \<longleftrightarrow> lp_routing lp \<and> lp_dhtNew lp = Inr () \<and>
        (\<exists>e. lp_New lp (if addrs = [] then defaultListenAddrs else addrs) (Some (Inr ())) = Inl e))"
  using assms by (auto simp: NewDHT_def Let_def split: sum.splits if_split_asm)

lemma NewDHT_returns:
  assumes "fst (NewDHT parent lp addrs) = Inr s"
  shows "snd (NewDHT parent lp addrs) = \<lparr> rs_cancelled = parent, rs_host = True, rs_kad = True \<rparr> \<and> s = (newDHT (dht_AddrInfo s))\<lparr> dh_done := parent \<rparr> \<and>
     lp_New lp (if addrs = [] then defaultListenAddrs else addrs) (Some (Inr ())) = Inr (dht_AddrInfo s)"
  using assms by (auto simp: NewDHT_def newDHT_def dht_AddrInfo_def Let_def split: sum.splits if_split_asm)

lemma defaultListenAddrs_all:
  "ip \<in> {''/ip4/0.0.0.0'', ''/ip6/::''} \<Longrightarrow> tr \<in> {''/tcp/0'', ''/udp/0/quic-v1''} \<Longrightarrow> ip @ tr \<in> set defaultListenAddrs"
  unfolding defaultListenAddrs_def by (elim insertE emptyE) simp_all

theorem NewDHT_no_leak:
  "(fst (NewDHT parent lp addrs) = Inl e \<longrightarrow> rs_cancelled (snd (NewDHT parent lp addrs)) \<and> \<not> rs_host (snd (NewDHT parent lp addrs)) \<and>
     (rs_kad (snd (NewDHT parent lp addrs)) \<longleftrightarrow> lp_routing lp \<and> lp_dhtNew lp = Inr () \<and>
        (\<exists>e. lp_New lp (if addrs = [] then defaultListenAddrs else addrs) (Some (Inr ())) = Inl e))) \<and>
   (fst (NewDHT parent lp addrs) = Inr s \<longrightarrow> snd (NewDHT parent lp addrs) = \<lparr> rs_cancelled = parent, rs_host = True, rs_kad = True \<rparr> \<and>
     s = (newDHT (dht_AddrInfo s))\<lparr> dh_done := parent \<rparr> \<and>
     lp_New lp (if addrs = [] then defaultListenAddrs else addrs) (Some (Inr ())) = Inr (dht_AddrInfo s))"
  using NewDHT_fails NewDHT_returns by blast

text \<open>The relay loop without and with a cancelled context.\<close>

lemma relay_loop_all:
  "(\<And>p. p \<in> set ps \<Longrightarrow> \<not> stop p) \<Longrightarrow>
   relay_loop info stop num ps = take (nat num) (map (\<lambda>p. \<lparr> ai_ID = p, ai_Addrs = info p \<rparr>) (filter (\<lambda>p. info p \<noteq> []) ps))"
proof (induction ps arbitrary: num)
  case (Cons p ps)
  show ?case
  proof (cases "num \<le> 0")
    case False
    then have "nat num = Suc (nat (num - 1))" by simp
    with False Cons show ?thesis by (simp add: Let_def)
  qed simp
qed simp

lemma relay_loop_prefix:
  "\<exists>rest. take (nat num) (map (\<lambda>p. \<lparr> ai_ID = p, ai_Addrs = info p \<rparr>) (filter (\<lambda>p. info p \<noteq> []) ps)) =
     relay_loop info stop num ps @ rest"
proof (induction ps arbitrary: num)
  case (Cons p ps)
  show ?case
  proof (cases "num \<le> 0")
    case False
    then have "nat num = Suc (nat (num - 1))" by simp
    with False Cons [of num] Cons [of "num - 1"] show ?thesis by (auto simp: Let_def)
  qed simp
qed simp

text \<open>C32. The relay candidates are the first \<open>num\<close> peers of the routing table that have an address, in its order,
  up to the point where the context is cancelled; so the channel of capacity \<open>num\<close> never blocks the
  goroutine that fills it.\<close>

theorem relay_candidates:
  assumes "0 \<le> num"
  shows "\<exists>cs rest. relaySource True True peers info stop num = Some cs \<and>
    take (nat num) (map (\<lambda>p. \<lparr> ai_ID = p, ai_Addrs = info p \<rparr>) (filter (\<lambda>p. info p \<noteq> []) peers)) = cs @ rest \<and>
    length cs \<le> nat num \<and> ((\<forall>p\<in>set peers. \<not> stop p) \<longrightarrow> rest = [])"
proof -
  let ?all = "take (nat num) (map (\<lambda>p. \<lparr> ai_ID = p, ai_Addrs = info p \<rparr>) (filter (\<lambda>p. info p \<noteq> []) peers))"
  obtain rest where r: "?all = relay_loop info stop num peers @ rest"
    using relay_loop_prefix by blast
  have "length (relay_loop info stop num peers) \<le> length ?all" unfolding r by simp
  then have "length (relay_loop info stop num peers) \<le> nat num" by simp
  moreover have "(\<forall>p\<in>set peers. \<not> stop p) \<longrightarrow> rest = []" using r relay_loop_all [of peers stop info num] by auto
  ultimately show ?thesis using r assms by (auto simp: relaySource_def)
qed

theorem relay_candidates_witness:
  "relaySource True True [''p'', ''q'', ''r''] (\<lambda>p. if p = ''q'' then [] else [p]) (\<lambda>_. False) 1 =
     Some [\<lparr> ai_ID = ''p'', ai_Addrs = [''p''] \<rparr>]"
  using relay_candidates [of 1 "[''p'', ''q'', ''r'']" "\<lambda>p. if p = ''q'' then [] else [p]" "\<lambda>_. False"] by simp

text \<open>\<open>BootstrapPublic\<close> dials every bootstrap peer once, whatever the others answer, and does nothing else.\<close>

lemma BootstrapPublic_run:
  "dht_BootstrapPublic connect peers s = Some (Inr (), s\<lparr> dh_dials := dh_dials s @ peers \<rparr>)"
  by (induction peers arbitrary: s) (simp_all add: dht_dial_def go_defs)

text \<open>\<open>Find\<close> gives the first peer found that is not this one and has an address, and remembers its addresses.\<close>

lemma dht_find_loop_run:
  "dht_find_loop found s =
     (case find (\<lambda>ai. ai_ID ai \<noteq> dh_id s \<and> ai_Addrs ai \<noteq> []) found of
        None \<Rightarrow> Some (Inl ''signaling: peer not found in DHT'', s)
      | Some ai \<Rightarrow> Some (Inr \<lparr> pi_peerID = ai_ID ai, pi_addresses = ai_Addrs ai \<rparr>, dht_AddAddrs ai s))"
  by (induction found s rule: dht_find_loop.induct) simp_all

section \<open>The invariant of a signaler\<close>

text \<open>The states a signaler reaches by its own calls, by the streams that arrive and by the end of the context it
  was made with; \<open>closed\<close> and \<open>parent\<close> record whether \<open>Close\<close> was called and whether that context has ended.\<close>

inductive dht_reach :: "bool \<Rightarrow> bool \<Rightarrow> dhtSignaler \<Rightarrow> bool" where
  r_new: "fst (NewDHT parent lp addrs) = Inr s \<Longrightarrow> dht_reach False parent s"
| r_parent: "dht_reach closed parent s \<Longrightarrow> dht_reach closed True (s\<lparr> dh_done := True \<rparr>)"
| r_advertise: "dht_reach closed parent s \<Longrightarrow> dht_Advertise k s = Some (u, t) \<Longrightarrow> dht_reach closed parent t"
| r_find: "dht_reach closed parent s \<Longrightarrow> dht_Find findPeers k s = Some (i, t) \<Longrightarrow> dht_reach closed parent t"
| r_sendSDP: "dht_reach closed parent s \<Longrightarrow> dht_SendSDP decode open_stream p d s = Some (u, t) \<Longrightarrow> dht_reach closed parent t"
| r_recvSDP: "dht_reach closed parent s \<Longrightarrow> dht_RecvSDP decode pick p s = Some (x, t) \<Longrightarrow> dht_reach closed parent t"
| r_sendCandidate: "dht_reach closed parent s \<Longrightarrow> dht_SendCandidate decode open_stream p d s = Some (u, t) \<Longrightarrow> dht_reach closed parent t"
| r_recvCandidate: "dht_reach closed parent s \<Longrightarrow> dht_RecvCandidate pick s = Some (x, t) \<Longrightarrow> dht_reach closed parent t"
| r_bootstrap: "dht_reach closed parent s \<Longrightarrow> dht_BootstrapPublic connect peers s = Some (u, t) \<Longrightarrow> dht_reach closed parent t"
| r_connect: "dht_reach closed parent s \<Longrightarrow> dht_Connect connect info s = Some (u, t) \<Longrightarrow> dht_reach closed parent t"
| r_stream: "dht_reach closed parent s \<Longrightarrow> dht_onStream pick remote raw s = (waits, t) \<Longrightarrow> dht_reach closed parent t"
| r_resume: "dht_reach closed parent s \<Longrightarrow> dht_queue pick remote kind d s = Some t \<Longrightarrow> dht_reach closed parent t"
| r_close: "dht_reach closed parent s \<Longrightarrow> dht_Close res s = Some (u, t) \<Longrightarrow> dht_reach True parent t"

definition dht_inv :: "bool \<Rightarrow> bool \<Rightarrow> dhtSignaler \<Rightarrow> bool" where
  "dht_inv closed parent s \<longleftrightarrow>
     length (dh_offerIn s) \<le> dht_cap \<and> length (dh_candIn s) \<le> dht_cap \<and>
     (\<forall>p q. gm_get (dh_answers s) p = Some q \<longrightarrow> length q \<le> dht_cap) \<and>
     distinct (dh_loops s) \<and> (\<forall>ns. ns \<in> set (dh_loops s) \<longleftrightarrow> gm_get (dh_advertised s) ns \<noteq> None) \<and>
     dh_handler s = signalProtocol \<and>
     dh_host s = (\<not> closed) \<and> dh_kad s = (\<not> closed) \<and> dh_done s = (closed \<or> parent)"

lemma enqueue_cap: "enqueue cancelled pick q x = Some q' \<Longrightarrow> length q \<le> dht_cap \<Longrightarrow> length q' \<le> dht_cap"
  by (auto simp: enqueue_def split: if_splits)

lemma dht_inv_queue:
  assumes "dht_inv c p s" "dht_queue pick remote kind d s = Some t"
  shows "dht_inv c p t"
  using assms unfolding dht_queue_def dht_inv_def dht_answerChan_def
  by (auto split: if_splits option.splits dest: enqueue_cap)

lemma dht_inv_stream:
  assumes "dht_inv c p s" "dht_onStream pick remote raw s = (waits, t)"
  shows "dht_inv c p t"
proof -
  have last: "dht_inv c p (s\<lparr> dh_lastRemote := r \<rparr>)" for r using assms(1) by (simp add: dht_inv_def)
  show ?thesis
    using assms dht_inv_queue [OF last] dht_inv_queue [OF assms(1)] last
    by (auto simp: dht_onStream_def Let_def split: sum.splits option.splits if_splits)
qed

lemma dht_inv_send: "dht_inv c p s \<Longrightarrow> dht_sendStream decode open_stream peer kind d s = Some (u, t) \<Longrightarrow> dht_inv c p t"
  by (auto simp: dht_sendStream_def dht_inv_def split: sum.splits prod.splits)

lemma dht_inv_recv:
  assumes "dht_inv c p s" "dht_RecvSDP decode pick peer s = Some (x, t)"
  shows "dht_inv c p t"
  using assms unfolding dht_RecvSDP_def dht_answerChan_def dht_inv_def
  by (auto split: if_splits list.splits sum.splits option.splits) fastforce+

text \<open>C16. However long a signaler runs, and whatever libp2p and the peers do: no queue exceeds its capacity of
  eight; for every key that was advertised exactly one advertise loop was started, however often the
  key is advertised; the stream handler stays installed; the host and the DHT are open exactly until \<open>Close\<close> is
  called; and the context has ended exactly when \<open>Close\<close> was called or the context the signaler was made
  with has ended, which leaves host and DHT open.\<close>

theorem dht_reach_inv:
  assumes "dht_reach closed parent s"
  shows "dht_inv closed parent s"
  using assms
proof induction
  case (r_new parent lp addrs s)
  then show ?case by (auto simp: NewDHT_def newDHT_def dht_inv_def Let_def split: sum.splits if_splits)
next
  case (r_find closed parent s findPeers k i t)
  then show ?case
    by (auto simp: dht_Find_def dht_find_loop_run dht_AddAddrs_def dht_inv_def split: sum.splits option.splits)
next
  case (r_recvSDP closed parent s decode pick p x t)
  then show ?case by (blast intro: dht_inv_recv)
next
  case (r_stream closed parent s pick remote raw waits t)
  then show ?case by (blast intro: dht_inv_stream)
next
  case (r_resume closed parent s pick remote kind d t)
  then show ?case by (blast intro: dht_inv_queue)
next
  case (r_recvCandidate closed parent s pick x t)
  then show ?case by (auto simp: dht_RecvCandidate_def dht_inv_def split: list.splits if_splits)
qed (auto simp: dht_SendSDP_def dht_SendCandidate_def BootstrapPublic_run intro: dht_inv_send split: if_splits,
     auto simp: dht_inv_def dht_Advertise_def dht_Connect_def dht_AddAddrs_def dht_dial_def dht_Close_def Let_def
       split: if_splits)

text \<open>A run: a signaler advertises one key twice, receives an offer, and its parent context ends.\<close>

definition toy_libp2p :: libp2p_lib where
  "toy_libp2p = \<lparr> lp_routing = True, lp_dhtNew = Inr (),
     lp_New = (\<lambda>_ _. Inr \<lparr> ai_ID = ''B'', ai_Addrs = [''/ip4/1.2.3.4/tcp/1''] \<rparr>), lp_Bootstrap = Inr () \<rparr>"

theorem dht_reach_inv_witness:
  "\<exists>s. dht_reach False True s \<and> dht_inv False True s \<and> dh_loops s = [hex_encode [7]] \<and>
     dh_offerIn s = [\<lparr> of_from = ''A'', of_data = [1, 2, 3] \<rparr>] \<and> dh_host s \<and> dh_kad s \<and> dh_done s"
proof -
  let ?n = "newDHT \<lparr> ai_ID = ''B'', ai_Addrs = [''/ip4/1.2.3.4/tcp/1''] \<rparr>"
  let ?a = "?n\<lparr> dh_advertised := gm_put (hex_encode [7]) () (dh_advertised ?n), dh_loops := [hex_encode [7]] \<rparr>"
  let ?o = "?a\<lparr> dh_lastRemote := ''A'', dh_offerIn := [\<lparr> of_from = ''A'', of_data = [1, 2, 3] \<rparr>] \<rparr>"
  let ?raw = "fst (frame_bytes (byte_of (CHR ''o'')) [1, 2, 3]) @ snd (frame_bytes (byte_of (CHR ''o'')) [1, 2, 3])"
  have "dht_reach False False ?n"
    by (rule r_new [of _ toy_libp2p "[]"]) (simp add: NewDHT_def toy_libp2p_def newDHT_def)
  then have "dht_reach False False ?a"
    by (rule r_advertise [of _ _ _ "[7]" "Inr ()"]) (simp add: dht_Advertise_def newDHT_def Let_def)
  then have "dht_reach False False ?a"
    by (rule r_advertise [of _ _ _ "[7]" "Inr ()"]) (simp add: dht_Advertise_def Let_def)
  then have "dht_reach False False ?o"
    by (rule r_stream [of _ _ _ True "''A''" ?raw None])
       (simp add: dht_onStream_def readFrame_frame [of "[1, 2, 3]" _ "[]", simplified] dht_queue_def enqueue_def newDHT_def dht_cap_def)
  from r_parent [OF this] have r: "dht_reach False True (?o\<lparr> dh_done := True \<rparr>)" .
  from dht_reach_inv [OF r] r show ?thesis
    by (intro exI [of _ "?o\<lparr> dh_done := True \<rparr>"]) (simp add: newDHT_def)
qed

end
