(* ===== verification/Json.thy ===== *)
theory Json
  imports Encoding
begin

text \<open>
  The part of Go's \<open>encoding/json\<close> the sources rely on. A document is a \<open>json\<close> tree whose numbers are
  kept as their literals; \<open>json_text\<close> writes it the way \<open>json.Marshal\<close> does (no spaces, HTML-safe
  escapes, invalid UTF-8 replaced) and \<open>json_parse\<close> reads any text the way \<open>json.Unmarshal\<close> does
  (white space, all escapes, surrogate pairs, number literals). The library's limit of 10000
  nested values is not modelled.

  A struct type is described by its field table (\<open>'a jfields\<close>): \<open>json_into\<close> stores the members of an
  object into a struct value with the library's rules (exact field name first, then case-insensitive;
  unknown members ignored; \<open>null\<close> leaves a value unchanged; a member of the wrong type is reported
  but the remaining members are still stored).
\<close>

datatype json =
    JNull
  | JBool bool
  | JNum string
  | JStr string
  | JArr "json list"
  | JObj "(string \<times> json) list"

section \<open>UTF-8\<close>

abbreviation cc :: "char \<Rightarrow> nat" where
  "cc c \<equiv> of_char c"

definition is_cont :: "char \<Rightarrow> bool" where
  "is_cont c = (0x80 \<le> cc c \<and> cc c \<le> 0xBF)"

text \<open>The number of continuation bytes of a valid multi-byte sequence that starts with \<open>c\<close>.\<close>

definition utf8_tail :: "char \<Rightarrow> string \<Rightarrow> nat option" where
  "utf8_tail c cs =
     (let b = cc c in
      if 0xC2 \<le> b \<and> b \<le> 0xDF then
        (case cs of x # _ \<Rightarrow> if is_cont x then Some 1 else None | _ \<Rightarrow> None)
      else if 0xE0 \<le> b \<and> b \<le> 0xEF then
        (case cs of x # y # _ \<Rightarrow>
            if (if b = 0xE0 then 0xA0 else 0x80) \<le> cc x \<and> cc x \<le> (if b = 0xED then 0x9F else 0xBF) \<and> is_cont y
            then Some 2 else None
          | _ \<Rightarrow> None)
      else if 0xF0 \<le> b \<and> b \<le> 0xF4 then
        (case cs of x # y # z # _ \<Rightarrow>
            if (if b = 0xF0 then 0x90 else 0x80) \<le> cc x \<and> cc x \<le> (if b = 0xF4 then 0x8F else 0xBF) \<and> is_cont y \<and> is_cont z
            then Some 3 else None
          | _ \<Rightarrow> None)
      else None)"

fun utf8_valid :: "string \<Rightarrow> bool" where
  "utf8_valid [] = True"
| "utf8_valid (c # cs) =
     (if cc c < 0x80 then utf8_valid cs
      else case utf8_tail c cs of None \<Rightarrow> False | Some k \<Rightarrow> utf8_valid (drop k cs))"

definition utf8_encode :: "nat \<Rightarrow> string" where
  "utf8_encode r =
     map char_of
       (if r < 0x80 then [r]
        else if r < 0x800 then [0xC0 + r div 64, 0x80 + r mod 64]
        else if r < 0x10000 then [0xE0 + r div 4096, 0x80 + r div 64 mod 64, 0x80 + r mod 64]
        else [0xF0 + r div 262144, 0x80 + r div 4096 mod 64, 0x80 + r div 64 mod 64, 0x80 + r mod 64])"

definition rune_error :: string where
  "rune_error = utf8_encode 0xFFFD"

section \<open>Writing\<close>

definition esc_unit :: "nat \<Rightarrow> string" where
  "esc_unit r = [CHR 0x5C, CHR ''u'', hex_digits ! (r div 4096), hex_digits ! (r div 256 mod 16),
     hex_digits ! (r div 16 mod 16), hex_digits ! (r mod 16)]"

definition esc_ascii :: "char \<Rightarrow> string" where
  "esc_ascii c =
     (if c = CHR 0x22 \<or> c = CHR 0x5C then [CHR 0x5C, c]
      else if c = CHR 0x08 then [CHR 0x5C, CHR ''b'']
      else if c = CHR 0x0C then [CHR 0x5C, CHR ''f'']
      else if c = CHR 0x0A then [CHR 0x5C, CHR ''n'']
      else if c = CHR 0x0D then [CHR 0x5C, CHR ''r'']
      else if c = CHR 0x09 then [CHR 0x5C, CHR ''t'']
      else if cc c < 0x20 \<or> c = CHR ''<'' \<or> c = CHR ''>'' \<or> c = CHR ''&'' then esc_unit (cc c)
      else [c])"

definition esc_multi :: "string \<Rightarrow> string" where
  "esc_multi u = (if u = utf8_encode 0x2028 then esc_unit 0x2028
     else if u = utf8_encode 0x2029 then esc_unit 0x2029 else u)"

fun json_escape :: "string \<Rightarrow> string" where
  "json_escape [] = []"
| "json_escape (c # cs) =
     (if cc c < 0x80 then esc_ascii c @ json_escape cs
      else case utf8_tail c cs of
          None \<Rightarrow> esc_unit 0xFFFD @ json_escape cs
        | Some k \<Rightarrow> esc_multi (c # take k cs) @ json_escape (drop k cs))"

definition json_quote :: "string \<Rightarrow> string" where
  "json_quote s = CHR 0x22 # json_escape s @ [CHR 0x22]"

primrec join_comma :: "string list \<Rightarrow> string" where
  "join_comma [] = []"
| "join_comma (x # xs) = x @ (if xs = [] then [] else CHR '','' # join_comma xs)"

fun json_text :: "json \<Rightarrow> string" where
  "json_text JNull = ''null''"
| "json_text (JBool b) = (if b then ''true'' else ''false'')"
| "json_text (JNum lit) = lit"
| "json_text (JStr s) = json_quote s"
| "json_text (JArr js) = CHR ''['' # join_comma (map json_text js) @ '']''"
| "json_text (JObj ms) = CHR ''{'' # join_comma (map (\<lambda>(k, v). json_quote k @ CHR '':'' # json_text v) ms) @ ''}''"

section \<open>Reading\<close>

definition is_ws :: "char \<Rightarrow> bool" where
  "is_ws c = (c = CHR 0x20 \<or> c = CHR 0x09 \<or> c = CHR 0x0A \<or> c = CHR 0x0D)"

abbreviation skip_ws :: "string \<Rightarrow> string" where
  "skip_ws \<equiv> dropWhile is_ws"

definition hex_val :: "char \<Rightarrow> nat option" where
  "hex_val c = (case index_of c hex_digits of Some d \<Rightarrow> Some d | None \<Rightarrow> index_of c ''0123456789ABCDEF'')"

fun hex4 :: "string \<Rightarrow> nat option" where
  "hex4 (a # b # c # d # r) =
     (case (hex_val a, hex_val b, hex_val c, hex_val d) of
        (Some i, Some j, Some k, Some l) \<Rightarrow> Some (i * 4096 + j * 256 + k * 16 + l)
      | _ \<Rightarrow> None)"
| "hex4 _ = None"

text \<open>The code unit of a numeric escape at the front of a text.\<close>

definition unit_escape :: "string \<Rightarrow> nat option" where
  "unit_escape s = (case s of b # u # r \<Rightarrow> if b = CHR 0x5C \<and> u = CHR ''u'' then hex4 r else None | _ \<Rightarrow> None)"

definition simple_escape :: "char \<Rightarrow> char option" where
  "simple_escape e =
     (if e = CHR 0x22 \<or> e = CHR 0x5C \<or> e = CHR ''/'' then Some e
      else if e = CHR ''b'' then Some (CHR 0x08)
      else if e = CHR ''f'' then Some (CHR 0x0C)
      else if e = CHR ''n'' then Some (CHR 0x0A)
      else if e = CHR ''r'' then Some (CHR 0x0D)
      else if e = CHR ''t'' then Some (CHR 0x09)
      else None)"

text \<open>The contents of a string literal after its opening quote, and the text after its closing quote.\<close>

function json_unescape :: "string \<Rightarrow> (string \<times> string) option" where
  "json_unescape [] = None"
| "json_unescape (c # cs) =
     (if c = CHR 0x22 then Some ([], cs)
      else if c = CHR 0x5C then
        (case cs of
           [] \<Rightarrow> None
         | e # r \<Rightarrow>
             (case simple_escape e of
                Some x \<Rightarrow> map_option (\<lambda>(t, r'). (x # t, r')) (json_unescape r)
              | None \<Rightarrow>
                  (if e \<noteq> CHR ''u'' then None
                   else case hex4 r of
                       None \<Rightarrow> None
                     | Some hi \<Rightarrow>
                         (if hi < 0xD800 \<or> 0xDFFF < hi then
                            map_option (\<lambda>(t, r'). (utf8_encode hi @ t, r')) (json_unescape (drop 4 r))
                          else case unit_escape (drop 4 r) of
                              Some lo \<Rightarrow>
                                (if hi < 0xDC00 \<and> 0xDC00 \<le> lo \<and> lo \<le> 0xDFFF then
                                   map_option (\<lambda>(t, r'). (utf8_encode (0x10000 + (hi - 0xD800) * 1024 + (lo - 0xDC00)) @ t, r'))
                                     (json_unescape (drop 10 r))
                                 else map_option (\<lambda>(t, r'). (rune_error @ t, r')) (json_unescape (drop 4 r)))
                            | None \<Rightarrow> map_option (\<lambda>(t, r'). (rune_error @ t, r')) (json_unescape (drop 4 r))))))
      else if cc c < 0x20 then None
      else if cc c < 0x80 then map_option (\<lambda>(t, r'). (c # t, r')) (json_unescape cs)
      else case utf8_tail c cs of
          None \<Rightarrow> map_option (\<lambda>(t, r'). (rune_error @ t, r')) (json_unescape cs)
        | Some k \<Rightarrow> map_option (\<lambda>(t, r'). (c # take k cs @ t, r')) (json_unescape (drop k cs)))"
  by pat_completeness auto
termination by (relation "measure length") auto


text \<open>Number literals: an optional minus sign, an integer part without leading zeros, an optional
  fraction and an optional exponent.\<close>

definition is_digit :: "char \<Rightarrow> bool" where
  "is_digit c = (index_of c dec_digits \<noteq> None)"

definition num_int :: "string \<Rightarrow> (string \<times> string) option" where
  "num_int s =
     (case s of
        [] \<Rightarrow> None
      | c # cs \<Rightarrow> if c = CHR ''0'' then Some ([c], cs)
          else if is_digit c then Some (c # takeWhile is_digit cs, dropWhile is_digit cs)
          else None)"

definition num_frac :: "string \<Rightarrow> (string \<times> string) option" where
  "num_frac s =
     (case s of
        c # cs \<Rightarrow> if c = CHR ''.'' then
            (if takeWhile is_digit cs = [] then None
             else Some (c # takeWhile is_digit cs, dropWhile is_digit cs))
          else Some ([], s)
      | [] \<Rightarrow> Some ([], s))"

definition num_exp :: "string \<Rightarrow> (string \<times> string) option" where
  "num_exp s =
     (case s of
        c # cs \<Rightarrow> if c = CHR ''e'' \<or> c = CHR ''E'' then
            (let sg = (case cs of x # _ \<Rightarrow> if x = CHR ''+'' \<or> x = CHR ''-'' then [x] else [] | [] \<Rightarrow> []);
                 ds = drop (length sg) cs
             in if takeWhile is_digit ds = [] then None
                else Some (c # sg @ takeWhile is_digit ds, dropWhile is_digit ds))
          else Some ([], s)
      | [] \<Rightarrow> Some ([], s))"

definition json_number :: "string \<Rightarrow> (string \<times> string) option" where
  "json_number s =
     (let sg = (case s of c # _ \<Rightarrow> if c = CHR ''-'' then [c] else [] | [] \<Rightarrow> []) in
      case num_int (drop (length sg) s) of
        None \<Rightarrow> None
      | Some (i, r) \<Rightarrow>
          (case num_frac r of
             None \<Rightarrow> None
           | Some (f, r') \<Rightarrow>
               (case num_exp r' of
                  None \<Rightarrow> None
                | Some (e, r'') \<Rightarrow> Some (sg @ i @ f @ e, r''))))"

definition eat :: "string \<Rightarrow> string \<Rightarrow> string option" where
  "eat pre s = (if take (length pre) s = pre then Some (drop (length pre) s) else None)"

text \<open>Values, elements of an array and members of an object. The first argument bounds the recursion;
  every call consumes a character, so the length of the text is enough (\<open>jvalue_fuel\<close>).\<close>

fun jvalue :: "nat \<Rightarrow> string \<Rightarrow> (json \<times> string) option"
and jelems :: "nat \<Rightarrow> string \<Rightarrow> (json list \<times> string) option"
and jmembers :: "nat \<Rightarrow> string \<Rightarrow> ((string \<times> json) list \<times> string) option" where
  "jvalue 0 s = None"
| "jvalue (Suc n) s =
     (case skip_ws s of
        [] \<Rightarrow> None
      | c # cs \<Rightarrow>
          if c = CHR 0x22 then map_option (\<lambda>(t, r). (JStr t, r)) (json_unescape cs)
          else if c = CHR ''{'' then
            (case eat ''}'' (skip_ws cs) of
               Some r \<Rightarrow> Some (JObj [], r)
             | None \<Rightarrow> map_option (\<lambda>(ms, r). (JObj ms, r)) (jmembers n cs))
          else if c = CHR ''['' then
            (case eat '']'' (skip_ws cs) of
               Some r \<Rightarrow> Some (JArr [], r)
             | None \<Rightarrow> map_option (\<lambda>(js, r). (JArr js, r)) (jelems n cs))
          else if c = CHR ''n'' then map_option (\<lambda>r. (JNull, r)) (eat ''ull'' cs)
          else if c = CHR ''t'' then map_option (\<lambda>r. (JBool True, r)) (eat ''rue'' cs)
          else if c = CHR ''f'' then map_option (\<lambda>r. (JBool False, r)) (eat ''alse'' cs)
          else map_option (\<lambda>(l, r). (JNum l, r)) (json_number (c # cs)))"
| "jelems 0 s = None"
| "jelems (Suc n) s =
     (case jvalue n s of
        None \<Rightarrow> None
      | Some (v, r) \<Rightarrow>
          (case skip_ws r of
             [] \<Rightarrow> None
           | c # r' \<Rightarrow>
               if c = CHR '','' then map_option (\<lambda>(vs, r''). (v # vs, r'')) (jelems n r')
               else if c = CHR '']'' then Some ([v], r')
               else None))"
| "jmembers 0 s = None"
| "jmembers (Suc n) s =
     (case skip_ws s of
        [] \<Rightarrow> None
      | q # qs \<Rightarrow>
          if q \<noteq> CHR 0x22 then None
          else case json_unescape qs of
              None \<Rightarrow> None
            | Some (k, r) \<Rightarrow>
                (case eat '':'' (skip_ws r) of
                   None \<Rightarrow> None
                 | Some r' \<Rightarrow>
                     (case jvalue n r' of
                        None \<Rightarrow> None
                      | Some (v, s') \<Rightarrow>
                          (case skip_ws s' of
                             [] \<Rightarrow> None
                           | c # s'' \<Rightarrow>
                               if c = CHR '','' then map_option (\<lambda>(ms, t). ((k, v) # ms, t)) (jmembers n s'')
                               else if c = CHR ''}'' then Some ([(k, v)], s'')
                               else None))))"

definition json_parse :: "string \<Rightarrow> json option" where
  "json_parse s =
     (case jvalue (2 * length s + 2) s of
        None \<Rightarrow> None
      | Some (j, r) \<Rightarrow> if skip_ws r = [] then Some j else None)"


section \<open>Reading back what was written\<close>

subsection \<open>Strings\<close>

lemma utf8_tail_take:
  "utf8_tail c cs = Some k \<Longrightarrow> k \<le> length cs \<and> utf8_tail c (take k cs @ zs) = Some k"
  by (auto simp: utf8_tail_def Let_def split: if_splits list.splits)

lemma utf8_tail_high: "utf8_tail c cs = Some k \<Longrightarrow> 0x80 \<le> cc c"
  by (auto simp: utf8_tail_def Let_def split: if_splits)

lemma hex_val_digit [simp]: "d < 16 \<Longrightarrow> hex_val (hex_digits ! d) = Some d"
  by (simp add: hex_val_def index_of_nth hex_digits_props)

lemma hex4_esc:
  assumes "r < 65536"
  shows "hex4 (drop 2 (esc_unit r) @ zs) = Some r"
proof -
  have lt: "r div 4096 < 16" using assms by linarith
  have "r div 4096 = r div 256 div 16" "r div 256 = r div 16 div 16"
    by (simp_all add: div_mult2_eq [symmetric])
  then have "r div 4096 * 4096 + r div 256 mod 16 * 256 + r div 16 mod 16 * 16 + r mod 16 = r"
    using div_mult_mod_eq [of r 16] div_mult_mod_eq [of "r div 16" 16] div_mult_mod_eq [of "r div 256" 16]
    by linarith
  with lt show ?thesis by (simp add: esc_unit_def)
qed

lemma unescape_esc_unit:
  assumes "r < 0xD800"
  shows "json_unescape (esc_unit r @ zs) = map_option (\<lambda>(t, r'). (utf8_encode r @ t, r')) (json_unescape zs)"
proof -
  obtain a b c d where u: "esc_unit r = [CHR 0x5C, CHR ''u'', a, b, c, d]"
    by (simp add: esc_unit_def)
  with hex4_esc [of r zs] assms have "hex4 (a # b # c # d # zs) = Some r" by simp
  then show ?thesis using assms by (simp add: u simple_escape_def)
qed

lemma utf8_encode_ascii: "cc c < 0x80 \<Longrightarrow> utf8_encode (cc c) = [c]"
  by (simp add: utf8_encode_def)

lemma unescape_esc_ascii:
  assumes "cc c < 0x80"
  shows "json_unescape (esc_ascii c @ zs) = map_option (\<lambda>(t, r'). (c # t, r')) (json_unescape zs)"
proof -
  have "json_unescape (esc_unit (cc c) @ zs) = map_option (\<lambda>(t, r'). (c # t, r')) (json_unescape zs)"
    using assms unescape_esc_unit [of "cc c" zs] by (simp add: utf8_encode_ascii)
  then show ?thesis
    using assms by (simp add: esc_ascii_def simple_escape_def)
qed

lemma unescape_esc_multi:
  assumes "utf8_tail c cs = Some k"
  shows "json_unescape (esc_multi (c # take k cs) @ zs)
      = map_option (\<lambda>(t, r'). (c # take k cs @ t, r')) (json_unescape zs)"
proof (cases "c # take k cs = utf8_encode 0x2028 \<or> c # take k cs = utf8_encode 0x2029")
  case True
  then show ?thesis
    using unescape_esc_unit [of "0x2028" zs] unescape_esc_unit [of "0x2029" zs]
    by (auto simp: esc_multi_def simp flip: append_Cons)
next
  case False
  from utf8_tail_take [OF assms] have k: "k \<le> length cs" "utf8_tail c (take k cs @ zs) = Some k"
    by auto
  from utf8_tail_high [OF assms] have "\<not> cc c < 0x80" "c \<noteq> CHR 0x22" "c \<noteq> CHR 0x5C"
    by auto
  then have "json_unescape (c # take k cs @ zs)
      = map_option (\<lambda>(t, r'). (c # take k cs @ t, r')) (json_unescape zs)"
    using k by simp
  with False show ?thesis by (simp add: esc_multi_def)
qed

lemma json_unescape_escape [codec_simps]:
  "utf8_valid s \<Longrightarrow> json_unescape (json_escape s @ CHR 0x22 # r) = Some (s, r)"
proof (induction s rule: utf8_valid.induct)
  case (2 c cs)
  show ?case
  proof (cases "cc c < 0x80")
    case True
    with 2 show ?thesis by (simp add: unescape_esc_ascii)
  next
    case False
    with 2(3) obtain k where k: "utf8_tail c cs = Some k" and v: "utf8_valid (drop k cs)"
      by (auto split: option.splits)
    from 2(2) [OF False k v] have "json_unescape (json_escape (drop k cs) @ CHR 0x22 # r) = Some (drop k cs, r)" .
    with False k show ?thesis by (simp add: unescape_esc_multi [OF k])
  qed
qed simp

lemma json_unescape_quote:
  "utf8_valid s \<Longrightarrow> json_quote s @ r = CHR 0x22 # (json_escape s @ CHR 0x22 # r)"
  by (simp add: json_quote_def)

lemma utf8_valid_ascii: "\<forall>c \<in> set s. cc c < 0x80 \<Longrightarrow> utf8_valid s"
  by (induction s) simp_all

lemma utf8_valid_std_encode [simp]: "utf8_valid (std_encode bs)"
proof (rule utf8_valid_ascii)
  have "\<forall>c \<in> set b64_std \<union> set ''=''. cc c < 0x80" by (simp add: b64_std_def)
  then show "\<forall>c \<in> set (std_encode bs). cc c < 0x80"
    using std64.encode_chars [of "''=''" bs] by (auto simp: std_encode_def)
qed

lemma utf8_valid_hex_encode [simp]: "utf8_valid (hex_encode bs)"
proof (rule utf8_valid_ascii)
  have "\<forall>c \<in> set hex_digits. cc c < 0x80" by (simp add: hex_digits_def)
  then show "\<forall>c \<in> set (hex_encode bs). cc c < 0x80"
    using hex_encode_chars [of bs] by blast
qed


subsection \<open>Integer literals\<close>

definition int_lit :: "string \<Rightarrow> bool" where
  "int_lit l =
     (let d = (case l of c # cs \<Rightarrow> if c = CHR ''-'' then cs else l | [] \<Rightarrow> [])
      in d \<noteq> [] \<and> list_all is_digit d \<and> (hd d = CHR ''0'' \<longrightarrow> length d = 1))"

text \<open>What may follow a value inside a document.\<close>

definition closes :: "string \<Rightarrow> bool" where
  "closes r = (case r of [] \<Rightarrow> True | c # _ \<Rightarrow> c = CHR '','' \<or> c = CHR '']'' \<or> c = CHR ''}'')"

lemma closes_no_digit: "closes r \<Longrightarrow> takeWhile is_digit r = [] \<and> dropWhile is_digit r = r"
  by (auto simp: closes_def is_digit_def dec_digits_def split: list.splits)

lemma closes_frac_exp: "closes r \<Longrightarrow> num_frac r = Some ([], r) \<and> num_exp r = Some ([], r)"
  by (auto simp: closes_def num_frac_def num_exp_def split: list.splits)

lemma num_int_digits:
  assumes "list_all is_digit d" "d \<noteq> []" "hd d = CHR ''0'' \<Longrightarrow> length d = 1" "closes r"
  shows "num_int (d @ r) = Some (d, r)"
proof -
  from assms(2) obtain c cs where d: "d = c # cs" by (cases d) auto
  show ?thesis
  proof (cases "c = CHR ''0''")
    case True
    with assms d show ?thesis by (simp add: num_int_def)
  next
    case False
    from assms(1) d have "list_all is_digit cs" by simp
    then have "takeWhile is_digit (cs @ r) = cs" "dropWhile is_digit (cs @ r) = r"
      using closes_no_digit [OF assms(4)]
      by (simp_all add: takeWhile_append2 dropWhile_append2 list_all_iff)
    with False assms(1) d show ?thesis by (simp add: num_int_def)
  qed
qed

lemma json_number_lit:
  assumes "int_lit l" "closes r"
  shows "json_number (l @ r) = Some (l, r)"
proof -
  obtain d where l: "l = d \<or> l = CHR ''-'' # d" and d: "list_all is_digit d" "d \<noteq> []"
    "hd d = CHR ''0'' \<longrightarrow> length d = 1"
    using assms(1) by (auto simp: int_lit_def Let_def split: list.splits if_splits)
  have nd: "d \<noteq> [] \<and> hd d \<noteq> CHR ''-''"
    using d by (cases d) (auto simp: is_digit_def dec_digits_def)
  have "num_int (d @ r) = Some (d, r)" using num_int_digits d assms(2) by blast
  moreover from nd obtain c cs where "d = c # cs" "c \<noteq> CHR ''-''" by (cases d) auto
  ultimately show ?thesis
    using l closes_frac_exp [OF assms(2)]
    by (auto simp: json_number_def)
qed

lemma dec_string_hd: "hd (dec_string n) = CHR ''0'' \<Longrightarrow> n = 0"
proof (induction n rule: dec_string.induct)
  case (1 n)
  have inj: "d < 10 \<Longrightarrow> dec_digits ! d = CHR ''0'' \<Longrightarrow> d = 0" for d
    using index_of_dec_digit [of d] by (simp add: dec_digits_def)
  show ?case
  proof (cases "n < 10")
    case True
    with 1(2) inj show ?thesis by (simp add: dec_string.simps [of n])
  next
    case False
    with 1(2) have "hd (dec_string (n div 10)) = CHR ''0''"
      by (simp add: dec_string.simps [of n])
    with 1(1) False have "n div 10 = 0" by blast
    with False show ?thesis by simp
  qed
qed

lemma dec_string_0: "dec_string 0 = ''0''"
  by (simp add: dec_string.simps [of 0] dec_digits_def)

lemma dec_string_digits: "list_all is_digit (dec_string n)"
  using dec_string_chars [of n] by (auto simp: list_all_iff is_digit_def index_of_None)

lemma int_lit_dec [simp]: "int_lit (dec_string n)" "int_lit (CHR ''-'' # dec_string n)"
proof -
  obtain c cs where s: "dec_string n = c # cs" by (cases "dec_string n") auto
  with dec_string_digits [of n] have "is_digit c" by simp
  then have "c \<noteq> CHR ''-''" by (auto simp: is_digit_def dec_digits_def)
  moreover have "c = CHR ''0'' \<Longrightarrow> cs = []"
    using dec_string_hd [of n] s dec_string_0 by simp
  ultimately show "int_lit (dec_string n)" "int_lit (CHR ''-'' # dec_string n)"
    using dec_string_digits [of n] s by (auto simp: int_lit_def)
qed

subsection \<open>Documents\<close>

fun json_wf :: "json \<Rightarrow> bool" where
  "json_wf JNull = True"
| "json_wf (JBool b) = True"
| "json_wf (JNum l) = int_lit l"
| "json_wf (JStr s) = utf8_valid s"
| "json_wf (JArr js) = list_all json_wf js"
| "json_wf (JObj ms) = list_all (\<lambda>(k, v). utf8_valid k \<and> json_wf v) ms"

lemma int_lit_first: "int_lit l \<Longrightarrow> \<exists>c cs. l = c # cs \<and> (c = CHR ''-'' \<or> is_digit c)"
  by (auto simp: int_lit_def Let_def split: list.splits if_splits)

lemma is_ws_punct [simp]:
  "\<not> is_ws (CHR '','')" "\<not> is_ws (CHR '']'')" "\<not> is_ws (CHR ''}'')" "\<not> is_ws (CHR '':'')" "\<not> is_ws (CHR 0x22)"
  "\<not> is_ws (CHR ''{'')" "\<not> is_ws (CHR ''['')" "\<not> is_ws (CHR ''n'')" "\<not> is_ws (CHR ''t'')" "\<not> is_ws (CHR ''f'')"
  by (simp_all add: is_ws_def)

lemma lit_first:
  "int_lit l \<Longrightarrow> \<exists>c cs. l = c # cs \<and> \<not> is_ws c \<and> c \<noteq> CHR '']'' \<and> c \<noteq> CHR ''}'' \<and> c \<noteq> CHR 0x22 \<and> c \<noteq> CHR ''{''
     \<and> c \<noteq> CHR ''['' \<and> c \<noteq> CHR ''n'' \<and> c \<noteq> CHR ''t'' \<and> c \<noteq> CHR ''f''"
proof -
  assume "int_lit l"
  then obtain c cs where l: "l = c # cs" "c = CHR ''-'' \<or> is_digit c" using int_lit_first by blast
  then have "c \<in> set (CHR ''-'' # dec_digits)" by (auto simp: is_digit_def index_of_None)
  with l(1) show ?thesis by (auto simp: dec_digits_def is_ws_def)
qed

lemma json_text_first:
  "json_wf j \<Longrightarrow> \<exists>c cs. json_text j = c # cs \<and> \<not> is_ws c \<and> c \<noteq> CHR '']'' \<and> c \<noteq> CHR ''}''"
proof (cases j)
  case (JNum l)
  assume "json_wf j"
  with JNum lit_first [of l] show ?thesis by auto
qed (simp_all add: json_quote_def)

definition reads :: "json \<Rightarrow> bool" where
  "reads j = (\<forall>n r. closes r \<longrightarrow> 2 * length (json_text j) + 1 \<le> n \<longrightarrow> jvalue n (json_text j @ r) = Some (j, r))"

lemma readsD: "reads j \<Longrightarrow> closes r \<Longrightarrow> 2 * length (json_text j) + 1 \<le> n \<Longrightarrow> jvalue n (json_text j @ r) = Some (j, r)"
  by (simp add: reads_def)

lemma closes_simps [simp]: "closes (CHR '','' # r)" "closes (CHR '']'' # r)" "closes (CHR ''}'' # r)"
  by (simp_all add: closes_def)

lemma readsI:
  assumes "\<And>n r. closes r \<Longrightarrow> 2 * length (json_text j) \<le> n \<Longrightarrow> jvalue (Suc n) (json_text j @ r) = Some (j, r)"
  shows "reads j"
  unfolding reads_def
proof (intro allI impI)
  fix n r assume "closes r" "2 * length (json_text j) + 1 \<le> n"
  with assms [of r "n - 1"] show "jvalue n (json_text j @ r) = Some (j, r)"
    by (cases n) simp_all
qed

lemma jelems_text:
  assumes "\<forall>j \<in> set js. reads j" "js \<noteq> []" "2 * length (join_comma (map json_text js)) + 2 \<le> n"
  shows "jelems n (join_comma (map json_text js) @ CHR '']'' # r) = Some (js, r)"
  using assms
proof (induction js arbitrary: n)
  case (Cons j js)
  then obtain n' where n: "n = Suc n'" by (cases n) auto
  show ?case
  proof (cases "js = []")
    case True
    with Cons.prems n show ?thesis by (simp add: readsD)
  next
    case False
    let ?t = "join_comma (map json_text js) @ CHR '']'' # r"
    have "jvalue n' (json_text j @ CHR '','' # ?t) = Some (j, CHR '','' # ?t)"
      using Cons.prems n False by (intro readsD) auto
    moreover have "jelems n' ?t = Some (js, r)"
      using Cons n False by (intro Cons.IH) auto
    ultimately show ?thesis using n False by simp
  qed
qed simp

lemma jmembers_text:
  assumes "\<forall>(k, v) \<in> set ms. utf8_valid k \<and> reads v" "ms \<noteq> []"
    "2 * length (join_comma (map (\<lambda>(k, v). json_quote k @ CHR '':'' # json_text v) ms)) + 2 \<le> n"
  shows "jmembers n (join_comma (map (\<lambda>(k, v). json_quote k @ CHR '':'' # json_text v) ms) @ CHR ''}'' # r) = Some (ms, r)"
  using assms
proof (induction ms arbitrary: n)
  case (Cons m ms)
  obtain k v where m: "m = (k, v)" by (cases m)
  from Cons.prems m have kv: "utf8_valid k" "reads v" by auto
  from Cons.prems obtain n' where n: "n = Suc n'" by (cases n) auto
  show ?case
  proof (cases "ms = []")
    case True
    have "jvalue n' (json_text v @ CHR ''}'' # r) = Some (v, CHR ''}'' # r)"
      using Cons.prems n m True kv(2) by (intro readsD) (auto simp: json_quote_def)
    with n m True kv show ?thesis
      by (simp add: json_quote_def json_unescape_escape eat_def)
  next
    case False
    let ?t = "join_comma (map (\<lambda>(k, v). json_quote k @ CHR '':'' # json_text v) ms) @ CHR ''}'' # r"
    have "jvalue n' (json_text v @ CHR '','' # ?t) = Some (v, CHR '','' # ?t)"
      using Cons.prems n m False kv(2) by (intro readsD) (auto simp: json_quote_def)
    moreover have "jmembers n' ?t = Some (ms, r)"
      using Cons n False by (intro Cons.IH) auto
    ultimately show ?thesis using n m False kv
      by (simp add: json_quote_def json_unescape_escape eat_def)
  qed
qed simp

lemma join_comma_first:
  "js \<noteq> [] \<Longrightarrow> \<forall>t \<in> set js. \<exists>c cs. t = c # cs \<and> P c \<Longrightarrow> \<exists>c cs. join_comma js = c # cs \<and> P c"
  by (cases js) auto

lemma reads_arr:
  assumes "\<forall>j \<in> set js. json_wf j \<and> reads j"
  shows "reads (JArr js)"
proof (rule readsI)
  fix n r assume r: "closes r" and n: "2 * length (json_text (JArr js)) \<le> n"
  show "jvalue (Suc n) (json_text (JArr js) @ r) = Some (JArr js, r)"
  proof (cases "js = []")
    case False
    have "\<exists>c cs. join_comma (map json_text js) = c # cs \<and> \<not> is_ws c \<and> c \<noteq> CHR '']''"
      using assms False json_text_first by (intro join_comma_first) (simp, fastforce)
    then have "eat '']'' (skip_ws (join_comma (map json_text js) @ CHR '']'' # r)) = None"
      by (auto simp: eat_def)
    then show ?thesis using jelems_text [of js n r] assms False n by simp
  qed (simp add: eat_def)
qed

lemma reads_obj:
  assumes "\<forall>(k, v) \<in> set ms. utf8_valid k \<and> reads v"
  shows "reads (JObj ms)"
proof (rule readsI)
  let ?t = "join_comma (map (\<lambda>(k, v). json_quote k @ CHR '':'' # json_text v) ms)"
  fix n r assume r: "closes r" and n: "2 * length (json_text (JObj ms)) \<le> n"
  show "jvalue (Suc n) (json_text (JObj ms) @ r) = Some (JObj ms, r)"
  proof (cases "ms = []")
    case False
    have "\<exists>c cs. ?t = c # cs \<and> c = CHR 0x22"
      using False by (intro join_comma_first) (auto simp: json_quote_def)
    then have "eat ''}'' (skip_ws (?t @ CHR ''}'' # r)) = None"
      by (auto simp: eat_def)
    then show ?thesis using jmembers_text [OF assms False, of n r] n by simp
  qed (simp add: eat_def)
qed

lemma reads_num: "int_lit l \<Longrightarrow> reads (JNum l)"
proof (rule readsI)
  fix n r assume l: "int_lit l" and r: "closes r"
  obtain c cs where "l = c # cs" "\<not> is_ws c" "c \<noteq> CHR 0x22" "c \<noteq> CHR ''{''" "c \<noteq> CHR ''[''"
    "c \<noteq> CHR ''n''" "c \<noteq> CHR ''t''" "c \<noteq> CHR ''f''"
    using lit_first [OF l] by blast
  with json_number_lit [OF l r] show "jvalue (Suc n) (json_text (JNum l) @ r) = Some (JNum l, r)"
    by simp
qed

lemma reads_json_text: "json_wf j \<Longrightarrow> reads j"
proof (induction j rule: json_text.induct)
  case (3 lit)
  then show ?case by (simp add: reads_num)
next
  case (4 s)
  then show ?case by (intro readsI) (simp add: json_quote_def json_unescape_escape)
next
  case (5 js)
  then show ?case by (intro reads_arr) (simp add: list_all_iff)
next
  case (6 ms)
  then show ?case by (intro reads_obj) (auto simp: list_all_iff)
qed (intro readsI, simp add: eat_def)+

text \<open>Parsing reverses writing, for documents with valid UTF-8 strings and integer numbers.\<close>

lemma json_parse_text [codec_simps]: "json_wf j \<Longrightarrow> json_parse (json_text j) = Some j"
  using readsD [OF reads_json_text, of j "[]" "2 * length (json_text j) + 2"]
  by (simp add: json_parse_def closes_def)


subsection \<open>The recursion bound is enough\<close>

lemma unescape_shorter: "json_unescape s = Some (t, r) \<Longrightarrow> length r < length s"
proof (induction s arbitrary: t r rule: json_unescape.induct)
  case (2 c cs)
  then show ?case
    by (simp split: if_splits list.splits option.splits; fastforce)
qed simp

lemma dropWhile_shorter: "length (dropWhile P xs) \<le> length xs"
  by (induction xs) auto

lemma number_shorter: "json_number s = Some (l, r) \<Longrightarrow> length r < length s"
proof -
  assume s: "json_number s = Some (l, r)"
  have i: "num_int x = Some (a, b) \<Longrightarrow> length b < length x" for x a b
    using dropWhile_shorter [of is_digit "tl x"] by (auto simp: num_int_def split: list.splits if_splits)
  have f: "num_frac x = Some (a, b) \<Longrightarrow> length b \<le> length x" for x a b
    using dropWhile_shorter [of is_digit "tl x"] by (auto simp: num_frac_def split: list.splits if_splits)
  have e: "num_exp x = Some (a, b) \<Longrightarrow> length b \<le> length x" for x a b
    using dropWhile_shorter [of is_digit "tl x"] dropWhile_shorter [of is_digit "tl (tl x)"]
    by (auto simp: num_exp_def Let_def split: list.splits if_splits)
  obtain k a x b y c where "num_int (drop k s) = Some (a, x)" "num_frac x = Some (b, y)" "num_exp y = Some (c, r)"
    using s by (auto simp: json_number_def Let_def split: option.splits)
  with i [of "drop k s" a x] f [of x b y] e [of y c r] show ?thesis by simp
qed

lemma eat_shorter: "eat p s = Some r \<Longrightarrow> length r \<le> length s"
  by (auto simp: eat_def split: if_splits)

lemma skip_ws_Cons: "skip_ws s = c # cs \<Longrightarrow> length cs < length s"
  using dropWhile_shorter [of is_ws s] by simp

lemma jvalue_shorter:
  "jvalue n s = Some (j, r) \<Longrightarrow> length r < length s"
  "jelems n s = Some (js, r) \<Longrightarrow> length r < length s"
  "jmembers n s = Some (ms, r) \<Longrightarrow> length r < length s"
proof (induction n s and n s and n s arbitrary: j r and js r and ms r rule: jvalue_jelems_jmembers.induct)
  case (2 n s)
  from 2(3) obtain c cs where c: "skip_ws s = c # cs" by (auto split: list.splits)
  note len = skip_ws_Cons [OF c] dropWhile_shorter [of is_ws cs]
  from 2 c show ?case
    by (auto split: if_splits option.splits dest!: unescape_shorter number_shorter eat_shorter
        intro: le_less_trans [OF _ len(1)] less_trans [OF _ len(1)] dest: order_trans [OF _ len(2)])
next
  case (4 n s)
  then show ?case
    by (auto split: if_splits option.splits list.splits dest!: skip_ws_Cons) (metis less_trans)+
next
  case (6 n s)
  from 6(3) obtain qs k x y v z where q: "skip_ws s = CHR 0x22 # qs" "json_unescape qs = Some (k, x)"
    "eat '':'' (skip_ws x) = Some y" "jvalue n y = Some (v, z)"
    by (auto split: list.splits if_splits option.splits)
  have len: "length z < length s"
    using skip_ws_Cons [OF q(1)] unescape_shorter [OF q(2)] eat_shorter [OF q(3)] dropWhile_shorter [of is_ws x]
      6(1) [OF q(1) _ q(2) refl q(3) q(4)] by simp
  show ?case
  proof (cases "skip_ws z")
    case (Cons c w)
    with 6(3) q len show ?thesis
      using skip_ws_Cons [OF Cons] 6(2) [OF q(1) _ q(2) refl q(3) q(4) refl Cons]
      by (auto split: if_splits)
  qed (use 6(3) q in \<open>simp del: dropWhile_eq_Nil_conv\<close>)
qed simp_all


text \<open>With at least \<open>2 * length s + 1\<close> the bound plays no role: a larger one gives the same result.\<close>

text \<open>More fuel than twice the length of the input changes nothing: the step for each of the three readers,
  from the readers it calls on shorter input.\<close>

lemma jvalue_fuel_step:
  assumes IH: "\<And>t. length t < length s \<Longrightarrow> jelems (Suc n) t = jelems n t" "\<And>t. length t < length s \<Longrightarrow> jmembers (Suc n) t = jmembers n t"
  shows "jvalue (Suc (Suc n)) s = jvalue (Suc n) s"
proof (cases "skip_ws s")
  case (Cons c cs)
  have "jmembers (Suc n) cs = jmembers n cs" "jelems (Suc n) cs = jelems n cs" using IH [of cs] skip_ws_Cons [OF Cons] by simp_all
  then show ?thesis by (simp only: jvalue.simps Cons list.case)
qed (simp only: jvalue.simps list.case)

lemma jelems_fuel_step:
  assumes v: "jvalue (Suc n) s = jvalue n s" and IH: "\<And>t. length t < length s \<Longrightarrow> jelems (Suc n) t = jelems n t"
  shows "jelems (Suc (Suc n)) s = jelems (Suc n) s"
proof (cases "jvalue n s")
  case (Some xr)
  then obtain x r where xr: "jvalue n s = Some (x, r)" by (cases xr) simp
  show ?thesis
  proof (cases "skip_ws r")
    case (Cons c r')
    have "jelems (Suc n) r' = jelems n r'" using IH [of r'] skip_ws_Cons [OF Cons] jvalue_shorter(1) [OF xr] by simp
    then show ?thesis by (simp only: jelems.simps v xr option.case prod.case Cons list.case)
  qed (simp only: jelems.simps v xr option.case prod.case list.case)
qed (simp only: jelems.simps v option.case)

lemma jmembers_fuel_step:
  assumes v: "\<And>t. length t < length s \<Longrightarrow> jvalue (Suc n) t = jvalue n t" and IH: "\<And>t. length t < length s \<Longrightarrow> jmembers (Suc n) t = jmembers n t"
  shows "jmembers (Suc (Suc n)) s = jmembers (Suc n) s"
proof (cases "skip_ws s")
  case q: (Cons q qs)
  show ?thesis
  proof (cases "json_unescape qs")
    case (Some kx)
    then obtain k x where kx: "json_unescape qs = Some (k, x)" by (cases kx) simp
    show ?thesis
    proof (cases "eat '':'' (skip_ws x)")
      case y: (Some y)
      have ly: "length y < length s"
        using skip_ws_Cons [OF q] unescape_shorter [OF kx] eat_shorter [OF y] dropWhile_shorter [of is_ws x] by simp
      have "jmembers (Suc n) w = jmembers n w" if "jvalue n y = Some (u, z)" "skip_ws z = c # w" for u z c w
        using IH [of w] ly skip_ws_Cons [OF that(2)] jvalue_shorter(1) [OF that(1)] by simp
      then show ?thesis
        by (simp only: jmembers.simps q kx y v [OF ly] option.case prod.case list.case
            cong: option.case_cong list.case_cong prod.case_cong)
    qed (use q kx in simp)
  qed (use q in simp)
qed (simp only: jmembers.simps list.case)

lemma jvalue_fuel:
  "2 * length s + 1 \<le> n \<Longrightarrow> jvalue (Suc n) s = jvalue n s"
  "2 * length s + 2 \<le> n \<Longrightarrow> jelems (Suc n) s = jelems n s"
  "2 * length s + 2 \<le> n \<Longrightarrow> jmembers (Suc n) s = jmembers n s"
proof (induction n arbitrary: s)
  case (Suc n)
  {
    case 1
    show ?case by (rule jvalue_fuel_step) (use Suc.IH(2,3) 1 in auto)
  next
    case 2
    show ?case by (rule jelems_fuel_step) (use Suc.IH(1,2) 2 in auto)
  next
    case 3
    show ?case by (rule jmembers_fuel_step) (use Suc.IH(1,3) 3 in auto)
  }
qed simp_all

end
