(* ===== verification/Json_Struct.thy ===== *)
theory Json_Struct
  imports Json
begin

text \<open>
  How \<open>encoding/json\<close> moves between Go values and documents: a decoder of type \<open>'a jdec\<close> stores a
  document into a value that already exists and tells whether everything fitted, as
  \<open>json.Unmarshal\<close> into a variable does; \<open>jfield\<close> and \<open>json_into\<close> build the decoder of a struct from
  its field table. \<open>marshal\<close> and \<open>unmarshal\<close> are \<open>json.Marshal\<close> and \<open>json.Unmarshal\<close>.

  A \<open>[]byte\<close> whose \<open>nil\<close> and empty values the code tells apart is a \<open>bytes option\<close>; elsewhere \<open>nil\<close>
  and empty are both the empty list. Reusing the elements of a slice that is decoded twice (an
  object with a repeated member) is not modelled.
\<close>

type_synonym 'a jdec = "json \<Rightarrow> 'a \<Rightarrow> 'a \<times> bool"
type_synonym 'a jfields = "(string \<times> 'a jdec) list"

section \<open>Structs\<close>

text \<open>Case folding of member names: ASCII letters, and the two other characters whose folding is an
  ASCII letter (the long s and the Kelvin sign).\<close>

fun json_fold :: "string \<Rightarrow> string" where
  "json_fold [] = []"
| "json_fold (c # cs) =
     (if c = CHR 0xC5 \<and> take 1 cs = [CHR 0xBF] then CHR ''S'' # json_fold (drop 1 cs)
      else if c = CHR 0xE2 \<and> take 2 cs = [CHR 0x84, CHR 0xAA] then CHR ''K'' # json_fold (drop 2 cs)
      else (if 97 \<le> cc c \<and> cc c \<le> 122 then char_of (cc c - 32 :: nat) else c) # json_fold cs)"

definition jfind :: "'a jfields \<Rightarrow> string \<Rightarrow> 'a jdec option" where
  "jfind fs k =
     (case map_of fs k of
        Some f \<Rightarrow> Some f
      | None \<Rightarrow> map_of (map (\<lambda>(n, f). (json_fold n, f)) fs) (json_fold k))"

definition jfield :: "string \<Rightarrow> ('a \<Rightarrow> 'b) \<Rightarrow> ('b \<Rightarrow> 'a \<Rightarrow> 'a) \<Rightarrow> 'b jdec \<Rightarrow> string \<times> 'a jdec" where
  "jfield name get put d = (name, \<lambda>j x. case d j (get x) of (v, ok) \<Rightarrow> (put v x, ok))"

fun into_members :: "'a jfields \<Rightarrow> (string \<times> json) list \<Rightarrow> 'a \<Rightarrow> 'a \<times> bool" where
  "into_members fs [] x = (x, True)"
| "into_members fs ((k, v) # ms) x =
     (case jfind fs k of
        None \<Rightarrow> into_members fs ms x
      | Some f \<Rightarrow>
          (case f v x of (x', ok) \<Rightarrow> (case into_members fs ms x' of (x'', ok') \<Rightarrow> (x'', ok \<and> ok'))))"

definition json_into :: "'a jfields \<Rightarrow> 'a jdec" where
  "json_into fs j x =
     (case j of JObj ms \<Rightarrow> into_members fs ms x | JNull \<Rightarrow> (x, True) | _ \<Rightarrow> (x, False))"

section \<open>Decoders of the basic types\<close>

definition jd_string :: "string jdec" where
  "jd_string j x = (case j of JStr s \<Rightarrow> (s, True) | JNull \<Rightarrow> (x, True) | _ \<Rightarrow> (x, False))"

definition jd_bool :: "bool jdec" where
  "jd_bool j x = (case j of JBool b \<Rightarrow> (b, True) | JNull \<Rightarrow> (x, True) | _ \<Rightarrow> (x, False))"

text \<open>\<open>strconv.ParseUint\<close> and \<open>ParseInt\<close> in base ten, with the range check of the target type.\<close>

definition jd_uint :: "'w::len word jdec" where
  "jd_uint j x =
     (case j of
        JNum l \<Rightarrow>
          (case dec_value 0 l of
             Some n \<Rightarrow> if n < 2 ^ LENGTH('w) then (of_nat n, True) else (x, False)
           | None \<Rightarrow> (x, False))
      | JNull \<Rightarrow> (x, True)
      | _ \<Rightarrow> (x, False))"

definition jd_int :: "int jdec" where
  "jd_int j x =
     (case j of
        JNum l \<Rightarrow>
          (let neg = (l \<noteq> [] \<and> hd l = CHR ''-'') in
           case dec_value 0 (if neg then tl l else l) of
             Some n \<Rightarrow> if n < 2 ^ 63 \<or> neg \<and> n = 2 ^ 63 then (if neg then - int n else int n, True) else (x, False)
           | None \<Rightarrow> (x, False))
      | JNull \<Rightarrow> (x, True)
      | _ \<Rightarrow> (x, False))"

text \<open>A \<open>[]byte\<close>: base64 text, or an array of numbers.\<close>

definition jd_slice :: "bytes option jdec" where
  "jd_slice j x =
     (case j of
        JStr s \<Rightarrow> (case std_decode s of Some b \<Rightarrow> (Some b, True) | None \<Rightarrow> (x, False))
      | JNull \<Rightarrow> (None, True)
      | JArr js \<Rightarrow> (Some (map (\<lambda>e. fst (jd_uint e 0)) js), list_all (\<lambda>e. snd (jd_uint e (0 :: byte))) js)
      | _ \<Rightarrow> (x, False))"

definition slice_list :: "bytes option \<Rightarrow> bytes" where
  "slice_list s = (case s of None \<Rightarrow> [] | Some b \<Rightarrow> b)"

definition jd_bytes :: "bytes jdec" where
  "jd_bytes j x = (case jd_slice j (Some x) of (v, ok) \<Rightarrow> (slice_list v, ok))"

definition jd_ptr :: "'a jdec \<Rightarrow> 'a \<Rightarrow> 'a option jdec" where
  "jd_ptr d zero j x =
     (case j of
        JNull \<Rightarrow> (None, True)
      | _ \<Rightarrow> (case d j (case x of None \<Rightarrow> zero | Some v \<Rightarrow> v) of (v, ok) \<Rightarrow> (Some v, ok)))"

definition jd_list :: "'a jdec \<Rightarrow> 'a \<Rightarrow> 'a list jdec" where
  "jd_list d zero j x =
     (case j of
        JArr js \<Rightarrow> (map (\<lambda>e. fst (d e zero)) js, list_all (\<lambda>e. snd (d e zero)) js)
      | JNull \<Rightarrow> ([], True)
      | _ \<Rightarrow> (x, False))"

section \<open>Encoders of the basic types\<close>

definition je_slice :: "bytes option \<Rightarrow> json" where
  "je_slice s = (case s of None \<Rightarrow> JNull | Some b \<Rightarrow> JStr (std_encode b))"

definition je_bytes :: "bytes \<Rightarrow> json" where
  "je_bytes b = JStr (std_encode b)"

definition je_uint :: "'w::len word \<Rightarrow> json" where
  "je_uint w = JNum (dec_string (unat w))"

definition je_int :: "int \<Rightarrow> json" where
  "je_int i = JNum (if i < 0 then CHR ''-'' # dec_string (nat (- i)) else dec_string (nat i))"

text \<open>A member that \<open>omitempty\<close> leaves out when the condition holds.\<close>

definition omit_if :: "bool \<Rightarrow> string \<Rightarrow> json \<Rightarrow> (string \<times> json) list" where
  "omit_if b name j = (if b then [] else [(name, j)])"

definition marshal :: "json \<Rightarrow> bytes" where
  "marshal j = to_bytes (json_text j)"

definition unmarshal :: "'a jdec \<Rightarrow> bytes \<Rightarrow> 'a \<Rightarrow> 'a \<times> bool" where
  "unmarshal d b x = (case json_parse (of_bytes b) of None \<Rightarrow> (x, False) | Some j \<Rightarrow> d j x)"

section \<open>Round trips\<close>

lemma unmarshal_marshal [codec_simps]: "json_wf j \<Longrightarrow> unmarshal d (marshal j) x = d j x"
  by (simp add: unmarshal_def marshal_def json_parse_text)

lemma marshal_nonempty [simp]: "json_wf j \<Longrightarrow> marshal j \<noteq> []"
  using json_text_first [of j] by (auto simp: marshal_def to_bytes_def)

lemma je_wf [simp]:
  "json_wf (je_slice s)" "json_wf (je_bytes b)" "json_wf (je_uint w)" "json_wf (je_int i)"
  by (simp_all add: je_slice_def je_bytes_def je_uint_def je_int_def split: option.split)

lemma omit_if_wf [simp]:
  "list_all (\<lambda>(k, v). utf8_valid k \<and> json_wf v) (omit_if b name j) \<longleftrightarrow> b \<or> utf8_valid name \<and> json_wf j"
  by (simp add: omit_if_def)

lemma jd_uint_je [simp, codec_simps]: "jd_uint (je_uint w) x = (w, True)"
  using unsigned_less [of w] by (simp add: jd_uint_def je_uint_def)

lemma jd_slice_je [simp, codec_simps]: "jd_slice (je_slice s) x = (s, True)"
  by (simp add: jd_slice_def je_slice_def split: option.split)

lemma jd_bytes_je [simp, codec_simps]: "jd_bytes (je_bytes b) x = (b, True)"
  by (simp add: jd_bytes_def je_bytes_def jd_slice_def slice_list_def)

lemma jd_string_je [simp, codec_simps]: "jd_string (JStr s) x = (s, True)"
  by (simp add: jd_string_def)

lemma jd_bool_je [simp, codec_simps]: "jd_bool (JBool b) x = (b, True)"
  by (simp add: jd_bool_def)

lemma dec_string_not_minus: "hd (dec_string n) \<noteq> CHR ''-''"
proof -
  obtain c cs where s: "dec_string n = c # cs" by (cases "dec_string n") auto
  with dec_string_digits [of n] have "is_digit c" by simp
  with s show ?thesis by (auto simp: is_digit_def dec_digits_def)
qed

lemma jd_int_je [simp, codec_simps]:
  "- (2 ^ 63) \<le> i \<Longrightarrow> i < 2 ^ 63 \<Longrightarrow> jd_int (je_int i) x = (i, True)"
  by (simp add: jd_int_def je_int_def Let_def dec_string_not_minus nat_less_iff nat_eq_iff) linarith

lemma into_members_append:
  "into_members fs (ms @ ms') x =
     (case into_members fs ms x of (y, ok) \<Rightarrow> (case into_members fs ms' y of (z, ok') \<Rightarrow> (z, ok \<and> ok')))"
  by (induction fs ms x rule: into_members.induct) (auto split: option.splits prod.splits)

lemma json_into_obj: "json_into fs (JObj ms) x = into_members fs ms x"
  by (simp add: json_into_def)

lemma jfind_exact: "map_of fs k = Some f \<Longrightarrow> jfind fs k = Some f"
  by (simp add: jfind_def)

end
