(* ===== verification/Settings.thy ===== *)
theory Settings
  imports Json_Struct
begin

text \<open>
  \<open>src/core/pkg/settings/settings.go\<close>: the preferences, their defaults and their JSON form. A nil slice is
  told apart from an empty one, since JSON prints them differently.
\<close>

definition nil_list :: "'a list option \<Rightarrow> 'a list" where
  "nil_list x = (case x of None \<Rightarrow> [] | Some l \<Rightarrow> l)"

lemma nil_list_simps [simp]: "nil_list None = []" "nil_list (Some l) = l"
  by (simp_all add: nil_list_def)

definition je_list :: "('a \<Rightarrow> json) \<Rightarrow> 'a list option \<Rightarrow> json" where
  "je_list f x = (case x of None \<Rightarrow> JNull | Some l \<Rightarrow> JArr (map f l))"

definition jd_slice_of :: "'a jdec \<Rightarrow> 'a \<Rightarrow> 'a list option jdec" where
  "jd_slice_of d zero j x =
     (case j of
        JArr js \<Rightarrow> (Some (map (\<lambda>e. fst (d e zero)) js), list_all (\<lambda>e. snd (d e zero)) js)
      | JNull \<Rightarrow> (None, True)
      | _ \<Rightarrow> (x, False))"

lemma je_list_wf [simp]: "json_wf (je_list f x) \<longleftrightarrow> (case x of None \<Rightarrow> True | Some l \<Rightarrow> \<forall>y \<in> set l. json_wf (f y))"
  by (auto simp: je_list_def list_all_iff split: option.split)

lemma jd_slice_of_je:
  "(\<And>y. y \<in> set (nil_list l) \<Longrightarrow> d (f y) zero = (y, True)) \<Longrightarrow> jd_slice_of d zero (je_list f l) x = (l, True)"
  by (cases l) (auto simp: jd_slice_of_def je_list_def list_all_iff comp_def map_idI)

record iceServer =
  ice_urls :: "string list option"
  ice_username :: string
  ice_credential :: string

record settings =
  st_iceServers :: "iceServer list option"
  st_relayEnabled :: bool
  st_relayAddress :: string
  st_appLock :: string
  st_disappearingDefaultSeconds :: int

definition DefaultICEServers :: "iceServer list" where
  "DefaultICEServers =
     [\<lparr> ice_urls = Some [''stun:stun.l.google.com:19302''], ice_username = [], ice_credential = [] \<rparr>,
      \<lparr> ice_urls = Some [''stun:stun1.l.google.com:19302''], ice_username = [], ice_credential = [] \<rparr>]"

definition settings_Default :: settings where
  "settings_Default =
     \<lparr> st_iceServers = Some DefaultICEServers, st_relayEnabled = False, st_relayAddress = [], st_appLock = ''none'',
       st_disappearingDefaultSeconds = 0 \<rparr>"

definition EffectiveICEServers :: "settings \<Rightarrow> iceServer list" where
  "EffectiveICEServers s = (if length (nil_list (st_iceServers s)) = 0 then DefaultICEServers else nil_list (st_iceServers s))"

definition iceServer_json :: "iceServer \<Rightarrow> json" where
  "iceServer_json s =
     JObj ((''urls'', je_list JStr (ice_urls s)) # omit_if (ice_username s = []) ''username'' (JStr (ice_username s)) @
       omit_if (ice_credential s = []) ''credential'' (JStr (ice_credential s)))"

definition zero_iceServer :: iceServer where
  "zero_iceServer = \<lparr> ice_urls = None, ice_username = [], ice_credential = [] \<rparr>"

definition iceServer_fields :: "iceServer jfields" where
  "iceServer_fields =
     [jfield ''urls'' ice_urls (\<lambda>v s. s\<lparr>ice_urls := v\<rparr>) (jd_slice_of jd_string []),
      jfield ''username'' ice_username (\<lambda>v s. s\<lparr>ice_username := v\<rparr>) jd_string,
      jfield ''credential'' ice_credential (\<lambda>v s. s\<lparr>ice_credential := v\<rparr>) jd_string]"

definition settings_json :: "settings \<Rightarrow> json" where
  "settings_json s =
     JObj ([(''iceServers'', je_list iceServer_json (st_iceServers s)), (''relayEnabled'', JBool (st_relayEnabled s))] @
       omit_if (st_relayAddress s = []) ''relayAddress'' (JStr (st_relayAddress s)) @
       [(''appLock'', JStr (st_appLock s)), (''disappearingDefaultSeconds'', je_int (st_disappearingDefaultSeconds s))])"

definition zero_settings :: settings where
  "zero_settings =
     \<lparr> st_iceServers = None, st_relayEnabled = False, st_relayAddress = [], st_appLock = [], st_disappearingDefaultSeconds = 0 \<rparr>"

definition settings_fields :: "settings jfields" where
  "settings_fields =
     [jfield ''iceServers'' st_iceServers (\<lambda>v s. s\<lparr>st_iceServers := v\<rparr>) (jd_slice_of (json_into iceServer_fields) zero_iceServer),
      jfield ''relayEnabled'' st_relayEnabled (\<lambda>v s. s\<lparr>st_relayEnabled := v\<rparr>) jd_bool,
      jfield ''relayAddress'' st_relayAddress (\<lambda>v s. s\<lparr>st_relayAddress := v\<rparr>) jd_string,
      jfield ''appLock'' st_appLock (\<lambda>v s. s\<lparr>st_appLock := v\<rparr>) jd_string,
      jfield ''disappearingDefaultSeconds'' st_disappearingDefaultSeconds (\<lambda>v s. s\<lparr>st_disappearingDefaultSeconds := v\<rparr>) jd_int]"

definition settings_JSON :: "settings \<Rightarrow> bytes result" where
  "settings_JSON s = Inr (marshal (settings_json s))"

definition settings_FromJSON :: "bytes \<Rightarrow> settings result" where
  "settings_FromJSON b =
     (case unmarshal (json_into settings_fields) b zero_settings of
        (s, ok) \<Rightarrow> if ok then Inr s else Inl ''json: cannot decode'')"

section \<open>Round trip\<close>

definition iceServer_ok :: "iceServer \<Rightarrow> bool" where
  "iceServer_ok s \<longleftrightarrow> list_all utf8_valid (nil_list (ice_urls s)) \<and> utf8_valid (ice_username s) \<and> utf8_valid (ice_credential s)"

definition settings_ok :: "settings \<Rightarrow> bool" where
  "settings_ok s \<longleftrightarrow>
     list_all iceServer_ok (nil_list (st_iceServers s)) \<and> utf8_valid (st_relayAddress s) \<and> utf8_valid (st_appLock s) \<and>
     - (2 ^ 63) \<le> st_disappearingDefaultSeconds s \<and> st_disappearingDefaultSeconds s < 2 ^ 63"

lemma iceServer_wf: "iceServer_ok s \<Longrightarrow> json_wf (iceServer_json s)"
  by (cases "ice_urls s") (simp_all add: iceServer_json_def iceServer_ok_def utf8_valid_ascii omit_if_def list_all_iff)

lemma settings_wf: "settings_ok s \<Longrightarrow> json_wf (settings_json s)"
  by (cases "st_iceServers s")
     (simp_all add: settings_json_def settings_ok_def utf8_valid_ascii omit_if_def list_all_iff iceServer_wf)

lemma jd_iceServer_je: "json_into iceServer_fields (iceServer_json s) zero_iceServer = (s, True)"
proof -
  have u: "jd_slice_of jd_string [] (je_list JStr (ice_urls s)) None = (ice_urls s, True)" by (rule jd_slice_of_je) simp
  then show ?thesis
    by (simp add: iceServer_json_def iceServer_fields_def zero_iceServer_def json_into_def jfind_def jfield_def omit_if_def)
qed

lemma jd_settings_je:
  assumes "settings_ok s"
  shows "json_into settings_fields (settings_json s) zero_settings = (s, True)"
proof -
  have l: "jd_slice_of (json_into iceServer_fields) zero_iceServer (je_list iceServer_json (st_iceServers s)) None = (st_iceServers s, True)"
    by (rule jd_slice_of_je) (rule jd_iceServer_je)
  have i: "jd_int (je_int (st_disappearingDefaultSeconds s)) x = (st_disappearingDefaultSeconds s, True)" for x
    using assms by (simp add: settings_ok_def)
  show ?thesis
    by (simp add: l i settings_json_def settings_fields_def zero_settings_def json_into_def jfind_def jfield_def omit_if_def)
qed

section \<open>Properties\<close>

text \<open>Settings survive the JSON boundary to the app unchanged, and the transport always gets at least one
  ICE server: the configured ones, or the built-in defaults when none is configured.\<close>

theorem settings_roundtrip:
  assumes "settings_ok s"
  shows "\<exists>b. settings_JSON s = Inr b \<and> settings_FromJSON b = Inr s \<and> EffectiveICEServers s \<noteq> [] \<and>
    (nil_list (st_iceServers s) \<noteq> [] \<longrightarrow> EffectiveICEServers s = nil_list (st_iceServers s))"
  using assms settings_wf [OF assms] jd_settings_je [OF assms]
  by (simp add: settings_JSON_def settings_FromJSON_def unmarshal_marshal EffectiveICEServers_def DefaultICEServers_def)

theorem settings_roundtrip_witness:
  "\<exists>b. settings_JSON settings_Default = Inr b \<and> settings_FromJSON b = Inr settings_Default \<and>
     EffectiveICEServers settings_Default \<noteq> []"
proof -
  have "settings_ok settings_Default"
    by (simp add: settings_ok_def settings_Default_def DefaultICEServers_def iceServer_ok_def utf8_valid_ascii)
  from settings_roundtrip [OF this] show ?thesis by blast
qed

end
