(* ===== verification/Transport.thy ===== *)
theory Transport
  imports Go_Io Settings
begin

text \<open>
  \<open>src/core/pkg/transport\<close>: the \<open>Conn\<close> interface (\<open>transport.go\<close>), the in-process pipe (\<open>inproc.go\<close>), and
  of the WebRTC transport (\<open>pion.go\<close>) the connection object with its queue and its close flag, and the
  conversion of the ICE server list. A Go \<open>select\<close> with several ready cases may take any of them; the
  operations where that matters have an argument that says which. What the pion library answers is an
  argument as well.
\<close>

record 'c conn =
  conn_Send :: "bytes \<Rightarrow> ('c, unit) go"
  conn_Recv :: "('c, bytes) go"
  conn_Close :: "('c, unit) go"

definition ErrClosed :: string where
  "ErrClosed = ''transport: connection closed''"

section \<open>The interface\<close>

text \<open>What users of a connection rely on: an ordered, reliable queue in each direction.\<close>

locale conn_flow =
  fixes io :: "'c conn"
    and arrived :: "'c \<Rightarrow> bytes list"
    and handed :: "'c \<Rightarrow> bytes list"
    and closed :: "'c \<Rightarrow> bool"
  assumes recv_next: "arrived c = b # bs \<Longrightarrow> \<exists>c'. conn_Recv io c = Some (Inr b, c') \<and>
      arrived c' = bs \<and> handed c' = handed c \<and> closed c' = closed c"
    and recv_closed: "arrived c = [] \<Longrightarrow> closed c \<Longrightarrow> conn_Recv io c = Some (Inl ErrClosed, c)"
    and recv_blocks: "arrived c = [] \<Longrightarrow> \<not> closed c \<Longrightarrow> conn_Recv io c = None"
    and send_ok: "conn_Send io b c = Some (Inr u, c') \<Longrightarrow>
      arrived c' = arrived c \<and> handed c' = handed c @ [b] \<and> closed c' = closed c"
    and send_fails: "conn_Send io b c = Some (Inl e, c') \<Longrightarrow> c' = c"
begin

text \<open>Reading repeatedly returns what had arrived, in order, also on a closed connection.\<close>

primrec recv_n :: "nat \<Rightarrow> ('c, bytes list) go" where
  "recv_n 0 = go_ret []"
| "recv_n (Suc n) = go_bind (conn_Recv io) (\<lambda>b. go_bind (recv_n n) (\<lambda>bs. go_ret (b # bs)))"

lemma recv_n_arrived:
  "n \<le> length (arrived c) \<Longrightarrow>
   \<exists>c'. recv_n n c = Some (Inr (take n (arrived c)), c') \<and> arrived c' = drop n (arrived c) \<and> closed c' = closed c"
proof (induction n arbitrary: c)
  case (Suc n)
  then obtain b bs where a: "arrived c = b # bs" by (cases "arrived c") auto
  obtain c1 where c1: "conn_Recv io c = Some (Inr b, c1)" "arrived c1 = bs" "closed c1 = closed c"
    using recv_next [OF a] by blast
  have "n \<le> length (arrived c1)" using Suc.prems a c1(2) by simp
  from Suc.IH [OF this] obtain c2 where "recv_n n c1 = Some (Inr (take n (arrived c1)), c2)"
    "arrived c2 = drop n (arrived c1)" "closed c2 = closed c1" by blast
  with c1 a show ?case by (auto simp: go_bind_run go_ret_def)
qed (simp add: go_ret_def)

end

text \<open>And what they rely on when they hang up: a close flag after which the messages that already arrived can
  still be read.\<close>

locale conn_laws = conn_flow +
  assumes close_sets: "\<exists>r c'. conn_Close io c = Some (r, c') \<and> closed c' \<and> arrived c' = arrived c \<and> handed c' = handed c"
begin

lemma drained_after_close:
  assumes "conn_Close io c = Some (r, c')"
  shows "\<exists>c''. recv_n (length (arrived c)) c' = Some (Inr (arrived c), c'') \<and>
    conn_Recv io c'' = Some (Inl ErrClosed, c'')"
proof -
  have c': "closed c'" "arrived c' = arrived c" using close_sets [of c] assms by auto
  obtain c'' where r: "recv_n (length (arrived c)) c' = Some (Inr (arrived c), c'')"
      "arrived c'' = []" "closed c''"
    using recv_n_arrived [of "length (arrived c)" c'] c' by auto
  with recv_closed [OF r(2,3)] show ?thesis by blast
qed

end

section \<open>The in-process pipe\<close>

datatype pipe_end = EndA | EndB

record pipe =
  pp_a2b :: "bytes list"
  pp_b2a :: "bytes list"
  pp_done :: bool

definition pipe_cap :: nat where
  "pipe_cap = 64"

definition Pipe :: pipe where
  "Pipe = \<lparr> pp_a2b = [], pp_b2a = [], pp_done = False \<rparr>"

definition pipe_out :: "pipe_end \<Rightarrow> pipe \<Rightarrow> bytes list" where
  "pipe_out e p = (case e of EndA \<Rightarrow> pp_a2b p | EndB \<Rightarrow> pp_b2a p)"

definition pipe_in :: "pipe_end \<Rightarrow> pipe \<Rightarrow> bytes list" where
  "pipe_in e p = (case e of EndA \<Rightarrow> pp_b2a p | EndB \<Rightarrow> pp_a2b p)"

definition set_out :: "pipe_end \<Rightarrow> bytes list \<Rightarrow> pipe \<Rightarrow> pipe" where
  "set_out e q p = (case e of EndA \<Rightarrow> p\<lparr> pp_a2b := q \<rparr> | EndB \<Rightarrow> p\<lparr> pp_b2a := q \<rparr>)"

definition set_in :: "pipe_end \<Rightarrow> bytes list \<Rightarrow> pipe \<Rightarrow> pipe" where
  "set_in e q p = (case e of EndA \<Rightarrow> p\<lparr> pp_b2a := q \<rparr> | EndB \<Rightarrow> p\<lparr> pp_a2b := q \<rparr>)"

text \<open>\<open>Send\<close>: the cases are the closed flag and room in the channel; \<open>pick\<close> decides when both are ready.\<close>

definition pipe_Send :: "bool \<Rightarrow> pipe_end \<Rightarrow> bytes \<Rightarrow> (pipe, unit) go" where
  "pipe_Send pick e b p =
     (let room = length (pipe_out e p) < pipe_cap;
          enqueue = Some (Inr (), set_out e (pipe_out e p @ [b]) p);
          refuse = Some (Inl ErrClosed, p)
      in if pp_done p \<and> room then (if pick then refuse else enqueue)
         else if pp_done p then refuse
         else if room then enqueue
         else None)"

text \<open>\<open>Recv\<close>: both branches of its \<open>select\<close> give the next buffered message when there is one.\<close>

definition pipe_Recv :: "pipe_end \<Rightarrow> (pipe, bytes) go" where
  "pipe_Recv e p =
     (case pipe_in e p of
        b # bs \<Rightarrow> Some (Inr b, set_in e bs p)
      | [] \<Rightarrow> if pp_done p then Some (Inl ErrClosed, p) else None)"

definition pipe_Close :: "(pipe, unit) go" where
  "pipe_Close p = Some (Inr (), p\<lparr> pp_done := True \<rparr>)"

definition pipe_conn :: "bool \<Rightarrow> pipe_end \<Rightarrow> pipe conn" where
  "pipe_conn pick e = \<lparr> conn_Send = pipe_Send pick e, conn_Recv = pipe_Recv e, conn_Close = pipe_Close \<rparr>"

lemmas pipe_parts = pipe_out_def pipe_in_def set_out_def set_in_def

lemma pipe_part_simps [simp]:
  "pipe_out e (set_out e q p) = q" "pipe_in e (set_in e q p) = q"
  "pipe_in e (set_out e q p) = pipe_in e p" "pipe_out e (set_in e q p) = pipe_out e p"
  "pp_done (set_out e q p) = pp_done p" "pp_done (set_in e q p) = pp_done p"
  "pipe_out e (p\<lparr> pp_done := d \<rparr>) = pipe_out e p" "pipe_in e (p\<lparr> pp_done := d \<rparr>) = pipe_in e p"
  "pipe_in EndB p = pipe_out EndA p" "pipe_in EndA p = pipe_out EndB p"
  by (cases e; simp add: pipe_parts)+

lemma pipe_conn_sel [simp]:
  "conn_Send (pipe_conn pick e) = pipe_Send pick e" "conn_Recv (pipe_conn pick e) = pipe_Recv e"
  "conn_Close (pipe_conn pick e) = pipe_Close"
  by (simp_all add: pipe_conn_def)

interpretation pipe_conn: conn_laws "pipe_conn pick e" "pipe_in e" "pipe_out e" pp_done for pick e
  by unfold_locales (auto simp: pipe_Send_def pipe_Recv_def pipe_Close_def Let_def split: if_splits)

section \<open>The WebRTC connection\<close>

text \<open>\<open>pionConn\<close>: its inbound queue, the two flags its callbacks set, and, as \<open>pc_sent\<close>, the messages the
  library's data channel took over.\<close>

record pionConn =
  pc_in :: "bytes list"
  pc_open :: bool
  pc_done :: bool
  pc_sent :: "bytes list"

definition newPionConn :: pionConn where
  "newPionConn = \<lparr> pc_in = [], pc_open = False, pc_done = False, pc_sent = [] \<rparr>"

definition pion_closeDone :: "pionConn \<Rightarrow> pionConn" where
  "pion_closeDone c = c\<lparr> pc_done := True \<rparr>"

text \<open>The callbacks of \<open>newPionConn\<close>: the channel opened, a message came in, the channel closed, the
  connection changed its state.\<close>

datatype pion_state = PCFailed | PCClosed | PCOther

definition pion_onOpen :: "pionConn \<Rightarrow> pionConn" where
  "pion_onOpen c = c\<lparr> pc_open := True \<rparr>"

definition pion_onMessage :: "bool \<Rightarrow> bytes \<Rightarrow> pionConn \<Rightarrow> pionConn option" where
  "pion_onMessage pick b c =
     (let room = length (pc_in c) < pipe_cap;
          enqueue = Some (c\<lparr> pc_in := pc_in c @ [b] \<rparr>)
      in if pc_done c \<and> room then (if pick then Some c else enqueue)
         else if pc_done c then Some c
         else if room then enqueue
         else None)"

definition pion_onStateChange :: "pion_state \<Rightarrow> pionConn \<Rightarrow> pionConn" where
  "pion_onStateChange st c = (if st = PCFailed \<or> st = PCClosed then pion_closeDone c else c)"

text \<open>\<open>waitOpen\<close> returns by one of the cases that are ready; \<open>ready\<close> is the one taken.\<close>

datatype wait_case = WOpen | WDone | WTimeout

definition pion_waitOpen :: "wait_case \<Rightarrow> (pionConn, unit) go" where
  "pion_waitOpen ready c =
     (case ready of
        WOpen \<Rightarrow> if pc_open c then Some (Inr (), c) else None
      | WDone \<Rightarrow> if pc_done c then Some (Inl ErrClosed, c) else None
      | WTimeout \<Rightarrow> Some (Inl ''transport: timed out opening data channel'', c))"

text \<open>\<open>dc\<close> is what the library's data channel answers to \<open>Send\<close>, \<open>pc\<close> what \<open>PeerConnection.Close\<close> answers.\<close>

definition pion_Send :: "unit result \<Rightarrow> bytes \<Rightarrow> (pionConn, unit) go" where
  "pion_Send dc b c =
     (if pc_done c then Some (Inl ErrClosed, c)
      else case dc of Inl e \<Rightarrow> Some (Inl e, c) | Inr _ \<Rightarrow> Some (Inr (), c\<lparr> pc_sent := pc_sent c @ [b] \<rparr>))"

definition pion_Recv :: "(pionConn, bytes) go" where
  "pion_Recv c =
     (case pc_in c of
        b # bs \<Rightarrow> Some (Inr b, c\<lparr> pc_in := bs \<rparr>)
      | [] \<Rightarrow> if pc_done c then Some (Inl ErrClosed, c) else None)"

definition pion_Close :: "unit result \<Rightarrow> (pionConn, unit) go" where
  "pion_Close pc c = Some (pc, pion_closeDone c)"

definition pion_conn :: "unit result \<Rightarrow> unit result \<Rightarrow> pionConn conn" where
  "pion_conn dc pc = \<lparr> conn_Send = pion_Send dc, conn_Recv = pion_Recv, conn_Close = pion_Close pc \<rparr>"

interpretation pion_conn: conn_laws "pion_conn dc pc" pc_in pc_sent pc_done for dc pc
  by unfold_locales
    (auto simp: pion_conn_def pion_Send_def pion_Recv_def pion_Close_def pion_closeDone_def
      split: if_splits sum.splits)

text \<open>\<open>toICEServers\<close> passes credentials on only together with a user name.\<close>

definition toICEServer :: "iceServer \<Rightarrow> iceServer" where
  "toICEServer s =
     (let srv = \<lparr> ice_urls = ice_urls s, ice_username = [], ice_credential = [] \<rparr>
      in if ice_username s \<noteq> [] then srv\<lparr> ice_username := ice_username s, ice_credential := ice_credential s \<rparr>
         else srv)"

definition toICEServers :: "iceServer list \<Rightarrow> iceServer list" where
  "toICEServers = map toICEServer"

section \<open>Runs of a pipe\<close>

text \<open>Any interleaving of the two ends' operations, with the messages each end has sent and received.\<close>

record pipe_run =
  pr_pipe :: pipe
  pr_sent :: "pipe_end \<Rightarrow> bytes list"
  pr_got :: "pipe_end \<Rightarrow> bytes list"

fun other_end :: "pipe_end \<Rightarrow> pipe_end" where
  "other_end EndA = EndB"
| "other_end EndB = EndA"

inductive pipe_step :: "pipe_run \<Rightarrow> pipe_run \<Rightarrow> bool" where
  sent: "pipe_Send pick e b (pr_pipe s) = Some (Inr (), p) \<Longrightarrow>
    pipe_step s (s\<lparr> pr_pipe := p, pr_sent := (pr_sent s)(e := pr_sent s e @ [b]) \<rparr>)"
| refused: "pipe_Send pick e b (pr_pipe s) = Some (Inl err, p) \<Longrightarrow> pipe_step s (s\<lparr> pr_pipe := p \<rparr>)"
| got: "pipe_Recv e (pr_pipe s) = Some (Inr b, p) \<Longrightarrow>
    pipe_step s (s\<lparr> pr_pipe := p, pr_got := (pr_got s)(e := pr_got s e @ [b]) \<rparr>)"
| ended: "pipe_Recv e (pr_pipe s) = Some (Inl err, p) \<Longrightarrow> pipe_step s (s\<lparr> pr_pipe := p \<rparr>)"
| close: "pipe_Close (pr_pipe s) = Some (r, p) \<Longrightarrow> pipe_step s (s\<lparr> pr_pipe := p \<rparr>)"

definition pipe_start :: pipe_run where
  "pipe_start = \<lparr> pr_pipe = Pipe, pr_sent = (\<lambda>_. []), pr_got = (\<lambda>_. []) \<rparr>"

inductive pipe_reach :: "pipe_run \<Rightarrow> bool" where
  start: "pipe_reach pipe_start"
| step: "pipe_reach s \<Longrightarrow> pipe_step s t \<Longrightarrow> pipe_reach t"

definition pipe_inv :: "pipe_run \<Rightarrow> bool" where
  "pipe_inv s \<longleftrightarrow> (\<forall>e. pr_sent s e = pr_got s (other_end e) @ pipe_out e (pr_pipe s) \<and>
     length (pipe_out e (pr_pipe s)) \<le> pipe_cap)"

lemma pipe_in_out: "pipe_in e p = pipe_out (other_end e) p"
  by (cases e) simp_all

lemma other_end_neq [simp]: "other_end e \<noteq> e" "e \<noteq> other_end e" "other_end (other_end e) = e"
  by (cases e; simp)+

lemma pipe_out_other: "e' \<noteq> e \<Longrightarrow> pipe_out e' (set_out e q p) = pipe_out e' p"
  by (cases e; cases e') (simp_all add: pipe_parts)

lemma set_in_out: "set_in e q p = set_out (other_end e) q p"
  by (cases e) (simp_all add: pipe_parts)

lemma pipe_inv_step: "pipe_step s t \<Longrightarrow> pipe_inv s \<Longrightarrow> pipe_inv t"
proof (induction rule: pipe_step.induct)
  case (sent pick e b s p)
  have p: "p = set_out e (pipe_out e (pr_pipe s) @ [b]) (pr_pipe s)" "length (pipe_out e (pr_pipe s)) < pipe_cap"
    using sent(1) by (auto simp: pipe_Send_def Let_def split: if_splits)
  have "pr_sent s e' = pr_got s (other_end e') @ pipe_out e' p \<and> length (pipe_out e' p) \<le> pipe_cap" if "e' \<noteq> e" for e'
    using that sent(2) p(1) by (simp add: pipe_inv_def pipe_out_other)
  then show ?case using sent(2) p by (auto simp: pipe_inv_def)
next
  case (got e s b p)
  obtain bs where q: "pipe_out (other_end e) (pr_pipe s) = b # bs" "p = set_out (other_end e) bs (pr_pipe s)"
    using got(1) by (auto simp: pipe_Recv_def pipe_in_out set_in_out split: list.splits if_splits)
  have "pr_sent s e' = (if other_end e' = e then pr_got s e @ [b] else pr_got s (other_end e')) @ pipe_out e' p \<and>
      length (pipe_out e' p) \<le> pipe_cap" for e'
  proof (cases "e' = other_end e")
    case True
    then show ?thesis using got(2) q by (auto simp: pipe_inv_def dest: spec [of _ "other_end e"])
  next
    case False
    then have "other_end e' \<noteq> e" by auto
    with False show ?thesis using got(2) q(2) by (simp add: pipe_inv_def pipe_out_other)
  qed
  then show ?case by (simp add: pipe_inv_def)
next
  case (refused pick e b s err p)
  then show ?case by (auto simp: pipe_Send_def Let_def pipe_inv_def split: if_splits)
next
  case (ended e s err p)
  then show ?case by (auto simp: pipe_Recv_def pipe_inv_def split: if_splits list.splits)
next
  case (close s r p)
  then show ?case by (auto simp: pipe_Close_def pipe_inv_def)
qed

lemma pipe_inv_reach: "pipe_reach s \<Longrightarrow> pipe_inv s"
proof (induction rule: pipe_reach.induct)
  case start
  show ?case by (simp add: pipe_inv_def pipe_start_def Pipe_def pipe_out_def split: pipe_end.split)
qed (rule pipe_inv_step)

section \<open>Properties\<close>

text \<open>C24. The in-process connection is a FIFO in each direction whatever the two ends do and in whatever
  order: what one end has received is a prefix of what the other has sent, the difference is the
  at most 64 buffered messages, a receive always gives the oldest of them, also after a close, and
  reports the close only when none is left.\<close>

theorem pipe_fifo:
  assumes "pipe_reach s"
  shows "pr_sent s e = pr_got s (other_end e) @ pipe_out e (pr_pipe s) \<and> length (pipe_out e (pr_pipe s)) \<le> 64 \<and>
    (case pipe_out e (pr_pipe s) of
       b # bs \<Rightarrow> \<exists>p. pipe_Recv (other_end e) (pr_pipe s) = Some (Inr b, p)
     | [] \<Rightarrow> pipe_Recv (other_end e) (pr_pipe s) =
               (if pp_done (pr_pipe s) then Some (Inl ErrClosed, pr_pipe s) else None))"
  using pipe_inv_reach [OF assms]
  by (auto simp: pipe_inv_def pipe_cap_def pipe_Recv_def pipe_in_out split: list.split)

theorem pipe_fifo_witness:
  "\<exists>s. pipe_reach s \<and> pr_sent s EndA = [[1]] \<and> pr_got s EndB @ pipe_out EndA (pr_pipe s) = [[1]] \<and>
     pipe_out EndA (pr_pipe s) = [[1]]"
proof -
  let ?s = "pipe_start\<lparr> pr_pipe := set_out EndA [[1]] Pipe, pr_sent := (pr_sent pipe_start)(EndA := pr_sent pipe_start EndA @ [[1]]) \<rparr>"
  have "pipe_step pipe_start ?s"
    by (rule pipe_step.sent [of False]) (simp add: pipe_Send_def pipe_start_def Pipe_def pipe_parts pipe_cap_def)
  then have r: "pipe_reach ?s" using pipe_reach.start pipe_reach.step by blast
  from pipe_fifo [OF r, of EndA] r show ?thesis by (intro exI [of _ ?s]) (simp add: pipe_start_def)
qed

end
