(* ===== verification/Webrtc.thy ===== *)
theory Webrtc
  imports Transport Signaling
begin

text \<open>
  \<open>src/core/pkg/transport/pion.go\<close>, \<open>Dial\<close> and \<open>Accept\<close>: the order in which they call the WebRTC library and
  the signaler, and what they release when a call fails. A \<open>pion_env\<close> holds what the library answers
  during one negotiation; session descriptions are opaque bytes. The state has the signaler's state and
  whether the peer connection of this negotiation is open. \<open>Dial\<close> is split where it waits for the answer.
\<close>

text \<open>\<open>New\<close> and \<open>Close\<close> of the transport: a transport is its ICE configuration, and has nothing to close.\<close>

definition pion_New :: "iceServer list \<Rightarrow> iceServer list result" where
  "pion_New cfg = Inr (toICEServers cfg)"

definition transport_Close :: "unit result" where
  "transport_Close = Inr ()"

record pion_env =
  pe_newPC :: "unit result"
  pe_createDC :: "unit result"
  pe_createDesc :: "unit result"
  pe_setLocal :: "unit result"
  pe_local :: bytes
  pe_decode :: "bytes \<Rightarrow> unit result"
  pe_setRemote :: "bytes \<Rightarrow> unit result"
  pe_inbound :: bool
  pe_conn :: pionConn
  pe_wait :: wait_case

record 'g negotiation =
  ng_sig :: 'g
  ng_open :: bool

definition on_sig :: "('g, 'a) go \<Rightarrow> ('g negotiation, 'a) go" where
  "on_sig = go_on ng_sig (\<lambda>g n. n\<lparr> ng_sig := g \<rparr>)"

definition newPeerConnection :: "pion_env \<Rightarrow> ('g negotiation, unit) go" where
  "newPeerConnection env = go_bind (go_of (pe_newPC env)) (\<lambda>_. go_put (\<lambda>n. n\<lparr> ng_open := True \<rparr>))"

text \<open>\<open>if err != nil \{ pc.Close(); return nil, err \}\<close>.\<close>

definition or_close :: "('g negotiation, 'a) go \<Rightarrow> ('g negotiation, 'a) go" where
  "or_close m = go_catch m (\<lambda>e. go_seq (go_put (\<lambda>n. n\<lparr> ng_open := False \<rparr>)) (go_err e))"

definition waitOpen :: "pion_env \<Rightarrow> ('g negotiation, pionConn) go" where
  "waitOpen env n =
     (case pion_waitOpen (pe_wait env) (pe_conn env) of
        None \<Rightarrow> None
      | Some (Inl e, _) \<Rightarrow> Some (Inl e, n)
      | Some (Inr _, c) \<Rightarrow> Some (Inr c, n))"

definition setLocalAndGather :: "pion_env \<Rightarrow> ('g negotiation, unit) go" where
  "setLocalAndGather env = go_of (pe_setLocal env)"

definition dial_offer :: "'g signaler \<Rightarrow> pion_env \<Rightarrow> string \<Rightarrow> ('g negotiation, unit) go" where
  "dial_offer sg env peerID =
     go_bind (newPeerConnection env) (\<lambda>_.
     go_bind (or_close (go_of (pe_createDC env))) (\<lambda>_.
     go_bind (or_close (go_of (pe_createDesc env))) (\<lambda>_.
     go_bind (or_close (setLocalAndGather env)) (\<lambda>_.
     or_close (on_sig (sg_SendSDP sg peerID (pe_local env)))))))"

definition dial_finish :: "'g signaler \<Rightarrow> pion_env \<Rightarrow> string \<Rightarrow> ('g negotiation, pionConn) go" where
  "dial_finish sg env peerID =
     go_bind (or_close (on_sig (sg_RecvSDP sg peerID))) (\<lambda>answer.
     go_bind (or_close (go_of (pe_decode env answer))) (\<lambda>_.
     go_bind (or_close (go_of (pe_setRemote env answer))) (\<lambda>_.
     or_close (waitOpen env))))"

definition pion_Dial :: "'g signaler \<Rightarrow> pion_env \<Rightarrow> string \<Rightarrow> ('g negotiation, pionConn) go" where
  "pion_Dial sg env peerID = go_bind (dial_offer sg env peerID) (\<lambda>_. dial_finish sg env peerID)"

definition pion_Accept :: "'g signaler \<Rightarrow> pion_env \<Rightarrow> ('g negotiation, pionConn) go" where
  "pion_Accept sg env =
     go_bind (newPeerConnection env) (\<lambda>_.
     go_bind (or_close (on_sig (sg_RecvSDP sg []))) (\<lambda>offer.
     go_bind (or_close (go_of (pe_decode env offer))) (\<lambda>_.
     go_bind (or_close (go_of (pe_setRemote env offer))) (\<lambda>_.
     go_bind (or_close (go_of (pe_createDesc env))) (\<lambda>_.
     go_bind (or_close (setLocalAndGather env)) (\<lambda>_.
     go_bind (or_close (on_sig (sg_SendSDP sg [] (pe_local env)))) (\<lambda>_.
     if pe_inbound env then or_close (waitOpen env)
     else or_close (go_err ''transport: timed out waiting for data channel''))))))))"

section \<open>No peer connection is leaked\<close>

text \<open>An operation that closes what it opened when it fails.\<close>

definition releases :: "('g negotiation, 'a) go \<Rightarrow> bool" where
  "releases m \<longleftrightarrow> (\<forall>n r n'. m n = Some (r, n') \<longrightarrow> ng_open n \<longrightarrow> ng_open n' = is_ok r)"

lemma releases_bind: "releases m \<Longrightarrow> (\<And>x. releases (f x)) \<Longrightarrow> releases (go_bind m f)"
  unfolding releases_def go_bind_def by (fastforce split: option.splits sum.splits)

definition keeps_open :: "('g negotiation, 'a) go \<Rightarrow> bool" where
  "keeps_open m \<longleftrightarrow> (\<forall>n r n'. m n = Some (r, n') \<longrightarrow> ng_open n' = ng_open n)"

lemma releases_or_close: "keeps_open m \<Longrightarrow> releases (or_close m)"
  unfolding releases_def keeps_open_def or_close_def
  by (fastforce simp: go_catch_def go_seq_def go_bind_def go_put_def go_err_def split: option.splits sum.splits)

lemma keeps_open_base:
  "keeps_open (go_of r)" "keeps_open (go_err e)" "keeps_open (on_sig m)" "keeps_open (waitOpen env)" "keeps_open (setLocalAndGather env)"
  by (auto simp: keeps_open_def go_of_def go_err_def on_sig_def go_on_def waitOpen_def setLocalAndGather_def
      split: option.splits sum.splits)

lemmas releases_intros = releases_bind releases_or_close keeps_open_base

lemma negotiation_releases:
  "newPeerConnection env n = Some (Inr u, n1) \<Longrightarrow> releases m \<Longrightarrow> m n1 = Some (r, n2) \<Longrightarrow> ng_open n2 = is_ok r"
  by (auto simp: newPeerConnection_def releases_def go_bind_def go_of_def go_put_def split: sum.splits)

lemma newPeerConnection_fails: "newPeerConnection env n = Some (Inl e, n') \<Longrightarrow> n' = n"
  by (auto simp: newPeerConnection_def go_bind_def go_of_def go_put_def split: sum.splits)

lemma opened_releases:
  assumes "releases m" "\<not> ng_open n" "go_bind (newPeerConnection env) (\<lambda>_. m) n = Some (r, n')"
  shows "ng_open n' = is_ok r"
proof (cases "newPeerConnection env n")
  case (Some q)
  obtain r1 n1 where q: "q = (r1, n1)" by force
  with Some assms show ?thesis
    by (cases r1) (auto simp: go_bind_def dest: newPeerConnection_fails negotiation_releases)
qed (use assms in \<open>simp add: go_bind_def\<close>)

lemma Dial_releases:
  assumes "\<not> ng_open n" "pion_Dial sg env peerID n = Some (r, n')"
  shows "ng_open n' = is_ok r"
proof -
  let ?rest = "go_bind (go_bind (or_close (go_of (pe_createDC env))) (\<lambda>_.
     go_bind (or_close (go_of (pe_createDesc env))) (\<lambda>_.
     go_bind (or_close (setLocalAndGather env)) (\<lambda>_.
     or_close (on_sig (sg_SendSDP sg peerID (pe_local env))))))) (\<lambda>_. dial_finish sg env peerID)"
  have "releases ?rest" unfolding dial_finish_def by (intro releases_intros)
  then show ?thesis
    by (rule opened_releases [OF _ assms(1)]) (use assms(2) in \<open>simp add: pion_Dial_def dial_offer_def go_bind_assoc\<close>)
qed

lemma Accept_releases:
  assumes "\<not> ng_open n" "pion_Accept sg env n = Some (r, n')"
  shows "ng_open n' = is_ok r"
  by (rule opened_releases [OF _ assms(1) assms(2) [unfolded pion_Accept_def]])
     (intro releases_intros, simp add: releases_or_close keeps_open_base)

section \<open>Rendezvous over any exchange of session descriptions\<close>

text \<open>What the WebRTC library answers in a negotiation that works out: both sides create their
  descriptions, each accepts the one the other made, and both data channels open.\<close>

definition pion_agree :: "pion_env \<Rightarrow> pion_env \<Rightarrow> bool" where
  "pion_agree ea eb \<longleftrightarrow>
     pe_newPC ea = Inr () \<and> pe_createDC ea = Inr () \<and> pe_createDesc ea = Inr () \<and> pe_setLocal ea = Inr () \<and>
     pe_wait ea = WOpen \<and> pc_open (pe_conn ea) \<and>
     pe_newPC eb = Inr () \<and> pe_createDesc eb = Inr () \<and> pe_setLocal eb = Inr () \<and> pe_inbound eb \<and>
     pe_wait eb = WOpen \<and> pc_open (pe_conn eb) \<and>
     pe_decode eb (pe_local ea) = Inr () \<and> pe_setRemote eb (pe_local ea) = Inr () \<and>
     pe_decode ea (pe_local eb) = Inr () \<and> pe_setRemote ea (pe_local eb) = Inr ()"

lemmas negotiation_run = newPeerConnection_def or_close_def on_sig_def waitOpen_def setLocalAndGather_def
  pion_waitOpen_def go_defs

context sdp_exchange
begin

text \<open>The three parts of a negotiation, each from any state of the exchange in which it can run.\<close>

lemma offer_part:
  assumes sg: "sg_SendSDP s = send a" and agree: "pion_agree ea eb" and g: "up g" "peer b" "carries (pe_local ea)" "offers g b = []"
  obtains g' where "dial_offer s ea b \<lparr> ng_sig = g, ng_open = False \<rparr> = Some (Inr (), \<lparr> ng_sig = g', ng_open = True \<rparr>)"
    "up g'" "offers g' = (offers g)(b := [(a, pe_local ea)])" "answers g' = answers g"
proof -
  obtain g' where g': "send a b (pe_local ea) g = Some (Inr (), g')" "up g'" "offers g' = (offers g)(b := [(a, pe_local ea)])" "answers g' = answers g"
    using send_offer [of g b "pe_local ea" a] g room_pos by auto
  show ?thesis
    by (rule that [OF _ g'(2-4)]) (use agree in \<open>simp add: dial_offer_def negotiation_run sg g'(1) pion_agree_def\<close>)
qed

lemma accept_part:
  assumes sg: "sg_SendSDP s = send b" "sg_RecvSDP s = recv b" and agree: "pion_agree ea eb"
    and g: "up g" "peer a" "carries (pe_local eb)" "offers g b = [(a, pe_local ea)]" "answers g a b = []"
  obtains g' where "pion_Accept s eb \<lparr> ng_sig = g, ng_open = False \<rparr> = Some (Inr (pe_conn eb), \<lparr> ng_sig = g', ng_open = True \<rparr>)"
    "up g'" "offers g' = (offers g)(b := [])" "answers g' = (answers g)(a := (answers g a)(b := [pe_local eb]))"
proof -
  obtain g1 where g1: "recv b [] g = Some (Inr (pe_local ea), g1)" "up g1" "offers g1 = (offers g)(b := [])" "answers g1 = answers g"
      "reply_to g1 b = a"
    using recv_offer [OF g(1,4)] by auto
  obtain g2 where g2: "send b [] (pe_local eb) g1 = Some (Inr (), g2)" "up g2" "offers g2 = offers g1"
      "answers g2 = (answers g)(a := (answers g a)(b := [pe_local eb]))"
    using send_answer [OF g1(2,5) g(2,3)] g room_pos g1(4) by auto
  show ?thesis
    by (rule that [OF _ g2(2) _ g2(4)]) (use agree g1(3) g2(3) in \<open>simp_all add: pion_Accept_def negotiation_run sg g1(1) g2(1) pion_agree_def\<close>)
qed

lemma finish_part:
  assumes sg: "sg_RecvSDP s = recv a" and agree: "pion_agree ea eb"
    and g: "up g" "peer b" "answers g a b = [pe_local eb]"
  obtains g' where "dial_finish s ea b \<lparr> ng_sig = g, ng_open = True \<rparr> = Some (Inr (pe_conn ea), \<lparr> ng_sig = g', ng_open = True \<rparr>)"
    "up g'" "offers g' = offers g" "answers g' = (answers g)(a := (answers g a)(b := []))"
proof -
  obtain g' where g': "recv a b g = Some (Inr (pe_local eb), g')" "up g'" "offers g' = offers g" "answers g' = (answers g)(a := (answers g a)(b := []))"
    using recv_answer [OF g(1,3,2)] by auto
  show ?thesis
    by (rule that [OF _ g'(2-4)]) (use agree in \<open>simp add: dial_finish_def negotiation_run sg g'(1) pion_agree_def\<close>)
qed

lemma rendezvous:
  assumes sg: "\<And>me. sg_SendSDP (sg me) = send me" "\<And>me. sg_RecvSDP (sg me) = recv me"
    and agree: "pion_agree ea eb"
    and idle: "up g" "peer a" "peer b" "carries (pe_local ea)" "carries (pe_local eb)" "offers g b = []" "answers g a b = []"
  shows "\<exists>g1 g2 g3. dial_offer (sg a) ea b \<lparr> ng_sig = g, ng_open = False \<rparr> = Some (Inr (), \<lparr> ng_sig = g1, ng_open = True \<rparr>) \<and>
    pion_Accept (sg b) eb \<lparr> ng_sig = g1, ng_open = False \<rparr> = Some (Inr (pe_conn eb), \<lparr> ng_sig = g2, ng_open = True \<rparr>) \<and>
    dial_finish (sg a) ea b \<lparr> ng_sig = g2, ng_open = True \<rparr> = Some (Inr (pe_conn ea), \<lparr> ng_sig = g3, ng_open = True \<rparr>) \<and>
    up g3 \<and> offers g3 = offers g \<and> answers g3 = answers g"
proof -
  obtain g1 where g1: "dial_offer (sg a) ea b \<lparr> ng_sig = g, ng_open = False \<rparr> = Some (Inr (), \<lparr> ng_sig = g1, ng_open = True \<rparr>)"
    "up g1" "offers g1 = (offers g)(b := [(a, pe_local ea)])" "answers g1 = answers g"
    by (rule offer_part [OF sg(1) [of a] agree idle(1,3,4,6)])
  obtain g2 where g2: "pion_Accept (sg b) eb \<lparr> ng_sig = g1, ng_open = False \<rparr> = Some (Inr (pe_conn eb), \<lparr> ng_sig = g2, ng_open = True \<rparr>)"
    "up g2" "offers g2 = (offers g1)(b := [])" "answers g2 = (answers g1)(a := (answers g1 a)(b := [pe_local eb]))"
    by (rule accept_part [OF sg [of b] agree g1(2) idle(2,5)]) (simp_all add: g1 idle)
  obtain g3 where g3: "dial_finish (sg a) ea b \<lparr> ng_sig = g2, ng_open = True \<rparr> = Some (Inr (pe_conn ea), \<lparr> ng_sig = g3, ng_open = True \<rparr>)"
    "up g3" "offers g3 = offers g2" "answers g3 = (answers g2)(a := (answers g2 a)(b := []))"
    by (rule finish_part [OF sg(2) [of a] agree g2(2) idle(3)]) (simp_all add: g2)
  have "offers g3 = offers g" "answers g3 = answers g"
    using g1(3,4) g2(3,4) g3(3,4) idle(6,7) by (auto simp: fun_eq_iff)
  with g1 g2 g3 show ?thesis by blast
qed

end

section \<open>Properties\<close>

text \<open>C26. A failed negotiation leaves nothing behind: whatever the WebRTC library and the signaler answer,
  and at whichever step a call fails, \<open>Dial\<close> and \<open>Accept\<close> leave the peer connection open exactly when
  they return a connection.\<close>

theorem negotiation_no_leak:
  assumes "\<not> ng_open n"
  shows "(pion_Dial sg env peerID n = Some (r, n') \<longrightarrow> ng_open n' = is_ok r) \<and>
    (pion_Accept sg env n = Some (r, n') \<longrightarrow> ng_open n' = is_ok r)"
  using Dial_releases [OF assms] Accept_releases [OF assms] by blast

definition toy_pion :: pion_env where
  "toy_pion = \<lparr> pe_newPC = Inr (), pe_createDC = Inr (), pe_createDesc = Inr (), pe_setLocal = Inr (), pe_local = [1],
     pe_decode = (\<lambda>_. Inr ()), pe_setRemote = (\<lambda>_. Inl ''bad sdp''), pe_inbound = True,
     pe_conn = newPionConn\<lparr> pc_open := True \<rparr>, pe_wait = WOpen \<rparr>"

definition toy_fabric :: fabric where
  "toy_fabric = reg_Join ''b'' (reg_Join ''a'' \<lparr> fb_reg = NewRegistry, fb_last = (\<lambda>_. []) \<rparr>)"

theorem negotiation_no_leak_witness:
  "\<exists>n'. pion_Dial (mem_signaler ''a'') (toy_pion\<lparr> pe_createDC := Inl ''no channel'' \<rparr>) ''b'' \<lparr> ng_sig = toy_fabric, ng_open = False \<rparr> =
      Some (Inl ''no channel'', n') \<and> ng_open n' = is_ok (Inl ''no channel'' :: pionConn result)"
proof -
  let ?n = "\<lparr> ng_sig = toy_fabric, ng_open = False \<rparr>"
  have "pion_Dial (mem_signaler ''a'') (toy_pion\<lparr> pe_createDC := Inl ''no channel'' \<rparr>) ''b'' ?n = Some (Inl ''no channel'', ?n)"
    by (simp add: pion_Dial_def dial_offer_def newPeerConnection_def or_close_def toy_pion_def go_defs)
  with negotiation_no_leak [of ?n] show ?thesis by (intro exI [of _ ?n]) (metis select_convs(2))
qed

text \<open>Rendezvous: on an idle registry the offer of a dialling peer reaches the peer it names, the answer
  comes back to the dialler and to nobody else's queue, each side applies exactly the description the
  other one made, and both end with a connection.\<close>

theorem webrtc_rendezvous:
  assumes peers: "a \<noteq> []" "b \<noteq> []" and idle: "mem_offers f b = []" "mem_answers f a b = []"
    and agree: "pion_agree ea eb"
  shows "\<exists>f1 f2 f3. dial_offer (mem_signaler a) ea b \<lparr> ng_sig = f, ng_open = False \<rparr> = Some (Inr (), \<lparr> ng_sig = f1, ng_open = True \<rparr>) \<and>
    pion_Accept (mem_signaler b) eb \<lparr> ng_sig = f1, ng_open = False \<rparr> = Some (Inr (pe_conn eb), \<lparr> ng_sig = f2, ng_open = True \<rparr>) \<and>
    dial_finish (mem_signaler a) ea b \<lparr> ng_sig = f2, ng_open = True \<rparr> = Some (Inr (pe_conn ea), \<lparr> ng_sig = f3, ng_open = True \<rparr>) \<and>
    mem_offers f3 = mem_offers f \<and> mem_answers f3 = mem_answers f"
  using mem_sdp.rendezvous [where sg = mem_signaler and ea = ea and eb = eb and g = f and a = a and b = b] peers idle agree
  by (simp add: mem_signaler_def)

theorem webrtc_rendezvous_witness:
  "\<exists>ea eb f1 f2 f3. dial_offer (mem_signaler ''a'') ea ''b'' \<lparr> ng_sig = toy_fabric, ng_open = False \<rparr> = Some (Inr (), \<lparr> ng_sig = f1, ng_open = True \<rparr>) \<and>
    pion_Accept (mem_signaler ''b'') eb \<lparr> ng_sig = f1, ng_open = False \<rparr> = Some (Inr (pe_conn eb), \<lparr> ng_sig = f2, ng_open = True \<rparr>) \<and>
    dial_finish (mem_signaler ''a'') ea ''b'' \<lparr> ng_sig = f2, ng_open = True \<rparr> = Some (Inr (pe_conn ea), \<lparr> ng_sig = f3, ng_open = True \<rparr>)"
proof -
  let ?ea = "toy_pion\<lparr> pe_setRemote := (\<lambda>x. if x = [2] then Inr () else Inl ''bad sdp'') \<rparr>"
  let ?eb = "toy_pion\<lparr> pe_local := [2], pe_setRemote := (\<lambda>x. if x = [1] then Inr () else Inl ''bad sdp'') \<rparr>"
  have "mem_offers toy_fabric ''b'' = []" "mem_answers toy_fabric ''a'' ''b'' = []"
    by (simp_all add: toy_fabric_def reg_Join_def NewRegistry_def mem_defs Let_def)
  moreover have "pion_agree ?ea ?eb" by (simp add: pion_agree_def toy_pion_def newPionConn_def)
  ultimately show ?thesis
    using webrtc_rendezvous [of "''a''" "''b''" toy_fabric ?ea ?eb] by (intro exI [of _ ?ea] exI [of _ ?eb]) blast
qed

end
