(* ===== verification/Dht_Net.thy ===== *)
theory Dht_Net
  imports Signaling_Dht Webrtc
begin

text \<open>
  DHT signalers that talk to each other: the streams one of them writes (\<open>sendStream\<close>) arrive at the stream
  handler of the other (\<open>onStream\<close>), as libp2p delivers them, and the handlers that find a full queue wait.
  The signalers then exchange session descriptions as the contract \<open>sdp_exchange\<close> asks, so the WebRTC
  negotiation works over them as it does over the in-process registry; the stronger contract, that
  answers follow the offer that was taken, is the registry's only.
\<close>

section \<open>The net\<close>

record dht_net =
  nt_sig :: "string \<Rightarrow> dhtSignaler"
  nt_waiting :: "(string \<times> string \<times> byte \<times> bytes) list"

text \<open>\<open>arrive me (pid, raw)\<close>: the stream that \<open>me\<close> wrote to \<open>pid\<close> is handled there.\<close>

definition arrive :: "string \<Rightarrow> string \<times> bytes \<Rightarrow> dht_net \<Rightarrow> dht_net" where
  "arrive me st n =
     (case dht_onStream False me (snd st) (nt_sig n (fst st)) of
        (waits, s) \<Rightarrow> n\<lparr> nt_sig := (nt_sig n)(fst st := s),
          nt_waiting := nt_waiting n @ (case waits of None \<Rightarrow> [] | Some (kind, d) \<Rightarrow> [(fst st, me, kind, d)]) \<rparr>)"

definition on_peer :: "string \<Rightarrow> (dhtSignaler, 'a) go \<Rightarrow> (dht_net, 'a) go" where
  "on_peer me = go_on (\<lambda>n. nt_sig n me) (\<lambda>s n. n\<lparr> nt_sig := (nt_sig n)(me := s) \<rparr>)"

text \<open>An operation of \<open>me\<close> followed by the arrival of the streams it wrote.\<close>

definition with_streams :: "string \<Rightarrow> (dhtSignaler, 'a) go \<Rightarrow> (dht_net, 'a) go" where
  "with_streams me m n =
     (case m (nt_sig n me) of
        None \<Rightarrow> None
      | Some (r, s) \<Rightarrow>
          Some (r, fold (arrive me) (drop (length (dh_streams (nt_sig n me))) (dh_streams s))
                     (n\<lparr> nt_sig := (nt_sig n)(me := s) \<rparr>)))"

type_synonym stream_opener = "string \<Rightarrow> string \<Rightarrow> (bytes \<Rightarrow> unit result) result"

definition net_SendSDP :: "(string \<Rightarrow> string result) \<Rightarrow> stream_opener \<Rightarrow> string \<Rightarrow> string \<Rightarrow> bytes \<Rightarrow> (dht_net, unit) go" where
  "net_SendSDP decode opn me p x = with_streams me (dht_SendSDP decode (opn me) p x)"

definition net_RecvSDP :: "(string \<Rightarrow> string result) \<Rightarrow> string \<Rightarrow> string \<Rightarrow> (dht_net, bytes) go" where
  "net_RecvSDP decode me p = on_peer me (dht_RecvSDP decode False p)"

definition dht_signaler ::
    "(string \<Rightarrow> string result) \<Rightarrow> stream_opener \<Rightarrow> (string \<Rightarrow> addrInfo list result) \<Rightarrow> (string \<Rightarrow> bool) \<Rightarrow> string \<Rightarrow> dht_net signaler" where
  "dht_signaler decode opn findPeers connected me =
     \<lparr> sg_Advertise = (\<lambda>k. on_peer me (dht_Advertise k)),
       sg_Find = (\<lambda>k. on_peer me (dht_Find findPeers k)),
       sg_SendSDP = net_SendSDP decode opn me,
       sg_RecvSDP = net_RecvSDP decode me,
       sg_SendCandidate = (\<lambda>p c. with_streams me (dht_SendCandidate decode (opn me) p c)),
       sg_RecvCandidate = (\<lambda>_. on_peer me (dht_RecvCandidate False)),
       sg_Presence = (\<lambda>p. go_of (dht_Presence decode connected p)),
       sg_Close = on_peer me (dht_Close (Inr ())) \<rparr>"

section \<open>What a stream does at its receiver\<close>

definition net_offers :: "dht_net \<Rightarrow> string \<Rightarrow> (string \<times> bytes) list" where
  "net_offers n p = map (\<lambda>f. (of_from f, of_data f)) (dh_offerIn (nt_sig n p))"

definition net_answers :: "dht_net \<Rightarrow> string \<Rightarrow> string \<Rightarrow> bytes list" where
  "net_answers n p from = fst (dht_answerChan from (nt_sig n p))"

definition net_reply :: "dht_net \<Rightarrow> string \<Rightarrow> string" where
  "net_reply n p = dh_lastRemote (nt_sig n p)"

text \<open>No signaler of the net is closed.\<close>

definition net_up :: "dht_net \<Rightarrow> bool" where
  "net_up n \<longleftrightarrow> (\<forall>p. \<not> dh_done (nt_sig n p))"

text \<open>An id that decodes to itself, of a peer to which everybody can write.\<close>

definition net_peer :: "(string \<Rightarrow> string result) \<Rightarrow> stream_opener \<Rightarrow> string \<Rightarrow> bool" where
  "net_peer decode opn p \<longleftrightarrow> p \<noteq> [] \<and> decode p = Inr p \<and> (\<forall>me. opn me p = Inr (\<lambda>_. Inr ()))"

definition sdp_fits :: "bytes \<Rightarrow> bool" where
  "sdp_fits x \<longleftrightarrow> length x < 2 ^ 32"

lemmas net_views = net_offers_def net_answers_def net_reply_def net_up_def dht_answerChan_def

lemma stream_frame:
  assumes "sdp_fits x"
  shows "readFrame (fst (frame_bytes kind x) @ x) = Inr (kind, x)"
  using readFrame_frame [of x kind "[]"] assms by (simp add: frame_bytes_def sdp_fits_def)

lemma frame_kinds:
  "byte_of (CHR ''a'') \<noteq> byte_of (CHR ''o'')" "byte_of (CHR ''c'') \<noteq> byte_of (CHR ''o'')" "byte_of (CHR ''c'') \<noteq> byte_of (CHR ''a'')"
  by (simp_all add: byte_of_def)

lemma net_send_run:
  assumes "net_peer decode opn p" "dht_target decode q (nt_sig n me) = Inr p"
  shows "with_streams me (dht_sendStream decode (opn me) q kind x) n =
    Some (Inr (), arrive me (p, fst (frame_bytes kind x) @ x)
      (n\<lparr> nt_sig := (nt_sig n)(me := (nt_sig n me)
          \<lparr> dh_streams := dh_streams (nt_sig n me) @ [(p, fst (frame_bytes kind x) @ x)] \<rparr>) \<rparr>))"
  using assms
  by (simp add: with_streams_def dht_sendStream_def net_peer_def writeFrame_def frame_bytes_def)

lemma arrive_offer:
  assumes "sdp_fits x" "length (net_offers n p) < 8" "net_up n"
  shows "let n' = arrive me (p, fst (frame_bytes (byte_of (CHR ''o'')) x) @ x) n in
    net_up n' \<and> net_offers n' = (net_offers n)(p := net_offers n p @ [(me, x)]) \<and>
    net_answers n' = net_answers n \<and> net_reply n' = (net_reply n)(p := me)"
  using assms
  by (auto simp: arrive_def dht_onStream_def stream_frame frame_kinds dht_queue_def enqueue_def dht_cap_def fun_eq_iff net_views
      Let_def split: option.splits)

lemma arrive_answer:
  assumes "sdp_fits y" "length (net_answers n p me) < 8" "net_up n"
  shows "let n' = arrive me (p, fst (frame_bytes (byte_of (CHR ''a'')) y) @ y) n in
    net_up n' \<and> net_offers n' = net_offers n \<and> net_reply n' = net_reply n \<and>
    net_answers n' = (net_answers n)(p := (net_answers n p)(me := net_answers n p me @ [y]))"
  using assms
  by (auto simp: arrive_def dht_onStream_def stream_frame frame_kinds dht_queue_def enqueue_def dht_cap_def fun_eq_iff net_views
      Let_def split: option.splits)

text \<open>Writing a stream changes nothing that the exchange looks at before the stream arrives.\<close>

lemma net_views_streams [simp]:
  "net_up (n\<lparr> nt_sig := (nt_sig n)(me := (nt_sig n me)\<lparr> dh_streams := st \<rparr>) \<rparr>) = net_up n"
  "net_offers (n\<lparr> nt_sig := (nt_sig n)(me := (nt_sig n me)\<lparr> dh_streams := st \<rparr>) \<rparr>) = net_offers n"
  "net_answers (n\<lparr> nt_sig := (nt_sig n)(me := (nt_sig n me)\<lparr> dh_streams := st \<rparr>) \<rparr>) = net_answers n"
  "net_reply (n\<lparr> nt_sig := (nt_sig n)(me := (nt_sig n me)\<lparr> dh_streams := st \<rparr>) \<rparr>) = net_reply n"
  by (auto simp: net_views fun_eq_iff split: option.splits)


section \<open>The contract holds\<close>

interpretation dht_sdp: sdp_exchange "net_SendSDP decode opn" "net_RecvSDP decode" net_offers net_answers net_reply 8
    net_up "net_peer decode opn" sdp_fits
  for decode opn
proof unfold_locales
  fix n p x me
  assume n: "net_up n" "net_peer decode opn p" "sdp_fits x" "length (net_offers n p) < 8"
  let ?n = "n\<lparr> nt_sig := (nt_sig n)(me := (nt_sig n me)
      \<lparr> dh_streams := dh_streams (nt_sig n me) @ [(p, fst (frame_bytes (byte_of (CHR ''o'')) x) @ x)] \<rparr>) \<rparr>"
  have "p \<noteq> []" "dht_target decode p (nt_sig n me) = Inr p" using n(2) by (simp_all add: net_peer_def dht_target_def)
  then have "net_SendSDP decode opn me p x n =
      Some (Inr (), arrive me (p, fst (frame_bytes (byte_of (CHR ''o'')) x) @ x) ?n)"
    using net_send_run [OF n(2)] by (simp add: net_SendSDP_def dht_SendSDP_def)
  then show "\<exists>n'. net_SendSDP decode opn me p x n = Some (Inr (), n') \<and> net_up n' \<and>
      net_offers n' = (net_offers n)(p := net_offers n p @ [(me, x)]) \<and> net_answers n' = net_answers n \<and>
      (\<forall>q. q \<noteq> p \<longrightarrow> net_reply n' q = net_reply n q)"
    using arrive_offer [of x ?n p me] n by (simp add: Let_def)
next
  fix n me "from" x rest
  assume "net_up n" "net_offers n me = (from, x) # rest"
  then show "\<exists>n'. net_RecvSDP decode me [] n = Some (Inr x, n') \<and> net_up n' \<and>
      net_offers n' = (net_offers n)(me := rest) \<and> net_answers n' = net_answers n \<and> net_reply n' = (net_reply n)(me := from)"
    by (auto simp: net_RecvSDP_def dht_RecvSDP_def on_peer_def go_on_def net_views fun_eq_iff split: option.splits)
next
  fix n me p y
  assume n: "net_up n" "net_reply n me = p" "net_peer decode opn p" "sdp_fits y" "length (net_answers n p me) < 8"
  let ?n = "n\<lparr> nt_sig := (nt_sig n)(me := (nt_sig n me)
      \<lparr> dh_streams := dh_streams (nt_sig n me) @ [(p, fst (frame_bytes (byte_of (CHR ''a'')) y) @ y)] \<rparr>) \<rparr>"
  have "dht_target decode [] (nt_sig n me) = Inr p" using n(2,3) by (auto simp: net_peer_def dht_target_def net_reply_def)
  then have "net_SendSDP decode opn me [] y n =
      Some (Inr (), arrive me (p, fst (frame_bytes (byte_of (CHR ''a'')) y) @ y) ?n)"
    using net_send_run [OF n(3)] by (simp add: net_SendSDP_def dht_SendSDP_def)
  then show "\<exists>n'. net_SendSDP decode opn me [] y n = Some (Inr (), n') \<and> net_up n' \<and> net_offers n' = net_offers n \<and>
      net_reply n' = net_reply n \<and> net_answers n' = (net_answers n)(p := (net_answers n p)(me := net_answers n p me @ [y]))"
    using arrive_answer [of y ?n p me] n by (simp add: Let_def)
next
  fix n me p y ys
  assume "net_up n" "net_answers n me p = y # ys" "net_peer decode opn p"
  then show "\<exists>n'. net_RecvSDP decode me p n = Some (Inr y, n') \<and> net_up n' \<and> net_offers n' = net_offers n \<and>
      net_reply n' = net_reply n \<and> net_answers n' = (net_answers n)(me := (net_answers n me)(p := ys))"
    by (auto simp: net_RecvSDP_def dht_RecvSDP_def on_peer_def go_on_def net_peer_def net_views fun_eq_iff split: option.splits)
qed simp

section \<open>Properties\<close>

text \<open>C25. Rendezvous over the DHT: when both peers can be reached and nothing waits in their queues, the offer
  that \<open>Dial\<close> frames onto a stream arrives at the named peer, whose \<open>Accept\<close> answers on a stream back to the
  dialler; each side applies exactly the description the other one made and both end with a connection.\<close>

theorem dht_rendezvous:
  assumes "net_up n" "net_peer decode opn a" "net_peer decode opn b" "net_offers n b = []" "net_answers n a b = []"
    and "sdp_fits (pe_local ea)" "sdp_fits (pe_local eb)" "pion_agree ea eb"
  shows "\<exists>n1 n2 n3.
    dial_offer (dht_signaler decode opn findPeers connected a) ea b \<lparr> ng_sig = n, ng_open = False \<rparr> = Some (Inr (), \<lparr> ng_sig = n1, ng_open = True \<rparr>) \<and>
    pion_Accept (dht_signaler decode opn findPeers connected b) eb \<lparr> ng_sig = n1, ng_open = False \<rparr> = Some (Inr (pe_conn eb), \<lparr> ng_sig = n2, ng_open = True \<rparr>) \<and>
    dial_finish (dht_signaler decode opn findPeers connected a) ea b \<lparr> ng_sig = n2, ng_open = True \<rparr> = Some (Inr (pe_conn ea), \<lparr> ng_sig = n3, ng_open = True \<rparr>) \<and>
    net_up n3 \<and> net_offers n3 = net_offers n \<and> net_answers n3 = net_answers n"
  using assms by (intro dht_sdp.rendezvous) (simp_all add: dht_signaler_def)

definition toy_net :: dht_net where
  "toy_net = \<lparr> nt_sig = (\<lambda>p. newDHT \<lparr> ai_ID = p, ai_Addrs = [] \<rparr>), nt_waiting = [] \<rparr>"

theorem dht_rendezvous_witness:
  "\<exists>ea eb n1 n2 n3.
    dial_offer (dht_signaler Inr (\<lambda>_ _. Inr (\<lambda>_. Inr ())) (\<lambda>_. Inr []) (\<lambda>_. True) ''a'') ea ''b'' \<lparr> ng_sig = toy_net, ng_open = False \<rparr> =
      Some (Inr (), \<lparr> ng_sig = n1, ng_open = True \<rparr>) \<and>
    pion_Accept (dht_signaler Inr (\<lambda>_ _. Inr (\<lambda>_. Inr ())) (\<lambda>_. Inr []) (\<lambda>_. True) ''b'') eb \<lparr> ng_sig = n1, ng_open = False \<rparr> =
      Some (Inr (pe_conn eb), \<lparr> ng_sig = n2, ng_open = True \<rparr>) \<and>
    dial_finish (dht_signaler Inr (\<lambda>_ _. Inr (\<lambda>_. Inr ())) (\<lambda>_. Inr []) (\<lambda>_. True) ''a'') ea ''b'' \<lparr> ng_sig = n2, ng_open = True \<rparr> =
      Some (Inr (pe_conn ea), \<lparr> ng_sig = n3, ng_open = True \<rparr>)"
proof -
  let ?ea = "toy_pion\<lparr> pe_setRemote := (\<lambda>x. if x = [2] then Inr () else Inl ''bad sdp'') \<rparr>"
  let ?eb = "toy_pion\<lparr> pe_local := [2], pe_setRemote := (\<lambda>x. if x = [1] then Inr () else Inl ''bad sdp'') \<rparr>"
  have "pion_agree ?ea ?eb" "sdp_fits (pe_local ?ea)" "sdp_fits (pe_local ?eb)"
    by (simp_all add: pion_agree_def toy_pion_def newPionConn_def sdp_fits_def)
  moreover have "net_up toy_net" "net_offers toy_net ''b'' = []" "net_answers toy_net ''a'' ''b'' = []"
      "net_peer Inr (\<lambda>_ _. Inr (\<lambda>_. Inr ())) ''a''" "net_peer Inr (\<lambda>_ _. Inr (\<lambda>_. Inr ())) ''b''"
    by (simp_all add: toy_net_def newDHT_def net_views net_peer_def)
  ultimately show ?thesis
    by (intro exI [of _ ?ea] exI [of _ ?eb])
      (use dht_rendezvous [of toy_net Inr "\<lambda>_ _. Inr (\<lambda>_. Inr ())" "''a''" "''b''" ?ea ?eb "\<lambda>_. Inr []" "\<lambda>_. True"] in blast)
qed

end
