(* ===== verification/Curve.thy ===== *)
theory Curve
  imports Prelude
begin

text \<open>
  The two elliptic-curve primitives of the Go standard library that the program calls, X25519
  (\<open>crypto/ecdh\<close>) and Ed25519 (\<open>crypto/ed25519\<close>), enter the development as a parameter: a record of
  their functions on byte strings. \<open>curve_ok\<close> collects the documented facts the program relies on
  (key and signature sizes, the Diffie-Hellman law, no all-zero secret between honest keys,
  signatures verify). Around them, \<open>ecdh_public\<close>, \<open>ecdh_shared\<close> and the key generators have the
  checks and errors of the library: a public key has 32 bytes, and an all-zero shared secret (a
  point of low order) is an error.

  Randomness is an argument: a draw is \<open>Inr\<close> of the bytes read or \<open>Inl\<close> of the reader's error.
\<close>

record curve =
  x25519_base :: "bytes \<Rightarrow> bytes"
  x25519_mult :: "bytes \<Rightarrow> bytes \<Rightarrow> bytes"
  ed25519_pub :: "bytes \<Rightarrow> bytes"
  ed25519_sign :: "bytes \<Rightarrow> bytes \<Rightarrow> bytes"
  ed25519_verify :: "bytes \<Rightarrow> bytes \<Rightarrow> bytes \<Rightarrow> bool"

type_synonym draw = "bytes result"

definition curve_ok :: "curve \<Rightarrow> bool" where
  "curve_ok cv \<longleftrightarrow>
     (\<forall>a. length a = 32 \<longrightarrow> length (x25519_base cv a) = 32) \<and>
     (\<forall>a b. length a = 32 \<longrightarrow> length b = 32 \<longrightarrow>
        x25519_mult cv a (x25519_base cv b) = x25519_mult cv b (x25519_base cv a)) \<and>
     (\<forall>a b. length a = 32 \<longrightarrow> length b = 32 \<longrightarrow> x25519_mult cv a (x25519_base cv b) \<noteq> replicate 32 0) \<and>
     (\<forall>s. length s = 32 \<longrightarrow> length (ed25519_pub cv s) = 32) \<and>
     (\<forall>s m. length s = 32 \<longrightarrow>
        length (ed25519_sign cv (s @ ed25519_pub cv s) m) = 64 \<and>
        ed25519_verify cv (ed25519_pub cv s) m (ed25519_sign cv (s @ ed25519_pub cv s) m))"

definition draw32 :: "draw \<Rightarrow> bool" where
  "draw32 d = (case d of Inl _ \<Rightarrow> False | Inr b \<Rightarrow> length b = 32)"

text \<open>\<open>ecdh.X25519().NewPublicKey\<close>, \<open>NewPrivateKey\<close> and \<open>PrivateKey.ECDH\<close>.\<close>

definition ecdh_public :: "bytes \<Rightarrow> bytes result" where
  "ecdh_public b = (if length b = 32 then Inr b else Inl ''crypto/ecdh: invalid public key'')"

definition ecdh_private :: "bytes \<Rightarrow> bytes result" where
  "ecdh_private b = (if length b = 32 then Inr b else Inl ''crypto/ecdh: invalid private key size'')"

definition ecdh_shared :: "curve \<Rightarrow> bytes \<Rightarrow> bytes \<Rightarrow> bytes result" where
  "ecdh_shared cv priv pub =
     (let s = x25519_mult cv priv pub
      in if s = replicate 32 0 then Inl ''crypto/ecdh: bad X25519 remote ECDH input: low order point'' else Inr s)"

text \<open>The value of a call whose error the source drops: \<open>v, _ := f()\<close> leaves \<open>v\<close> nil on an error.\<close>

definition or_nil :: "bytes result \<Rightarrow> bytes" where
  "or_nil r = (case r of Inl _ \<Rightarrow> [] | Inr b \<Rightarrow> b)"

lemma or_nil_simps [simp]: "or_nil (Inr b) = b" "or_nil (Inl e) = []"
  by (simp_all add: or_nil_def)

section \<open>Consequences of the laws\<close>

lemma curve_okD:
  assumes "curve_ok cv"
  shows curve_pub_len: "length a = 32 \<Longrightarrow> length (x25519_base cv a) = 32"
    and curve_dh: "length a = 32 \<Longrightarrow> length b = 32 \<Longrightarrow>
      x25519_mult cv a (x25519_base cv b) = x25519_mult cv b (x25519_base cv a)"
    and curve_nonzero: "length a = 32 \<Longrightarrow> length b = 32 \<Longrightarrow> x25519_mult cv a (x25519_base cv b) \<noteq> replicate 32 0"
    and curve_ed_len: "length s = 32 \<Longrightarrow> length (ed25519_pub cv s) = 32"
    and curve_sig_len: "length s = 32 \<Longrightarrow> length (ed25519_sign cv (s @ ed25519_pub cv s) m) = 64"
    and curve_sig_ok: "length s = 32 \<Longrightarrow>
      ed25519_verify cv (ed25519_pub cv s) m (ed25519_sign cv (s @ ed25519_pub cv s) m)"
  using assms by (simp_all add: curve_ok_def)

lemma ecdh_shared_ok:
  "curve_ok cv \<Longrightarrow> length a = 32 \<Longrightarrow> length b = 32 \<Longrightarrow>
     ecdh_shared cv a (x25519_base cv b) = Inr (x25519_mult cv a (x25519_base cv b))"
  by (simp add: ecdh_shared_def Let_def curve_nonzero)

lemma ecdh_shared_commute:
  "curve_ok cv \<Longrightarrow> length a = 32 \<Longrightarrow> length b = 32 \<Longrightarrow>
     ecdh_shared cv a (x25519_base cv b) = ecdh_shared cv b (x25519_base cv a)"
  by (simp add: ecdh_shared_ok curve_dh)

lemma ecdh_public_base [simp]:
  "curve_ok cv \<Longrightarrow> length a = 32 \<Longrightarrow> ecdh_public (x25519_base cv a) = Inr (x25519_base cv a)"
  by (simp add: ecdh_public_def curve_pub_len)

lemma ecdh_public_len: "ecdh_public b = Inr b' \<Longrightarrow> b' = b \<and> length b = 32"
  by (simp add: ecdh_public_def split: if_splits)

lemma draw32E: "draw32 d \<Longrightarrow> (\<And>b. d = Inr b \<Longrightarrow> length b = 32 \<Longrightarrow> P) \<Longrightarrow> P"
  by (cases d) (simp_all add: draw32_def)

section \<open>An instance of the laws\<close>

text \<open>A curve over which the laws are checked by computation: addition of byte strings in place of
  scalar multiplication, and a signature that repeats the key. It serves the witnesses, which show
  that the laws can hold; no theorem is about it.\<close>

definition fit :: "nat \<Rightarrow> bytes \<Rightarrow> bytes" where
  "fit n b = take n (b @ replicate n 0)"

definition toy_curve :: curve where
  "toy_curve = \<lparr>
     x25519_base = fit 32,
     x25519_mult = (\<lambda>a p. 1 # map2 (+) (fit 31 a) (fit 31 p)),
     ed25519_pub = fit 32,
     ed25519_sign = (\<lambda>k m. fit 64 (drop 32 k)),
     ed25519_verify = (\<lambda>p m s. fit 64 p = s) \<rparr>"

lemma length_fit [simp]: "length (fit n b) = n"
  by (simp add: fit_def)

lemma fit_id [simp]: "length b = n \<Longrightarrow> fit n b = b"
  by (simp add: fit_def)

lemma map2_add_commute: "map2 (+) xs ys = map2 (+) ys (xs :: bytes)"
  by (induction xs ys rule: list_induct2') (simp_all add: add.commute)

lemma one_not_zeros: "(1 :: byte) # xs \<noteq> replicate (Suc n) 0"
  by simp

lemma toy_curve_ok: "curve_ok toy_curve"
  using one_not_zeros [where n = 31]
  by (auto simp: curve_ok_def toy_curve_def map2_add_commute simp del: replicate_Suc)

end
