(* ===== verification/Identity.thy ===== *)
theory Identity
  imports Curve Sha2 Encoding
begin

text \<open>
  \<open>src/core/pkg/identity\<close>: the long-term key material (\<open>identity.go\<close>) and its fixed-size
  serialization (\<open>marshal.go\<close>). The X25519 private key is its 32-byte scalar, the Ed25519 private
  key its 64 bytes (seed, then public key). \<open>identity_ok\<close> is the well-formedness that \<open>Generate\<close>
  establishes and \<open>Unmarshal\<close> of a marshalled identity restores.
\<close>

record identity =
  signing_pub :: bytes
  signing_priv :: bytes
  agreement_priv :: bytes

text \<open>\<open>Generate\<close>: one draw for the Ed25519 seed, one for the X25519 scalar.\<close>

definition Generate :: "curve \<Rightarrow> draw \<Rightarrow> draw \<Rightarrow> identity result" where
  "Generate cv d1 d2 =
     (case d1 of
        Inl e \<Rightarrow> Inl (''identity: generate ed25519: '' @ e)
      | Inr seed \<Rightarrow>
          (case d2 of
             Inl e \<Rightarrow> Inl (''identity: generate x25519: '' @ e)
           | Inr k \<Rightarrow> Inr \<lparr> signing_pub = ed25519_pub cv seed,
                           signing_priv = seed @ ed25519_pub cv seed,
                           agreement_priv = k \<rparr>))"

definition AgreementPub :: "curve \<Rightarrow> identity \<Rightarrow> bytes" where
  "AgreementPub cv i = x25519_base cv (agreement_priv i)"

text \<open>\<open>group\<close> ranges over a string of ASCII characters, so the byte index of the loop is the
  position of the character.\<close>

definition group_str :: "string \<Rightarrow> int \<Rightarrow> string" where
  "group_str s n =
     (if n \<le> 0 then s
      else concat (map (\<lambda>(i, r). (if 0 < i \<and> int i mod n = 0 then '' '' else []) @ [r]) (zip [0..<length s] s)))"

definition Fingerprint :: "bytes \<Rightarrow> string" where
  "Fingerprint pub = group_str (b32_encode (sha256 pub)) 5"

definition identity_Fingerprint :: "identity \<Rightarrow> string" where
  [simp]: "identity_Fingerprint i = Fingerprint (signing_pub i)"

definition DiscoveryKey :: "bytes \<Rightarrow> bytes \<Rightarrow> bytes" where
  "DiscoveryKey pub rendezvousSalt = sha256 (pub @ rendezvousSalt)"

definition Verify :: "curve \<Rightarrow> bytes \<Rightarrow> bytes \<Rightarrow> bytes \<Rightarrow> bool" where
  "Verify cv pub msg sig = (if length pub \<noteq> 32 then False else ed25519_verify cv pub msg sig)"

definition Sign :: "curve \<Rightarrow> identity \<Rightarrow> bytes \<Rightarrow> bytes result" where
  "Sign cv i msg =
     (if length (signing_priv i) \<noteq> 64 then Inl ''identity: signing key not initialized''
      else Inr (ed25519_sign cv (signing_priv i) msg))"

definition marshaledSize :: nat where
  "marshaledSize = 64 + 32"

definition Marshal :: "identity \<Rightarrow> bytes" where
  "Marshal i = signing_priv i @ agreement_priv i"

text \<open>\<open>ed25519.PrivateKey.Public\<close> is the second half of the private key.\<close>

definition Unmarshal :: "bytes \<Rightarrow> identity result" where
  "Unmarshal b =
     (if length b \<noteq> marshaledSize then Inl ''identity: invalid marshaled length''
      else
        let signingPriv = take 64 b
        in rbind (ecdh_private (drop 64 b)) (\<lambda>agreement.
             Inr \<lparr> signing_pub = drop 32 signingPriv, signing_priv = signingPriv, agreement_priv = agreement \<rparr>))"

section \<open>Well-formed identities\<close>

definition identity_ok :: "curve \<Rightarrow> identity \<Rightarrow> bool" where
  "identity_ok cv i \<longleftrightarrow>
     length (signing_priv i) = 64 \<and> length (agreement_priv i) = 32 \<and>
     signing_pub i = ed25519_pub cv (take 32 (signing_priv i)) \<and>
     drop 32 (signing_priv i) = signing_pub i"

lemma Generate_ok:
  "curve_ok cv \<Longrightarrow> draw32 d1 \<Longrightarrow> draw32 d2 \<Longrightarrow> \<exists>i. Generate cv d1 d2 = Inr i \<and> identity_ok cv i"
  by (auto simp: Generate_def identity_ok_def curve_ed_len elim!: draw32E)

lemma Unmarshal_Marshal [codec_simps]: "identity_ok cv i \<Longrightarrow> Unmarshal (Marshal i) = Inr i"
  by (simp add: Unmarshal_def Marshal_def marshaledSize_def identity_ok_def ecdh_private_def Let_def)

lemma Unmarshal_error: "length b \<noteq> 96 \<Longrightarrow> Unmarshal b = Inl ''identity: invalid marshaled length''"
  by (simp add: Unmarshal_def marshaledSize_def)

lemma Marshal_Unmarshal: "Unmarshal b = Inr i \<Longrightarrow> Marshal i = b"
  by (auto simp: Unmarshal_def Marshal_def ecdh_private_def Let_def split: if_splits)

lemma Unmarshal_len:
  "Unmarshal b = Inr i \<Longrightarrow> length (signing_priv i) = 64 \<and> length (agreement_priv i) = 32 \<and> length (signing_pub i) = 32"
  by (auto simp: Unmarshal_def marshaledSize_def ecdh_private_def Let_def split: if_splits)

lemma identity_ok_seed:
  "identity_ok cv i \<Longrightarrow> signing_priv i = take 32 (signing_priv i) @ ed25519_pub cv (take 32 (signing_priv i))"
  by (metis identity_ok_def append_take_drop_id)

lemma length_AgreementPub: "curve_ok cv \<Longrightarrow> identity_ok cv i \<Longrightarrow> length (AgreementPub cv i) = 32"
  by (simp add: AgreementPub_def identity_ok_def curve_pub_len)

lemma length_signing_pub: "curve_ok cv \<Longrightarrow> identity_ok cv i \<Longrightarrow> length (signing_pub i) = 32"
  by (simp add: identity_ok_def curve_ed_len)

lemma Verify_Sign:
  assumes cv: "curve_ok cv" and i: "identity_ok cv i"
  shows "\<exists>sig. Sign cv i msg = Inr sig \<and> length sig = 64 \<and> Verify cv (signing_pub i) msg sig"
proof -
  let ?s = "take 32 (signing_priv i)"
  have s: "length ?s = 32" and pub: "signing_pub i = ed25519_pub cv ?s" and l: "length (signing_priv i) = 64"
    using i by (simp_all add: identity_ok_def)
  have "Sign cv i msg = Inr (ed25519_sign cv (?s @ ed25519_pub cv ?s) msg)"
    using identity_ok_seed [OF i] l by (simp add: Sign_def)
  then show ?thesis
    using curve_sig_ok [OF cv s] curve_sig_len [OF cv s] length_signing_pub [OF cv i]
    by (simp add: Verify_def pub)
qed

section \<open>Fingerprints\<close>

lemma group_snoc:
  "0 < n \<Longrightarrow> group_str (s @ [c]) n =
     group_str s n @ (if 0 < length s \<and> int (length s) mod n = 0 then '' '' else []) @ [c]"
  by (simp add: group_str_def)

lemma group_Nil [simp]: "group_str [] n = []"
  by (simp add: group_str_def)

lemma group_unspaced:
  "0 < n \<Longrightarrow> CHR '' '' \<notin> set s \<Longrightarrow> filter (\<lambda>c. c \<noteq> CHR '' '') (group_str s n) = s"
  by (induction s rule: rev_induct) (auto simp: group_snoc)

lemma div_Suc_pred: "0 < m \<Longrightarrow> 0 < k \<Longrightarrow> m div k = (m - 1) div k + (if m mod k = 0 then 1 else 0)" for k m :: nat
  by (cases m) (simp_all add: div_Suc)

lemma length_group: "0 < k \<Longrightarrow> length (group_str s (int k)) = length s + (length s - 1) div k"
proof (induction s rule: rev_induct)
  case (snoc c s)
  have "int (length s) mod int k = 0 \<longleftrightarrow> length s mod k = 0" by (simp flip: zmod_int)
  with snoc show ?case
    using group_snoc [of "int k" s c] by (cases "s = []") (simp_all add: div_Suc_pred [of "length s" k])
qed simp

lemma length_Fingerprint [len_simps]: "length (Fingerprint pub) = 62"
  using length_group [of 5 "b32_encode (sha256 pub)"] by (simp add: Fingerprint_def length_b32_encode)

lemma b32_no_space: "CHR '' '' \<notin> set (b32_encode bs)"
  using b32_encode_chars [of bs] by (auto simp: b32_std_def)

lemma Fingerprint_unspaced: "filter (\<lambda>c. c \<noteq> CHR '' '') (Fingerprint pub) = b32_encode (sha256 pub)"
  by (simp add: Fingerprint_def group_unspaced b32_no_space)

lemma Fingerprint_eq_iff: "Fingerprint a = Fingerprint b \<longleftrightarrow> sha256 a = sha256 b"
  by (metis Fingerprint_unspaced Fingerprint_def b32_encode_inject length_sha256)

section \<open>Properties\<close>

text \<open>An identity that \<open>Generate\<close> made survives \<open>Marshal\<close> and \<open>Unmarshal\<close> unchanged, signs messages
  that verify under its public key, and any blob \<open>Unmarshal\<close> accepts is what \<open>Marshal\<close> writes for the
  identity read from it.\<close>

theorem identity_roundtrip:
  assumes "curve_ok cv" "draw32 d1" "draw32 d2"
  shows "\<exists>i. Generate cv d1 d2 = Inr i \<and> Unmarshal (Marshal i) = Inr i \<and>
    (\<exists>sig. Sign cv i msg = Inr sig \<and> Verify cv (signing_pub i) msg sig) \<and>
    (\<forall>b j. Unmarshal b = Inr j \<longrightarrow> Marshal j = b)"
  using Generate_ok [OF assms] Verify_Sign [OF assms(1)] Unmarshal_Marshal Marshal_Unmarshal by metis

theorem identity_roundtrip_witness:
  "\<exists>i. Generate toy_curve (Inr (replicate 32 7)) (Inr (replicate 32 9)) = Inr i \<and> Unmarshal (Marshal i) = Inr i \<and>
    (\<exists>sig. Sign toy_curve i [1, 2] = Inr sig \<and> Verify toy_curve (signing_pub i) [1, 2] sig) \<and>
    (\<forall>b j. Unmarshal b = Inr j \<longrightarrow> Marshal j = b)"
  by (rule identity_roundtrip [OF toy_curve_ok]) (simp_all add: draw32_def)

text \<open>A fingerprint has 62 characters (52 base32 characters and 10 separating spaces), and two keys
  have the same fingerprint exactly when their SHA-256 hashes are equal: the grouping and the base32
  encoding lose nothing.\<close>

theorem fingerprint_faithful:
  "length (Fingerprint a) = 62 \<and> (Fingerprint a = Fingerprint b \<longleftrightarrow> sha256 a = sha256 b) \<and>
   filter (\<lambda>c. c \<noteq> CHR '' '') (Fingerprint a) = b32_encode (sha256 a)"
  by (simp add: length_Fingerprint Fingerprint_eq_iff Fingerprint_unspaced)

end
