(* ===== verification/Go_Time.thy ===== *)
theory Go_Time
  imports Json_Struct
begin

text \<open>
  What the program uses of \<open>time.Time\<close>: the clock reading that \<open>time.Now().UTC()\<close> gives, and its JSON
  form. A time is its calendar fields, nanoseconds and the zone offset in minutes; \<open>time_text\<close> prints
  it as RFC 3339 with the fraction trimmed, \<open>time_parse\<close> is the strict reader of \<open>UnmarshalJSON\<close>.
  (The reader works on the unescaped string; a time written with escape sequences, which the library
  rejects, is read.)
\<close>

record gotime =
  t_year :: nat
  t_month :: nat
  t_day :: nat
  t_hour :: nat
  t_min :: nat
  t_sec :: nat
  t_nsec :: nat
  t_off :: int

definition zero_time :: gotime where
  "zero_time = \<lparr> t_year = 1, t_month = 1, t_day = 1, t_hour = 0, t_min = 0, t_sec = 0, t_nsec = 0, t_off = 0 \<rparr>"

definition leap_year :: "nat \<Rightarrow> bool" where
  "leap_year y \<longleftrightarrow> y mod 4 = 0 \<and> (y mod 100 \<noteq> 0 \<or> y mod 400 = 0)"

definition days_in :: "nat \<Rightarrow> nat \<Rightarrow> nat" where
  "days_in m y = (if m = 2 then (if leap_year y then 29 else 28) else if m \<in> {4, 6, 9, 11} then 30 else 31)"

definition time_ok :: "gotime \<Rightarrow> bool" where
  "time_ok t \<longleftrightarrow>
     t_year t \<le> 9999 \<and> 1 \<le> t_month t \<and> t_month t \<le> 12 \<and> 1 \<le> t_day t \<and> t_day t \<le> days_in (t_month t) (t_year t) \<and>
     t_hour t \<le> 23 \<and> t_min t \<le> 59 \<and> t_sec t \<le> 59 \<and> t_nsec t < 1000000000 \<and> - 1440 < t_off t \<and> t_off t < 1440"

section \<open>Printing\<close>

definition pad_dec :: "nat \<Rightarrow> nat \<Rightarrow> string" where
  "pad_dec k n = (let d = dec_string n in replicate (k - length d) (CHR ''0'') @ d)"

definition trim_zeros :: "string \<Rightarrow> string" where
  "trim_zeros s = rev (dropWhile (\<lambda>c. c = CHR ''0'') (rev s))"

definition zone_text :: "int \<Rightarrow> string" where
  "zone_text off =
     (if off = 0 then ''Z''
      else (if off < 0 then ''-'' else ''+'') @ pad_dec 2 (nat \<bar>off\<bar> div 60) @ '':'' @ pad_dec 2 (nat \<bar>off\<bar> mod 60))"

definition time_text :: "gotime \<Rightarrow> string" where
  "time_text t =
     pad_dec 4 (t_year t) @ ''-'' @ pad_dec 2 (t_month t) @ ''-'' @ pad_dec 2 (t_day t) @ ''T'' @
     pad_dec 2 (t_hour t) @ '':'' @ pad_dec 2 (t_min t) @ '':'' @ pad_dec 2 (t_sec t) @
     (if t_nsec t = 0 then [] else ''.'' @ trim_zeros (pad_dec 9 (t_nsec t))) @ zone_text (t_off t)"

section \<open>Reading\<close>

definition num_field :: "nat \<Rightarrow> nat \<Rightarrow> nat \<Rightarrow> string \<Rightarrow> (nat \<times> string) option" where
  "num_field k lo hi s =
     (if length s < k then None
      else case dec_value 0 (take k s) of
             None \<Rightarrow> None
           | Some n \<Rightarrow> if lo \<le> n \<and> n \<le> hi then Some (n, drop k s) else None)"

definition frac_field :: "string \<Rightarrow> (nat \<times> string) option" where
  "frac_field s =
     (if s \<noteq> [] \<and> hd s = CHR ''.'' then
        (let ds = takeWhile is_digit (tl s) in
         if ds = [] then None
         else case dec_value 0 (take 9 (ds @ replicate 9 (CHR ''0''))) of
                None \<Rightarrow> None
              | Some n \<Rightarrow> Some (n, dropWhile is_digit (tl s)))
      else Some (0, s))"

definition zone_field :: "string \<Rightarrow> int option" where
  "zone_field s =
     (if s = ''Z'' then Some 0
      else case s of
             c # r \<Rightarrow>
               if c = CHR ''+'' \<or> c = CHR ''-''
               then Option.bind (num_field 2 0 23 r) (\<lambda>(h, r). Option.bind (eat '':'' r) (\<lambda>r.
                    Option.bind (num_field 2 0 59 r) (\<lambda>(m, r).
                      if r = [] then Some (if c = CHR ''-'' then - int (60 * h + m) else int (60 * h + m)) else None)))
               else None
           | [] \<Rightarrow> None)"

definition time_parse :: "string \<Rightarrow> gotime option" where
  "time_parse s =
     Option.bind (num_field 4 0 9999 s) (\<lambda>(y, s). Option.bind (eat ''-'' s) (\<lambda>s.
     Option.bind (num_field 2 1 12 s) (\<lambda>(mo, s). Option.bind (eat ''-'' s) (\<lambda>s.
     Option.bind (num_field 2 1 (days_in mo y) s) (\<lambda>(d, s). Option.bind (eat ''T'' s) (\<lambda>s.
     Option.bind (num_field 2 0 23 s) (\<lambda>(h, s). Option.bind (eat '':'' s) (\<lambda>s.
     Option.bind (num_field 2 0 59 s) (\<lambda>(mi, s). Option.bind (eat '':'' s) (\<lambda>s.
     Option.bind (num_field 2 0 59 s) (\<lambda>(se, s).
     Option.bind (frac_field s) (\<lambda>(ns, s).
     Option.bind (zone_field s) (\<lambda>off.
       Some \<lparr> t_year = y, t_month = mo, t_day = d, t_hour = h, t_min = mi, t_sec = se, t_nsec = ns, t_off = off \<rparr>)))))))))))))"

definition je_time :: "gotime \<Rightarrow> json" where
  "je_time t = JStr (time_text t)"

definition jd_time :: "gotime jdec" where
  "jd_time j x =
     (case j of
        JStr s \<Rightarrow> (case time_parse s of Some t \<Rightarrow> (t, True) | None \<Rightarrow> (x, False))
      | JNull \<Rightarrow> (x, True)
      | _ \<Rightarrow> (x, False))"

section \<open>Round trip\<close>

lemma length_pad_dec: "0 < k \<Longrightarrow> n < 10 ^ k \<Longrightarrow> length (pad_dec k n) = k"
  using length_dec_string [of n "k - 1"] by (simp add: pad_dec_def Let_def)

lemma dec_value_zeros: "dec_value 0 (replicate z (CHR ''0'') @ s) = dec_value 0 s"
proof (induction z)
  case (Suc z)
  have "index_of (CHR ''0'') dec_digits = Some 0" by (simp add: dec_digits_def)
  with Suc show ?case by simp
qed simp

lemma dec_value_pad [simp]: "dec_value 0 (pad_dec k n) = Some n"
  by (simp add: pad_dec_def Let_def dec_value_zeros)

lemma pad_dec_digits: "list_all is_digit (pad_dec k n)"
proof -
  have "is_digit (CHR ''0'')" by (simp add: is_digit_def dec_digits_def)
  then show ?thesis using dec_string_digits [of n] by (auto simp: pad_dec_def Let_def list_all_iff)
qed

lemma num_field_pad:
  "0 < k \<Longrightarrow> n < 10 ^ k \<Longrightarrow> lo \<le> n \<Longrightarrow> n \<le> hi \<Longrightarrow> num_field k lo hi (pad_dec k n @ r) = Some (n, r)"
  by (simp add: num_field_def length_pad_dec)

lemma num_field_2: "n \<le> hi \<Longrightarrow> hi \<le> 99 \<Longrightarrow> lo \<le> n \<Longrightarrow> num_field 2 lo hi (pad_dec 2 n @ r) = Some (n, r)"
  by (rule num_field_pad) simp_all

lemma num_field_4: "n \<le> 9999 \<Longrightarrow> num_field 4 0 9999 (pad_dec 4 n @ r) = Some (n, r)"
  by (rule num_field_pad) simp_all

lemma eat_append [simp]: "eat p (p @ r) = Some r"
  by (simp add: eat_def)

lemma zone_field_offset:
  assumes "h \<le> 23" "m \<le> 59" "c = CHR ''+'' \<or> c = CHR ''-''"
  shows "zone_field (c # pad_dec 2 h @ '':'' @ pad_dec 2 m) =
    Some (if c = CHR ''-'' then - int (60 * h + m) else int (60 * h + m))"
proof -
  have e: "eat '':'' (CHR '':'' # s) = Some s" for s using eat_append [of "'':''" s] by simp
  have m: "num_field 2 0 59 (pad_dec 2 m) = Some (m, [])" using num_field_2 [OF assms(2), of 0 "[]"] by simp
  have h: "num_field 2 0 23 (pad_dec 2 h @ r) = Some (h, r)" for r using num_field_2 [OF assms(1), of 0] by simp
  show ?thesis using assms(3) by (auto simp: zone_field_def h m e)
qed

lemma zone_field_text:
  assumes "- 1440 < off" "off < 1440"
  shows "zone_field (zone_text off) = Some off"
proof (cases "off = 0")
  case False
  define a where "a = nat \<bar>off\<bar>"
  have "a < 1440" using assms by (simp add: a_def)
  then have h: "a div 60 \<le> 23" using less_mult_imp_div_less [of a 24 60] by simp
  have m: "a mod 60 \<le> 59" using mod_less_divisor [of 60 a] by simp
  have r: "int (60 * (a div 60) + a mod 60) = \<bar>off\<bar>" by (simp add: a_def)
  have "zone_text off = (if off < 0 then CHR ''-'' else CHR ''+'') # pad_dec 2 (a div 60) @ '':'' @ pad_dec 2 (a mod 60)"
    using False by (simp add: zone_text_def a_def)
  then show ?thesis
    using zone_field_offset [OF h m, of "if off < 0 then CHR ''-'' else CHR ''+''"] unfolding r by (auto split: if_splits)
qed (simp add: zone_field_def zone_text_def)

lemma zone_text_first: "\<exists>c r. zone_text off = c # r \<and> c \<noteq> CHR ''.'' \<and> \<not> is_digit c"
  by (simp add: zone_text_def is_digit_def dec_digits_def)

text \<open>Trimmed zeros come back when the fraction is filled up to nine digits.\<close>

lemma trim_zeros_fill: "\<exists>z. s = trim_zeros s @ replicate z (CHR ''0'')"
proof -
  let ?t = "takeWhile (\<lambda>c. c = CHR ''0'') (rev s)"
  have "?t = replicate (length ?t) (CHR ''0'')"
    by (metis (full_types) replicate_length_same set_takeWhileD)
  moreover have "s = trim_zeros s @ rev ?t"
    by (metis rev_append rev_rev_ident takeWhile_dropWhile_id trim_zeros_def)
  ultimately show ?thesis by (metis rev_replicate)
qed

lemma frac_field_text:
  assumes "0 < n" "n < 1000000000" and z: "z = c # r" "\<not> is_digit c"
  shows "frac_field (CHR ''.'' # trim_zeros (pad_dec 9 n) @ z) = Some (n, z)"
proof -
  let ?t = "trim_zeros (pad_dec 9 n)"
  obtain k where k: "pad_dec 9 n = ?t @ replicate k (CHR ''0'')" using trim_zeros_fill by blast
  have len: "length (pad_dec 9 n) = 9" using assms(2) by (intro length_pad_dec) simp_all
  have dig: "list_all is_digit ?t" using pad_dec_digits [of 9 n] k by (metis list_all_append)
  have ne: "?t \<noteq> []"
  proof
    assume "?t = []"
    then have "dec_value 0 (pad_dec 9 n) = Some 0" using k dec_value_zeros [of k "[]"] by simp
    then show False using assms(1) by simp
  qed
  have tw: "takeWhile is_digit (?t @ z) = ?t" "dropWhile is_digit (?t @ z) = z"
    using dig z by (simp_all add: list_all_iff takeWhile_append2 dropWhile_append2)
  have "take 9 (?t @ replicate 9 (CHR ''0'')) = pad_dec 9 n"
  proof -
    have "length ?t + k = 9" using len k by (metis length_append length_replicate)
    then have "take 9 (?t @ replicate 9 (CHR ''0'')) = ?t @ replicate k (CHR ''0'')" by (simp add: min_def)
    then show ?thesis using k by simp
  qed
  then show ?thesis using tw ne by (simp add: frac_field_def Let_def del: take_append)
qed

lemma time_parse_text [codec_simps]: "time_ok t \<Longrightarrow> time_parse (time_text t) = Some t"
proof -
  assume ok: "time_ok t"
  obtain c r where z: "zone_text (t_off t) = c # r" "c \<noteq> CHR ''.''" "\<not> is_digit c" using zone_text_first by blast
  have f: "frac_field ((if t_nsec t = 0 then [] else ''.'' @ trim_zeros (pad_dec 9 (t_nsec t))) @ zone_text (t_off t)) =
    Some (t_nsec t, zone_text (t_off t))"
  proof (cases "t_nsec t = 0")
    case True
    then show ?thesis using z(1,2) by (simp add: frac_field_def)
  next
    case False
    then show ?thesis using frac_field_text [of "t_nsec t" "zone_text (t_off t)"] z(1,3) ok by (simp add: time_ok_def)
  qed
  have d: "days_in m y \<le> 99" for m y by (simp add: days_in_def)
  have e: "eat [x] (x # s) = Some s" for x s using eat_append [of "[x]" s] by simp
  show ?thesis
    using ok f zone_field_text [of "t_off t"]
    by (simp add: time_parse_def time_text_def time_ok_def num_field_4 num_field_2 d e)
qed

lemma jd_time_je [simp, codec_simps]: "time_ok t \<Longrightarrow> jd_time (je_time t) x = (t, True)"
  by (simp add: jd_time_def je_time_def time_parse_text)

lemma is_digit_ascii: "is_digit c \<Longrightarrow> cc c < 0x80"
proof -
  assume "is_digit c"
  then have "c \<in> set dec_digits" by (metis index_of_None is_digit_def)
  then show ?thesis by (auto simp: dec_digits_def)
qed

lemma pad_dec_ascii: "c \<in> set (pad_dec k n) \<Longrightarrow> cc c < 0x80"
  using pad_dec_digits [of k n] is_digit_ascii by (simp add: list_all_iff)

lemma set_trim_zeros: "set (trim_zeros s) \<subseteq> set s"
  by (auto simp: trim_zeros_def dest: set_dropWhileD)

lemma time_text_ascii: "utf8_valid (time_text t)"
proof -
  have z: "\<forall>c \<in> set (zone_text off). cc c < 0x80" for off
    by (auto simp: zone_text_def dest: pad_dec_ascii)
  have n: "\<forall>c \<in> set (trim_zeros (pad_dec 9 n)). cc c < 0x80" for n
    using set_trim_zeros pad_dec_ascii by blast
  show ?thesis
    by (rule utf8_valid_ascii) (use z n in \<open>auto simp: time_text_def dest: pad_dec_ascii\<close>)
qed

lemma je_time_wf [simp]: "json_wf (je_time t)"
  by (simp add: je_time_def time_text_ascii)

lemma time_ok_zero [simp]: "time_ok zero_time"
  by (simp add: time_ok_def zero_time_def days_in_def)

end
