(* ===== verification/Contact.thy ===== *)
theory Contact
  imports Identity Go_Map Go_Time
begin

text \<open>
  \<open>src/core/pkg/contact/contact.go\<close>: contacts, the in-memory contact book with trust on first use, and
  the contact URI. Of \<open>net/url\<close> the model has what \<open>URI\<close> and \<open>ParseURI\<close> use: query escaping, query
  parsing and the splitting of a URL of the form \<open>scheme:opaque?query#fragment\<close>. (For URLs of another
  form, which \<open>ParseURI\<close> rejects in every case, the error text is that of \<open>ParseURI\<close>, not the one
  \<open>url.Parse\<close> may give.)
\<close>

record contact =
  ct_handle :: string
  ct_identityKey :: bytes
  ct_fingerprint :: string
  ct_addedAt :: gotime
  ct_verified :: bool

definition ErrKeyChanged :: string where
  "ErrKeyChanged = ''contact: identity key changed''"

definition contact_New :: "string \<Rightarrow> bytes \<Rightarrow> gotime \<Rightarrow> contact" where
  "contact_New handle key now =
     \<lparr> ct_handle = handle, ct_identityKey = key, ct_fingerprint = Fingerprint key, ct_addedAt = now, ct_verified = False \<rparr>"

section \<open>The contact book\<close>

type_synonym book = "contact gomap"

definition NewMemory :: book where
  "NewMemory = []"

definition SeenKey :: "book \<Rightarrow> string \<Rightarrow> bytes \<Rightarrow> gotime \<Rightarrow> contact result \<times> book" where
  "SeenKey b handle key now =
     (case gm_get b handle of
        Some existing \<Rightarrow> if ct_identityKey existing \<noteq> key then (Inl ErrKeyChanged, b) else (Inr existing, b)
      | None \<Rightarrow> let c = contact_New handle key now in (Inr c, gm_put handle c b))"

definition book_Get :: "book \<Rightarrow> string \<Rightarrow> contact option" where
  "book_Get b handle = gm_get b handle"

definition book_List :: "book \<Rightarrow> contact list" where
  "book_List b = sort_by ct_handle (gm_values b)"

definition MarkVerified :: "book \<Rightarrow> string \<Rightarrow> unit result \<times> book" where
  "MarkVerified b handle =
     (case gm_get b handle of
        None \<Rightarrow> (Inl ''contact: unknown handle'', b)
      | Some c \<Rightarrow> (Inr (), gm_put handle (c\<lparr> ct_verified := True \<rparr>) b))"

definition book_Remove :: "book \<Rightarrow> string \<Rightarrow> unit result \<times> book" where
  "book_Remove b handle = (Inr (), gm_del handle b)"

section \<open>Contact URIs\<close>

definition hex_upper :: string where
  "hex_upper = ''0123456789ABCDEF''"

definition unreserved :: "char \<Rightarrow> bool" where
  "unreserved c \<longleftrightarrow> c \<in> set (b64_url @ ''.~'')"

text \<open>\<open>url.QueryEscape\<close> and \<open>url.QueryUnescape\<close>.\<close>

fun query_escape :: "string \<Rightarrow> string" where
  "query_escape [] = []"
| "query_escape (c # cs) =
     (if unreserved c then [c]
      else if c = CHR '' '' then ''+''
      else [CHR ''%'', hex_upper ! (cc c div 16), hex_upper ! (cc c mod 16)]) @ query_escape cs"

fun query_unescape :: "string \<Rightarrow> string option" where
  "query_unescape [] = Some []"
| "query_unescape (c # cs) =
     (if c = CHR ''%'' then
        (case cs of
           a # b # r \<Rightarrow>
             (case (hex_val a, hex_val b) of
                (Some x, Some y) \<Rightarrow> map_option ((#) (char_of (16 * x + y))) (query_unescape r)
              | _ \<Rightarrow> None)
         | _ \<Rightarrow> None)
      else map_option ((#) (if c = CHR ''+'' then CHR '' '' else c)) (query_unescape cs))"

text \<open>\<open>strings.Cut\<close>: the parts before and after the first separator.\<close>

definition cut :: "char \<Rightarrow> string \<Rightarrow> string \<times> string" where
  "cut c s = (takeWhile (\<lambda>x. x \<noteq> c) s, drop 1 (dropWhile (\<lambda>x. x \<noteq> c) s))"

text \<open>\<open>url.ParseQuery\<close>, whose errors \<open>URL.Query\<close> drops: pairs that do not parse are left out.\<close>

definition query_pair :: "string \<Rightarrow> (string \<times> string) list" where
  "query_pair p =
     (if CHR '';'' \<in> set p \<or> p = [] then []
      else case (query_unescape (fst (cut (CHR ''='') p)), query_unescape (snd (cut (CHR ''='') p))) of
             (Some k, Some v) \<Rightarrow> [(k, v)]
           | _ \<Rightarrow> [])"

function parse_query :: "string \<Rightarrow> (string \<times> string) list" where
  "parse_query s =
     (if s = [] then []
      else query_pair (fst (cut (CHR ''&'') s)) @ parse_query (snd (cut (CHR ''&'') s)))"
  by pat_completeness auto
termination
proof (relation "measure length", goal_cases)
  case (2 s)
  have "length (dropWhile (\<lambda>x. x \<noteq> CHR ''&'') s) \<le> length s" by (rule length_dropWhile_le)
  moreover have "0 < length s" using 2 by simp
  ultimately have "length (dropWhile (\<lambda>x. x \<noteq> CHR ''&'') s) - 1 < length s" by linarith
  then show ?case by (simp add: cut_def)
qed simp

declare parse_query.simps [simp del]

definition query_get :: "(string \<times> string) list \<Rightarrow> string \<Rightarrow> string" where
  "query_get q k = (case map_of q k of None \<Rightarrow> [] | Some v \<Rightarrow> v)"

definition contact_URI :: "string \<Rightarrow> bytes \<Rightarrow> string" where
  "contact_URI handle key =
     ''stunner:contact?'' @ ''k='' @ query_escape (rawurl_encode key) @
     (if handle \<noteq> [] then ''&n='' @ query_escape handle else [])"

text \<open>\<open>url.Parse\<close> on \<open>scheme:opaque?query#fragment\<close>: scheme (lower case), opaque part and raw query, or
  nothing when the URL has another form. A URL with a control byte, or with a bad escape in its
  fragment, is an error.\<close>

definition is_alpha :: "char \<Rightarrow> bool" where
  "is_alpha c \<longleftrightarrow> 65 \<le> cc c \<and> cc c \<le> 90 \<or> 97 \<le> cc c \<and> cc c \<le> 122"

definition to_lower :: "string \<Rightarrow> string" where
  "to_lower = map (\<lambda>c. if 65 \<le> cc c \<and> cc c \<le> 90 then char_of (cc c + 32 :: nat) else c)"

definition scheme_char :: "char \<Rightarrow> bool" where
  "scheme_char c \<longleftrightarrow> is_alpha c \<or> is_digit c \<or> c \<in> set ''+-.''"

definition get_scheme :: "string \<Rightarrow> (string \<times> string) option" where
  "get_scheme s =
     (let n = takeWhile scheme_char s; r = dropWhile scheme_char s
      in if n \<noteq> [] \<and> is_alpha (hd n) \<and> r \<noteq> [] \<and> hd r = CHR '':'' then Some (to_lower n, tl r) else None)"

fun fragment_ok :: "string \<Rightarrow> bool" where
  "fragment_ok [] = True"
| "fragment_ok (c # cs) =
     (if c = CHR ''%'' then
        (case cs of a # b # r \<Rightarrow> hex_val a \<noteq> None \<and> hex_val b \<noteq> None \<and> fragment_ok r | _ \<Rightarrow> False)
      else fragment_ok cs)"

definition has_ctl :: "string \<Rightarrow> bool" where
  "has_ctl s \<longleftrightarrow> (\<exists>c \<in> set s. cc c < 32 \<or> cc c = 127)"

text \<open>A trailing, single question mark is dropped; otherwise the query starts after the first one. The
  opaque part of a URL with a scheme does not start with a slash.\<close>

definition url_parts :: "string \<Rightarrow> (string \<times> string \<times> string) option" where
  "url_parts u =
     (case get_scheme u of
        None \<Rightarrow> None
      | Some (scheme, rest) \<Rightarrow>
          let opaque = fst (cut (CHR ''?'') rest); query = snd (cut (CHR ''?'') rest)
          in if opaque \<noteq> [] \<and> hd opaque = CHR ''/'' then None else Some (scheme, opaque, query))"

definition ParseURI :: "string \<Rightarrow> gotime \<Rightarrow> contact result" where
  "ParseURI s now =
     (let u = fst (cut (CHR ''#'') s); frag = snd (cut (CHR ''#'') s) in
      if has_ctl u then Inl ''net/url: invalid control character in URL''
      else if \<not> fragment_ok frag then Inl ''invalid URL escape''
      else case url_parts u of
             None \<Rightarrow> Inl ''contact: not a stunner contact URI''
           | Some (scheme, opaque, query) \<Rightarrow>
               if scheme \<noteq> ''stunner'' \<or> opaque \<noteq> ''contact'' then Inl ''contact: not a stunner contact URI''
               else let q = parse_query query in
                    case rawurl_decode (query_get q ''k'') of
                      None \<Rightarrow> Inl ''contact: bad key encoding''
                    | Some raw \<Rightarrow>
                        if length raw \<noteq> 32 then Inl ''contact: wrong key length''
                        else Inr (contact_New (query_get q ''n'') raw now))"

section \<open>Round trip of the URI\<close>

lemma unreserved_plain:
  "unreserved c \<Longrightarrow> c \<notin> set ''%+ &=;#?'' \<and> 32 \<le> cc c \<and> cc c \<noteq> 127"
  by (auto simp: unreserved_def b64_url_def)

lemma hex_upper_val: "n < 16 \<Longrightarrow> hex_val (hex_upper ! n) = Some n \<and> unreserved (hex_upper ! n)"
proof -
  have "list_all (\<lambda>n. hex_val (hex_upper ! n) = Some n \<and> unreserved (hex_upper ! n)) [0..<16]" by code_simp
  then show "n < 16 \<Longrightarrow> ?thesis" by (simp add: list_all_iff)
qed

lemma query_unescape_escape [codec_simps]: "query_unescape (query_escape s @ r) = map_option ((@) s) (query_unescape r)"
proof (induction s)
  case Nil
  show ?case by (simp add: option.map_id0 [unfolded id_def])
next
  case (Cons c s)
  have d: "cc c div 16 < 16" "cc c mod 16 < 16" and c: "char_of (16 * (cc c div 16) + cc c mod 16) = c"
    by (simp_all add: less_mult_imp_div_less)
  show ?case
    using Cons unreserved_plain [of c] hex_upper_val [OF d(1)] hex_upper_val [OF d(2)] c
    by (auto simp: option.map_comp comp_def split: option.split)
qed

lemma query_escape_chars: "set (query_escape s) \<subseteq> {c. unreserved c} \<union> set ''%+''"
proof (induction s)
  case (Cons c s)
  have d: "cc c div 16 < 16" "cc c mod 16 < 16" by (simp_all add: less_mult_imp_div_less)
  show ?case using Cons hex_upper_val [OF d(1)] hex_upper_val [OF d(2)] by auto
qed simp

lemma query_escape_avoids: "c \<in> set ''&=;#?'' \<Longrightarrow> c \<notin> set (query_escape s)"
  using query_escape_chars [of s] unreserved_plain by fastforce

lemma query_escape_no_ctl: "c \<in> set (query_escape s) \<Longrightarrow> 32 \<le> cc c \<and> cc c \<noteq> 127"
  using query_escape_chars [of s] unreserved_plain by fastforce

lemma cut_none: "c \<notin> set s \<Longrightarrow> cut c s = (s, [])"
  by (induction s) (auto simp: cut_def)

lemma cut_at: "c \<notin> set s \<Longrightarrow> cut c (s @ c # r) = (s, r)"
  by (induction s) (auto simp: cut_def)

lemma parse_query_Nil [simp]: "parse_query [] = []"
  by (simp add: parse_query.simps)

lemma parse_query_step: "s \<noteq> [] \<Longrightarrow> cut (CHR ''&'') s = (a, b) \<Longrightarrow> parse_query s = query_pair a @ parse_query b"
  by (subst parse_query.simps) simp

lemma query_pair_escape:
  assumes "k = [x]" "unreserved x"
  shows "query_pair (k @ ''='' @ query_escape v) = [(k, v)]"
proof -
  have x: "x \<notin> set ''%+ &=;#?''" using unreserved_plain [OF assms(2)] by blast
  have "cut (CHR ''='') (k @ CHR ''='' # query_escape v) = (k, query_escape v)"
    using x assms(1) by (intro cut_at) auto
  moreover have "query_unescape k = Some k" using x assms(1) by simp
  moreover have "query_unescape (query_escape v) = Some v" using query_unescape_escape [of v "[]"] by simp
  ultimately show ?thesis
    using x assms(1) query_escape_avoids [of "CHR '';''" v] by (auto simp: query_pair_def)
qed

lemma parse_query_contact:
  "parse_query (''k='' @ query_escape a @ (if h \<noteq> [] then ''&n='' @ query_escape h else [])) =
     (''k'', a) # (if h \<noteq> [] then [(''n'', h)] else [])"
proof -
  have u: "unreserved (CHR ''k'')" "unreserved (CHR ''n'')" by (simp_all add: unreserved_def b64_url_def)
  have k: "query_pair (''k='' @ query_escape a) = [(''k'', a)]" "query_pair (''n='' @ query_escape h) = [(''n'', h)]"
    using query_pair_escape [of "''k''" "CHR ''k''" a] query_pair_escape [of "''n''" "CHR ''n''" h] u by simp_all
  have amp: "CHR ''&'' \<notin> set (''k='' @ query_escape a)" "CHR ''&'' \<notin> set (''n='' @ query_escape h)"
    using query_escape_avoids [of "CHR ''&''"] by simp_all
  have last: "parse_query (''n='' @ query_escape h) = [(''n'', h)]"
    using parse_query_step [OF _ cut_none [OF amp(2)]] k(2) by simp
  show ?thesis
  proof (cases "h = []")
    case True
    then show ?thesis using parse_query_step [OF _ cut_none [OF amp(1)]] k(1) by simp
  next
    case False
    then show ?thesis
      using parse_query_step [OF _ cut_at [OF amp(1), of "''n='' @ query_escape h"]] k(1) last by simp
  qed
qed

lemma url_parts_contact:
  "url_parts (''stunner:contact?'' @ q) = Some (''stunner'', ''contact'', q)"
proof -
  have s: "get_scheme (''stunner:contact?'' @ q) = Some (''stunner'', ''contact?'' @ q)"
    by (simp add: get_scheme_def Let_def scheme_char_def is_alpha_def is_digit_def dec_digits_def to_lower_def)
  have "cut (CHR ''?'') (''contact?'' @ q) = (''contact'', q)" using cut_at [of "CHR ''?''" "''contact''" q] by simp
  with s show ?thesis by (simp add: url_parts_def)
qed

lemma ParseURI_URI:
  assumes "length key = 32"
  shows "ParseURI (contact_URI handle key) now = Inr (contact_New handle key now)"
proof -
  let ?q = "''k='' @ query_escape (rawurl_encode key) @ (if handle \<noteq> [] then ''&n='' @ query_escape handle else [])"
  have uri: "contact_URI handle key = ''stunner:contact?'' @ ?q" by (simp add: contact_URI_def)
  have hash: "CHR ''#'' \<notin> set (contact_URI handle key)"
    using query_escape_avoids [of "CHR ''#''"] by (simp add: contact_URI_def)
  have ctl: "\<not> has_ctl (contact_URI handle key)"
    using query_escape_no_ctl by (force simp: has_ctl_def contact_URI_def)
  have n: "query_get ((''k'', rawurl_encode key) # (if handle \<noteq> [] then [(''n'', handle)] else [])) ''n'' = handle"
    "query_get ((''k'', rawurl_encode key) # (if handle \<noteq> [] then [(''n'', handle)] else [])) ''k'' = rawurl_encode key"
    by (simp_all add: query_get_def)
  obtain q where "url_parts (contact_URI handle key) = Some (''stunner'', ''contact'', q)"
    "parse_query q = (''k'', rawurl_encode key) # (if handle \<noteq> [] then [(''n'', handle)] else [])"
    using url_parts_contact [of ?q] parse_query_contact [of "rawurl_encode key" handle] unfolding uri by blast
  then show ?thesis
    using assms ctl n by (simp add: ParseURI_def cut_none [OF hash] Let_def)
qed

section \<open>The book as an interface\<close>

text \<open>What a contact book promises (the comments of the \<open>Book\<close> interface), and what follows: between two
  removals a handle stays pinned to the key it was first seen with.\<close>

datatype book_op = Seen string bytes gotime | Verified string | Removed string

locale contact_book =
  fixes get :: "'b \<Rightarrow> string \<Rightarrow> contact option"
    and seen :: "'b \<Rightarrow> string \<Rightarrow> bytes \<Rightarrow> gotime \<Rightarrow> contact result \<times> 'b"
    and verify :: "'b \<Rightarrow> string \<Rightarrow> unit result \<times> 'b"
    and remove :: "'b \<Rightarrow> string \<Rightarrow> unit result \<times> 'b"
    and ok :: "'b \<Rightarrow> bool"
  assumes seen_known: "get b h = Some c \<Longrightarrow> seen b h k t = (if ct_identityKey c = k then Inr c else Inl ErrKeyChanged, b)"
    and seen_new: "get b h = None \<Longrightarrow>
      fst (seen b h k t) = Inr (contact_New h k t) \<and> get (snd (seen b h k t)) = (get b)(h \<mapsto> contact_New h k t)"
    and verify_known: "get b h = Some c \<Longrightarrow>
      fst (verify b h) = Inr () \<and> get (snd (verify b h)) = (get b)(h \<mapsto> c\<lparr> ct_verified := True \<rparr>)"
    and verify_unknown: "get b h = None \<Longrightarrow> verify b h = (Inl ''contact: unknown handle'', b)"
    and remove_get: "ok b \<Longrightarrow> get (snd (remove b h)) = (get b)(h := None)"
    and ok_seen: "ok b \<Longrightarrow> ok (snd (seen b h k t))"
    and ok_verify: "ok b \<Longrightarrow> ok (snd (verify b h))"
    and ok_remove: "ok b \<Longrightarrow> ok (snd (remove b h))"
begin

definition step :: "book_op \<Rightarrow> 'b \<Rightarrow> 'b" where
  "step op b = (case op of Seen h k t \<Rightarrow> snd (seen b h k t) | Verified h \<Rightarrow> snd (verify b h) | Removed h \<Rightarrow> snd (remove b h))"

lemma step_ok: "ok b \<Longrightarrow> ok (step op b)"
  by (cases op) (simp_all add: step_def ok_seen ok_verify ok_remove)

lemma step_pinned:
  assumes "ok b" "get b h = Some c" "op \<noteq> Removed h"
  shows "\<exists>c'. get (step op b) h = Some c' \<and> ct_identityKey c' = ct_identityKey c \<and> (ct_verified c \<longrightarrow> ct_verified c')"
proof (cases op)
  case (Seen h' k t)
  then show ?thesis
    using assms(2) seen_known [of b h'] seen_new [of b h' k t] by (cases "get b h'") (auto simp: step_def)
next
  case (Verified h')
  then show ?thesis
    using assms(2) verify_known [of b h'] verify_unknown [of b h'] by (cases "get b h'") (auto simp: step_def)
next
  case (Removed h')
  then show ?thesis using assms remove_get [of b h'] by (auto simp: step_def)
qed

lemma pinned:
  "ok b \<Longrightarrow> get b h = Some c \<Longrightarrow> Removed h \<notin> set ops \<Longrightarrow>
   \<exists>c'. get (fold step ops b) h = Some c' \<and> ct_identityKey c' = ct_identityKey c \<and> (ct_verified c \<longrightarrow> ct_verified c')"
proof (induction ops arbitrary: b c)
  case (Cons op ops)
  obtain c1 where c1: "get (step op b) h = Some c1" "ct_identityKey c1 = ct_identityKey c" "ct_verified c \<longrightarrow> ct_verified c1"
    using step_pinned [OF Cons.prems(1,2), of op] Cons.prems(3) by auto
  from Cons.IH [OF step_ok [OF Cons.prems(1)] c1(1)] Cons.prems(3) c1(2,3) show ?case by auto
qed simp

end

lemma gm_get_put_fun: "gm_get (gm_put k v m) = (gm_get m)(k \<mapsto> v)"
  by (rule ext) simp

lemma gm_get_del_fun: "gm_ok m \<Longrightarrow> gm_get (gm_del k m) = (gm_get m)(k := None)"
  by (rule ext) simp

interpretation mem_book: contact_book book_Get SeenKey MarkVerified book_Remove gm_ok
  by unfold_locales
     (simp_all add: SeenKey_def MarkVerified_def book_Remove_def book_Get_def [abs_def] gm_get_put_fun gm_get_del_fun Let_def
        split: option.split)

definition book_step :: "book_op \<Rightarrow> book \<Rightarrow> book" where
  "book_step op b =
     (case op of Seen h k t \<Rightarrow> snd (SeenKey b h k t) | Verified h \<Rightarrow> snd (MarkVerified b h) | Removed h \<Rightarrow> snd (book_Remove b h))"

lemma book_step_eq: "mem_book.step = book_step"
  by (intro ext) (simp add: mem_book.step_def book_step_def)

section \<open>Properties\<close>

text \<open>C33. A contact URI made for a 32-byte key and any handle, whatever bytes the handle has, parses back to
  a contact with that handle and that key.\<close>

theorem contact_uri_roundtrip:
  assumes "length key = 32"
  shows "ParseURI (contact_URI handle key) now = Inr (contact_New handle key now)"
  by (rule ParseURI_URI [OF assms])

theorem contact_uri_roundtrip_witness:
  "ParseURI (contact_URI ''Ann & Bob'' (replicate 32 7)) zero_time = Inr (contact_New ''Ann & Bob'' (replicate 32 7) zero_time)"
  by (rule contact_uri_roundtrip) simp

text \<open>C12. Trust on first use: once a handle is known, then after any sequence of operations that does not
  remove it, it still has the identity key it was first seen with (and stays verified if it was), the
  same key is accepted and returns the stored contact, and every other key is refused with
  \<open>ErrKeyChanged\<close> and changes nothing.\<close>

theorem trust_on_first_use:
  assumes "gm_ok b" "book_Get b h = Some c" "Removed h \<notin> set ops"
  shows "\<exists>c'. book_Get (fold book_step ops b) h = Some c' \<and> ct_identityKey c' = ct_identityKey c \<and>
    (ct_verified c \<longrightarrow> ct_verified c') \<and>
    (\<forall>k t. SeenKey (fold book_step ops b) h k t =
       (if k = ct_identityKey c then Inr c' else Inl ErrKeyChanged, fold book_step ops b))"
proof -
  obtain c' where c': "book_Get (fold book_step ops b) h = Some c'" "ct_identityKey c' = ct_identityKey c"
    "ct_verified c \<longrightarrow> ct_verified c'"
    using mem_book.pinned [OF assms] unfolding book_step_eq by blast
  then show ?thesis using mem_book.seen_known [OF c'(1)] by auto
qed

theorem trust_on_first_use_witness:
  "\<exists>c'. book_Get (fold book_step [Verified ''ann'', Seen ''bob'' [2] zero_time] (snd (SeenKey NewMemory ''ann'' [1] zero_time))) ''ann'' =
      Some c' \<and> ct_identityKey c' = [1]"
proof -
  have "book_Get (snd (SeenKey NewMemory ''ann'' [1] zero_time)) ''ann'' = Some (contact_New ''ann'' [1] zero_time)"
    "gm_ok (snd (SeenKey NewMemory ''ann'' [1] zero_time))"
    by (simp_all add: SeenKey_def NewMemory_def book_Get_def Let_def)
  from trust_on_first_use [OF this(2,1), of "[Verified ''ann'', Seen ''bob'' [2] zero_time]"] show ?thesis
    by (auto simp: contact_New_def)
qed

end
