(* ===== verification/Kdf.thy ===== *)
theory Kdf
  imports Sha2
begin

text \<open>
  \<open>src/core/pkg/crypto/kdf.go\<close>: the extract-and-expand key derivation \<open>hkdf\<close>, whose expansion loop
  is a recursion with the one-byte counter of the source, and \<open>hmacSHA256\<close>. The reference is
  RFC 5869: \<open>rfc_t\<close> is its chain \<open>T(1), T(2), \<dots>\<close>.
\<close>

definition hmacSHA256 :: "bytes \<Rightarrow> bytes \<Rightarrow> bytes" where
  "hmacSHA256 key data = hmac_sha256 key data"

text \<open>The \<open>for\<close> loop of \<open>hkdf\<close>: \<open>counter\<close> is a byte and wraps, \<open>t\<close> is the last block, \<open>out\<close> what has
  been produced.\<close>

function hkdf_expand :: "bytes \<Rightarrow> bytes \<Rightarrow> nat \<Rightarrow> byte \<Rightarrow> bytes \<Rightarrow> bytes \<Rightarrow> bytes" where
  "hkdf_expand prk info n counter t out =
     (if length out < n
      then (let t' = hmac_sha256 prk (t @ info @ [counter])
            in hkdf_expand prk info n (counter + 1) t' (out @ t'))
      else out)"
  by pat_completeness auto
termination by (relation "measure (\<lambda>(prk, info, n, counter, t, out). n - length out)") auto

declare hkdf_expand.simps [simp del]

definition hkdf :: "bytes \<Rightarrow> bytes \<Rightarrow> bytes \<Rightarrow> nat \<Rightarrow> bytes" where
  "hkdf salt ikm info n =
     (let salt' = (if length salt = 0 then replicate 32 0 else salt);
          prk = hmac_sha256 salt' ikm
      in take n (hkdf_expand prk info n 1 [] []))"

section \<open>The reference\<close>

fun rfc_t :: "bytes \<Rightarrow> bytes \<Rightarrow> nat \<Rightarrow> bytes" where
  "rfc_t prk info 0 = []"
| "rfc_t prk info (Suc i) = hmac_sha256 prk (rfc_t prk info i @ info @ [of_nat (Suc i)])"

definition rfc5869 :: "bytes \<Rightarrow> bytes \<Rightarrow> bytes \<Rightarrow> nat \<Rightarrow> bytes" where
  "rfc5869 salt ikm info n =
     take n (concat (map (rfc_t (hmac_sha256 (if salt = [] then replicate 32 0 else salt) ikm) info)
       [1..<Suc ((n + 31) div 32)]))"

section \<open>The loop produces the chain\<close>

lemma length_rfc_t [len_simps]: "0 < i \<Longrightarrow> length (rfc_t prk info i) = 32"
  by (cases i) simp_all

lemma length_rfc_chain [simp]: "length (concat (map (rfc_t prk info) [Suc 0..<Suc k])) = 32 * k"
  by (induction k) simp_all

lemma hkdf_expand_chain:
  "hkdf_expand prk info n (of_nat (Suc k)) (rfc_t prk info k) (concat (map (rfc_t prk info) [1..<Suc k])) =
     concat (map (rfc_t prk info) [1..<Suc (max k ((n + 31) div 32))])"
proof (induction "(n + 31) div 32 - k" arbitrary: k)
  case 0
  then have "n \<le> 32 * k" by simp
  with 0 show ?case by (simp add: hkdf_expand.simps max_absorb1 del: upt_Suc)
next
  case (Suc m)
  then have lt: "32 * k < n" and m: "m = (n + 31) div 32 - Suc k" by linarith+
  have c: "of_nat (Suc k) + 1 = (of_nat (Suc (Suc k)) :: byte)" by simp
  have "hkdf_expand prk info n (of_nat (Suc k)) (rfc_t prk info k) (concat (map (rfc_t prk info) [1..<Suc k])) =
        hkdf_expand prk info n (of_nat (Suc (Suc k))) (rfc_t prk info (Suc k))
          (concat (map (rfc_t prk info) [1..<Suc (Suc k)]))"
    by (subst hkdf_expand.simps) (use lt c in \<open>simp add: Let_def del: of_nat_Suc upt_Suc, simp\<close>)
  also have "\<dots> = concat (map (rfc_t prk info) [1..<Suc (max (Suc k) ((n + 31) div 32))])"
    by (rule Suc(1) [OF m])
  also have "max (Suc k) ((n + 31) div 32) = max k ((n + 31) div 32)" using Suc(2) by simp
  finally show ?case .
qed

lemma hkdf_expand_start:
  "hkdf_expand prk info n 1 [] [] = concat (map (rfc_t prk info) [1..<Suc ((n + 31) div 32)])"
  using hkdf_expand_chain [of prk info n 0] by simp

lemma hkdf_rfc5869: "hkdf salt ikm info n = rfc5869 salt ikm info n"
  by (simp add: hkdf_def rfc5869_def hkdf_expand_start)

lemma length_hkdf [simp, len_simps]: "length (hkdf salt ikm info n) = n"
  by (simp add: hkdf_rfc5869 rfc5869_def del: upt_Suc)

lemma hkdf_nonempty [simp]: "0 < n \<Longrightarrow> hkdf salt ikm info n \<noteq> []"
  using length_hkdf [of salt ikm info n] by fastforce

lemma length_hmacSHA256 [simp, len_simps]: "length (hmacSHA256 key data) = 32"
  by (simp add: hmacSHA256_def)

lemma hmacSHA256_nonempty [simp]: "hmacSHA256 key data \<noteq> []"
  by (simp add: hmacSHA256_def)

section \<open>Properties\<close>

text \<open>\<open>hkdf\<close> returns exactly the requested number of bytes, and they are the output of the RFC 5869
  extract-and-expand construction: the loop's blocks are \<open>T(1), T(2), \<dots>\<close>, each chained on the one
  before it, an empty salt standing for 32 zero bytes.\<close>

theorem hkdf_is_rfc5869:
  "hkdf salt ikm info n = rfc5869 salt ikm info n \<and> length (hkdf salt ikm info n) = n"
  by (simp add: hkdf_rfc5869 [symmetric])

end
