(* ===== verification/X3dh.thy ===== *)
theory X3dh
  imports Identity Kdf
begin

text \<open>
  \<open>src/core/pkg/crypto/x3dh.go\<close>: prekey generation, the published bundle and the two sides of the
  X3DH key agreement. As in the source, the error of each \<open>ECDH\<close> call is dropped, so a point of low
  order contributes an empty string to the concatenation (\<open>or_nil\<close>). An absent one-time prekey is the
  empty byte string.
\<close>

record prekey_bundle =
  b_identitySign :: bytes
  b_identityDH :: bytes
  b_signedPreKey :: bytes
  b_signedPreKeySig :: bytes
  b_oneTimePreKey :: bytes

record prekeys =
  pk_id :: identity
  pk_signedPre :: bytes
  pk_signedPreSig :: bytes
  pk_oneTime :: bytes

definition GeneratePreKeys :: "curve \<Rightarrow> identity \<Rightarrow> draw \<Rightarrow> draw \<Rightarrow> prekeys result" where
  "GeneratePreKeys cv i d1 d2 =
     rbind d1 (\<lambda>signedPre. rbind d2 (\<lambda>oneTime.
       rbind (Sign cv i (x25519_base cv signedPre)) (\<lambda>sig.
         Inr \<lparr> pk_id = i, pk_signedPre = signedPre, pk_signedPreSig = sig, pk_oneTime = oneTime \<rparr>)))"

definition Bundle :: "curve \<Rightarrow> prekeys \<Rightarrow> prekey_bundle" where
  "Bundle cv p = \<lparr>
     b_identitySign = signing_pub (pk_id p),
     b_identityDH = AgreementPub cv (pk_id p),
     b_signedPreKey = x25519_base cv (pk_signedPre p),
     b_signedPreKeySig = pk_signedPreSig p,
     b_oneTimePreKey = x25519_base cv (pk_oneTime p) \<rparr>"

text \<open>The 0xFF block in front of the concatenation, the zero salt and the label of the source.\<close>

definition deriveX3DH :: "bytes \<Rightarrow> bytes" where
  "deriveX3DH concat' = hkdf (replicate 32 0) (replicate 32 0xFF @ concat') (to_bytes ''stunner-x3dh'') 32"

definition x3dhInitiate :: "curve \<Rightarrow> identity \<Rightarrow> prekey_bundle \<Rightarrow> draw \<Rightarrow> (bytes \<times> bytes \<times> bool) result" where
  "x3dhInitiate cv local b d =
     (if \<not> Verify cv (b_identitySign b) (b_signedPreKey b) (b_signedPreKeySig b)
      then Inl ''crypto: bad signed prekey signature''
      else rbind d (\<lambda>eph.
        rbind (ecdh_public (b_signedPreKey b)) (\<lambda>spk.
        rbind (ecdh_public (b_identityDH b)) (\<lambda>ikB.
          let dh1 = or_nil (ecdh_shared cv (agreement_priv local) spk);
              dh2 = or_nil (ecdh_shared cv eph ikB);
              dh3 = or_nil (ecdh_shared cv eph spk);
              concat' = dh1 @ dh2 @ dh3
          in if 0 < length (b_oneTimePreKey b)
             then rbind (ecdh_public (b_oneTimePreKey b)) (\<lambda>opk.
               let dh4 = or_nil (ecdh_shared cv eph opk)
               in Inr (deriveX3DH (concat' @ dh4), x25519_base cv eph, True))
             else Inr (deriveX3DH concat', x25519_base cv eph, False)))))"

definition x3dhRespond :: "curve \<Rightarrow> prekeys \<Rightarrow> bytes \<Rightarrow> bytes \<Rightarrow> bool \<Rightarrow> bytes result" where
  "x3dhRespond cv pre initiatorIK ephPub usedOTP =
     rbind (ecdh_public initiatorIK) (\<lambda>ikA.
     rbind (ecdh_public ephPub) (\<lambda>eph.
       let dh1 = or_nil (ecdh_shared cv (pk_signedPre pre) ikA);
           dh2 = or_nil (ecdh_shared cv (agreement_priv (pk_id pre)) eph);
           dh3 = or_nil (ecdh_shared cv (pk_signedPre pre) eph);
           concat' = dh1 @ dh2 @ dh3
       in if usedOTP
          then Inr (deriveX3DH (concat' @ or_nil (ecdh_shared cv (pk_oneTime pre) eph)))
          else Inr (deriveX3DH concat')))"

section \<open>Well-formed prekeys\<close>

definition prekeys_ok :: "curve \<Rightarrow> prekeys \<Rightarrow> bool" where
  "prekeys_ok cv p \<longleftrightarrow>
     identity_ok cv (pk_id p) \<and> length (pk_signedPre p) = 32 \<and> length (pk_oneTime p) = 32 \<and>
     Verify cv (signing_pub (pk_id p)) (x25519_base cv (pk_signedPre p)) (pk_signedPreSig p)"

lemma GeneratePreKeys_ok:
  assumes "curve_ok cv" "identity_ok cv i" "draw32 d1" "draw32 d2"
  shows "\<exists>p. GeneratePreKeys cv i d1 d2 = Inr p \<and> pk_id p = i \<and> prekeys_ok cv p"
proof -
  obtain s o1 where d: "d1 = Inr s" "length s = 32" "d2 = Inr o1" "length o1 = 32"
    using assms(3,4) by (auto elim!: draw32E)
  obtain sig where "Sign cv i (x25519_base cv s) = Inr sig" "Verify cv (signing_pub i) (x25519_base cv s) sig"
    using Verify_Sign [OF assms(1,2)] by blast
  with d assms(2) show ?thesis by (simp add: GeneratePreKeys_def prekeys_ok_def)
qed

lemma length_deriveX3DH [simp, len_simps]: "length (deriveX3DH c) = 32"
  by (simp add: deriveX3DH_def)

section \<open>Agreement\<close>

lemma x3dhInitiate_Bundle:
  assumes cv: "curve_ok cv" and p: "prekeys_ok cv p" and e: "length eph = 32" "length (agreement_priv a) = 32"
  shows "x3dhInitiate cv a (Bundle cv p) (Inr eph) =
    Inr (deriveX3DH
      (x25519_mult cv (agreement_priv a) (x25519_base cv (pk_signedPre p)) @
       x25519_mult cv eph (x25519_base cv (agreement_priv (pk_id p))) @
       x25519_mult cv eph (x25519_base cv (pk_signedPre p)) @
       x25519_mult cv eph (x25519_base cv (pk_oneTime p))), x25519_base cv eph, True)"
proof -
  have l: "length (pk_signedPre p) = 32" "length (pk_oneTime p) = 32" "length (agreement_priv (pk_id p)) = 32"
    using p by (simp_all add: prekeys_ok_def identity_ok_def)
  have v: "Verify cv (signing_pub (pk_id p)) (x25519_base cv (pk_signedPre p)) (pk_signedPreSig p)"
    using p by (simp add: prekeys_ok_def)
  have "0 < length (x25519_base cv (pk_oneTime p))" using curve_pub_len [OF cv l(2)] by simp
  with l v e cv show ?thesis
    by (simp add: x3dhInitiate_def Bundle_def AgreementPub_def ecdh_shared_ok Let_def)
qed

lemma x3dh_agreement:
  assumes cv: "curve_ok cv" and p: "prekeys_ok cv p" and a: "identity_ok cv a" and e: "length eph = 32"
  shows "\<exists>sk. x3dhInitiate cv a (Bundle cv p) (Inr eph) = Inr (sk, x25519_base cv eph, True) \<and>
    x3dhRespond cv p (AgreementPub cv a) (x25519_base cv eph) True = Inr sk \<and> length sk = 32"
proof -
  have l: "length (pk_signedPre p) = 32" "length (pk_oneTime p) = 32" "length (agreement_priv (pk_id p)) = 32"
    "length (agreement_priv a) = 32"
    using p a by (simp_all add: prekeys_ok_def identity_ok_def)
  show ?thesis
    using l cv e curve_dh [OF cv l(4,1)] curve_dh [OF cv e l(1)] curve_dh [OF cv e l(2)] curve_dh [OF cv e l(3)]
    by (simp add: x3dhInitiate_Bundle [OF cv p e l(4)] x3dhRespond_def AgreementPub_def ecdh_shared_ok Let_def)
qed

section \<open>Properties\<close>

text \<open>C13. X3DH agreement: for prekeys that \<open>GeneratePreKeys\<close> made, the initiator that runs
  \<open>x3dhInitiate\<close> on the published bundle and the responder that runs \<open>x3dhRespond\<close> on what the
  initiator sends both succeed and hold the same 32-byte secret.\<close>

theorem x3dh_same_secret:
  assumes "curve_ok cv" "identity_ok cv alice" "identity_ok cv bob" "draw32 d1" "draw32 d2" "length eph = 32"
  shows "\<exists>pre sk ephPub used.
    GeneratePreKeys cv bob d1 d2 = Inr pre \<and>
    x3dhInitiate cv alice (Bundle cv pre) (Inr eph) = Inr (sk, ephPub, used) \<and>
    x3dhRespond cv pre (AgreementPub cv alice) ephPub used = Inr sk \<and> length sk = 32"
  using GeneratePreKeys_ok [OF assms(1,3,4,5)] x3dh_agreement [OF assms(1) _ assms(2,6)] by metis

definition toy_identity :: "byte \<Rightarrow> identity" where
  "toy_identity b = \<lparr> signing_pub = replicate 32 b, signing_priv = replicate 64 b, agreement_priv = replicate 32 (b + 1) \<rparr>"

lemma toy_identity_ok: "identity_ok toy_curve (toy_identity b)"
  by (simp add: identity_ok_def toy_identity_def toy_curve_def)

theorem x3dh_same_secret_witness:
  "\<exists>pre sk ephPub used.
    GeneratePreKeys toy_curve (toy_identity 2) (Inr (replicate 32 3)) (Inr (replicate 32 4)) = Inr pre \<and>
    x3dhInitiate toy_curve (toy_identity 1) (Bundle toy_curve pre) (Inr (replicate 32 5)) = Inr (sk, ephPub, used) \<and>
    x3dhRespond toy_curve pre (AgreementPub toy_curve (toy_identity 1)) ephPub used = Inr sk \<and> length sk = 32"
  by (rule x3dh_same_secret [OF toy_curve_ok toy_identity_ok toy_identity_ok]) (simp_all add: draw32_def)

text \<open>An initiator never agrees on a secret with a bundle whose signed prekey is not validly signed by
  the identity key the bundle names, or whose keys have the wrong size.\<close>

theorem x3dh_checks_bundle:
  assumes "x3dhInitiate cv a b d = Inr (sk, ephPub, used)"
  shows "ed25519_verify cv (b_identitySign b) (b_signedPreKey b) (b_signedPreKeySig b) \<and>
    length (b_identitySign b) = 32 \<and> length (b_signedPreKey b) = 32 \<and> length (b_identityDH b) = 32 \<and>
    length (b_oneTimePreKey b) \<in> {0, 32} \<and> used = (b_oneTimePreKey b \<noteq> []) \<and> length sk = 32"
  using assms
  by (auto simp: x3dhInitiate_def Verify_def ecdh_public_def rbind_eq_Inr_iff Let_def split: if_splits)

theorem x3dh_checks_bundle_witness:
  "\<exists>b sk ephPub used. x3dhInitiate toy_curve (toy_identity 1) b (Inr (replicate 32 5)) = Inr (sk, ephPub, used) \<and>
    ed25519_verify toy_curve (b_identitySign b) (b_signedPreKey b) (b_signedPreKeySig b)"
proof -
  obtain pre where pre: "prekeys_ok toy_curve pre"
    using GeneratePreKeys_ok [OF toy_curve_ok toy_identity_ok, of "Inr (replicate 32 3)" "Inr (replicate 32 4)" 2]
    by (auto simp: draw32_def)
  obtain sk where "x3dhInitiate toy_curve (toy_identity 1) (Bundle toy_curve pre) (Inr (replicate 32 5)) =
      Inr (sk, x25519_base toy_curve (replicate 32 5), True)"
    using x3dh_agreement [OF toy_curve_ok pre toy_identity_ok, of "replicate 32 5"] by auto
  with x3dh_checks_bundle [OF this] show ?thesis by blast
qed

text \<open>The errors of the Diffie-Hellman computations are dropped: against an ephemeral point of low
  order (all of whose products are zero) the responder derives a secret that depends on its long-term
  and one-time keys in no way, only on its signed prekey and the initiator's identity key.\<close>

theorem x3dh_low_order_ephemeral:
  assumes low: "\<forall>a. x25519_mult cv a e = replicate 32 0"
    and len: "length e = 32" "length ik = 32" and same: "pk_signedPre pre = pk_signedPre pre'"
  shows "x3dhRespond cv pre ik e True = x3dhRespond cv pre' ik e True \<and>
    x3dhRespond cv pre ik e True = Inr (deriveX3DH (or_nil (ecdh_shared cv (pk_signedPre pre) ik)))"
  using len same by (simp add: x3dhRespond_def ecdh_public_def ecdh_shared_def low Let_def)

definition zero_curve :: curve where
  "zero_curve = toy_curve\<lparr> x25519_mult := (\<lambda>a p. if p = replicate 32 0 then replicate 32 0 else x25519_mult toy_curve a p) \<rparr>"

theorem x3dh_low_order_ephemeral_witness:
  "\<exists>pre pre'. pk_oneTime pre \<noteq> pk_oneTime pre' \<and>
     x3dhRespond zero_curve pre (replicate 32 1) (replicate 32 0) True =
     x3dhRespond zero_curve pre' (replicate 32 1) (replicate 32 0) True"
proof -
  let ?p = "\<lparr> pk_id = toy_identity 2, pk_signedPre = replicate 32 3, pk_signedPreSig = [], pk_oneTime = replicate 32 4 \<rparr>"
  have "x3dhRespond zero_curve ?p (replicate 32 1) (replicate 32 0) True =
     x3dhRespond zero_curve (?p\<lparr> pk_oneTime := replicate 32 5 \<rparr>) (replicate 32 1) (replicate 32 0) True"
    by (rule conjunct1 [OF x3dh_low_order_ephemeral]) (simp_all add: zero_curve_def)
  moreover have "pk_oneTime ?p \<noteq> pk_oneTime (?p\<lparr> pk_oneTime := replicate 32 5 \<rparr>)" by simp
  ultimately show ?thesis by blast
qed

end
