(* ===== verification/Ratchet.thy ===== *)
theory Ratchet
  imports Identity Kdf Aes_Gcm Json_Struct
begin

text \<open>
  \<open>src/core/pkg/crypto/ratchet.go\<close> and \<open>wire.go\<close>: the Double Ratchet. The state of \<open>ratchet\<close> is passed
  explicitly and returned also on an error, since the source mutates it in place before it can
  fail. Counters are 32-bit words that wrap. A nil ratchet public key is told apart from an empty
  one (\<open>bytes option\<close>); a nil chain key is the empty byte string (no chain key the code derives is
  empty). The private ratchet key is its scalar, fresh ones are draws.
\<close>

definition maxSkip :: u32 where
  "maxSkip = 1000"

record ratchet =
  r_dhs :: bytes
  r_dhr :: "bytes option"
  r_rk :: bytes
  r_cks :: bytes
  r_ckr :: bytes
  r_ns :: u32
  r_nr :: u32
  r_pn :: u32
  r_skipped :: "string \<Rightarrow> bytes option"
  r_ad :: bytes

record ratchetHeader =
  h_DH :: "bytes option"
  h_PN :: u32
  h_N :: u32

section \<open>Wire format\<close>

record wireMessage =
  w_DH :: "bytes option"
  w_PN :: u32
  w_N :: u32
  w_CT :: bytes

definition wireMessage_fields :: "wireMessage jfields" where
  "wireMessage_fields =
     [jfield ''dh'' w_DH (\<lambda>v m. m\<lparr>w_DH := v\<rparr>) jd_slice,
      jfield ''pn'' w_PN (\<lambda>v m. m\<lparr>w_PN := v\<rparr>) jd_uint,
      jfield ''n'' w_N (\<lambda>v m. m\<lparr>w_N := v\<rparr>) jd_uint,
      jfield ''ct'' w_CT (\<lambda>v m. m\<lparr>w_CT := v\<rparr>) jd_bytes]"

definition wireMessage_json :: "wireMessage \<Rightarrow> json" where
  "wireMessage_json m =
     JObj [(''dh'', je_slice (w_DH m)), (''pn'', je_uint (w_PN m)), (''n'', je_uint (w_N m)), (''ct'', je_bytes (w_CT m))]"

definition encodeMessage :: "ratchetHeader \<Rightarrow> bytes \<Rightarrow> bytes" where
  "encodeMessage h ct = marshal (wireMessage_json \<lparr> w_DH = h_DH h, w_PN = h_PN h, w_N = h_N h, w_CT = ct \<rparr>)"

definition decodeMessage :: "bytes \<Rightarrow> (ratchetHeader \<times> bytes) result" where
  "decodeMessage b =
     (case unmarshal (json_into wireMessage_fields) b \<lparr> w_DH = None, w_PN = 0, w_N = 0, w_CT = [] \<rparr> of
        (m, ok) \<Rightarrow>
          if ok then Inr (\<lparr> h_DH = w_DH m, h_PN = w_PN m, h_N = w_N m \<rparr>, w_CT m)
          else Inl ''json: cannot decode ratchet message'')"

text \<open>\<open>ratchetHeader.bytes\<close>, \<open>equal\<close> and \<open>itoa\<close>.\<close>

definition header_bytes :: "ratchetHeader \<Rightarrow> bytes" where
  "header_bytes h = slice_list (h_DH h) @ be32 (h_PN h) @ be32 (h_N h)"

fun equal_from :: "bytes \<Rightarrow> bytes \<Rightarrow> bool" where
  "equal_from (x # a) (y # b) = (if x \<noteq> y then False else equal_from a b)"
| "equal_from _ _ = True"

definition equal_bytes :: "bytes \<Rightarrow> bytes \<Rightarrow> bool" where
  "equal_bytes a b = (if length a \<noteq> length b then False else equal_from a b)"

text \<open>The digits of \<open>n\<close> are written from the end of a ten-byte buffer towards its start; \<open>acc\<close> is the
  part written so far.\<close>

function itoa_loop :: "u32 \<Rightarrow> string \<Rightarrow> string" where
  "itoa_loop n acc =
     (if 0 < n then itoa_loop (n div 10) (char_of_byte (ucast (48 + n mod 10)) # acc) else acc)"
  by pat_completeness auto
termination
  by (relation "measure (unat \<circ> fst)") (auto simp: unat_div_distrib word_less_nat_alt)

declare itoa_loop.simps [simp del]

definition itoa :: "u32 \<Rightarrow> string" where
  "itoa n = (if n = 0 then ''0'' else itoa_loop n [])"

definition skipped_key :: "bytes option \<Rightarrow> u32 \<Rightarrow> string" where
  "skipped_key dh n = hex_encode (slice_list dh) @ '':'' @ itoa n"

section \<open>Key derivation steps and the AEAD\<close>

definition kdfRoot :: "bytes \<Rightarrow> bytes \<Rightarrow> bytes \<times> bytes" where
  "kdfRoot rk dhOut = (let out = hkdf rk dhOut (to_bytes ''stunner-root'') 64 in (take 32 out, drop 32 out))"

text \<open>\<open>chainStep\<close> returns the message key and the chain key it leaves behind.\<close>

definition chainStep :: "bytes \<Rightarrow> bytes \<times> bytes" where
  "chainStep ck = (hmacSHA256 ck [1], hmacSHA256 ck [2])"

definition messageKeys :: "bytes \<Rightarrow> bytes \<times> bytes" where
  "messageKeys mk = (let km = hkdf [] mk (to_bytes ''stunner-msg'') (32 + 12) in (take 32 km, drop 32 km))"

definition msgGCM :: "bytes \<Rightarrow> (bytes \<times> bytes) result" where
  "msgGCM mk =
     (case messageKeys mk of (encKey, nonce) \<Rightarrow>
        if length encKey = 32 then Inr (encKey, nonce) else Inl ''crypto/aes: invalid key size'')"

definition aeadSeal :: "bytes \<Rightarrow> bytes \<Rightarrow> bytes \<Rightarrow> bytes result" where
  "aeadSeal mk plaintext ad = rbind (msgGCM mk) (\<lambda>(key, nonce). Inr (gcm_seal key nonce ad plaintext))"

definition aeadOpen :: "bytes \<Rightarrow> bytes \<Rightarrow> bytes \<Rightarrow> bytes result" where
  "aeadOpen mk ct ad = rbind (msgGCM mk) (\<lambda>(key, nonce). gcm_open key nonce ad ct)"

section \<open>Operations\<close>

definition ratchet_dh :: "curve \<Rightarrow> ratchet \<Rightarrow> bytes \<Rightarrow> bytes result" where
  "ratchet_dh cv r remotePub = rbind (ecdh_public remotePub) (\<lambda>pub. ecdh_shared cv (r_dhs r) pub)"

definition newRatchetInitiator :: "curve \<Rightarrow> bytes \<Rightarrow> bytes \<Rightarrow> bytes \<Rightarrow> draw \<Rightarrow> ratchet result" where
  "newRatchetInitiator cv sk remoteRatchetPub ad d =
     rbind d (\<lambda>dhs.
       let r = \<lparr> r_dhs = dhs, r_dhr = Some remoteRatchetPub, r_rk = [], r_cks = [], r_ckr = [],
                 r_ns = 0, r_nr = 0, r_pn = 0, r_skipped = (\<lambda>_. None), r_ad = ad \<rparr>
       in rbind (ratchet_dh cv r remoteRatchetPub) (\<lambda>out.
            case kdfRoot sk out of (rk, cks) \<Rightarrow> Inr (r\<lparr> r_rk := rk, r_cks := cks \<rparr>)))"

definition newRatchetResponder :: "bytes \<Rightarrow> bytes \<Rightarrow> bytes \<Rightarrow> ratchet" where
  "newRatchetResponder sk signedPre ad =
     \<lparr> r_dhs = signedPre, r_dhr = None, r_rk = sk, r_cks = [], r_ckr = [],
       r_ns = 0, r_nr = 0, r_pn = 0, r_skipped = (\<lambda>_. None), r_ad = ad \<rparr>"

definition ratchet_encrypt :: "curve \<Rightarrow> ratchet \<Rightarrow> bytes \<Rightarrow> bytes result \<times> ratchet" where
  "ratchet_encrypt cv r plaintext =
     (case chainStep (r_cks r) of (mk, cks) \<Rightarrow>
        let h = \<lparr> h_DH = Some (x25519_base cv (r_dhs r)), h_PN = r_pn r, h_N = r_ns r \<rparr>;
            r' = r\<lparr> r_cks := cks, r_ns := r_ns r + 1 \<rparr>
        in (rbind (aeadSeal mk plaintext (r_ad r @ header_bytes h)) (\<lambda>ct. Inr (encodeMessage h ct)), r'))"

text \<open>\<open>trySkipped\<close>: the plaintext or nothing, or an error; a used key is deleted.\<close>

definition trySkipped :: "ratchet \<Rightarrow> ratchetHeader \<Rightarrow> bytes \<Rightarrow> bytes option result \<times> ratchet" where
  "trySkipped r h ct =
     (let key = skipped_key (h_DH h) (h_N h) in
      case r_skipped r key of
        None \<Rightarrow> (Inr None, r)
      | Some mk \<Rightarrow>
          (case aeadOpen mk ct (r_ad r @ header_bytes h) of
             Inl e \<Rightarrow> (Inl e, r)
           | Inr pt \<Rightarrow> (Inr (Some pt), r\<lparr> r_skipped := (r_skipped r)(key := None) \<rparr>)))"

definition skip_one :: "ratchet \<Rightarrow> ratchet" where
  "skip_one r =
     (case chainStep (r_ckr r) of (mk, ck) \<Rightarrow>
        r\<lparr> r_ckr := ck, r_skipped := (r_skipped r)(skipped_key (r_dhr r) (r_nr r) \<mapsto> mk), r_nr := r_nr r + 1 \<rparr>)"

function skip_loop :: "u32 \<Rightarrow> ratchet \<Rightarrow> ratchet" where
  "skip_loop until r = (if r_nr r < until then skip_loop until (skip_one r) else r)"
  by pat_completeness auto
termination
proof (relation "measure (\<lambda>(until, r). unat until - unat (r_nr r))", goal_cases)
  case (2 until r)
  with unat_inc_less [OF 2] show ?case
    by (simp add: skip_one_def chainStep_def word_less_nat_alt)
qed simp

declare skip_loop.simps [simp del]

definition ratchet_skip :: "ratchet \<Rightarrow> u32 \<Rightarrow> unit result \<times> ratchet" where
  "ratchet_skip r until =
     (if r_ckr r = [] then (Inr (), r)
      else if r_nr r + maxSkip < until then (Inl ''crypto: too many skipped messages'', r)
      else (Inr (), skip_loop until r))"

definition dhRatchet :: "curve \<Rightarrow> ratchet \<Rightarrow> bytes option \<Rightarrow> draw \<Rightarrow> unit result \<times> ratchet" where
  "dhRatchet cv r remotePub d =
     (let r1 = r\<lparr> r_pn := r_ns r, r_ns := 0, r_nr := 0, r_dhr := remotePub \<rparr> in
      case ratchet_dh cv r1 (slice_list remotePub) of
        Inl e \<Rightarrow> (Inl e, r1)
      | Inr out \<Rightarrow>
          (case kdfRoot (r_rk r1) out of (rk, ckr) \<Rightarrow>
             let r2 = r1\<lparr> r_rk := rk, r_ckr := ckr \<rparr> in
             case d of
               Inl e \<Rightarrow> (Inl e, r2)
             | Inr dhs \<Rightarrow>
                 let r3 = r2\<lparr> r_dhs := dhs \<rparr> in
                 case ratchet_dh cv r3 (slice_list remotePub) of
                   Inl e \<Rightarrow> (Inl e, r3)
                 | Inr out' \<Rightarrow>
                     (case kdfRoot (r_rk r3) out' of (rk', cks) \<Rightarrow>
                        (Inr (), r3\<lparr> r_rk := rk', r_cks := cks \<rparr>))))"

text \<open>The end of \<open>decrypt\<close>, from the last \<open>skip\<close> on.\<close>

definition decrypt_chain :: "ratchet \<Rightarrow> ratchetHeader \<Rightarrow> bytes \<Rightarrow> bytes result \<times> ratchet" where
  "decrypt_chain r h ct =
     (case ratchet_skip r (h_N h) of
        (Inl e, r') \<Rightarrow> (Inl e, r')
      | (Inr _, r') \<Rightarrow>
          (case chainStep (r_ckr r') of (mk, ckr) \<Rightarrow>
             let r'' = r'\<lparr> r_ckr := ckr, r_nr := r_nr r' + 1 \<rparr>
             in (aeadOpen mk ct (r_ad r'' @ header_bytes h), r'')))"

definition ratchet_decrypt :: "curve \<Rightarrow> ratchet \<Rightarrow> bytes \<Rightarrow> draw \<Rightarrow> bytes result \<times> ratchet" where
  "ratchet_decrypt cv r wire d =
     (case decodeMessage wire of
        Inl e \<Rightarrow> (Inl e, r)
      | Inr (h, ct) \<Rightarrow>
          (case trySkipped r h ct of
             (Inl e, r1) \<Rightarrow> (Inl e, r1)
           | (Inr (Some pt), r1) \<Rightarrow> (Inr pt, r1)
           | (Inr None, r1) \<Rightarrow>
               if (case r_dhr r1 of None \<Rightarrow> True | Some k \<Rightarrow> \<not> equal_bytes (slice_list (h_DH h)) k)
               then (case ratchet_skip r1 (h_PN h) of
                       (Inl e, r2) \<Rightarrow> (Inl e, r2)
                     | (Inr _, r2) \<Rightarrow>
                         (case dhRatchet cv r2 (h_DH h) d of
                            (Inl e, r3) \<Rightarrow> (Inl e, r3)
                          | (Inr _, r3) \<Rightarrow> decrypt_chain r3 h ct))
               else decrypt_chain r1 h ct))"

section \<open>Wire format and helpers\<close>

lemma wireMessage_wf [simp]: "json_wf (wireMessage_json m)"
  by (simp add: wireMessage_json_def utf8_valid_ascii)

lemma decodeMessage_encodeMessage [simp, codec_simps]: "decodeMessage (encodeMessage h ct) = Inr (h, ct)"
  by (simp add: decodeMessage_def encodeMessage_def unmarshal_marshal wireMessage_json_def json_into_def
      wireMessage_fields_def jfind_def jfield_def)

lemma equal_bytes_iff [simp]: "equal_bytes a b \<longleftrightarrow> a = b"
proof -
  have "length a = length b \<Longrightarrow> equal_from a b \<longleftrightarrow> a = b"
    by (induction a b rule: equal_from.induct) auto
  then show ?thesis by (auto simp: equal_bytes_def)
qed

lemma digit_chars: "d < 10 \<Longrightarrow> char_of_byte (ucast (48 + of_nat d :: u32)) = dec_digits ! d"
proof -
  have "list_all (\<lambda>d. char_of_byte (ucast (48 + of_nat d :: u32)) = dec_digits ! d) [0..<10]"
    by code_simp
  then show "d < 10 \<Longrightarrow> ?thesis" by (simp add: list_all_iff)
qed

lemma itoa_digit: "char_of_byte (ucast (48 + n mod 10)) = dec_digits ! (unat n mod 10)" for n :: u32
  using digit_chars [of "unat n mod 10"] by (simp add: word_arith_nat_mod)

lemma itoa_loop_dec: "0 < n \<Longrightarrow> itoa_loop n acc = dec_string (unat n) @ acc"
proof (induction n acc rule: itoa_loop.induct)
  case (1 n acc)
  have d: "unat (n div 10) = unat n div 10" by (simp add: unat_div_distrib)
  show ?case
  proof (cases "n div 10 = 0")
    case True
    with d have "unat n < 10" by (simp add: div_eq_0_iff)
    with 1 True show ?thesis
      by (simp add: itoa_loop.simps [of n] itoa_loop.simps [of 0] dec_string.simps [of "unat n"] itoa_digit)
  next
    case False
    then have "\<not> unat n < 10" using d by (metis div_less unat_eq_zero)
    with 1 False d show ?thesis
      by (simp add: itoa_loop.simps [of n] dec_string.simps [of "unat n"] itoa_digit word_neq_0_conv)
  qed
qed

text \<open>\<open>itoa\<close> prints the decimal numeral, and ten buffer bytes are enough for every \<open>uint32\<close>.\<close>

lemma itoa_dec_string: "itoa n = dec_string (unat n)"
  by (simp add: itoa_def itoa_loop_dec dec_string_0 word_neq_0_conv)

lemma itoa_inject [simp]: "itoa m = itoa n \<longleftrightarrow> m = n"
  by (simp add: itoa_dec_string unsigned_word_eqI) (metis unsigned_word_eqI)

lemma length_itoa: "length (itoa n) \<le> 10"
  using length_dec_string [of "unat n" 9] unsigned_less [of n, where 'a = nat] by (simp add: itoa_dec_string)

lemma split_at_unique:
  "c \<notin> set xs \<Longrightarrow> c \<notin> set xs' \<Longrightarrow> xs @ c # ys = xs' @ c # ys' \<longleftrightarrow> xs = xs' \<and> ys = ys'"
  by (auto simp: append_eq_append_conv2 append_eq_Cons_conv Cons_eq_append_conv)

lemma skipped_key_inject [simp]:
  "skipped_key a m = skipped_key b n \<longleftrightarrow> slice_list a = slice_list b \<and> m = n"
proof -
  have "CHR '':'' \<notin> set (hex_encode x)" for x
    using hex_encode_chars [of x] by (auto simp: hex_digits_def)
  then show ?thesis by (simp add: skipped_key_def split_at_unique)
qed

lemma slice_list_simps [simp]: "slice_list None = []" "slice_list (Some b) = b"
  by (simp_all add: slice_list_def)

section \<open>The AEAD\<close>

definition seal_with :: "bytes \<Rightarrow> bytes \<Rightarrow> bytes \<Rightarrow> bytes" where
  "seal_with mk ad pt = gcm_seal (fst (messageKeys mk)) (snd (messageKeys mk)) ad pt"

lemma msgGCM_ok: "msgGCM mk = Inr (messageKeys mk)"
  by (simp add: msgGCM_def messageKeys_def Let_def)

lemma aeadSeal_ok [simp]: "aeadSeal mk pt ad = Inr (seal_with mk ad pt)"
  by (simp add: aeadSeal_def msgGCM_ok seal_with_def case_prod_beta)

lemma aeadOpen_seal [simp, codec_simps]: "aeadOpen mk (seal_with mk ad pt) ad = Inr pt"
  by (simp add: aeadOpen_def msgGCM_ok seal_with_def case_prod_beta)

lemma aeadOpen_Inr: "aeadOpen mk ct ad = Inr pt \<Longrightarrow> ct = seal_with mk ad pt"
  by (simp add: aeadOpen_def msgGCM_ok seal_with_def case_prod_beta gcm_open_Inr)

section \<open>Chains\<close>

text \<open>The chain key after \<open>n\<close> steps and the message key of position \<open>n\<close>.\<close>

definition chain_key :: "bytes \<Rightarrow> nat \<Rightarrow> bytes" where
  "chain_key c n = ((\<lambda>k. hmacSHA256 k [2]) ^^ n) c"

definition msg_key :: "bytes \<Rightarrow> nat \<Rightarrow> bytes" where
  "msg_key c n = hmacSHA256 (chain_key c n) [1]"

lemma chain_key_0 [simp]: "chain_key c 0 = c"
  by (simp add: chain_key_def)

lemma chain_key_Suc: "chain_key c (Suc n) = hmacSHA256 (chain_key c n) [2]"
  by (simp add: chain_key_def)

lemma chain_key_add: "chain_key (chain_key c m) n = chain_key c (m + n)"
  by (simp add: chain_key_def funpow_add add.commute [of m])

lemma msg_key_add: "msg_key (chain_key c m) n = msg_key c (m + n)"
  by (simp add: msg_key_def chain_key_add)

lemma chainStep_chain: "chainStep (chain_key c n) = (msg_key c n, chain_key c (Suc n))"
  by (simp add: chainStep_def msg_key_def chain_key_Suc)

lemma chainStep_0: "chainStep c = (msg_key c 0, chain_key c 1)"
  using chainStep_chain [of c 0] by simp

lemma kdfRoot_lengths: "kdfRoot rk s = (a, b) \<Longrightarrow> length a = 32 \<and> length b = 32"
  by (auto simp: kdfRoot_def Let_def)

section \<open>Skipping\<close>

lemma skip_one_simps [simp]:
  "r_nr (skip_one r) = r_nr r + 1" "r_dhr (skip_one r) = r_dhr r"
  "r_ckr (skip_one r) = chain_key (r_ckr r) 1"
  "r_skipped (skip_one r) = (r_skipped r)(skipped_key (r_dhr r) (r_nr r) \<mapsto> msg_key (r_ckr r) 0)"
  by (simp_all add: skip_one_def chainStep_0)

lemma skip_loop_done: "\<not> r_nr r < until \<Longrightarrow> skip_loop until r = r"
  by (simp add: skip_loop.simps)

lemma skip_loop_frame:
  "\<exists>ck nr sk. skip_loop until r = r\<lparr> r_ckr := ck, r_nr := nr, r_skipped := sk \<rparr>"
proof (induction until r rule: skip_loop.induct)
  case (1 until r)
  show ?case
  proof (cases "r_nr r < until")
    case True
    then obtain ck nr sk where
      "skip_loop until (skip_one r) = (skip_one r)\<lparr> r_ckr := ck, r_nr := nr, r_skipped := sk \<rparr>"
      using 1 by blast
    with True have "skip_loop until r = r\<lparr> r_ckr := ck, r_nr := nr, r_skipped := sk \<rparr>"
      by (simp add: skip_loop.simps [of until r] skip_one_def chainStep_def)
    then show ?thesis by blast
  next
    case False
    then have "skip_loop until r = r\<lparr> r_ckr := r_ckr r, r_nr := r_nr r, r_skipped := r_skipped r \<rparr>"
      by (simp add: skip_loop_done)
    then show ?thesis by blast
  qed
qed

text \<open>\<open>skip\<close> moves to position \<open>until\<close> and stores the message key of every position it passes, and
  changes nothing else.\<close>

lemma skip_next: "x < y \<Longrightarrow> x + 1 \<le> y \<and> unat (x + 1) = Suc (unat x)" for x y :: "'a::len word"
  using unat_inc_less [of x y] by (simp add: word_le_nat_alt word_less_nat_alt)

lemma skip_loop_nr: "r_nr r \<le> until \<Longrightarrow> r_nr (skip_loop until r) = until"
proof (induction until r rule: skip_loop.induct)
  case (1 until r)
  then show ?case
    using skip_next [of "r_nr r" until] by (cases "r_nr r < until") (simp_all add: skip_loop.simps [of until r])
qed

lemma skip_loop_ckr:
  "r_nr r \<le> until \<Longrightarrow> r_ckr (skip_loop until r) = chain_key (r_ckr r) (unat until - unat (r_nr r))"
proof (induction until r rule: skip_loop.induct)
  case (1 until r)
  show ?case
  proof (cases "r_nr r < until")
    case True
    have pos: "1 + (unat until - unat (r_nr r + 1)) = unat until - unat (r_nr r)"
      using True skip_next [OF True] by (simp add: word_less_nat_alt)
    have "r_ckr (skip_loop until r) = chain_key (chain_key (r_ckr r) 1) (unat until - unat (r_nr r + 1))"
      using 1(1) [OF True] True skip_next [OF True] by (simp add: skip_loop.simps [of until r] del: One_nat_def)
    then show ?thesis unfolding chain_key_add pos .
  qed (use 1 in \<open>simp add: skip_loop_done\<close>)
qed

lemma skip_loop_other:
  "(\<And>m. k \<noteq> skipped_key (r_dhr r) m) \<Longrightarrow> r_skipped (skip_loop until r) k = r_skipped r k"
proof (induction until r rule: skip_loop.induct)
  case (1 until r)
  then show ?case by (cases "r_nr r < until") (simp_all add: skip_loop.simps [of until r])
qed

lemma skip_loop_skipped:
  "r_skipped (skip_loop until r) (skipped_key (r_dhr r) n) =
      (if r_nr r \<le> n \<and> n < until then Some (msg_key (r_ckr r) (unat n - unat (r_nr r)))
       else r_skipped r (skipped_key (r_dhr r) n))"
proof (induction until r rule: skip_loop.induct)
  case (1 until r)
  show ?case
  proof (cases "r_nr r < until")
    case True
    have pos: "unat n - unat (r_nr r) = 1 + (unat n - unat (r_nr r + 1))" if "r_nr r + 1 \<le> n"
      using that skip_next [OF True] by (simp add: word_le_nat_alt)
    have le: "r_nr r \<le> n \<longleftrightarrow> n = r_nr r \<or> r_nr r + 1 \<le> n"
      using skip_next [OF True] by (auto simp: word_le_nat_alt word_unat_eq_iff)
    have ne: "r_nr r + 1 \<le> n \<Longrightarrow> n \<noteq> r_nr r"
      using skip_next [OF True] by (auto simp: word_le_nat_alt)
    show ?thesis
      using True 1 [OF True] pos le ne
      by (auto simp: skip_loop.simps [of until r] msg_key_add simp del: One_nat_def)
  qed (auto simp: skip_loop_done)
qed

end
