(* ===== verification/Session.thy ===== *)
theory Session
  imports X3dh Ratchet
begin

text \<open>
  \<open>src/core/pkg/crypto/session.go\<close>: sessions over a ratchet and the in-memory session store. The
  store's map holds pointers and \<open>Initiate\<close>/\<open>Accept\<close> return the pointer they stored, so the model
  keeps the session objects in a heap (\<open>m_heap\<close>, a pointer is an index) beside the map from peer
  fingerprints to pointers: a session that a later handshake replaces in the map stays alive for
  the link that holds it.
\<close>

record handshake =
  hs_identitySign :: bytes
  hs_identityDH :: bytes
  hs_ephemeral :: bytes
  hs_usedOTP :: bool

record ratchetSession =
  s_r :: ratchet
  s_peerFP :: string
  s_peerSig :: bytes

record memStore =
  m_local :: identity
  m_pre :: "prekeys option"
  m_heap :: "ratchetSession list"
  m_sessions :: "string \<Rightarrow> nat option"

definition associatedData :: "bytes \<Rightarrow> bytes \<Rightarrow> bytes" where
  "associatedData a b = (if bytes_le a b then a @ b else b @ a)"

definition NewMemStore :: "identity \<Rightarrow> prekeys option \<Rightarrow> memStore" where
  "NewMemStore local pre = \<lparr> m_local = local, m_pre = pre, m_heap = [], m_sessions = (\<lambda>_. None) \<rparr>"

definition session_Get :: "memStore \<Rightarrow> string \<Rightarrow> nat option" where
  "session_Get m peerFP = m_sessions m peerFP"

text \<open>The common end of \<open>Initiate\<close> and \<open>Accept\<close>: a new object, entered under its peer's fingerprint.\<close>

definition store_session :: "memStore \<Rightarrow> ratchetSession \<Rightarrow> memStore" where
  "store_session m s =
     m\<lparr> m_heap := m_heap m @ [s], m_sessions := (m_sessions m)(s_peerFP s \<mapsto> length (m_heap m)) \<rparr>"

definition session_Initiate ::
    "curve \<Rightarrow> memStore \<Rightarrow> prekey_bundle \<Rightarrow> draw \<Rightarrow> draw \<Rightarrow> (nat \<times> handshake) result \<times> memStore" where
  "session_Initiate cv m bundle dEph dRatchet =
     (case x3dhInitiate cv (m_local m) bundle dEph of
        Inl e \<Rightarrow> (Inl e, m)
      | Inr (sk, ephPub, usedOTP) \<Rightarrow>
          let ad = associatedData (signing_pub (m_local m)) (b_identitySign bundle) in
          (case newRatchetInitiator cv sk (b_signedPreKey bundle) ad dRatchet of
             Inl e \<Rightarrow> (Inl e, m)
           | Inr r \<Rightarrow>
               let s = \<lparr> s_r = r, s_peerFP = Fingerprint (b_identitySign bundle), s_peerSig = b_identitySign bundle \<rparr>;
                   hs = \<lparr> hs_identitySign = signing_pub (m_local m), hs_identityDH = AgreementPub cv (m_local m),
                          hs_ephemeral = ephPub, hs_usedOTP = usedOTP \<rparr>
               in (Inr (length (m_heap m), hs), store_session m s)))"

definition session_Accept :: "curve \<Rightarrow> memStore \<Rightarrow> handshake \<Rightarrow> nat result \<times> memStore" where
  "session_Accept cv m hs =
     (case m_pre m of
        None \<Rightarrow> (Inl ''crypto: no prekeys to accept handshake'', m)
      | Some pre \<Rightarrow>
          (case x3dhRespond cv pre (hs_identityDH hs) (hs_ephemeral hs) (hs_usedOTP hs) of
             Inl e \<Rightarrow> (Inl e, m)
           | Inr sk \<Rightarrow>
               let ad = associatedData (signing_pub (m_local m)) (hs_identitySign hs);
                   r = newRatchetResponder sk (pk_signedPre pre) ad;
                   s = \<lparr> s_r = r, s_peerFP = Fingerprint (hs_identitySign hs), s_peerSig = hs_identitySign hs \<rparr>
               in (Inr (length (m_heap m)), store_session m s)))"

text \<open>\<open>Session.Encrypt\<close>, \<open>Decrypt\<close> and \<open>PeerFingerprint\<close> on the object behind a pointer; a pointer that
  was never handed out is a nil dereference.\<close>

definition nil_session :: string where
  "nil_session = ''invalid memory address or nil pointer dereference''"

definition session_Encrypt :: "curve \<Rightarrow> memStore \<Rightarrow> nat \<Rightarrow> bytes \<Rightarrow> bytes result \<times> memStore" where
  "session_Encrypt cv m p plaintext =
     (if p < length (m_heap m)
      then (case ratchet_encrypt cv (s_r (m_heap m ! p)) plaintext of (res, r) \<Rightarrow>
              (res, m\<lparr> m_heap := (m_heap m)[p := (m_heap m ! p)\<lparr> s_r := r \<rparr>] \<rparr>))
      else (Inl nil_session, m))"

definition session_Decrypt :: "curve \<Rightarrow> memStore \<Rightarrow> nat \<Rightarrow> bytes \<Rightarrow> draw \<Rightarrow> bytes result \<times> memStore" where
  "session_Decrypt cv m p ciphertext d =
     (if p < length (m_heap m)
      then (case ratchet_decrypt cv (s_r (m_heap m ! p)) ciphertext d of (res, r) \<Rightarrow>
              (res, m\<lparr> m_heap := (m_heap m)[p := (m_heap m ! p)\<lparr> s_r := r \<rparr>] \<rparr>))
      else (Inl nil_session, m))"

definition session_PeerFingerprint :: "memStore \<Rightarrow> nat \<Rightarrow> string" where
  "session_PeerFingerprint m p = (if p < length (m_heap m) then s_peerFP (m_heap m ! p) else [])"

section \<open>The store\<close>

text \<open>Every state the operations of a store reach.\<close>

inductive store_reach :: "curve \<Rightarrow> identity \<Rightarrow> prekeys option \<Rightarrow> memStore \<Rightarrow> bool" for cv local pre where
  new: "store_reach cv local pre (NewMemStore local pre)"
| initiate: "store_reach cv local pre m \<Longrightarrow> session_Initiate cv m b dEph dRatchet = (res, m') \<Longrightarrow> store_reach cv local pre m'"
| accept: "store_reach cv local pre m \<Longrightarrow> session_Accept cv m hs = (res, m') \<Longrightarrow> store_reach cv local pre m'"
| encrypt: "store_reach cv local pre m \<Longrightarrow> session_Encrypt cv m p pt = (res, m') \<Longrightarrow> store_reach cv local pre m'"
| decrypt: "store_reach cv local pre m \<Longrightarrow> session_Decrypt cv m p ct d = (res, m') \<Longrightarrow> store_reach cv local pre m'"

text \<open>The sessions a store has made with a peer, in the order they were made, and the last of them.\<close>

definition sessions_of :: "memStore \<Rightarrow> string \<Rightarrow> nat list" where
  "sessions_of m fp = filter (\<lambda>p. s_peerFP (m_heap m ! p) = fp) [0..<length (m_heap m)]"

definition newest :: "memStore \<Rightarrow> string \<Rightarrow> nat option" where
  "newest m fp = (if sessions_of m fp = [] then None else Some (last (sessions_of m fp)))"

definition store_ok :: "memStore \<Rightarrow> bool" where
  "store_ok m \<longleftrightarrow> m_sessions m = newest m \<and> (\<forall>s \<in> set (m_heap m). s_peerFP s = Fingerprint (s_peerSig s))"

lemma store_ok_New: "store_ok (NewMemStore local pre)"
  by (simp add: store_ok_def NewMemStore_def newest_def sessions_of_def fun_eq_iff)

lemma sessions_of_store:
  "sessions_of (store_session m s) fp = sessions_of m fp @ (if s_peerFP s = fp then [length (m_heap m)] else [])"
proof -
  have "filter (\<lambda>p. s_peerFP ((m_heap m @ [s]) ! p) = fp) [0..<length (m_heap m)] = sessions_of m fp"
    unfolding sessions_of_def by (rule filter_cong) (simp_all add: nth_append)
  then show ?thesis by (simp add: sessions_of_def store_session_def nth_append)
qed

lemma newest_store: "newest (store_session m s) = (newest m)(s_peerFP s \<mapsto> length (m_heap m))"
  by (rule ext) (simp add: newest_def sessions_of_store)

lemma store_ok_store: "store_ok m \<Longrightarrow> s_peerFP s = Fingerprint (s_peerSig s) \<Longrightarrow> store_ok (store_session m s)"
  by (simp add: store_ok_def newest_store) (simp add: store_session_def)

text \<open>A handshake either fails and leaves the store alone, or makes one session with the peer it names.\<close>

definition session_with :: "bytes \<Rightarrow> ratchet \<Rightarrow> ratchetSession" where
  "session_with key r = \<lparr> s_r = r, s_peerFP = Fingerprint key, s_peerSig = key \<rparr>"

lemma session_Get_store: "session_Get (store_session m (session_with key r)) (Fingerprint key) = Some (length (m_heap m))"
  by (simp add: session_Get_def store_session_def session_with_def)

lemma session_Initiate_cases:
  "session_Initiate cv m b dEph dRatchet = (res, m') \<Longrightarrow>
     (\<exists>e. res = Inl e) \<and> m' = m \<or>
     (\<exists>r hs. res = Inr (length (m_heap m), hs) \<and> m' = store_session m (session_with (b_identitySign b) r))"
  unfolding session_Initiate_def session_with_def Let_def by (fastforce split: sum.splits)

lemma session_Accept_cases:
  "session_Accept cv m hs = (res, m') \<Longrightarrow>
     (\<exists>e. res = Inl e) \<and> m' = m \<or>
     (\<exists>r. res = Inr (length (m_heap m)) \<and> m' = store_session m (session_with (hs_identitySign hs) r))"
  unfolding session_Accept_def session_with_def Let_def by (fastforce split: sum.splits option.splits)

text \<open>The session operations write the ratchet of one object.\<close>

definition set_ratchet :: "nat \<Rightarrow> ratchet \<Rightarrow> memStore \<Rightarrow> memStore" where
  "set_ratchet p r m = m\<lparr> m_heap := (m_heap m)[p := (m_heap m ! p)\<lparr> s_r := r \<rparr>] \<rparr>"

lemma set_ratchet_nth:
  "p < length (m_heap m) \<Longrightarrow> m_heap (set_ratchet p r m) ! q = (if q = p then (m_heap m ! p)\<lparr> s_r := r \<rparr> else m_heap m ! q)"
  by (simp add: set_ratchet_def)

lemma store_ok_set_ratchet:
  assumes "store_ok m" "p < length (m_heap m)"
  shows "store_ok (set_ratchet p r m)"
proof -
  have "sessions_of (set_ratchet p r m) fp = sessions_of m fp" for fp
    unfolding sessions_of_def using assms(2) by (intro filter_cong) (simp_all add: set_ratchet_def nth_list_update)
  then have "newest (set_ratchet p r m) = newest m" by (simp add: newest_def fun_eq_iff)
  moreover have "s_peerFP s = Fingerprint (s_peerSig s)" if "s \<in> set (m_heap (set_ratchet p r m))" for s
    using that assms unfolding set_ratchet_def store_ok_def
    by (auto dest!: set_update_subset_insert [THEN subsetD])
  ultimately show ?thesis using assms(1) by (simp add: store_ok_def) (simp add: set_ratchet_def)
qed

lemma session_op_cases:
  "session_Encrypt cv m p pt = (res, m') \<Longrightarrow> m' = m \<or> p < length (m_heap m) \<and> (\<exists>r. m' = set_ratchet p r m)"
  "session_Decrypt cv m p ct d = (res, m') \<Longrightarrow> m' = m \<or> p < length (m_heap m) \<and> (\<exists>r. m' = set_ratchet p r m)"
  unfolding session_Encrypt_def session_Decrypt_def set_ratchet_def by (auto split: if_splits prod.splits)

text \<open>An operation on sessions makes one session, or writes one ratchet, or changes nothing.\<close>

lemma store_reach_ok: "store_reach cv local pre m \<Longrightarrow> store_ok m \<and> m_local m = local \<and> m_pre m = pre"
proof (induction rule: store_reach.induct)
  case new
  show ?case by (simp add: store_ok_New) (simp add: NewMemStore_def)
next
  case (initiate m b dEph dRatchet res m')
  from session_Initiate_cases [OF this(2)] this(3) show ?case
    by (auto simp: store_ok_store session_with_def) (simp_all add: store_session_def)
next
  case (accept m hs res m')
  from session_Accept_cases [OF this(2)] this(3) show ?case
    by (auto simp: store_ok_store session_with_def) (simp_all add: store_session_def)
next
  case (encrypt m p pt res m')
  from session_op_cases(1) [OF this(2)] this(3) show ?case
    by (auto simp: store_ok_set_ratchet) (simp_all add: set_ratchet_def)
next
  case (decrypt m p ct d res m')
  from session_op_cases(2) [OF this(2)] this(3) show ?case
    by (auto simp: store_ok_set_ratchet) (simp_all add: set_ratchet_def)
qed

text \<open>What a link that holds session \<open>q\<close> sees does not depend on sessions made after it.\<close>

lemma store_session_frame:
  assumes "q < length (m_heap m)"
  shows "fst (session_Encrypt cv (store_session m s) q pt) = fst (session_Encrypt cv m q pt)"
    and "fst (session_Decrypt cv (store_session m s) q ct d) = fst (session_Decrypt cv m q ct d)"
  using assms by (simp_all add: session_Encrypt_def session_Decrypt_def store_session_def nth_append case_prod_beta)

section \<open>Associated data\<close>

lemma associatedData_commute: "associatedData a b = associatedData b a"
  using bytes_le_total [of a b] bytes_le_antisym [of a b] by (auto simp: associatedData_def)

lemma associatedData_inject:
  assumes "length a = 32" "length b = 32" "length c = 32" "length d = 32"
  shows "associatedData a b = associatedData c d \<longleftrightarrow> {a, b} = {c, d}"
proof
  assume "associatedData a b = associatedData c d"
  then show "{a, b} = {c, d}" using assms by (auto simp: associatedData_def split: if_splits)
next
  assume "{a, b} = {c, d}"
  then show "associatedData a b = associatedData c d"
    by (auto simp: doubleton_eq_iff associatedData_commute)
qed

section \<open>The handshake\<close>

text \<open>Both ratchets that a handshake between well-formed parties leaves behind.\<close>

definition initiator_state :: "curve \<Rightarrow> bytes \<Rightarrow> bytes \<Rightarrow> bytes \<Rightarrow> bytes \<Rightarrow> ratchet" where
  "initiator_state cv sk spk ad k =
     (case kdfRoot sk (x25519_mult cv k spk) of (rk, cks) \<Rightarrow>
        \<lparr> r_dhs = k, r_dhr = Some spk, r_rk = rk, r_cks = cks, r_ckr = [],
          r_ns = 0, r_nr = 0, r_pn = 0, r_skipped = (\<lambda>_. None), r_ad = ad \<rparr>)"

lemma newRatchetInitiator_ok:
  assumes "curve_ok cv" "length k = 32" "length x = 32"
  shows "newRatchetInitiator cv sk (x25519_base cv x) ad (Inr k) = Inr (initiator_state cv sk (x25519_base cv x) ad k)"
  using assms
  by (simp add: newRatchetInitiator_def initiator_state_def ratchet_dh_def ecdh_shared_ok Let_def case_prod_beta)

lemma handshake_sessions:
  assumes cv: "curve_ok cv" and a: "identity_ok cv (m_local ma)"
    and b: "m_pre mb = Some pre" "prekeys_ok cv pre" "pk_id pre = m_local mb"
    and d: "length eph = 32" "length k = 32"
  obtains sk hs ma' mb' where
    "session_Initiate cv ma (Bundle cv pre) (Inr eph) (Inr k) = (Inr (length (m_heap ma), hs), ma')"
    "session_Accept cv mb hs = (Inr (length (m_heap mb)), mb')"
    "m_heap ma' = m_heap ma @ [\<lparr> s_r = initiator_state cv sk (x25519_base cv (pk_signedPre pre))
        (associatedData (signing_pub (m_local ma)) (signing_pub (m_local mb))) k,
        s_peerFP = Fingerprint (signing_pub (m_local mb)), s_peerSig = signing_pub (m_local mb) \<rparr>]"
    "m_heap mb' = m_heap mb @ [\<lparr> s_r = newRatchetResponder sk (pk_signedPre pre)
        (associatedData (signing_pub (m_local ma)) (signing_pub (m_local mb))),
        s_peerFP = Fingerprint (signing_pub (m_local ma)), s_peerSig = signing_pub (m_local ma) \<rparr>]"
    "length sk = 32"
    "hs = \<lparr> hs_identitySign = signing_pub (m_local ma), hs_identityDH = AgreementPub cv (m_local ma),
            hs_ephemeral = x25519_base cv eph, hs_usedOTP = True \<rparr>"
proof -
  obtain sk where sk: "x3dhInitiate cv (m_local ma) (Bundle cv pre) (Inr eph) = Inr (sk, x25519_base cv eph, True)"
    "x3dhRespond cv pre (AgreementPub cv (m_local ma)) (x25519_base cv eph) True = Inr sk" "length sk = 32"
    using x3dh_agreement [OF cv b(2) a d(1)] by blast
  have spk: "length (pk_signedPre pre) = 32" using b(2) by (simp add: prekeys_ok_def)
  have bs: "b_signedPreKey (Bundle cv pre) = x25519_base cv (pk_signedPre pre)"
    "b_identitySign (Bundle cv pre) = signing_pub (m_local mb)"
    using b(3) by (simp_all add: Bundle_def)
  let ?hs = "\<lparr> hs_identitySign = signing_pub (m_local ma), hs_identityDH = AgreementPub cv (m_local ma),
            hs_ephemeral = x25519_base cv eph, hs_usedOTP = True \<rparr>"
  let ?ad = "associatedData (signing_pub (m_local ma)) (signing_pub (m_local mb))"
  let ?sa = "\<lparr> s_r = initiator_state cv sk (x25519_base cv (pk_signedPre pre)) ?ad k,
        s_peerFP = Fingerprint (signing_pub (m_local mb)), s_peerSig = signing_pub (m_local mb) \<rparr>"
  let ?sb = "\<lparr> s_r = newRatchetResponder sk (pk_signedPre pre) ?ad,
        s_peerFP = Fingerprint (signing_pub (m_local ma)), s_peerSig = signing_pub (m_local ma) \<rparr>"
  have "session_Initiate cv ma (Bundle cv pre) (Inr eph) (Inr k) = (Inr (length (m_heap ma), ?hs), store_session ma ?sa)"
    by (simp add: session_Initiate_def sk(1) bs newRatchetInitiator_ok [OF cv d(2) spk] Let_def)
  moreover have "session_Accept cv mb ?hs = (Inr (length (m_heap mb)), store_session mb ?sb)"
    by (simp add: session_Accept_def b(1) sk(2) Let_def associatedData_commute [of "signing_pub (m_local mb)"])
  ultimately show ?thesis
    by (rule that [OF _ _ _ _ sk(3) refl]) (simp_all add: store_session_def)
qed

text \<open>What is known of the two ratchets of a handshake without any assumption on the parties.\<close>

lemma Initiate_ratchet:
  assumes "session_Initiate cv m b dEph dRatchet = (Inr (p, hs), m')"
  obtains r where "p < length (m_heap m')" "s_r (m_heap m' ! p) = r" "r_dhr r = Some (b_signedPreKey b)" "r_ckr r = []" "r_nr r = 0"
    "r_skipped r = (\<lambda>_. None)" "r_ad r = associatedData (signing_pub (m_local m)) (b_identitySign b)"
    "hs_identitySign hs = signing_pub (m_local m)"
  using assms
  by (auto simp: session_Initiate_def store_session_def newRatchetInitiator_def Let_def rbind_def case_prod_beta split: sum.splits)

lemma Accept_ratchet:
  assumes "session_Accept cv m hs = (Inr q, m')" "m_pre m = Some pre"
  obtains sk where "q < length (m_heap m')" "s_r (m_heap m' ! q) =
    newRatchetResponder sk (pk_signedPre pre) (associatedData (signing_pub (m_local m)) (hs_identitySign hs))"
  using assms by (auto simp: session_Accept_def store_session_def Let_def split: sum.splits)

section \<open>Properties\<close>

text \<open>Both sides of a session bind the same associated data into their messages whatever the order of
  the two identity keys, and for keys of the Ed25519 size it determines the pair of identities.\<close>

theorem associated_data_binds_pair:
  assumes "length a = 32" "length b = 32" "length c = 32" "length d = 32"
  shows "associatedData a b = associatedData b a \<and> (associatedData a b = associatedData c d \<longleftrightarrow> {a, b} = {c, d})"
  using associatedData_commute associatedData_inject [OF assms] by simp

theorem associated_data_binds_pair_witness:
  "associatedData (replicate 32 1) (replicate 32 2) = associatedData (replicate 32 2) (replicate 32 1) \<and>
   (associatedData (replicate 32 1) (replicate 32 2) = associatedData (replicate 32 2) (replicate 32 1) \<longleftrightarrow>
    {replicate 32 (1 :: byte), replicate 32 2} = {replicate 32 2, replicate 32 1})"
  by (rule associated_data_binds_pair) simp_all

definition toy_prekeys :: prekeys where
  "toy_prekeys = \<lparr> pk_id = toy_identity 2, pk_signedPre = replicate 32 3,
     pk_signedPreSig = fit 64 (replicate 32 2), pk_oneTime = replicate 32 4 \<rparr>"

lemma toy_prekeys_ok: "prekeys_ok toy_curve toy_prekeys"
  by (simp add: prekeys_ok_def toy_prekeys_def toy_identity_ok Verify_def, simp add: toy_curve_def toy_identity_def)

text \<open>C21. The session store, in every state its operations reach from a new store (handshakes of both roles,
  successful or not, encryptions and decryptions on any pointer): looking up a peer gives the
  session of the latest successful handshake with it, and none exactly when there was none; every session
  is filed under the fingerprint of the identity key it was made with. A handshake that is accepted next
  is what the lookup then gives, under a pointer not handed out before, while a link that still holds an
  older session of the same peer goes on encrypting and decrypting exactly as before; a handshake that fails changes nothing.\<close>

theorem session_store_invariant:
  assumes "store_reach cv local pre m"
  shows "session_Get m fp = newest m fp \<and> (\<forall>s \<in> set (m_heap m). s_peerFP s = Fingerprint (s_peerSig s)) \<and>
    (case session_Accept cv m hs of
       (Inl e, m') \<Rightarrow> m' = m
     | (Inr p, m') \<Rightarrow>
         session_Get m' (Fingerprint (hs_identitySign hs)) = Some p \<and> p = length (m_heap m) \<and>
         (\<forall>q < p. fst (session_Encrypt cv m' q pt) = fst (session_Encrypt cv m q pt) \<and>
            fst (session_Decrypt cv m' q ct d) = fst (session_Decrypt cv m q ct d))) \<and>
    (case session_Initiate cv m b dEph dRatchet of
       (Inl e, m') \<Rightarrow> m' = m
     | (Inr (p, hs'), m') \<Rightarrow>
         session_Get m' (Fingerprint (b_identitySign b)) = Some p \<and> p = length (m_heap m) \<and>
         (\<forall>q < p. fst (session_Encrypt cv m' q pt) = fst (session_Encrypt cv m q pt) \<and>
            fst (session_Decrypt cv m' q ct d) = fst (session_Decrypt cv m q ct d)))"
    (is "?get \<and> ?fps \<and> ?acc \<and> ?init")
proof (intro conjI)
  have ok: "store_ok m" using store_reach_ok [OF assms] by simp
  then show ?get ?fps by (simp_all add: store_ok_def session_Get_def)
  show ?acc
    using session_Accept_cases [of cv m hs] store_session_frame [of _ m cv]
    by (auto simp: session_Get_store split: prod.split sum.split)
  show ?init
    using session_Initiate_cases [of cv m b dEph dRatchet] store_session_frame [of _ m cv]
    by (auto simp: session_Get_store split: prod.split sum.split)
qed

text \<open>A store that has accepted one session of a peer accepts a second one.\<close>

theorem session_store_invariant_witness:
  "\<exists>m hs m'. store_reach toy_curve (toy_identity 2) (Some toy_prekeys) m \<and>
     session_Get m (Fingerprint (replicate 32 1)) = Some 0 \<and> session_Accept toy_curve m hs = (Inr 1, m') \<and>
     session_Get m' (Fingerprint (replicate 32 1)) = Some 1 \<and>
     fst (session_Encrypt toy_curve m' 0 [104, 105]) = fst (session_Encrypt toy_curve m 0 [104, 105])"
proof -
  let ?ma = "NewMemStore (toy_identity 1) None" and ?mb = "NewMemStore (toy_identity 2) (Some toy_prekeys)"
  let ?fp = "Fingerprint (replicate 32 1)"
  have p: "identity_ok toy_curve (m_local ?ma)" "m_pre ?mb = Some toy_prekeys" "pk_id toy_prekeys = m_local ?mb"
    by (simp_all add: NewMemStore_def toy_identity_ok toy_prekeys_def)
  obtain hs m where m: "session_Accept toy_curve ?mb hs = (Inr (length (m_heap ?mb)), m)"
    and hp: "map s_peerFP (m_heap m) = [?fp]"
    by (rule handshake_sessions [OF toy_curve_ok p(1,2) toy_prekeys_ok p(3), of "replicate 32 5" "replicate 32 6"])
       (simp_all add: NewMemStore_def toy_identity_def)
  have r: "store_reach toy_curve (toy_identity 2) (Some toy_prekeys) m" by (rule store_reach.accept [OF store_reach.new m])
  have q: "m_pre m = Some toy_prekeys" "pk_id toy_prekeys = m_local m"
    using store_reach_ok [OF r] by (simp_all add: toy_prekeys_def)
  have len: "length (m_heap m) = 1" using arg_cong [OF hp, of length] by simp
  obtain hs2 m' where m': "session_Accept toy_curve m hs2 = (Inr (length (m_heap m)), m')"
    and id2: "hs_identitySign hs2 = replicate 32 1"
    by (rule handshake_sessions [OF toy_curve_ok p(1) q(1) toy_prekeys_ok q(2), of "replicate 32 7" "replicate 32 8"])
       (simp_all add: NewMemStore_def toy_identity_def)
  have "newest m ?fp = Some 0" using hp len by (auto simp: newest_def sessions_of_def map_eq_Cons_conv)
  with session_store_invariant [OF r, where hs = hs2 and pt = "[104, 105]" and fp = ?fp] r m' id2 len
  show ?thesis by (intro exI [of _ m] exI [of _ hs2] exI [of _ m']) simp
qed

end
