(* ===== verification/Messaging.thy ===== *)
theory Messaging
  imports Go_Time Session
begin

text \<open>
  \<open>src/core/pkg/messaging\<close>: the application envelope and its bodies (\<open>messaging.go\<close>, \<open>receipt.go\<close>), the
  frame that travels over a connection and the JSON forms of all of them (\<open>frame.go\<close>). Random message
  ids and the clock are arguments. Decoding errors carry one text for every failure of the JSON
  library.
\<close>

definition decode_json :: "'a jdec \<Rightarrow> bytes \<Rightarrow> 'a \<Rightarrow> 'a result" where
  "decode_json d b zero = (case unmarshal d b zero of (v, ok) \<Rightarrow> if ok then Inr v else Inl ''json: cannot decode'')"

lemma decode_json_marshal [codec_simps]:
  "json_wf j \<Longrightarrow> d j zero = (v, True) \<Longrightarrow> decode_json d (marshal j) zero = Inr v"
  by (simp add: decode_json_def unmarshal_marshal)

section \<open>Envelopes\<close>

definition TypeText :: string where "TypeText = ''TEXT''"
definition TypeFileOffer :: string where "TypeFileOffer = ''FILE_OFFER''"
definition TypeFileChunk :: string where "TypeFileChunk = ''FILE_CHUNK''"
definition TypeReceipt :: string where "TypeReceipt = ''RECEIPT''"
definition TypeTyping :: string where "TypeTyping = ''TYPING''"
definition TypeControl :: string where "TypeControl = ''CONTROL''"

definition StateQueued :: string where "StateQueued = ''QUEUED''"
definition StateSent :: string where "StateSent = ''SENT''"
definition StateDelivered :: string where "StateDelivered = ''DELIVERED''"
definition StateRead :: string where "StateRead = ''READ''"
definition StateFailed :: string where "StateFailed = ''FAILED''"

lemmas envelope_types = TypeText_def TypeFileOffer_def TypeFileChunk_def TypeReceipt_def TypeTyping_def TypeControl_def

record envelope =
  e_version :: int
  e_type :: string
  e_msgID :: string
  e_convID :: string
  e_timestamp :: gotime
  e_body :: "bytes option"

definition zero_envelope :: envelope where
  "zero_envelope = \<lparr> e_version = 0, e_type = [], e_msgID = [], e_convID = [], e_timestamp = zero_time, e_body = None \<rparr>"

record textBody =
  tb_text :: string
  tb_animatedEmoji :: "string list"

record receiptBody =
  rb_refMsgID :: string
  rb_state :: string

record conversation =
  cv_id :: string
  cv_peerID :: string
  cv_displayName :: string

definition ProtocolVersion :: int where
  "ProtocolVersion = 1"

definition newID :: "bytes \<Rightarrow> string" where
  "newID b = hex_encode b"

definition NewEnvelope :: "string \<Rightarrow> string \<Rightarrow> bytes option \<Rightarrow> bytes \<Rightarrow> gotime \<Rightarrow> envelope" where
  "NewEnvelope t convID body idBytes now =
     \<lparr> e_version = ProtocolVersion, e_type = t, e_msgID = newID idBytes, e_convID = convID,
       e_timestamp = now, e_body = body \<rparr>"

definition textBody_json :: "textBody \<Rightarrow> json" where
  "textBody_json b =
     JObj ((''text'', JStr (tb_text b)) #
       omit_if (tb_animatedEmoji b = []) ''animatedEmoji'' (JArr (map JStr (tb_animatedEmoji b))))"

definition textBody_fields :: "textBody jfields" where
  "textBody_fields =
     [jfield ''text'' tb_text (\<lambda>v b. b\<lparr>tb_text := v\<rparr>) jd_string,
      jfield ''animatedEmoji'' tb_animatedEmoji (\<lambda>v b. b\<lparr>tb_animatedEmoji := v\<rparr>) (jd_list jd_string [])]"

definition NewText :: "string \<Rightarrow> string \<Rightarrow> string list \<Rightarrow> bytes \<Rightarrow> gotime \<Rightarrow> envelope result" where
  "NewText convID text animatedEmoji idBytes now =
     Inr (NewEnvelope TypeText convID
       (Some (marshal (textBody_json \<lparr> tb_text = text, tb_animatedEmoji = animatedEmoji \<rparr>))) idBytes now)"

definition envelope_Text :: "envelope \<Rightarrow> textBody result" where
  "envelope_Text e = decode_json (json_into textBody_fields) (slice_list (e_body e)) \<lparr> tb_text = [], tb_animatedEmoji = [] \<rparr>"

text \<open>\<open>body, _ := env.Text()\<close> keeps what was decoded before an error.\<close>

definition text_of :: "envelope \<Rightarrow> string" where
  "text_of env = tb_text (fst (unmarshal (json_into textBody_fields) (slice_list (e_body env)) \<lparr> tb_text = [], tb_animatedEmoji = [] \<rparr>))"

definition receiptBody_json :: "receiptBody \<Rightarrow> json" where
  "receiptBody_json b = JObj [(''refMsgId'', JStr (rb_refMsgID b)), (''state'', JStr (rb_state b))]"

definition receiptBody_fields :: "receiptBody jfields" where
  "receiptBody_fields =
     [jfield ''refMsgId'' rb_refMsgID (\<lambda>v b. b\<lparr>rb_refMsgID := v\<rparr>) jd_string,
      jfield ''state'' rb_state (\<lambda>v b. b\<lparr>rb_state := v\<rparr>) jd_string]"

definition NewReceipt :: "string \<Rightarrow> string \<Rightarrow> string \<Rightarrow> bytes \<Rightarrow> gotime \<Rightarrow> envelope result" where
  "NewReceipt convID refMsgID state idBytes now =
     Inr (NewEnvelope TypeReceipt convID
       (Some (marshal (receiptBody_json \<lparr> rb_refMsgID = refMsgID, rb_state = state \<rparr>))) idBytes now)"

definition envelope_Receipt :: "envelope \<Rightarrow> receiptBody result" where
  "envelope_Receipt e = decode_json (json_into receiptBody_fields) (slice_list (e_body e)) \<lparr> rb_refMsgID = [], rb_state = [] \<rparr>"

definition envelope_json :: "envelope \<Rightarrow> json" where
  "envelope_json e =
     JObj [(''version'', je_int (e_version e)), (''type'', JStr (e_type e)), (''msgId'', JStr (e_msgID e)),
           (''convId'', JStr (e_convID e)), (''timestamp'', je_time (e_timestamp e)), (''body'', je_slice (e_body e))]"

definition envelope_fields :: "envelope jfields" where
  "envelope_fields =
     [jfield ''version'' e_version (\<lambda>v e. e\<lparr>e_version := v\<rparr>) jd_int,
      jfield ''type'' e_type (\<lambda>v e. e\<lparr>e_type := v\<rparr>) jd_string,
      jfield ''msgId'' e_msgID (\<lambda>v e. e\<lparr>e_msgID := v\<rparr>) jd_string,
      jfield ''convId'' e_convID (\<lambda>v e. e\<lparr>e_convID := v\<rparr>) jd_string,
      jfield ''timestamp'' e_timestamp (\<lambda>v e. e\<lparr>e_timestamp := v\<rparr>) jd_time,
      jfield ''body'' e_body (\<lambda>v e. e\<lparr>e_body := v\<rparr>) jd_slice]"

text \<open>A time outside the range of RFC 3339 cannot be marshalled.\<close>

definition envelope_Encode :: "envelope \<Rightarrow> bytes result" where
  "envelope_Encode e =
     (if time_ok (e_timestamp e) then Inr (marshal (envelope_json e))
      else Inl ''Time.MarshalJSON: year outside of range [0,9999]'')"

definition DecodeEnvelope :: "bytes \<Rightarrow> envelope result" where
  "DecodeEnvelope b = decode_json (json_into envelope_fields) b zero_envelope"

section \<open>Frames\<close>

record frame =
  f_bundle :: "prekey_bundle option"
  f_handshake :: "handshake option"
  f_payload :: bytes

definition bundle_json :: "prekey_bundle \<Rightarrow> json" where
  "bundle_json b =
     JObj ([(''identitySign'', je_bytes (b_identitySign b)), (''identityDH'', je_bytes (b_identityDH b)),
            (''signedPreKey'', je_bytes (b_signedPreKey b)), (''signedPreKeySig'', je_bytes (b_signedPreKeySig b))] @
           omit_if (b_oneTimePreKey b = []) ''oneTimePreKey'' (je_bytes (b_oneTimePreKey b)))"

definition zero_bundle :: prekey_bundle where
  "zero_bundle = \<lparr> b_identitySign = [], b_identityDH = [], b_signedPreKey = [], b_signedPreKeySig = [], b_oneTimePreKey = [] \<rparr>"

definition bundle_fields :: "prekey_bundle jfields" where
  "bundle_fields =
     [jfield ''identitySign'' b_identitySign (\<lambda>v b. b\<lparr>b_identitySign := v\<rparr>) jd_bytes,
      jfield ''identityDH'' b_identityDH (\<lambda>v b. b\<lparr>b_identityDH := v\<rparr>) jd_bytes,
      jfield ''signedPreKey'' b_signedPreKey (\<lambda>v b. b\<lparr>b_signedPreKey := v\<rparr>) jd_bytes,
      jfield ''signedPreKeySig'' b_signedPreKeySig (\<lambda>v b. b\<lparr>b_signedPreKeySig := v\<rparr>) jd_bytes,
      jfield ''oneTimePreKey'' b_oneTimePreKey (\<lambda>v b. b\<lparr>b_oneTimePreKey := v\<rparr>) jd_bytes]"

definition handshake_json :: "handshake \<Rightarrow> json" where
  "handshake_json h =
     JObj [(''identitySign'', je_bytes (hs_identitySign h)), (''identityDH'', je_bytes (hs_identityDH h)),
           (''ephemeral'', je_bytes (hs_ephemeral h)), (''usedOTP'', JBool (hs_usedOTP h))]"

definition zero_handshake :: handshake where
  "zero_handshake = \<lparr> hs_identitySign = [], hs_identityDH = [], hs_ephemeral = [], hs_usedOTP = False \<rparr>"

definition handshake_fields :: "handshake jfields" where
  "handshake_fields =
     [jfield ''identitySign'' hs_identitySign (\<lambda>v h. h\<lparr>hs_identitySign := v\<rparr>) jd_bytes,
      jfield ''identityDH'' hs_identityDH (\<lambda>v h. h\<lparr>hs_identityDH := v\<rparr>) jd_bytes,
      jfield ''ephemeral'' hs_ephemeral (\<lambda>v h. h\<lparr>hs_ephemeral := v\<rparr>) jd_bytes,
      jfield ''usedOTP'' hs_usedOTP (\<lambda>v h. h\<lparr>hs_usedOTP := v\<rparr>) jd_bool]"

definition frame_json :: "frame \<Rightarrow> json" where
  "frame_json f =
     JObj ((case f_bundle f of None \<Rightarrow> [] | Some b \<Rightarrow> [(''bundle'', bundle_json b)]) @
           (case f_handshake f of None \<Rightarrow> [] | Some h \<Rightarrow> [(''hs'', handshake_json h)]) @
           omit_if (f_payload f = []) ''payload'' (je_bytes (f_payload f)))"

definition frame_fields :: "frame jfields" where
  "frame_fields =
     [jfield ''bundle'' f_bundle (\<lambda>v f. f\<lparr>f_bundle := v\<rparr>) (jd_ptr (json_into bundle_fields) zero_bundle),
      jfield ''hs'' f_handshake (\<lambda>v f. f\<lparr>f_handshake := v\<rparr>) (jd_ptr (json_into handshake_fields) zero_handshake),
      jfield ''payload'' f_payload (\<lambda>v f. f\<lparr>f_payload := v\<rparr>) jd_bytes]"

definition EncodeFrame :: "frame \<Rightarrow> bytes result" where
  "EncodeFrame f = Inr (marshal (frame_json f))"

definition DecodeFrame :: "bytes \<Rightarrow> frame result" where
  "DecodeFrame b = decode_json (json_into frame_fields) b \<lparr> f_bundle = None, f_handshake = None, f_payload = [] \<rparr>"

section \<open>Round trips\<close>

lemmas decoder_simps = json_into_def jfind_def jfield_def omit_if_def

lemma bundle_wf [simp]: "json_wf (bundle_json b)"
  by (simp add: bundle_json_def utf8_valid_ascii omit_if_def)

lemma handshake_wf [simp]: "json_wf (handshake_json h)"
  by (simp add: handshake_json_def utf8_valid_ascii)

lemma frame_wf [simp]: "json_wf (frame_json f)"
  by (simp add: frame_json_def utf8_valid_ascii omit_if_def split: option.split)

lemma jd_bundle_je [simp, codec_simps]: "json_into bundle_fields (bundle_json b) zero_bundle = (b, True)"
  by (simp add: bundle_json_def bundle_fields_def zero_bundle_def decoder_simps)

lemma jd_handshake_je [simp, codec_simps]: "json_into handshake_fields (handshake_json h) zero_handshake = (h, True)"
  by (simp add: handshake_json_def handshake_fields_def zero_handshake_def decoder_simps)

lemma ptr_bundle [simp]: "jd_ptr (json_into bundle_fields) zero_bundle (bundle_json b) None = (Some b, True)"
  using jd_bundle_je [of b] by (simp add: jd_ptr_def bundle_json_def)

lemma ptr_handshake [simp]: "jd_ptr (json_into handshake_fields) zero_handshake (handshake_json h) None = (Some h, True)"
  using jd_handshake_je [of h] by (simp add: jd_ptr_def handshake_json_def)

lemma DecodeFrame_EncodeFrame [codec_simps]: "EncodeFrame f = Inr b \<Longrightarrow> DecodeFrame b = Inr f"
proof -
  assume e: "EncodeFrame f = Inr b"
  have "json_into frame_fields (frame_json f) \<lparr> f_bundle = None, f_handshake = None, f_payload = [] \<rparr> = (f, True)"
    by (cases f; cases "f_bundle f"; cases "f_handshake f"; cases "f_payload f = []")
       (simp_all add: frame_json_def frame_fields_def decoder_simps)
  with e show ?thesis by (auto simp: EncodeFrame_def DecodeFrame_def intro: decode_json_marshal)
qed

text \<open>Envelopes that JSON carries faithfully: their strings are UTF-8, the version fits an \<open>int\<close>.\<close>

definition envelope_ok :: "envelope \<Rightarrow> bool" where
  "envelope_ok e \<longleftrightarrow>
     utf8_valid (e_type e) \<and> utf8_valid (e_msgID e) \<and> utf8_valid (e_convID e) \<and> time_ok (e_timestamp e) \<and>
     - (2 ^ 63) \<le> e_version e \<and> e_version e < 2 ^ 63"

lemma envelope_wf: "envelope_ok e \<Longrightarrow> json_wf (envelope_json e)"
  by (simp add: envelope_ok_def envelope_json_def utf8_valid_ascii)

lemma jd_envelope_je:
  "envelope_ok e \<Longrightarrow> json_into envelope_fields (envelope_json e) zero_envelope = (e, True)"
  by (cases e) (simp add: envelope_ok_def envelope_json_def envelope_fields_def zero_envelope_def decoder_simps)

lemma DecodeEnvelope_Encode [codec_simps]:
  "envelope_ok e \<Longrightarrow> envelope_Encode e = Inr b \<Longrightarrow> DecodeEnvelope b = Inr e"
  by (auto simp: envelope_Encode_def DecodeEnvelope_def envelope_wf jd_envelope_je intro: decode_json_marshal
      split: if_splits)

lemma envelope_Encode_ok: "envelope_ok e \<Longrightarrow> envelope_Encode e = Inr (marshal (envelope_json e))"
  by (simp add: envelope_Encode_def envelope_ok_def)

lemma NewEnvelope_ok:
  "utf8_valid t \<Longrightarrow> utf8_valid convID \<Longrightarrow> time_ok now \<Longrightarrow> envelope_ok (NewEnvelope t convID body idBytes now)"
  by (simp add: envelope_ok_def NewEnvelope_def newID_def ProtocolVersion_def)

lemma jd_strings [simp]:
  "jd_list jd_string z (JArr (map JStr xs)) x = (xs, True)"
  by (induction xs) (simp_all add: jd_list_def)

lemma envelope_Text_NewText:
  assumes "utf8_valid text" "list_all utf8_valid emoji" "NewText convID text emoji idBytes now = Inr e"
  shows "envelope_Text e = Inr \<lparr> tb_text = text, tb_animatedEmoji = emoji \<rparr>"
proof -
  let ?b = "\<lparr> tb_text = text, tb_animatedEmoji = emoji \<rparr>"
  have "json_wf (textBody_json ?b)"
    using assms(1,2) by (simp add: textBody_json_def utf8_valid_ascii omit_if_def list_all_iff)
  moreover have "json_into textBody_fields (textBody_json ?b) \<lparr> tb_text = [], tb_animatedEmoji = [] \<rparr> = (?b, True)"
    by (cases "emoji = []") (simp_all add: textBody_json_def textBody_fields_def decoder_simps)
  ultimately show ?thesis
    using assms(3) by (auto simp: NewText_def NewEnvelope_def envelope_Text_def intro: decode_json_marshal)
qed

lemma text_of_NewText:
  assumes "utf8_valid text" "NewText convID text [] idBytes now = Inr e"
  shows "text_of e = text"
  using envelope_Text_NewText [OF assms(1) _ assms(2)]
  by (auto simp: envelope_Text_def decode_json_def text_of_def split: prod.splits if_splits)

lemma envelope_Receipt_NewReceipt:
  assumes "utf8_valid ref" "utf8_valid state" "NewReceipt convID ref state idBytes now = Inr e"
  shows "envelope_Receipt e = Inr \<lparr> rb_refMsgID = ref, rb_state = state \<rparr>"
proof -
  let ?b = "\<lparr> rb_refMsgID = ref, rb_state = state \<rparr>"
  have "json_wf (receiptBody_json ?b)" using assms(1,2) by (simp add: receiptBody_json_def utf8_valid_ascii)
  moreover have "json_into receiptBody_fields (receiptBody_json ?b) \<lparr> rb_refMsgID = [], rb_state = [] \<rparr> = (?b, True)"
    by (simp add: receiptBody_json_def receiptBody_fields_def decoder_simps)
  ultimately show ?thesis
    using assms(3) by (auto simp: NewReceipt_def NewEnvelope_def envelope_Receipt_def intro: decode_json_marshal)
qed

section \<open>Properties\<close>

text \<open>Frames are read back exactly as they were written, whichever of bundle, handshake and payload they
  carry; encoding a frame never fails.\<close>

theorem frame_roundtrip: "\<exists>b. EncodeFrame f = Inr b \<and> DecodeFrame b = Inr f"
  using DecodeFrame_EncodeFrame [of f] by (simp add: EncodeFrame_def)

text \<open>A text message built by \<open>NewText\<close> goes through the envelope codec unchanged, body included: what
  the receiver extracts is the text and the emoji ids the sender passed, for every UTF-8 text.\<close>

theorem text_roundtrip:
  assumes "utf8_valid convID" "utf8_valid text" "list_all utf8_valid emoji" "time_ok now"
  shows "\<exists>e b. NewText convID text emoji idBytes now = Inr e \<and> envelope_Encode e = Inr b \<and>
    DecodeEnvelope b = Inr e \<and> e_type e = TypeText \<and> e_convID e = convID \<and>
    envelope_Text e = Inr \<lparr> tb_text = text, tb_animatedEmoji = emoji \<rparr>"
proof -
  obtain e where e: "NewText convID text emoji idBytes now = Inr e" by (simp add: NewText_def)
  have "utf8_valid TypeText" by (simp add: TypeText_def utf8_valid_ascii)
  then have "envelope_ok e" "e_type e = TypeText" "e_convID e = convID"
    using e assms(1,4) by (auto simp: NewText_def intro: NewEnvelope_ok) (auto simp: NewEnvelope_def)
  with e envelope_Text_NewText [OF assms(2,3) e] show ?thesis
    using envelope_Encode_ok DecodeEnvelope_Encode by blast
qed

theorem text_roundtrip_witness:
  "\<exists>e b. NewText ''c1'' ''hi'' [''party''] (replicate 16 1) zero_time = Inr e \<and> envelope_Encode e = Inr b \<and>
    DecodeEnvelope b = Inr e \<and> e_type e = TypeText \<and> e_convID e = ''c1'' \<and>
    envelope_Text e = Inr \<lparr> tb_text = ''hi'', tb_animatedEmoji = [''party''] \<rparr>"
  by (rule text_roundtrip) (simp_all add: utf8_valid_ascii time_ok_def zero_time_def days_in_def)

text \<open>A receipt built by \<open>NewReceipt\<close> goes through the envelope codec unchanged and names the message
  and the state it acknowledges.\<close>

theorem receipt_roundtrip:
  assumes "utf8_valid convID" "utf8_valid ref" "utf8_valid state" "time_ok now"
  shows "\<exists>e b. NewReceipt convID ref state idBytes now = Inr e \<and> envelope_Encode e = Inr b \<and>
    DecodeEnvelope b = Inr e \<and> e_type e = TypeReceipt \<and>
    envelope_Receipt e = Inr \<lparr> rb_refMsgID = ref, rb_state = state \<rparr>"
proof -
  obtain e where e: "NewReceipt convID ref state idBytes now = Inr e" by (simp add: NewReceipt_def)
  have "utf8_valid TypeReceipt" by (simp add: TypeReceipt_def utf8_valid_ascii)
  then have "envelope_ok e" "e_type e = TypeReceipt"
    using e assms(1,4) by (auto simp: NewReceipt_def intro: NewEnvelope_ok) (auto simp: NewEnvelope_def)
  with e envelope_Receipt_NewReceipt [OF assms(2,3) e] show ?thesis
    using envelope_Encode_ok DecodeEnvelope_Encode by blast
qed

theorem receipt_roundtrip_witness:
  "\<exists>e b. NewReceipt ''c1'' ''m1'' StateRead (replicate 16 1) zero_time = Inr e \<and> envelope_Encode e = Inr b \<and>
    DecodeEnvelope b = Inr e \<and> e_type e = TypeReceipt \<and>
    envelope_Receipt e = Inr \<lparr> rb_refMsgID = ''m1'', rb_state = StateRead \<rparr>"
  by (rule receipt_roundtrip) (simp_all add: utf8_valid_ascii time_ok_def zero_time_def days_in_def StateRead_def)

end
