(* ===== verification/Storage.thy ===== *)
theory Storage
  imports Contact Settings Messaging Vault
begin

text \<open>
  \<open>src/core/pkg/storage\<close>: the encrypted store, one JSON document sealed by the vault and rewritten by
  every mutation (\<open>filestore.go\<close>, the \<open>Store\<close> interface of \<open>storage.go\<close>). The store's state holds its data
  and the content of its file; the draws and the outcomes of the file system calls are arguments, and
  a failed write leaves whatever the argument says on the disk. Slices whose \<open>nil\<close> JSON shows are
  options. A JSON \<open>null\<close> for one of the maps, which the code never writes, is read as an empty map.
\<close>

record storedMessage =
  sm_envelope :: envelope
  sm_state :: string
  sm_convID :: string

record dbData =
  db_settings :: "settings option"
  db_contacts :: "contact gomap"
  db_conversations :: "conversation gomap"
  db_messages :: "storedMessage list option gomap"
  db_outbox :: "storedMessage list option"
  db_blobs :: "bytes option gomap"

record fileStore =
  fs_path :: string
  fs_key :: bytes
  fs_data :: dbData
  fs_disk :: "bytes option"

section \<open>JSON form\<close>

definition je_map :: "('v \<Rightarrow> json) \<Rightarrow> 'v gomap \<Rightarrow> json" where
  "je_map f m = JObj (map (\<lambda>(k, v). (k, f v)) (sort_keys m))"

definition jd_map :: "'v jdec \<Rightarrow> 'v \<Rightarrow> 'v gomap jdec" where
  "jd_map d zero j m =
     (case j of
        JObj ms \<Rightarrow> foldl (\<lambda>(m, ok) (k, v). case d v zero of (x, ok') \<Rightarrow> (gm_put k x m, ok \<and> ok')) (m, True) ms
      | JNull \<Rightarrow> ([], True)
      | _ \<Rightarrow> (m, False))"

definition contact_json :: "contact \<Rightarrow> json" where
  "contact_json c =
     JObj [(''handle'', JStr (ct_handle c)), (''identityKey'', je_bytes (ct_identityKey c)),
           (''fingerprint'', JStr (ct_fingerprint c)), (''addedAt'', je_time (ct_addedAt c)), (''verified'', JBool (ct_verified c))]"

definition zero_contact :: contact where
  "zero_contact = \<lparr> ct_handle = [], ct_identityKey = [], ct_fingerprint = [], ct_addedAt = zero_time, ct_verified = False \<rparr>"

definition contact_fields :: "contact jfields" where
  "contact_fields =
     [jfield ''handle'' ct_handle (\<lambda>v c. c\<lparr>ct_handle := v\<rparr>) jd_string,
      jfield ''identityKey'' ct_identityKey (\<lambda>v c. c\<lparr>ct_identityKey := v\<rparr>) jd_bytes,
      jfield ''fingerprint'' ct_fingerprint (\<lambda>v c. c\<lparr>ct_fingerprint := v\<rparr>) jd_string,
      jfield ''addedAt'' ct_addedAt (\<lambda>v c. c\<lparr>ct_addedAt := v\<rparr>) jd_time,
      jfield ''verified'' ct_verified (\<lambda>v c. c\<lparr>ct_verified := v\<rparr>) jd_bool]"

definition conversation_json :: "conversation \<Rightarrow> json" where
  "conversation_json c =
     JObj [(''ID'', JStr (cv_id c)), (''PeerID'', JStr (cv_peerID c)), (''DisplayName'', JStr (cv_displayName c))]"

definition zero_conversation :: conversation where
  "zero_conversation = \<lparr> cv_id = [], cv_peerID = [], cv_displayName = [] \<rparr>"

definition conversation_fields :: "conversation jfields" where
  "conversation_fields =
     [jfield ''ID'' cv_id (\<lambda>v c. c\<lparr>cv_id := v\<rparr>) jd_string,
      jfield ''PeerID'' cv_peerID (\<lambda>v c. c\<lparr>cv_peerID := v\<rparr>) jd_string,
      jfield ''DisplayName'' cv_displayName (\<lambda>v c. c\<lparr>cv_displayName := v\<rparr>) jd_string]"

definition storedMessage_json :: "storedMessage \<Rightarrow> json" where
  "storedMessage_json m =
     JObj [(''envelope'', envelope_json (sm_envelope m)), (''state'', JStr (sm_state m)), (''convId'', JStr (sm_convID m))]"

definition zero_storedMessage :: storedMessage where
  "zero_storedMessage = \<lparr> sm_envelope = zero_envelope, sm_state = [], sm_convID = [] \<rparr>"

definition storedMessage_fields :: "storedMessage jfields" where
  "storedMessage_fields =
     [jfield ''envelope'' sm_envelope (\<lambda>v m. m\<lparr>sm_envelope := v\<rparr>) (json_into envelope_fields),
      jfield ''state'' sm_state (\<lambda>v m. m\<lparr>sm_state := v\<rparr>) jd_string,
      jfield ''convId'' sm_convID (\<lambda>v m. m\<lparr>sm_convID := v\<rparr>) jd_string]"

definition db_json :: "dbData \<Rightarrow> json" where
  "db_json d =
     JObj ((case db_settings d of None \<Rightarrow> [] | Some s \<Rightarrow> [(''settings'', settings_json s)]) @
       [(''contacts'', je_map contact_json (db_contacts d)),
        (''conversations'', je_map conversation_json (db_conversations d)),
        (''messages'', je_map (je_list storedMessage_json) (db_messages d)),
        (''outbox'', je_list storedMessage_json (db_outbox d)),
        (''blobs'', je_map je_slice (db_blobs d))])"

definition db_fields :: "dbData jfields" where
  "db_fields =
     [jfield ''settings'' db_settings (\<lambda>v d. d\<lparr>db_settings := v\<rparr>) (jd_ptr (json_into settings_fields) zero_settings),
      jfield ''contacts'' db_contacts (\<lambda>v d. d\<lparr>db_contacts := v\<rparr>) (jd_map (json_into contact_fields) zero_contact),
      jfield ''conversations'' db_conversations (\<lambda>v d. d\<lparr>db_conversations := v\<rparr>) (jd_map (json_into conversation_fields) zero_conversation),
      jfield ''messages'' db_messages (\<lambda>v d. d\<lparr>db_messages := v\<rparr>)
        (jd_map (jd_slice_of (json_into storedMessage_fields) zero_storedMessage) None),
      jfield ''outbox'' db_outbox (\<lambda>v d. d\<lparr>db_outbox := v\<rparr>) (jd_slice_of (json_into storedMessage_fields) zero_storedMessage),
      jfield ''blobs'' db_blobs (\<lambda>v d. d\<lparr>db_blobs := v\<rparr>) (jd_map jd_slice None)]"

definition empty_db :: dbData where
  "empty_db =
     \<lparr> db_settings = None, db_contacts = [], db_conversations = [], db_messages = [], db_outbox = None, db_blobs = [] \<rparr>"

text \<open>Every time in the document can be marshalled.\<close>

definition db_times_ok :: "dbData \<Rightarrow> bool" where
  "db_times_ok d \<longleftrightarrow>
     list_all (\<lambda>c. time_ok (ct_addedAt c)) (gm_values (db_contacts d)) \<and>
     list_all (\<lambda>m. time_ok (e_timestamp (sm_envelope m))) (concat (map nil_list (gm_values (db_messages d))) @ nil_list (db_outbox d))"

section \<open>Opening and flushing\<close>

datatype file_read = Content bytes | NotExist | ReadError string

text \<open>The outcome of \<open>os.WriteFile\<close>: success, or an error with what the file holds then (\<open>None\<close>: there is none). The
  file is truncated before it is written, so a failed write may leave any part of the data.\<close>

type_synonym file_write = "(bytes option \<times> string) option"

record flush_env =
  fe_nonce :: "bytes result"
  fe_write :: file_write

definition openFileStore :: "string \<Rightarrow> bytes \<Rightarrow> unit result \<Rightarrow> file_read \<Rightarrow> fileStore result" where
  "openFileStore path key mkdir rd =
     (if length key \<noteq> KeySize then Inl ''storage: key must be 32 bytes''
      else if path = [] then Inl ''storage: empty path''
      else rbind mkdir (\<lambda>_.
        let s = \<lparr> fs_path = path, fs_key = key, fs_data = empty_db, fs_disk = None \<rparr> in
        case rd of
          Content sealed \<Rightarrow>
            rbind (vault_Open key sealed) (\<lambda>blob.
            rbind (decode_json (json_into db_fields) blob (fs_data s)) (\<lambda>d.
              Inr (s\<lparr> fs_data := d, fs_disk := Some sealed \<rparr>)))
        | NotExist \<Rightarrow> Inr s
        | ReadError e \<Rightarrow> Inl e))"

definition flush :: "flush_env \<Rightarrow> fileStore \<Rightarrow> unit result \<times> fileStore" where
  "flush env s =
     (if \<not> db_times_ok (fs_data s) then (Inl ''json: error calling MarshalJSON for type time.Time'', s)
      else case vault_Seal (fs_key s) (marshal (db_json (fs_data s))) (fe_nonce env) of
             Inl e \<Rightarrow> (Inl e, s)
           | Inr sealed \<Rightarrow>
               (case fe_write env of
                  None \<Rightarrow> (Inr (), s\<lparr> fs_disk := Some sealed \<rparr>)
                | Some (junk, e) \<Rightarrow> (Inl e, s\<lparr> fs_disk := junk \<rparr>)))"

definition with_data :: "(dbData \<Rightarrow> dbData) \<Rightarrow> fileStore \<Rightarrow> fileStore" where
  "with_data f s = s\<lparr> fs_data := f (fs_data s) \<rparr>"

section \<open>Operations\<close>

definition LoadSettings :: "fileStore \<Rightarrow> settings result" where
  "LoadSettings s = (case db_settings (fs_data s) of None \<Rightarrow> Inr settings_Default | Some x \<Rightarrow> Inr x)"

definition SaveSettings :: "flush_env \<Rightarrow> fileStore \<Rightarrow> settings \<Rightarrow> unit result \<times> fileStore" where
  "SaveSettings env s x = flush env (with_data (\<lambda>d. d\<lparr> db_settings := Some x \<rparr>) s)"

definition Conversations :: "fileStore \<Rightarrow> conversation list result" where
  "Conversations s = Inr (gm_values (db_conversations (fs_data s)))"

definition UpsertConversation :: "flush_env \<Rightarrow> fileStore \<Rightarrow> conversation \<Rightarrow> unit result \<times> fileStore" where
  "UpsertConversation env s c = flush env (with_data (\<lambda>d. d\<lparr> db_conversations := gm_put (cv_id c) c (db_conversations d) \<rparr>) s)"

definition msgs_of :: "dbData \<Rightarrow> string \<Rightarrow> storedMessage list option" where
  "msgs_of d convID = (case gm_get (db_messages d) convID of None \<Rightarrow> None | Some l \<Rightarrow> l)"

definition AppendMessage :: "flush_env \<Rightarrow> fileStore \<Rightarrow> string \<Rightarrow> envelope \<Rightarrow> string \<Rightarrow> unit result \<times> fileStore" where
  "AppendMessage env s convID e state =
     flush env (with_data (\<lambda>d. d\<lparr> db_messages := gm_put convID
       (Some (nil_list (msgs_of d convID) @ [\<lparr> sm_envelope = e, sm_state = state, sm_convID = convID \<rparr>])) (db_messages d) \<rparr>) s)"

text \<open>A negative offset is a slice bound out of range: the call panics.\<close>

definition Messages :: "fileStore \<Rightarrow> string \<Rightarrow> int \<Rightarrow> int \<Rightarrow> envelope list result" where
  "Messages s convID limit offset =
     (let all = nil_list (msgs_of (fs_data s) convID);
          offset' = (if int (length all) < offset then int (length all) else offset)
      in if offset' < 0 then Inl ''runtime error: slice bounds out of range''
         else let rest = drop (nat offset') all;
                  page = (if 0 < limit \<and> limit < int (length rest) then take (nat limit) rest else rest)
              in Inr (map sm_envelope page))"

definition EnqueueOutbox :: "flush_env \<Rightarrow> fileStore \<Rightarrow> string \<Rightarrow> envelope \<Rightarrow> unit result \<times> fileStore" where
  "EnqueueOutbox env s convID e =
     flush env (with_data (\<lambda>d. d\<lparr> db_outbox :=
       Some (nil_list (db_outbox d) @ [\<lparr> sm_envelope = e, sm_state = StateQueued, sm_convID = convID \<rparr>]) \<rparr>) s)"

definition PendingOutbox :: "fileStore \<Rightarrow> envelope list result" where
  "PendingOutbox s = Inr (map sm_envelope (nil_list (db_outbox (fs_data s))))"

definition SaveBlob :: "flush_env \<Rightarrow> fileStore \<Rightarrow> string \<Rightarrow> string \<Rightarrow> bytes \<Rightarrow> unit result \<times> fileStore" where
  "SaveBlob env s namespace key value =
     flush env (with_data (\<lambda>d. d\<lparr> db_blobs :=
       gm_put (namespace @ ''/'' @ key) (if value = [] then None else Some value) (db_blobs d) \<rparr>) s)"

definition LoadBlob :: "fileStore \<Rightarrow> string \<Rightarrow> string \<Rightarrow> bytes result" where
  "LoadBlob s namespace key =
     (case gm_get (db_blobs (fs_data s)) (namespace @ ''/'' @ key) of
        None \<Rightarrow> Inl ''storage: blob not found''
      | Some v \<Rightarrow> Inr (slice_list v))"

definition SaveContact :: "flush_env \<Rightarrow> fileStore \<Rightarrow> contact \<Rightarrow> unit result \<times> fileStore" where
  "SaveContact env s c = flush env (with_data (\<lambda>d. d\<lparr> db_contacts := gm_put (ct_handle c) c (db_contacts d) \<rparr>) s)"

definition Contacts :: "fileStore \<Rightarrow> contact list result" where
  "Contacts s = Inr (gm_values (db_contacts (fs_data s)))"

definition DeleteContact :: "flush_env \<Rightarrow> fileStore \<Rightarrow> string \<Rightarrow> unit result \<times> fileStore" where
  "DeleteContact env s handle = flush env (with_data (\<lambda>d. d\<lparr> db_contacts := gm_del handle (db_contacts d) \<rparr>) s)"

definition DeleteConversation :: "flush_env \<Rightarrow> fileStore \<Rightarrow> string \<Rightarrow> unit result \<times> fileStore" where
  "DeleteConversation env s convID =
     flush env (with_data (\<lambda>d. d\<lparr> db_conversations := gm_del convID (db_conversations d),
                                  db_messages := gm_del convID (db_messages d) \<rparr>) s)"

definition DeleteMessage :: "flush_env \<Rightarrow> fileStore \<Rightarrow> string \<Rightarrow> string \<Rightarrow> unit result \<times> fileStore" where
  "DeleteMessage env s convID msgID =
     flush env (with_data (\<lambda>d. d\<lparr> db_messages := gm_put convID
       (map_option (filter (\<lambda>m. e_msgID (sm_envelope m) \<noteq> msgID)) (msgs_of d convID)) (db_messages d) \<rparr>) s)"

definition store_Close :: "flush_env \<Rightarrow> fileStore \<Rightarrow> unit result \<times> fileStore" where
  "store_Close env s = flush env s"

section \<open>The document is read back\<close>

lemma gm_put_new: "k \<notin> fst ` set m \<Longrightarrow> gm_put k v m = m @ [(k, v)]"
  by (induction m) (auto simp: gm_put_def)

lemma jd_map_entries:
  "distinct (map fst (acc @ ms)) \<Longrightarrow> \<forall>(k, v) \<in> set ms. d (f v) zero = (v, True) \<Longrightarrow>
     foldl (\<lambda>(m, ok) (k, v). case d v zero of (x, ok') \<Rightarrow> (gm_put k x m, ok \<and> ok')) (acc, True) (map (\<lambda>(k, v). (k, f v)) ms) =
     (acc @ ms, True)"
proof (induction ms arbitrary: acc)
  case (Cons p ms)
  obtain k v where p: "p = (k, v)" by (cases p)
  have "k \<notin> fst ` set acc" using Cons.prems(1) p by auto
  then show ?case using Cons.IH [of "acc @ [(k, v)]"] Cons.prems p by (simp add: gm_put_new)
qed simp

lemma jd_map_je:
  assumes "gm_ok m" "\<And>v. v \<in> set (gm_values m) \<Longrightarrow> d (f v) zero = (v, True)"
  shows "jd_map d zero (je_map f m) [] = (sort_keys m, True)"
proof -
  have "distinct (map fst ([] @ sort_keys m))" using sort_keys_get [OF assms(1)] by (simp add: gm_ok_def)
  moreover have "\<forall>(k, v) \<in> set (sort_keys m). d (f v) zero = (v, True)"
    using assms(2) by (force simp: sort_keys_def gm_values_def)
  ultimately show ?thesis using jd_map_entries [of "[]" "sort_keys m" d f zero] by (simp add: jd_map_def je_map_def)
qed

lemma je_map_wf: "(\<And>k v. (k, v) \<in> set m \<Longrightarrow> utf8_valid k \<and> json_wf (f v)) \<Longrightarrow> json_wf (je_map f m)"
  by (auto simp: je_map_def list_all_iff sort_keys_def)

text \<open>Data that JSON carries faithfully.\<close>

definition contact_ok :: "contact \<Rightarrow> bool" where
  "contact_ok c \<longleftrightarrow> utf8_valid (ct_handle c) \<and> utf8_valid (ct_fingerprint c) \<and> time_ok (ct_addedAt c)"

definition conversation_ok :: "conversation \<Rightarrow> bool" where
  "conversation_ok c \<longleftrightarrow> utf8_valid (cv_id c) \<and> utf8_valid (cv_peerID c) \<and> utf8_valid (cv_displayName c)"

definition stored_ok :: "storedMessage \<Rightarrow> bool" where
  "stored_ok m \<longleftrightarrow> envelope_ok (sm_envelope m) \<and> utf8_valid (sm_state m) \<and> utf8_valid (sm_convID m)"

definition map_ok :: "('v \<Rightarrow> bool) \<Rightarrow> 'v gomap \<Rightarrow> bool" where
  "map_ok P m \<longleftrightarrow> gm_ok m \<and> (\<forall>(k, v) \<in> set m. utf8_valid k \<and> P v)"

definition db_ok :: "dbData \<Rightarrow> bool" where
  "db_ok d \<longleftrightarrow>
     (\<forall>s. db_settings d = Some s \<longrightarrow> settings_ok s) \<and> map_ok contact_ok (db_contacts d) \<and>
     map_ok conversation_ok (db_conversations d) \<and>
     map_ok (\<lambda>l. list_all stored_ok (nil_list l)) (db_messages d) \<and> list_all stored_ok (nil_list (db_outbox d)) \<and>
     map_ok (\<lambda>_. True) (db_blobs d)"

lemma jd_contact_je: "contact_ok c \<Longrightarrow> json_into contact_fields (contact_json c) zero_contact = (c, True)"
  by (simp add: contact_ok_def contact_json_def contact_fields_def zero_contact_def decoder_simps)

lemma jd_conversation_je: "json_into conversation_fields (conversation_json c) zero_conversation = (c, True)"
  by (simp add: conversation_json_def conversation_fields_def zero_conversation_def decoder_simps)

lemma jd_stored_je: "stored_ok m \<Longrightarrow> json_into storedMessage_fields (storedMessage_json m) zero_storedMessage = (m, True)"
proof -
  assume ok: "stored_ok m"
  then have "json_into envelope_fields (envelope_json (sm_envelope m)) zero_envelope = (sm_envelope m, True)"
    by (simp add: stored_ok_def jd_envelope_je)
  then show ?thesis
    by (simp add: storedMessage_json_def json_into_obj storedMessage_fields_def zero_storedMessage_def jfind_def jfield_def)
qed

lemma stored_wf: "stored_ok m \<Longrightarrow> json_wf (storedMessage_json m)"
  by (simp add: stored_ok_def storedMessage_json_def envelope_wf utf8_valid_ascii)

lemma db_wf: "db_ok d \<Longrightarrow> json_wf (db_json d)"
proof -
  assume ok: "db_ok d"
  have "json_wf (je_map contact_json (db_contacts d))"
    by (rule je_map_wf) (use ok in \<open>auto simp: db_ok_def map_ok_def contact_ok_def contact_json_def utf8_valid_ascii\<close>)
  moreover have "json_wf (je_map conversation_json (db_conversations d))"
    by (rule je_map_wf) (use ok in \<open>auto simp: db_ok_def map_ok_def conversation_ok_def conversation_json_def utf8_valid_ascii\<close>)
  moreover have "json_wf (je_map (je_list storedMessage_json) (db_messages d))"
    by (rule je_map_wf) (use ok in \<open>auto simp: db_ok_def map_ok_def list_all_iff stored_wf split: option.split\<close>)
  moreover have "json_wf (je_map je_slice (db_blobs d))"
    by (rule je_map_wf) (use ok in \<open>auto simp: db_ok_def map_ok_def\<close>)
  moreover have "json_wf (je_list storedMessage_json (db_outbox d))"
    using ok by (auto simp: db_ok_def list_all_iff stored_wf split: option.split)
  moreover have "db_settings d = Some s \<Longrightarrow> json_wf (settings_json s)" for s
    using ok by (simp add: db_ok_def settings_wf)
  ultimately show ?thesis by (auto simp: db_json_def utf8_valid_ascii split: option.split)
qed

definition db_canon :: "dbData \<Rightarrow> dbData" where
  "db_canon d = d\<lparr> db_contacts := sort_keys (db_contacts d), db_conversations := sort_keys (db_conversations d),
     db_messages := sort_keys (db_messages d), db_blobs := sort_keys (db_blobs d) \<rparr>"

lemma ptr_settings: "settings_ok s \<Longrightarrow> jd_ptr (json_into settings_fields) zero_settings (settings_json s) None = (Some s, True)"
  using jd_settings_je [of s] by (simp add: jd_ptr_def settings_json_def)

lemma jd_db_je:
  assumes ok: "db_ok d"
  shows "json_into db_fields (db_json d) empty_db = (db_canon d, True)"
proof -
  have c: "jd_map (json_into contact_fields) zero_contact (je_map contact_json (db_contacts d)) [] = (sort_keys (db_contacts d), True)"
    by (rule jd_map_je) (use ok in \<open>auto simp: db_ok_def map_ok_def gm_values_def jd_contact_je\<close>)
  have v: "jd_map (json_into conversation_fields) zero_conversation (je_map conversation_json (db_conversations d)) [] =
      (sort_keys (db_conversations d), True)"
    by (rule jd_map_je) (use ok in \<open>auto simp: db_ok_def map_ok_def jd_conversation_je\<close>)
  have l: "jd_slice_of (json_into storedMessage_fields) zero_storedMessage (je_list storedMessage_json l) None = (l, True)"
    if "list_all stored_ok (nil_list l)" for l
    by (rule jd_slice_of_je) (use that in \<open>simp add: list_all_iff jd_stored_je\<close>)
  have m: "jd_map (jd_slice_of (json_into storedMessage_fields) zero_storedMessage) None
      (je_map (je_list storedMessage_json) (db_messages d)) [] = (sort_keys (db_messages d), True)"
    by (rule jd_map_je) (use ok in \<open>auto simp: db_ok_def map_ok_def gm_values_def intro!: l\<close>)
  have o: "jd_slice_of (json_into storedMessage_fields) zero_storedMessage (je_list storedMessage_json (db_outbox d)) None =
      (db_outbox d, True)"
    using ok by (intro l) (simp add: db_ok_def)
  have b: "jd_map jd_slice None (je_map je_slice (db_blobs d)) [] = (sort_keys (db_blobs d), True)"
    by (rule jd_map_je) (use ok in \<open>auto simp: db_ok_def map_ok_def\<close>)
  have s: "db_settings d = Some s \<Longrightarrow>
      jd_ptr (json_into settings_fields) zero_settings (settings_json s) None = (Some s, True)" for s
    using ok by (intro ptr_settings) (simp add: db_ok_def)
  show ?thesis
    by (cases "db_settings d")
       (simp_all add: db_json_def json_into_obj db_fields_def empty_db_def db_canon_def jfind_def jfield_def
          c v m o b s)
qed

lemma db_times: "db_ok d \<Longrightarrow> db_times_ok d"
  by (fastforce simp: db_ok_def db_times_ok_def map_ok_def contact_ok_def stored_ok_def envelope_ok_def list_all_iff gm_values_def)

section \<open>Durability\<close>

lemma msgs_of_canon: "db_ok d \<Longrightarrow> msgs_of (db_canon d) convID = msgs_of d convID"
  using sort_keys_get [of "db_messages d"] by (simp add: msgs_of_def db_canon_def db_ok_def map_ok_def)

lemma mset_values_sorted: "mset (gm_values (sort_keys m)) = mset (gm_values m)"
  by (simp add: gm_values_def sort_keys_def)

lemma flush_open:
  assumes f: "flush env s = (Inr (), s')" and ok: "db_ok (fs_data s)" and env: "fe_nonce env = Inr n" "length n = 12"
    and s: "length (fs_key s) = 32" "fs_path s \<noteq> []"
  obtains sealed where "fs_disk s' = Some sealed" "fs_data s' = fs_data s"
    "openFileStore (fs_path s) (fs_key s) (Inr ()) (Content sealed) =
       Inr \<lparr> fs_path = fs_path s, fs_key = fs_key s, fs_data = db_canon (fs_data s), fs_disk = Some sealed \<rparr>"
proof -
  let ?b = "marshal (db_json (fs_data s))"
  have seal: "vault_Seal (fs_key s) ?b (fe_nonce env) = Inr (n @ gcm_seal (fs_key s) n [] ?b)"
    using s env by (simp add: vault_Seal_def newGCM_def KeySize_def)
  have op: "vault_Open (fs_key s) (n @ gcm_seal (fs_key s) n [] ?b) = Inr ?b"
    using s env by (simp add: vault_Open_def newGCM_def KeySize_def)
  have dec: "decode_json (json_into db_fields) ?b empty_db = Inr (db_canon (fs_data s))"
    by (rule decode_json_marshal) (rule db_wf [OF ok], rule jd_db_je [OF ok])
  have s': "s' = s\<lparr> fs_disk := Some (n @ gcm_seal (fs_key s) n [] ?b) \<rparr>"
    using f db_times [OF ok] seal by (auto simp: flush_def split: option.splits)
  show ?thesis
    by (rule that [of "n @ gcm_seal (fs_key s) n [] ?b"]) (use s' op dec s in \<open>simp_all add: openFileStore_def KeySize_def Let_def\<close>)
qed

lemma flush_data: "fs_data (snd (flush env s)) = fs_data s \<and> fs_key (snd (flush env s)) = fs_key s \<and> fs_path (snd (flush env s)) = fs_path s"
  by (auto simp: flush_def split: sum.splits option.splits)

section \<open>Properties\<close>

definition toy_store :: fileStore where
  "toy_store = \<lparr> fs_path = ''db'', fs_key = replicate 32 1, fs_data = empty_db, fs_disk = None \<rparr>"

definition toy_env :: flush_env where
  "toy_env = \<lparr> fe_nonce = Inr (replicate 12 2), fe_write = None \<rparr>"

text \<open>The message log: appending puts the message at the end of its conversation and nowhere else;
  deleting a message removes exactly the messages of that conversation with that id; deleting a
  conversation leaves no message of it. This holds for the state in memory also when the flush
  fails.\<close>

theorem message_log:
  fixes s :: fileStore
  defines "log t c \<equiv> nil_list (msgs_of (fs_data t) c)"
  assumes "gm_ok (db_messages (fs_data s))"
  shows "log (snd (AppendMessage env s c e st)) c' =
      (if c' = c then log s c @ [\<lparr> sm_envelope = e, sm_state = st, sm_convID = c \<rparr>] else log s c') \<and>
    log (snd (DeleteMessage env s c m)) c' =
      (if c' = c then filter (\<lambda>x. e_msgID (sm_envelope x) \<noteq> m) (log s c) else log s c') \<and>
    log (snd (DeleteConversation env s c)) c' = (if c' = c then [] else log s c')"
proof -
  have "nil_list (map_option (filter P) x) = filter P (nil_list x)" for P :: "storedMessage \<Rightarrow> bool" and x
    by (cases x) simp_all
  then show ?thesis
    using assms(2)
    by (simp add: log_def AppendMessage_def DeleteMessage_def DeleteConversation_def with_data_def flush_data msgs_of_def)
qed

theorem message_log_witness:
  "nil_list (msgs_of (fs_data (snd (AppendMessage toy_env toy_store ''c'' zero_envelope StateSent))) ''c'') =
     [\<lparr> sm_envelope = zero_envelope, sm_state = StateSent, sm_convID = ''c'' \<rparr>]"
  using message_log [of toy_store toy_env "''c''" zero_envelope StateSent "''c''"]
  by (simp add: toy_store_def empty_db_def msgs_of_def)

text \<open>Paging: with a non-negative offset \<open>Messages\<close> returns the messages from that offset on, at most
  \<open>limit\<close> of them when the limit is positive, so that consecutive pages of a positive size tile the
  log; a negative offset panics.\<close>

theorem messages_paging:
  "(0 \<le> offset \<longrightarrow> Messages s c limit offset =
      Inr (map sm_envelope ((if 0 < limit then take (nat limit) else id) (drop (nat offset) (nil_list (msgs_of (fs_data s) c)))))) \<and>
   (offset < 0 \<longrightarrow> Messages s c limit offset = Inl ''runtime error: slice bounds out of range'')"
  by (auto simp: Messages_def Let_def nat_less_iff intro!: arg_cong [where f = "map sm_envelope"])

theorem messages_paging_witness:
  "Messages toy_store ''c'' 10 0 = Inr [] \<and> Messages toy_store ''c'' 10 (- 1) = Inl ''runtime error: slice bounds out of range''"
  using messages_paging [of 0 toy_store "''c''" 10] messages_paging [of "- 1" toy_store "''c''" 10]
  by (simp add: toy_store_def empty_db_def msgs_of_def)

text \<open>A blob is loaded as it was saved; but the namespace and the key are joined by a slash, so a blob
  saved under another namespace can overwrite it: \<open>a/b\<close> and \<open>c\<close> name the same blob as \<open>a\<close> and \<open>b/c\<close>.\<close>

theorem blob_namespaces_collide:
  "LoadBlob (snd (SaveBlob env s ns k v)) ns k = Inr v \<and>
   LoadBlob (snd (SaveBlob env (snd (SaveBlob env s ''a'' ''b/c'' v)) ''a/b'' ''c'' w)) ''a'' ''b/c'' = Inr w"
  by (simp add: LoadBlob_def SaveBlob_def with_data_def flush_data)

end
