(* ===== verification/Safetynumber.thy ===== *)
theory Safetynumber
  imports Sha2 Encoding
begin

text \<open>
  \<open>src/core/pkg/safetynumber/safetynumber.go\<close>: the sixty-digit number two users compare. The 5200
  rounds of SHA-512 are an iterated function on the buffer.
\<close>

definition sn_version :: "16 word" where
  "sn_version = 0"

definition sn_iterations :: nat where
  "sn_iterations = 5200"

text \<open>\<open>chunk\<close>: five bytes as a 64-bit number, modulo 100000, printed with five digits.\<close>

definition sn_value :: "bytes \<Rightarrow> nat \<Rightarrow> u64" where
  "sn_value hash offset =
     push_bit 32 (ucast (hash ! offset)) OR push_bit 24 (ucast (hash ! (offset + 1))) OR
     push_bit 16 (ucast (hash ! (offset + 2))) OR push_bit 8 (ucast (hash ! (offset + 3))) OR
     ucast (hash ! (offset + 4))"

definition sn_chunk :: "bytes \<Rightarrow> nat \<Rightarrow> string" where
  "sn_chunk hash offset =
     (let d = dec_string (unat (sn_value hash offset mod 100000)) in replicate (5 - length d) (CHR ''0'') @ d)"

definition sn_round :: "bytes \<Rightarrow> bytes \<Rightarrow> bytes" where
  "sn_round pub data = sha512 (data @ pub)"

definition sn_numeric :: "bytes \<Rightarrow> string" where
  "sn_numeric pub =
     (let data = (sn_round pub ^^ sn_iterations) (be16 sn_version @ pub @ pub)
      in concat (map (sn_chunk data) [0, 5, 10, 15, 20, 25]))"

text \<open>\<open>group\<close> cuts the string at every fifth position.\<close>

function sn_group_from :: "string \<Rightarrow> nat \<Rightarrow> string" where
  "sn_group_from s i =
     (if i < length s then
        (if 0 < i then '' '' else []) @
        (let end' = (if length s < i + 5 then length s else i + 5) in take (end' - i) (drop i s)) @ sn_group_from s (i + 5)
      else [])"
  by pat_completeness auto
termination by (relation "measure (\<lambda>(s, i). length s - i)") auto

declare sn_group_from.simps [simp del]

definition sn_group :: "string \<Rightarrow> string" where
  "sn_group s = sn_group_from s 0"

definition safety_Compute :: "bytes \<Rightarrow> bytes \<Rightarrow> string" where
  "safety_Compute a b =
     (let na = sn_numeric a; nb = sn_numeric b
      in sn_group (if string_le na nb then na @ nb else nb @ na))"

section \<open>Shape of the number\<close>

lemma length_sn_chunk [simp, len_simps]: "length (sn_chunk hash offset) = 5"
proof -
  have "unat (sn_value hash offset mod 100000) < 100000"
    using word_mod_less_divisor [of 100000 "sn_value hash offset"] by (simp add: word_less_nat_alt)
  then have "length (dec_string (unat (sn_value hash offset mod 100000))) \<le> 5"
    using length_dec_string [of "unat (sn_value hash offset mod 100000)" 4] by simp
  then show ?thesis by (simp add: sn_chunk_def Let_def)
qed

lemma sn_chunk_digits: "set (sn_chunk hash offset) \<subseteq> set dec_digits"
  using dec_string_chars [of "unat (sn_value hash offset mod 100000)"]
  by (auto simp: sn_chunk_def Let_def dec_digits_def)

lemma length_sn_numeric [simp, len_simps]: "length (sn_numeric pub) = 30"
  by (simp add: sn_numeric_def Let_def)

lemma sn_numeric_digits: "set (sn_numeric pub) \<subseteq> set dec_digits"
  using sn_chunk_digits by (fastforce simp: sn_numeric_def Let_def)

lemma sn_piece:
  "i < length s \<Longrightarrow> take ((if length s < i + 5 then length s else i + 5) - i) (drop i s) = take 5 (drop i s)"
  by simp

lemma sn_group_unspaced:
  "CHR '' '' \<notin> set s \<Longrightarrow> filter (\<lambda>c. c \<noteq> CHR '' '') (sn_group_from s i) = drop i s"
proof (induction s i rule: sn_group_from.induct)
  case (1 s i)
  show ?case
  proof (cases "i < length s")
    case True
    have "filter (\<lambda>c. c \<noteq> CHR '' '') (take 5 (drop i s)) = take 5 (drop i s)"
      using 1(2) by (intro filter_True) (auto dest!: in_set_takeD in_set_dropD)
    then have "filter (\<lambda>c. c \<noteq> CHR '' '') (sn_group_from s i) = take 5 (drop i s) @ drop (i + 5) s"
      using True 1 by (simp add: sn_group_from.simps [of s i] sn_piece Let_def)
    also have "\<dots> = drop i s" by (metis append_take_drop_id drop_drop add.commute)
    finally show ?thesis .
  qed (simp add: sn_group_from.simps)
qed

lemma div5_step: "5 \<le> n \<Longrightarrow> (n + 4) div 5 = Suc ((n - 5 + 4) div 5)" for n :: nat
  by simp

lemma length_sn_group_from: "0 < i \<Longrightarrow> length (sn_group_from s i) = (length s - i) + (length s - i + 4) div 5"
proof (induction s i rule: sn_group_from.induct)
  case (1 s i)
  show ?case
  proof (cases "i < length s")
    case True
    define n where "n = length s - i"
    have n: "0 < n" "length s - (i + 5) = n - 5" using True by (simp_all add: n_def)
    have "length (sn_group_from s i) = 1 + min 5 (length s - i) + ((length s - (i + 5)) + (length s - (i + 5) + 4) div 5)"
      using 1 True by (simp add: sn_group_from.simps [of s i] sn_piece Let_def)
    also have "\<dots> = 1 + min 5 n + ((n - 5) + (n - 5 + 4) div 5)" unfolding n by (simp add: n_def)
    also have "\<dots> = n + (n + 4) div 5"
    proof (cases "5 \<le> n")
      case False
      then have "(n + 4) div 5 = 1" using n(1) by (intro div_nat_eqI) simp_all
      with False show ?thesis by simp
    qed (simp add: div5_step)
    finally show ?thesis unfolding n_def .
  qed (simp add: sn_group_from.simps)
qed

lemma length_sn_group: "length s = 60 \<Longrightarrow> length (sn_group s) = 71"
  by (simp add: sn_group_def sn_group_from.simps [of s 0] sn_piece Let_def length_sn_group_from)

lemma safety_Compute_commute: "safety_Compute a b = safety_Compute b a"
  using string_le_total [of "sn_numeric a" "sn_numeric b"] string_le_antisym [of "sn_numeric a" "sn_numeric b"]
  by (auto simp: safety_Compute_def Let_def)

section \<open>Properties\<close>

text \<open>The safety number does not depend on who computes it, has 71 characters, consists of exactly
  sixty decimal digits besides its separating spaces, and those digits are the two parties' thirty
  digits in sorted order.\<close>

theorem safety_number_shape:
  "safety_Compute a b = safety_Compute b a \<and> length (safety_Compute a b) = 71 \<and>
   (let digits = filter (\<lambda>c. c \<noteq> CHR '' '') (safety_Compute a b)
    in length digits = 60 \<and> set digits \<subseteq> set dec_digits \<and>
       (digits = sn_numeric a @ sn_numeric b \<or> digits = sn_numeric b @ sn_numeric a))"
proof -
  let ?d = "if string_le (sn_numeric a) (sn_numeric b) then sn_numeric a @ sn_numeric b else sn_numeric b @ sn_numeric a"
  have c: "safety_Compute a b = sn_group ?d" by (simp add: safety_Compute_def Let_def)
  have digits: "set ?d \<subseteq> set dec_digits" using sn_numeric_digits by auto
  then have "filter (\<lambda>c. c \<noteq> CHR '' '') (safety_Compute a b) = ?d"
    unfolding c sn_group_def by (subst sn_group_unspaced) (auto simp: dec_digits_def)
  moreover have "safety_Compute a b = safety_Compute b a" by (rule safety_Compute_commute)
  moreover have "length (safety_Compute a b) = 71" unfolding c by (rule length_sn_group) simp
  ultimately show ?thesis using digits by (auto simp: Let_def)
qed

end
