(* ===== verification/Account.thy ===== *)
theory Account
  imports Contact Storage Safetynumber X3dh Session
begin

text \<open>
  \<open>src/core/pkg/account/account.go\<close>: the persistent local user. The file system's answers (directory,
  read, write) and the random bytes are arguments; the identity file's path is \<open>dir/identity.bin\<close>, and the
  result carries what was written to it.
\<close>

record account =
  ac_identity :: identity
  ac_preKeys :: prekeys
  ac_contacts :: book
  ac_dir :: string
  ac_key :: bytes

record account_env =
  ae_mkdir :: "unit result"
  ae_read :: file_read
  ae_write :: file_write
  ae_nonce :: "bytes result"
  ae_signing :: draw
  ae_agreement :: draw
  ae_signedPre :: draw
  ae_oneTime :: draw

text \<open>The identity of the account: read and unsealed, or generated, sealed and written. The second component
  is what the file holds afterwards if it was written to, also by a write that failed.\<close>

definition load_identity :: "curve \<Rightarrow> account_env \<Rightarrow> bytes \<Rightarrow> identity result \<times> bytes option" where
  "load_identity cv env key =
     (case ae_read env of
        Content sealed \<Rightarrow> (rbind (vault_Open key sealed) Unmarshal, None)
      | NotExist \<Rightarrow>
          (case Generate cv (ae_signing env) (ae_agreement env) of
             Inl e \<Rightarrow> (Inl e, None)
           | Inr i \<Rightarrow>
               (case vault_Seal key (Marshal i) (ae_nonce env) of
                  Inl e \<Rightarrow> (Inl e, None)
                | Inr sealed \<Rightarrow>
                    (case ae_write env of Some (left, e) \<Rightarrow> (Inl e, left) | None \<Rightarrow> (Inr i, Some sealed))))
      | ReadError e \<Rightarrow> (Inl e, None))"

definition LoadOrCreate :: "curve \<Rightarrow> account_env \<Rightarrow> string \<Rightarrow> bytes \<Rightarrow> account result \<times> bytes option" where
  "LoadOrCreate cv env dir key =
     (if length key \<noteq> KeySize then (Inl ''account: key must be 32 bytes'', None)
      else case ae_mkdir env of
        Inl e \<Rightarrow> (Inl e, None)
      | Inr _ \<Rightarrow>
          (case load_identity cv env key of
             (Inl e, w) \<Rightarrow> (Inl e, w)
           | (Inr i, w) \<Rightarrow>
               (case GeneratePreKeys cv i (ae_signedPre env) (ae_oneTime env) of
                  Inl e \<Rightarrow> (Inl e, w)
                | Inr pre \<Rightarrow>
                    (Inr \<lparr> ac_identity = i, ac_preKeys = pre, ac_contacts = NewMemory, ac_dir = dir, ac_key = key \<rparr>, w))))"

definition account_Fingerprint :: "account \<Rightarrow> string" where
  "account_Fingerprint a = identity_Fingerprint (ac_identity a)"

definition ContactURI :: "account \<Rightarrow> string \<Rightarrow> string" where
  "ContactURI a handle = contact_URI handle (signing_pub (ac_identity a))"

definition SafetyNumberWith :: "account \<Rightarrow> bytes \<Rightarrow> string" where
  "SafetyNumberWith a peer = safety_Compute (signing_pub (ac_identity a)) peer"

definition account_Sessions :: "account \<Rightarrow> memStore" where
  "account_Sessions a = NewMemStore (ac_identity a) (Some (ac_preKeys a))"

section \<open>Restarting\<close>

definition account_ok :: "curve \<Rightarrow> account \<Rightarrow> bool" where
  "account_ok cv a \<longleftrightarrow> identity_ok cv (ac_identity a) \<and> prekeys_ok cv (ac_preKeys a) \<and> pk_id (ac_preKeys a) = ac_identity a"

lemma load_identity_reads: "ae_read env \<noteq> NotExist \<Longrightarrow> snd (load_identity cv env key) = None"
  by (simp add: load_identity_def split: file_read.split)

lemma load_identity_created:
  assumes cv: "curve_ok cv" and d: "draw32 (ae_signing env)" "draw32 (ae_agreement env)"
    and n: "ae_nonce env = Inr nonce" "length nonce = 12"
    and l: "load_identity cv env key = (Inr i, Some sealed)"
  shows "identity_ok cv i \<and> vault_Open key sealed = Inr (Marshal i)"
proof -
  have g: "Generate cv (ae_signing env) (ae_agreement env) = Inr i" and s: "vault_Seal key (Marshal i) (Inr nonce) = Inr sealed"
    using l n(1) by (auto simp: load_identity_def split: file_read.splits sum.splits option.splits)
  show ?thesis using Generate_ok [OF cv d] g vault_Open_Seal [OF n(2) s] by simp
qed

section \<open>Properties\<close>

text \<open>C18. The account survives restarts: the file the first launch writes makes every later launch with the same
  key load exactly the same identity, hence the same fingerprint and contact URI, whatever its random
  bytes; the loaded account can take part in handshakes; and an identity file that exists is never
  replaced, also when it cannot be read, unsealed or parsed.\<close>

theorem account_persists:
  assumes cv: "curve_ok cv" and d: "draw32 (ae_signing env)" "draw32 (ae_agreement env)"
      "ae_nonce env = Inr nonce" "length nonce = 12"
    and first: "LoadOrCreate cv env dir key = (Inr a, Some sealed)"
    and d': "ae_mkdir env' = Inr ()" "ae_signedPre env' = Inr sp" "length sp = 32" "ae_oneTime env' = Inr ot" "length ot = 32"
  shows "(\<exists>a'. LoadOrCreate cv (env'\<lparr> ae_read := Content sealed \<rparr>) dir key = (Inr a', None) \<and>
      ac_identity a' = ac_identity a \<and> account_Fingerprint a' = account_Fingerprint a \<and>
      ContactURI a' = ContactURI a \<and> account_ok cv a') \<and>
    (ae_read env'' \<noteq> NotExist \<longrightarrow> snd (LoadOrCreate cv env'' dir' key') = None)"
proof -
  obtain i where l: "load_identity cv env key = (Inr i, Some sealed)" and a: "ac_identity a = i" and k: "length key = KeySize"
    using first by (auto simp: LoadOrCreate_def split: if_splits sum.splits prod.splits)
  have i: "identity_ok cv i" "vault_Open key sealed = Inr (Marshal i)"
    using load_identity_created [OF cv d l] by simp_all
  let ?env = "env'\<lparr> ae_read := Content sealed \<rparr>"
  have r: "load_identity cv ?env key = (Inr i, None)" using i by (simp add: load_identity_def Unmarshal_Marshal)
  obtain pre where pre: "GeneratePreKeys cv i (Inr sp) (Inr ot) = Inr pre" "prekeys_ok cv pre" "pk_id pre = i"
    using GeneratePreKeys_ok [OF cv i(1), of "Inr sp" "Inr ot"] d' by (auto simp: draw32_def)
  have "LoadOrCreate cv ?env dir key =
      (Inr \<lparr> ac_identity = i, ac_preKeys = pre, ac_contacts = NewMemory, ac_dir = dir, ac_key = key \<rparr>, None)"
    using k r d' pre(1) by (simp add: LoadOrCreate_def)
  moreover have "snd (LoadOrCreate cv env'' dir' key') = None" if "ae_read env'' \<noteq> NotExist"
    using that load_identity_reads [of env'' cv key']
    by (auto simp: LoadOrCreate_def split: sum.splits prod.splits)
  ultimately show ?thesis
    using i pre a by (auto simp: account_Fingerprint_def ContactURI_def account_ok_def fun_eq_iff)
qed

definition toy_account_env :: account_env where
  "toy_account_env = \<lparr> ae_mkdir = Inr (), ae_read = NotExist, ae_write = None, ae_nonce = Inr (replicate 12 9),
     ae_signing = Inr (replicate 32 1), ae_agreement = Inr (replicate 32 2), ae_signedPre = Inr (replicate 32 3),
     ae_oneTime = Inr (replicate 32 4) \<rparr>"

theorem account_persists_witness:
  "\<exists>a sealed a'. LoadOrCreate toy_curve toy_account_env ''d'' (replicate 32 7) = (Inr a, Some sealed) \<and>
     LoadOrCreate toy_curve (toy_account_env\<lparr> ae_read := Content sealed \<rparr>) ''d'' (replicate 32 7) = (Inr a', None) \<and>
     ac_identity a' = ac_identity a"
proof -
  obtain i where i: "Generate toy_curve (Inr (replicate 32 1)) (Inr (replicate 32 2)) = Inr i" "identity_ok toy_curve i"
    using Generate_ok [OF toy_curve_ok, of "Inr (replicate 32 1)" "Inr (replicate 32 2)"] by (auto simp: draw32_def)
  obtain sealed where s: "vault_Seal (replicate 32 7) (Marshal i) (Inr (replicate 12 9)) = Inr sealed"
    by (simp add: vault_Seal_def newGCM_def KeySize_def)
  obtain pre where p: "GeneratePreKeys toy_curve i (Inr (replicate 32 3)) (Inr (replicate 32 4)) = Inr pre"
    using GeneratePreKeys_ok [OF toy_curve_ok i(2), of "Inr (replicate 32 3)" "Inr (replicate 32 4)"] by (auto simp: draw32_def)
  obtain a where a: "LoadOrCreate toy_curve toy_account_env ''d'' (replicate 32 7) = (Inr a, Some sealed)"
    using i s p by (simp add: LoadOrCreate_def load_identity_def toy_account_env_def KeySize_def)
  have "\<exists>a'. LoadOrCreate toy_curve (toy_account_env\<lparr> ae_read := Content sealed \<rparr>) ''d'' (replicate 32 7) = (Inr a', None) \<and>
      ac_identity a' = ac_identity a"
    using account_persists [OF toy_curve_ok _ _ _ _ a, of "replicate 12 9" toy_account_env "replicate 32 3" "replicate 32 4"]
    by (simp add: toy_account_env_def draw32_def) blast
  with a show ?thesis by blast
qed

end
