(* ===== verification/Mailbox.thy ===== *)
theory Mailbox
  imports Go_Map
begin

text \<open>
  \<open>src/core/pkg/mailbox/mailbox.go\<close>: the store-and-forward mailbox. \<open>mailbox_laws\<close> is the contract of the
  \<open>Mailbox\<close> interface (each recipient has a queue, \<open>Fetch\<close> returns and empties it, nobody else's queue
  is touched); the in-memory mailbox interprets it.
\<close>

type_synonym mailbox = "bytes list gomap"

definition NewMailbox :: mailbox where
  "NewMailbox = []"

definition mb_queue :: "mailbox \<Rightarrow> string \<Rightarrow> bytes list" where
  "mb_queue m fp = (case gm_get m fp of None \<Rightarrow> [] | Some q \<Rightarrow> q)"

definition mb_Put :: "mailbox \<Rightarrow> string \<Rightarrow> bytes \<Rightarrow> unit result \<times> mailbox" where
  "mb_Put m recipientFP ciphertext = (Inr (), gm_put recipientFP (mb_queue m recipientFP @ [ciphertext]) m)"

definition mb_Fetch :: "mailbox \<Rightarrow> string \<Rightarrow> bytes list result \<times> mailbox" where
  "mb_Fetch m recipientFP = (let msgs = mb_queue m recipientFP in (Inr msgs, gm_del recipientFP m))"

definition mb_Pending :: "mailbox \<Rightarrow> string \<Rightarrow> nat" where
  "mb_Pending m recipientFP = length (mb_queue m recipientFP)"

locale mailbox_laws =
  fixes queue :: "'m \<Rightarrow> string \<Rightarrow> bytes list"
    and put :: "'m \<Rightarrow> string \<Rightarrow> bytes \<Rightarrow> unit result \<times> 'm"
    and fetch :: "'m \<Rightarrow> string \<Rightarrow> bytes list result \<times> 'm"
    and pending :: "'m \<Rightarrow> string \<Rightarrow> nat"
    and ok :: "'m \<Rightarrow> bool"
  assumes put_queue: "fst (put m fp x) = Inr () \<and> queue (snd (put m fp x)) = (queue m)(fp := queue m fp @ [x])"
    and fetch_queue: "ok m \<Longrightarrow> fst (fetch m fp) = Inr (queue m fp) \<and> queue (snd (fetch m fp)) = (queue m)(fp := [])"
    and pending_queue: "pending m fp = length (queue m fp)"
    and ok_put: "ok m \<Longrightarrow> ok (snd (put m fp x))"
    and ok_fetch: "ok m \<Longrightarrow> ok (snd (fetch m fp))"
begin

definition put_all :: "(string \<times> bytes) list \<Rightarrow> 'm \<Rightarrow> 'm" where
  "put_all ps m = fold (\<lambda>(fp, x) m. snd (put m fp x)) ps m"

lemma ok_put_all: "ok m \<Longrightarrow> ok (put_all ps m)"
  by (induction ps arbitrary: m) (auto simp: put_all_def ok_put)

lemma queue_put_all: "queue (put_all ps m) fp = queue m fp @ map snd (filter (\<lambda>p. fst p = fp) ps)"
proof (induction ps arbitrary: m)
  case (Cons p ps)
  then show ?case using put_queue by (auto simp: put_all_def split: prod.splits)
qed (simp add: put_all_def)

lemma store_and_forward:
  "ok m \<Longrightarrow> fst (fetch (put_all ps m) fp) = Inr (queue m fp @ map snd (filter (\<lambda>p. fst p = fp) ps)) \<and>
     pending (snd (fetch (put_all ps m) fp)) fp = 0 \<and>
     (fp' \<noteq> fp \<longrightarrow> queue (snd (fetch (put_all ps m) fp)) fp' = queue (put_all ps m) fp')"
  using fetch_queue [OF ok_put_all, of m ps fp] by (simp add: queue_put_all pending_queue)

end

interpretation mem_mb: mailbox_laws mb_queue mb_Put mb_Fetch mb_Pending gm_ok
  by unfold_locales (auto simp: mb_Put_def mb_Fetch_def mb_Pending_def mb_queue_def fun_eq_iff Let_def)

section \<open>Properties\<close>

text \<open>Store and forward: after any sequence of deposits for any recipients, \<open>Fetch\<close> hands a recipient
  exactly what was deposited for it, in order and each message once, leaves it with nothing pending
  and does not touch what is queued for anybody else.\<close>

theorem mailbox_store_and_forward:
  fixes ps :: "(string \<times> bytes) list"
  defines "m \<equiv> fold (\<lambda>(fp, x) m. snd (mb_Put m fp x)) ps NewMailbox"
  shows "fst (mb_Fetch m fp) = Inr (map snd (filter (\<lambda>p. fst p = fp) ps)) \<and>
    mb_Pending (snd (mb_Fetch m fp)) fp = 0 \<and>
    (fp' \<noteq> fp \<longrightarrow> fst (mb_Fetch (snd (mb_Fetch m fp)) fp') = fst (mb_Fetch m fp'))"
proof -
  have m: "m = mem_mb.put_all ps NewMailbox" by (simp add: m_def mem_mb.put_all_def)
  have ok: "gm_ok NewMailbox" "gm_ok m" "gm_ok (snd (mb_Fetch m fp))"
    using mem_mb.ok_put_all [of NewMailbox ps] mem_mb.ok_fetch by (simp_all add: m NewMailbox_def)
  have q: "mb_queue NewMailbox fp = []" by (simp add: mb_queue_def NewMailbox_def)
  show ?thesis
    using mem_mb.store_and_forward [OF ok(1), of ps fp fp'] mem_mb.fetch_queue [OF ok(2), of fp'] mem_mb.fetch_queue [OF ok(3), of fp']
    unfolding m [symmetric] q by simp
qed

theorem mailbox_store_and_forward_witness:
  "fst (mb_Fetch (fold (\<lambda>(fp, x) m. snd (mb_Put m fp x)) [(''a'', [1]), (''b'', [2]), (''a'', [3])] NewMailbox) ''a'') =
     Inr [[1], [3]]"
  using mailbox_store_and_forward [of "[(''a'', [1]), (''b'', [2]), (''a'', [3])]" "''a''" "''b''"] by simp

end
