(* ===== verification/Filetransfer.thy ===== *)
theory Filetransfer
  imports Aes_Gcm Sha2 Encoding "HOL-Library.Multiset"
begin

text \<open>
  \<open>src/core/pkg/filetransfer\<close> and the file sealing of \<open>src/core/pkg/crypto/crypto.go\<close>: \<open>Split\<close> cuts a
  file into sealed chunks and describes it in an offer, \<open>Reassemble\<close> puts the chunks back together in
  whatever order they arrived and checks size and hash. Chunk indices are 32-bit and wrap; sizes are
  64-bit. \<open>sort.Slice\<close> is modelled by a stable sort; \<open>reassemble_any_sort\<close> shows that the choice among
  equal indices does not matter.
\<close>

section \<open>Sealing a chunk\<close>

definition fileGCM :: "bytes \<Rightarrow> bytes result" where
  "fileGCM key = (if length key \<noteq> 32 then Inl ''crypto: transfer key must be 32 bytes'' else Inr key)"

definition SealFile :: "bytes \<Rightarrow> bytes \<Rightarrow> bytes \<Rightarrow> bytes result" where
  "SealFile transferKey nonce plaintext =
     rbind (fileGCM transferKey) (\<lambda>gcm.
       if length nonce \<noteq> 12 then Inl ''crypto: bad file nonce size''
       else Inr (gcm_seal gcm nonce [] plaintext))"

definition OpenFile :: "bytes \<Rightarrow> bytes \<Rightarrow> bytes \<Rightarrow> bytes result" where
  "OpenFile transferKey nonce ciphertext =
     rbind (fileGCM transferKey) (\<lambda>gcm.
       if length nonce \<noteq> 12 then Inl ''crypto: bad file nonce size''
       else gcm_open gcm nonce [] ciphertext)"

section \<open>Offers and chunks\<close>

definition DefaultChunkSize :: u32 where
  "DefaultChunkSize = 16 * 1024"

record offer =
  o_fileID :: string
  o_name :: string
  o_size :: u64
  o_mime :: string
  o_chunkSize :: u32
  o_hash :: bytes
  o_transferKey :: bytes

record chunk =
  c_fileID :: string
  c_index :: u32
  c_data :: bytes

definition nonceFor :: "u32 \<Rightarrow> bytes" where
  "nonceFor index = replicate 8 0 @ be32 index"

definition newFileID :: "bytes \<Rightarrow> string" where
  "newFileID b = concat (map (\<lambda>v. [hex_digits ! unat (drop_bit 4 v), hex_digits ! unat (v AND 0x0f)]) b)"

definition equalHash :: "bytes \<Rightarrow> bytes \<Rightarrow> bool" where
  "equalHash a b =
     (if length a \<noteq> length b then False
      else foldl (\<lambda>diff (x, y). diff OR (x XOR y)) 0 (zip a b) = 0)"

section \<open>Split\<close>

text \<open>The loop of \<open>Split\<close>. \<open>Split\<close> never runs it with chunk size 0.\<close>

function split_loop :: "bytes \<Rightarrow> string \<Rightarrow> u32 \<Rightarrow> bytes \<Rightarrow> u32 \<Rightarrow> nat \<Rightarrow> chunk list result" where
  "split_loop key fid cs data i off =
     (if 0 < unat cs \<and> off < length data then
        (let end' = (if length data < off + unat cs then length data else off + unat cs) in
         case SealFile key (nonceFor i) (take (end' - off) (drop off data)) of
           Inl e \<Rightarrow> Inl e
         | Inr sealed \<Rightarrow>
             (case split_loop key fid cs data (i + 1) end' of
                Inl e \<Rightarrow> Inl e
              | Inr chunks \<Rightarrow> Inr (\<lparr> c_fileID = fid, c_index = i, c_data = sealed \<rparr> # chunks)))
      else Inr [])"
  by pat_completeness auto
termination
  by (relation "measure (\<lambda>(key, fid, cs, data, i, off). length data - off)") (auto split: if_splits)

declare split_loop.simps [simp del]

definition Split :: "string \<Rightarrow> string \<Rightarrow> bytes \<Rightarrow> u32 \<Rightarrow> bytes result \<Rightarrow> bytes \<Rightarrow> (offer \<times> chunk list) result" where
  "Split name mime data chunkSize keyDraw idBytes =
     (let cs = (if chunkSize = 0 then DefaultChunkSize else chunkSize) in
      rbind keyDraw (\<lambda>key.
        let off = \<lparr> o_fileID = newFileID idBytes, o_name = name, o_size = of_nat (length data), o_mime = mime,
                    o_chunkSize = cs, o_hash = sha256 data, o_transferKey = key \<rparr>
        in rbind (split_loop key (o_fileID off) cs data 0 0) (\<lambda>chunks. Inr (off, chunks))))"

section \<open>Reassemble\<close>

fun open_loop :: "bytes \<Rightarrow> nat \<Rightarrow> chunk list \<Rightarrow> bytes \<Rightarrow> bytes result" where
  "open_loop key i [] out = Inr out"
| "open_loop key i (c # cs) out =
     (if c_index c \<noteq> of_nat i then Inl ''filetransfer: missing or duplicate chunk''
      else case OpenFile key (nonceFor (c_index c)) (c_data c) of
             Inl e \<Rightarrow> Inl e
           | Inr pt \<Rightarrow> open_loop key (Suc i) cs (out @ pt))"

definition reassemble_ordered :: "offer \<Rightarrow> chunk list \<Rightarrow> bytes result" where
  "reassemble_ordered off ordered =
     rbind (open_loop (o_transferKey off) 0 ordered []) (\<lambda>out.
       if of_nat (length out) \<noteq> o_size off then Inl ''filetransfer: size mismatch''
       else if \<not> equalHash (sha256 out) (o_hash off) then Inl ''filetransfer: integrity check failed''
       else Inr out)"

definition Reassemble :: "offer \<Rightarrow> chunk list \<Rightarrow> bytes result" where
  "Reassemble off chunks = reassemble_ordered off (sort_key (\<lambda>c. unat (c_index c)) chunks)"

section \<open>Helpers\<close>

lemma length_nonceFor [simp, len_simps]: "length (nonceFor i) = 12"
  by (simp add: nonceFor_def)

lemma nonceFor_inject [simp]: "nonceFor i = nonceFor j \<longleftrightarrow> i = j"
  by (simp add: nonceFor_def)

lemma xor_zero_iff: "x XOR y = 0 \<longleftrightarrow> x = y" for x y :: "'a::len word"
  by (metis xor.assoc xor.left_neutral xor.right_neutral xor_self_eq)

lemma foldl_or_zero: "foldl (\<lambda>diff (x, y). diff OR (x XOR y)) d ps = 0 \<longleftrightarrow> d = 0 \<and> (\<forall>(x, y) \<in> set ps. x = y)"
  for d :: byte
  by (induction ps arbitrary: d) (auto simp: or_eq_0_iff xor_zero_iff)

lemma equalHash_iff [simp]: "equalHash a b \<longleftrightarrow> a = b"
  by (auto simp: equalHash_def foldl_or_zero list_eq_iff_zip_eq)

lemma SealFile_ok: "length key = 32 \<Longrightarrow> SealFile key (nonceFor i) pt = Inr (gcm_seal key (nonceFor i) [] pt)"
  by (simp add: SealFile_def fileGCM_def)

lemma OpenFile_SealFile [codec_simps]: "SealFile key nonce pt = Inr ct \<Longrightarrow> OpenFile key nonce ct = Inr pt"
  by (auto simp: SealFile_def OpenFile_def rbind_eq_Inr_iff fileGCM_def split: if_splits)

lemma OpenFile_Inr: "OpenFile key nonce ct = Inr pt \<Longrightarrow> SealFile key nonce pt = Inr ct"
  by (auto simp: SealFile_def OpenFile_def rbind_eq_Inr_iff fileGCM_def dest: gcm_open_Inr split: if_splits)

section \<open>What Split produces\<close>

primrec seal_from :: "bytes \<Rightarrow> string \<Rightarrow> nat \<Rightarrow> bytes list \<Rightarrow> chunk list" where
  "seal_from key fid k [] = []"
| "seal_from key fid k (b # bs) =
     \<lparr> c_fileID = fid, c_index = of_nat k, c_data = gcm_seal key (nonceFor (of_nat k)) [] b \<rparr> # seal_from key fid (Suc k) bs"

lemma length_seal_from [simp]: "length (seal_from key fid k bs) = length bs"
  by (induction bs arbitrary: k) simp_all

lemma nth_seal_from:
  "j < length bs \<Longrightarrow> seal_from key fid k bs ! j =
     \<lparr> c_fileID = fid, c_index = of_nat (k + j), c_data = gcm_seal key (nonceFor (of_nat (k + j))) [] (bs ! j) \<rparr>"
proof (induction bs arbitrary: k j)
  case (Cons b bs)
  then show ?case by (cases j) (simp_all add: add.assoc)
qed simp

lemma take_seal_from: "take m (seal_from key fid k bs) = seal_from key fid k (take m bs)"
proof (induction bs arbitrary: k m)
  case (Cons b bs)
  then show ?case by (cases m) simp_all
qed simp

lemma split_loop_blocks:
  assumes "length key = 32" "0 < unat cs"
  shows "split_loop key fid cs data (of_nat k) off = Inr (seal_from key fid k (blocks (unat cs) (drop off data)))"
proof (induction "length data - off" arbitrary: k off rule: less_induct)
  case less
  show ?case
  proof (cases "off < length data")
    case True
    define end' where "end' = (if length data < off + unat cs then length data else off + unat cs)"
    have e: "take (end' - off) (drop off data) = take (unat cs) (drop off data)"
      "drop end' data = drop (unat cs) (drop off data)"
      using True by (simp_all add: end'_def add.commute)
    have "length data - end' < length data - off" using True assms(2) by (auto simp: end'_def)
    from less [OF this, of "Suc k"]
    have "split_loop key fid cs data (of_nat k + 1) end' =
        Inr (seal_from key fid (Suc k) (blocks (unat cs) (drop (unat cs) (drop off data))))"
      unfolding e(2) by (simp add: add.commute)
    then have "split_loop key fid cs data (of_nat k) off =
        Inr (seal_from key fid k (take (unat cs) (drop off data) # blocks (unat cs) (drop (unat cs) (drop off data))))"
      using True assms
      by (subst split_loop.simps) (simp add: end'_def [symmetric] Let_def e(1) SealFile_ok)
    moreover have "blocks (unat cs) (drop off data) =
        take (unat cs) (drop off data) # blocks (unat cs) (drop (unat cs) (drop off data))"
      using True assms(2) by (intro blocks_step) simp_all
    ultimately show ?thesis by simp
  qed (simp add: split_loop.simps)
qed

lemma open_loop_seal_from:
  "length key = 32 \<Longrightarrow> open_loop key k (seal_from key fid k bs) out = Inr (out @ concat bs)"
  by (induction bs arbitrary: k out) (simp_all add: OpenFile_def fileGCM_def)

lemma seal_from_indices:
  "k + length bs \<le> 2 ^ 32 \<Longrightarrow> map (\<lambda>c. unat (c_index c)) (seal_from key fid k bs) = [k..<k + length bs]"
proof (induction bs arbitrary: k)
  case (Cons b bs)
  then have "k < 2 ^ 32" by simp
  then have "unat (of_nat k :: u32) = k" by (simp add: unsigned_of_nat take_bit_nat_eq_self)
  moreover have "[k..<k + length (b # bs)] = k # [Suc k..<Suc k + length bs]"
    using upt_conv_Cons [of k "k + length (b # bs)"] by simp
  ultimately show ?case using Cons.IH [of "Suc k"] Cons.prems by simp
qed simp

lemma Split_Inr:
  assumes "Split name mime data chunkSize keyDraw idBytes = Inr (off, chunks)"
  shows "\<exists>key cs. keyDraw = Inr key \<and> cs = (if chunkSize = 0 then DefaultChunkSize else chunkSize) \<and>
    o_transferKey off = key \<and> o_size off = of_nat (length data) \<and> o_hash off = sha256 data \<and>
    o_chunkSize off = cs \<and> o_fileID off = newFileID idBytes \<and> o_name off = name \<and> o_mime off = mime \<and>
    split_loop key (o_fileID off) cs data 0 0 = Inr chunks"
  using assms by (auto simp: Split_def Let_def rbind_eq_Inr_iff)

section \<open>What Reassemble accepts\<close>

lemma open_loop_Inr:
  "open_loop key i cs out = Inr r \<Longrightarrow>
     map c_index cs = map of_nat [i..<i + length cs] \<and>
     (\<exists>bs. r = out @ concat bs \<and> list_all2 (\<lambda>c b. SealFile key (nonceFor (c_index c)) b = Inr (c_data c)) cs bs)"
proof (induction cs arbitrary: i out)
  case (Cons c cs)
  then obtain pt where pt: "c_index c = of_nat i" "OpenFile key (nonceFor (c_index c)) (c_data c) = Inr pt"
    "open_loop key (Suc i) cs (out @ pt) = Inr r"
    by (auto split: if_splits sum.splits)
  from Cons.IH [OF pt(3)] obtain bs where
    bs: "map c_index cs = map of_nat [Suc i..<Suc i + length cs]" "r = (out @ pt) @ concat bs"
      "list_all2 (\<lambda>c b. SealFile key (nonceFor (c_index c)) b = Inr (c_data c)) cs bs"
    by blast
  have "map c_index (c # cs) = map of_nat [i..<i + length (c # cs)]"
    using bs(1) pt(1) by (simp add: upt_conv_Cons del: upt_Suc)
  moreover have "r = out @ concat (pt # bs)" using bs(2) by simp
  moreover have "list_all2 (\<lambda>c b. SealFile key (nonceFor (c_index c)) b = Inr (c_data c)) (c # cs) (pt # bs)"
    using bs(3) OpenFile_Inr [OF pt(2)] by simp
  ultimately show ?case by blast
qed simp

lemma Reassemble_Inr:
  assumes "Reassemble off chunks = Inr out"
  obtains ordered where "mset ordered = mset chunks" "map c_index ordered = map of_nat [0..<length ordered]"
    "open_loop (o_transferKey off) 0 ordered [] = Inr out" "of_nat (length out) = o_size off" "sha256 out = o_hash off"
proof
  let ?o = "sort_key (\<lambda>c. unat (c_index c)) chunks"
  show "mset ?o = mset chunks" by simp
  show l: "open_loop (o_transferKey off) 0 ?o [] = Inr out" "of_nat (length out) = o_size off" "sha256 out = o_hash off"
    using assms by (auto simp: Reassemble_def reassemble_ordered_def rbind_eq_Inr_iff split: if_splits)
  show "map c_index ?o = map of_nat [0..<length ?o]" using open_loop_Inr [OF l(1)] by simp
qed

lemma seal_from_inj:
  assumes "length bs \<le> 2 ^ 32"
  shows "inj_on (\<lambda>c. unat (c_index c)) (set (seal_from key fid 0 bs))"
proof -
  have "distinct (map (\<lambda>c. unat (c_index c)) (seal_from key fid 0 bs))"
    using seal_from_indices [of 0 bs key fid] assms by simp
  then show ?thesis by (simp add: distinct_map)
qed

lemma sort_sealed:
  assumes "mset chunks = mset (seal_from key fid 0 bs)" "length bs \<le> 2 ^ 32"
  shows "sort_key (\<lambda>c. unat (c_index c)) chunks = seal_from key fid 0 bs"
proof (rule sort_key_inj_key_eq [OF assms(1)])
  have "set chunks = set (seal_from key fid 0 bs)" using assms(1) by (rule mset_eq_setD)
  then show "inj_on (\<lambda>c. unat (c_index c)) (set chunks)" using seal_from_inj [OF assms(2)] by simp
  show "sorted (map (\<lambda>c. unat (c_index c)) (seal_from key fid 0 bs))"
    using seal_from_indices [of 0 bs key fid] assms(2) by simp
qed

text \<open>Chunks of one file that carry the indices \<open>0, \<dots>, m - 1\<close> are its first \<open>m\<close> chunks.\<close>

lemma sealed_prefix:
  assumes "set ordered \<subseteq> set (seal_from key fid 0 bs)" "map c_index ordered = map of_nat [0..<length ordered]"
    "length ordered \<le> length bs" "length bs \<le> 2 ^ 32"
  shows "ordered = seal_from key fid 0 (take (length ordered) bs)"
proof (rule nth_equalityI)
  fix j assume j: "j < length ordered"
  then have "ordered ! j \<in> set (seal_from key fid 0 bs)" using assms(1) by auto
  then obtain l where l: "l < length bs" "ordered ! j = seal_from key fid 0 bs ! l"
    by (metis in_set_conv_nth length_seal_from)
  have "c_index (ordered ! j) = of_nat j"
    using arg_cong [OF assms(2), of "\<lambda>xs. xs ! j"] j by simp
  with l have "(of_nat l :: u32) = of_nat j" by (simp add: nth_seal_from)
  then have "l = j" using l(1) j assms(3,4) of_nat_word_inject [where 'a = 32, of l j] by simp
  then show "ordered ! j = seal_from key fid 0 (take (length ordered) bs) ! j"
    using l j assms(3) by (simp add: nth_seal_from)
qed (use assms(3) in simp)

text \<open>Indices \<open>0, 1, \<dots>\<close> that are sorted as 32-bit numbers have not wrapped, so they are distinct.\<close>

lemma sorted_indices_distinct:
  assumes "map c_index cs = map of_nat [0..<length cs]" "sorted (map (\<lambda>c. unat (c_index c)) cs)"
  shows "distinct (map (\<lambda>c. unat (c_index c)) cs)"
proof -
  have idx: "map (\<lambda>c. unat (c_index c)) cs = map (\<lambda>i. unat (of_nat i :: u32)) [0..<length cs]"
    using arg_cong [OF assms(1), of "map unat"] by (simp add: comp_def)
  have "length cs \<le> 2 ^ 32"
  proof (rule ccontr)
    assume "\<not> length cs \<le> 2 ^ 32"
    then have "unat (of_nat (2 ^ 32 - 1) :: u32) \<le> unat (of_nat (2 ^ 32) :: u32)"
      using assms(2) sorted_nth_mono [of "map (\<lambda>i. unat (of_nat i :: u32)) [0..<length cs]" "2 ^ 32 - 1" "2 ^ 32"]
      unfolding idx by simp
    then show False by simp
  qed
  then show ?thesis
    unfolding idx by (auto simp: distinct_map inj_on_def unat_of_nat_small)
qed

lemma reassemble_any_sort:
  assumes "Reassemble off chunks = Inr out" "mset ordered = mset chunks" "sorted (map (\<lambda>c. unat (c_index c)) ordered)"
  shows "reassemble_ordered off ordered = Inr out"
proof -
  let ?f = "\<lambda>c. unat (c_index c)"
  let ?o = "sort_key ?f chunks"
  have l: "open_loop (o_transferKey off) 0 ?o [] = Inr out"
    using assms(1) by (auto simp: Reassemble_def reassemble_ordered_def rbind_eq_Inr_iff split: if_splits)
  have "distinct (map ?f ?o)"
    by (rule sorted_indices_distinct) (use open_loop_Inr [OF l] in simp_all)
  then have "inj_on ?f (set chunks)" by (simp add: distinct_map)
  then have "?o = ordered" using assms(2,3) by (intro sort_key_inj_key_eq) simp_all
  with assms(1) show ?thesis by (simp add: Reassemble_def)
qed

lemma split_reassemble_any:
  assumes split: "Split name mime data chunkSize (Inr key) idBytes = Inr (off, chunks)" and key: "length key = 32"
    and few: "length chunks \<le> 2 ^ 32" and order: "mset received = mset chunks"
  shows "Reassemble off received = Inr data"
proof -
  define cs where "cs = (if chunkSize = 0 then DefaultChunkSize else chunkSize)"
  have cs: "0 < unat cs" by (simp add: cs_def DefaultChunkSize_def unat_gt_0)
  have o: "o_transferKey off = key" "o_size off = of_nat (length data)" "o_hash off = sha256 data"
    and loop: "split_loop key (o_fileID off) cs data 0 0 = Inr chunks"
    using Split_Inr [OF split] by (auto simp: cs_def)
  have ch: "chunks = seal_from key (o_fileID off) 0 (blocks (unat cs) data)"
    using split_loop_blocks [OF key cs, of "o_fileID off" data 0 0] loop by simp
  have "sort_key (\<lambda>c. unat (c_index c)) received = chunks"
    unfolding ch by (rule sort_sealed) (use order few ch in simp_all)
  then show ?thesis
    unfolding Reassemble_def reassemble_ordered_def
    by (simp add: o ch open_loop_seal_from key cs)
qed

section \<open>Properties\<close>

text \<open>C22. A file survives the transfer in any order: the chunks \<open>Split\<close> makes, delivered in whatever order,
  reassemble to the original bytes (as long as the chunk indices fit 32 bits).\<close>

theorem split_reassemble:
  assumes "Split name mime data chunkSize (Inr key) idBytes = Inr (off, chunks)" "length key = 32"
    and "length chunks \<le> 2 ^ 32" "mset received = mset chunks"
  shows "Reassemble off received = Inr data"
  using assms by (rule split_reassemble_any)

theorem split_reassemble_witness:
  "\<exists>off chunks. Split ''f'' ''text/plain'' [1, 2, 3] 2 (Inr (replicate 32 7)) (replicate 12 0) = Inr (off, chunks) \<and>
     length chunks = 2 \<and> Reassemble off (rev chunks) = Inr [1, 2, 3]"
proof -
  have b: "blocks 2 [1, 2, 3 :: byte] = [[1, 2], [3]]" by (simp add: blocks.simps)
  have "split_loop (replicate 32 7) fid 2 [1, 2, 3] (of_nat 0) 0 = Inr (seal_from (replicate 32 7) fid 0 [[1, 2], [3]])" for fid
    using split_loop_blocks [of "replicate 32 7" 2 fid "[1, 2, 3]" 0 0] b by simp
  then obtain off chunks where
    s: "Split ''f'' ''text/plain'' [1, 2, 3] 2 (Inr (replicate 32 7)) (replicate 12 0) = Inr (off, chunks)" "length chunks = 2"
    by (simp add: Split_def Let_def)
  with split_reassemble [OF s(1), of "rev chunks"] show ?thesis by auto
qed

text \<open>A transfer that lacks a chunk is never accepted: whatever proper part of the chunks of a file
  arrives, in whatever order, \<open>Reassemble\<close> reports an error.\<close>

theorem missing_chunk_rejected:
  assumes split: "Split name mime data chunkSize (Inr key) idBytes = Inr (off, chunks)" and key: "length key = 32"
    and few: "length chunks \<le> 2 ^ 32" "length data < 2 ^ 64" and lost: "mset received \<subset># mset chunks"
  shows "\<exists>e. Reassemble off received = Inl e"
proof (rule ccontr)
  assume "\<nexists>e. Reassemble off received = Inl e"
  then obtain out where r: "Reassemble off received = Inr out" by (cases "Reassemble off received") auto
  define cs where "cs = (if chunkSize = 0 then DefaultChunkSize else chunkSize)"
  let ?bs = "blocks (unat cs) data"
  have cs: "0 < unat cs" by (simp add: cs_def DefaultChunkSize_def unat_gt_0)
  have o: "o_transferKey off = key" "o_size off = of_nat (length data)"
    and loop: "split_loop key (o_fileID off) cs data 0 0 = Inr chunks"
    using Split_Inr [OF split] by (auto simp: cs_def)
  have ch: "chunks = seal_from key (o_fileID off) 0 ?bs"
    using split_loop_blocks [OF key cs, of "o_fileID off" data 0 0] loop by simp
  obtain ordered where ord: "mset ordered = mset received" "map c_index ordered = map of_nat [0..<length ordered]"
    "open_loop key 0 ordered [] = Inr out" "of_nat (length out) = o_size off"
    using Reassemble_Inr [OF r] o(1) by metis
  have lt: "length ordered < length ?bs"
    using mset_eq_length [OF ord(1)] mset_subset_size [OF lost] ch by simp
  have "set ordered \<subseteq> set chunks"
    using ord(1) lost by (metis set_mset_mono set_mset_mset subset_mset.less_imp_le)
  then have "ordered = seal_from key (o_fileID off) 0 (take (length ordered) ?bs)"
    using sealed_prefix [of ordered key "o_fileID off" ?bs] ord(2) lt few(1) ch by simp
  then have out: "out = concat (take (length ordered) ?bs)"
    using ord(3) open_loop_seal_from [OF key, of 0 "o_fileID off"] by (metis append_Nil sum.inject(2))
  have data: "data = out @ concat (drop (length ordered) ?bs)"
    unfolding out using cs by (metis append_take_drop_id concat_append concat_blocks)
  have "drop (length ordered) ?bs \<noteq> []" using lt by simp
  then obtain b bs where b: "drop (length ordered) ?bs = b # bs" by (cases "drop (length ordered) ?bs") auto
  then have "b \<in> set ?bs" by (metis in_set_dropD list.set_intros(1))
  then have "b \<noteq> []" using blocks_length_le by blast
  then have "length out < length data" using data b by simp
  moreover have "(of_nat (length out) :: u64) = of_nat (length data)" using ord(4) o(2) by simp
  ultimately show False using few(2) of_nat_word_inject [where 'a = 64, of "length out" "length data"] by simp
qed

theorem missing_chunk_rejected_witness:
  "\<exists>off chunks e. Split ''f'' ''text/plain'' [1] 2 (Inr (replicate 32 7)) (replicate 12 0) = Inr (off, chunks) \<and>
     Reassemble off [] = Inl e"
proof -
  have b: "blocks 2 [1 :: byte] = [[1]]" by (simp add: blocks.simps)
  have "split_loop (replicate 32 7) fid 2 [1] (of_nat 0) 0 = Inr (seal_from (replicate 32 7) fid 0 [[1]])" for fid
    using split_loop_blocks [of "replicate 32 7" 2 fid "[1]" 0 0] b by simp
  then obtain off chunks where
    s: "Split ''f'' ''text/plain'' [1] 2 (Inr (replicate 32 7)) (replicate 12 0) = Inr (off, chunks)" "length chunks = 1"
    by (simp add: Split_def Let_def)
  then have "mset [] \<subset># mset chunks" by (cases chunks) simp_all
  with missing_chunk_rejected [OF s(1), of "[]"] s show ?thesis by auto
qed

text \<open>Whatever \<open>Reassemble\<close> accepts has the size and the SHA-256 hash of the offer and consists, in
  index order and without gaps or repetitions, of plaintexts sealed under the offer's transfer key
  with the nonce of their position; the order the sort gives to chunks with equal indices never
  matters.\<close>

theorem reassemble_integrity:
  assumes "Reassemble off chunks = Inr out"
  shows "sha256 out = o_hash off \<and> of_nat (length out) = o_size off \<and>
    (\<exists>ordered bs. mset ordered = mset chunks \<and> map c_index ordered = map of_nat [0..<length chunks] \<and>
       out = concat bs \<and>
       list_all2 (\<lambda>c b. SealFile (o_transferKey off) (nonceFor (c_index c)) b = Inr (c_data c)) ordered bs) \<and>
    (\<forall>ordered. mset ordered = mset chunks \<longrightarrow> sorted (map (\<lambda>c. unat (c_index c)) ordered) \<longrightarrow>
       reassemble_ordered off ordered = Inr out)"
proof -
  obtain ordered where ord: "mset ordered = mset chunks" "map c_index ordered = map of_nat [0..<length ordered]"
    "open_loop (o_transferKey off) 0 ordered [] = Inr out" "of_nat (length out) = o_size off" "sha256 out = o_hash off"
    using Reassemble_Inr [OF assms] by metis
  have "length ordered = length chunks" using mset_eq_length [OF ord(1)] .
  with ord open_loop_Inr [OF ord(3)] reassemble_any_sort [OF assms] show ?thesis by auto
qed

theorem reassemble_integrity_witness:
  "sha256 [] = o_hash \<lparr> o_fileID = [], o_name = [], o_size = 0, o_mime = [], o_chunkSize = 1, o_hash = sha256 [],
     o_transferKey = [] \<rparr>"
proof -
  have "Reassemble \<lparr> o_fileID = [], o_name = [], o_size = 0, o_mime = [], o_chunkSize = 1, o_hash = sha256 [],
     o_transferKey = [] \<rparr> [] = Inr []"
    by (simp add: Reassemble_def reassemble_ordered_def)
  from reassemble_integrity [OF this] show ?thesis by blast
qed

end
