(* ===== verification/Node.thy ===== *)
theory Node
  imports Account Transport Signaling Mailbox Filetransfer
begin

text \<open>
  \<open>src/core/pkg/node\<close>: a node ties an account's sessions to a connection, a store and the mailbox
  (\<open>node.go\<close>, \<open>live.go\<close>, \<open>file.go\<close>, \<open>receipt.go\<close>). A \<open>world\<close> is the node together with the state of one
  connection; \<open>io\<close> is the connection's interface. A link holds a pointer to its session object in the
  node's session store. Random bytes, the clock and the answers of the file system are arguments, one
  per use; loops take them as sequences. \<open>handshakeResponder\<close> is split where it waits for the peer.
\<close>

record node =
  nd_account :: account
  nd_store :: "fileStore option"
  nd_sessions :: memStore

record link =
  lk_session :: nat
  lk_peerFP :: string
  lk_peerKey :: bytes

record 'c world =
  w_node :: node
  w_conn :: 'c

definition node_New :: "account \<Rightarrow> fileStore option \<Rightarrow> node" where
  "node_New acc store = \<lparr> nd_account = acc, nd_store = store, nd_sessions = account_Sessions acc \<rparr>"

definition node_Bundle :: "curve \<Rightarrow> node \<Rightarrow> prekey_bundle" where
  "node_Bundle cv n = Bundle cv (ac_preKeys (nd_account n))"

definition on_conn :: "('c, 'a) go \<Rightarrow> ('c world, 'a) go" where
  "on_conn = go_on w_conn (\<lambda>c w. w\<lparr> w_conn := c \<rparr>)"

definition on_node :: "(node, 'a) go \<Rightarrow> ('c world, 'a) go" where
  "on_node = go_on w_node (\<lambda>n w. w\<lparr> w_node := n \<rparr>)"

definition on_sessions :: "(memStore \<Rightarrow> 'a result \<times> memStore) \<Rightarrow> (node, 'a) go" where
  "on_sessions f = go_on nd_sessions (\<lambda>m n. n\<lparr> nd_sessions := m \<rparr>) (go_call f)"

text \<open>\<open>session.PeerFingerprint()\<close> of the session a handshake returned.\<close>

definition new_link :: "nat \<Rightarrow> bytes \<Rightarrow> node \<Rightarrow> link" where
  "new_link p peerKey n =
     \<lparr> lk_session = p, lk_peerFP = session_PeerFingerprint (nd_sessions n) p, lk_peerKey = peerKey \<rparr>"

definition PeerFingerprint :: "link \<Rightarrow> string" where
  [simp]: "PeerFingerprint l = lk_peerFP l"

definition PeerIdentityKey :: "link \<Rightarrow> bytes" where
  [simp]: "PeerIdentityKey l = lk_peerKey l"

section \<open>Connecting\<close>

definition node_Dial :: "curve \<Rightarrow> 'c conn \<Rightarrow> prekey_bundle \<Rightarrow> draw \<Rightarrow> draw \<Rightarrow> ('c world, link) go" where
  "node_Dial cv io bundle dEph dRatchet =
     go_bind (on_node (on_sessions (\<lambda>m. session_Initiate cv m bundle dEph dRatchet))) (\<lambda>(p, hs).
     go_bind (go_of (EncodeFrame \<lparr> f_bundle = None, f_handshake = Some hs, f_payload = [] \<rparr>)) (\<lambda>frame.
     go_bind (on_conn (conn_Send io frame)) (\<lambda>_.
     go_get (\<lambda>w. new_link p (b_identitySign bundle) (w_node w)))))"

definition node_Accept :: "curve \<Rightarrow> 'c conn \<Rightarrow> ('c world, link) go" where
  "node_Accept cv io =
     go_bind (on_conn (conn_Recv io)) (\<lambda>raw.
     go_bind (go_of (DecodeFrame raw)) (\<lambda>frame.
     (case f_handshake frame of
        None \<Rightarrow> go_err ''node: first frame missing handshake''
      | Some hs \<Rightarrow>
          go_bind (on_node (on_sessions (\<lambda>m. session_Accept cv m hs))) (\<lambda>p.
          go_get (\<lambda>w. new_link p (hs_identitySign hs) (w_node w))))))"

definition ErrIdentityMismatch :: string where
  "ErrIdentityMismatch = ''node: peer identity does not match expected contact''"

definition handshakeInitiator :: "curve \<Rightarrow> 'c conn \<Rightarrow> bytes \<Rightarrow> draw \<Rightarrow> draw \<Rightarrow> ('c world, link) go" where
  "handshakeInitiator cv io peerIdentity dEph dRatchet =
     go_bind (on_conn (conn_Recv io)) (\<lambda>raw.
     go_bind (go_of (DecodeFrame raw)) (\<lambda>frame.
     (case f_bundle frame of
        None \<Rightarrow> go_err ''node: first frame missing prekey bundle''
      | Some bundle \<Rightarrow>
          if b_identitySign bundle \<noteq> peerIdentity then go_err ErrIdentityMismatch
          else
            go_bind (on_node (on_sessions (\<lambda>m. session_Initiate cv m bundle dEph dRatchet))) (\<lambda>(p, hs).
            go_bind (go_of (EncodeFrame \<lparr> f_bundle = None, f_handshake = Some hs, f_payload = [] \<rparr>)) (\<lambda>out.
            go_bind (on_conn (conn_Send io out)) (\<lambda>_.
            go_get (\<lambda>w. new_link p peerIdentity (w_node w))))))))"

definition responder_hello :: "curve \<Rightarrow> 'c conn \<Rightarrow> ('c world, unit) go" where
  "responder_hello cv io =
     go_bind (go_get (\<lambda>w. node_Bundle cv (w_node w))) (\<lambda>bundle.
     go_bind (go_of (EncodeFrame \<lparr> f_bundle = Some bundle, f_handshake = None, f_payload = [] \<rparr>)) (\<lambda>out.
     on_conn (conn_Send io out)))"

definition responder_finish :: "curve \<Rightarrow> 'c conn \<Rightarrow> ('c world, link) go" where
  "responder_finish cv io =
     go_bind (on_conn (conn_Recv io)) (\<lambda>raw.
     go_bind (go_of (DecodeFrame raw)) (\<lambda>frame.
     (case f_handshake frame of
        None \<Rightarrow> go_err ''node: missing handshake from initiator''
      | Some hs \<Rightarrow>
          go_bind (on_node (on_sessions (\<lambda>m. session_Accept cv m hs))) (\<lambda>p.
          go_get (\<lambda>w. new_link p (hs_identitySign hs) (w_node w))))))"

definition handshakeResponder :: "curve \<Rightarrow> 'c conn \<Rightarrow> ('c world, link) go" where
  "handshakeResponder cv io = go_bind (responder_hello cv io) (\<lambda>_. responder_finish cv io)"

text \<open>\<open>Connect\<close> and \<open>Listen\<close>: the state is the node and the signaler's state; \<open>dial\<close> and \<open>accept\<close> are the
  transport's operations, which give a connection. The result is the link with its connection; on a
  failed handshake the connection is closed.\<close>

definition with_conn :: "'c conn \<Rightarrow> ('c world, link) go \<Rightarrow> 'c \<Rightarrow> (node \<times> 'g, link \<times> 'c) go" where
  "with_conn io hs c = (\<lambda>(n, g).
     (case hs \<lparr> w_node = n, w_conn = c \<rparr> of
        None \<Rightarrow> None
      | Some (Inr l, w) \<Rightarrow> Some (Inr (l, w_conn w), (w_node w, g))
      | Some (Inl e, w) \<Rightarrow> map_option (\<lambda>_. (Inl e, (w_node w, g))) (conn_Close io (w_conn w))))"

definition node_Connect ::
    "curve \<Rightarrow> 'g signaler \<Rightarrow> (string \<Rightarrow> ('g, 'c) go) \<Rightarrow> 'c conn \<Rightarrow> bytes \<Rightarrow> bytes \<Rightarrow> draw \<Rightarrow> draw \<Rightarrow> (node \<times> 'g, link \<times> 'c) go" where
  "node_Connect cv sg dial io peerIdentity salt dEph dRatchet =
     go_bind (on_snd (sg_Find sg (DiscoveryKey peerIdentity salt))) (\<lambda>peer.
     go_bind (on_snd (dial (pi_peerID peer))) (\<lambda>c.
     with_conn io (handshakeInitiator cv io peerIdentity dEph dRatchet) c))"

definition node_Listen :: "curve \<Rightarrow> 'g signaler \<Rightarrow> ('g, 'c) go \<Rightarrow> 'c conn \<Rightarrow> bytes \<Rightarrow> (node \<times> 'g, link \<times> 'c) go" where
  "node_Listen cv sg accept io salt =
     go_bind (go_get fst) (\<lambda>n.
     go_bind (on_snd (sg_Advertise sg (DiscoveryKey (signing_pub (ac_identity (nd_account n))) salt))) (\<lambda>_.
     go_bind (on_snd accept) (\<lambda>c.
     with_conn io (handshakeResponder cv io) c)))"

section \<open>Sending\<close>

definition encryptSendLocked :: "curve \<Rightarrow> 'c conn \<Rightarrow> link \<Rightarrow> envelope \<Rightarrow> ('c world, unit) go" where
  "encryptSendLocked cv io l env =
     go_bind (go_of (envelope_Encode env)) (\<lambda>pt.
     go_bind (on_node (on_sessions (\<lambda>m. session_Encrypt cv m (lk_session l) pt))) (\<lambda>ct.
     go_bind (go_of (EncodeFrame \<lparr> f_bundle = None, f_handshake = None, f_payload = ct \<rparr>)) (\<lambda>frame.
     on_conn (conn_Send io frame))))"

definition persistable :: "string \<Rightarrow> bool" where
  "persistable t \<longleftrightarrow> t = TypeText \<or> t = TypeFileOffer"

definition store_sent :: "flush_env \<Rightarrow> envelope \<Rightarrow> node \<Rightarrow> node" where
  "store_sent fe env n =
     (case nd_store n of
        None \<Rightarrow> n
      | Some st \<Rightarrow> if persistable (e_type env) then n\<lparr> nd_store := Some (snd (AppendMessage fe st (e_convID env) env StateSent)) \<rparr> else n)"

definition link_SendEnvelope :: "curve \<Rightarrow> 'c conn \<Rightarrow> link \<Rightarrow> flush_env \<Rightarrow> envelope \<Rightarrow> ('c world, unit) go" where
  "link_SendEnvelope cv io l fe env =
     go_bind (encryptSendLocked cv io l env) (\<lambda>_. go_put (\<lambda>w. w\<lparr> w_node := store_sent fe env (w_node w) \<rparr>))"

text \<open>\<open>SendText\<close> returns the envelope also when sending it failed.\<close>

definition link_SendText ::
    "curve \<Rightarrow> 'c conn \<Rightarrow> link \<Rightarrow> flush_env \<Rightarrow> string \<Rightarrow> string \<Rightarrow> bytes \<Rightarrow> gotime \<Rightarrow> ('c world, envelope) go" where
  "link_SendText cv io l fe convID text idBytes now =
     go_bind (go_of (NewText convID text [] idBytes now)) (\<lambda>env.
     go_bind (link_SendEnvelope cv io l fe env) (\<lambda>_. go_ret env))"

definition link_SendTyping :: "curve \<Rightarrow> 'c conn \<Rightarrow> link \<Rightarrow> string \<Rightarrow> bytes \<Rightarrow> gotime \<Rightarrow> ('c world, unit) go" where
  "link_SendTyping cv io l convID idBytes now = encryptSendLocked cv io l (NewEnvelope TypeTyping convID None idBytes now)"

definition link_SendReceipt ::
    "curve \<Rightarrow> 'c conn \<Rightarrow> link \<Rightarrow> string \<Rightarrow> string \<Rightarrow> string \<Rightarrow> bytes \<Rightarrow> gotime \<Rightarrow> ('c world, unit) go" where
  "link_SendReceipt cv io l convID refMsgID state idBytes now =
     go_bind (go_of (NewReceipt convID refMsgID state idBytes now)) (\<lambda>env. encryptSendLocked cv io l env)"

definition link_Receive :: "curve \<Rightarrow> 'c conn \<Rightarrow> link \<Rightarrow> draw \<Rightarrow> ('c world, envelope) go" where
  "link_Receive cv io l d =
     go_bind (on_conn (conn_Recv io)) (\<lambda>raw.
     go_bind (go_of (DecodeFrame raw)) (\<lambda>frame.
     go_bind (on_node (on_sessions (\<lambda>m. session_Decrypt cv m (lk_session l) (f_payload frame) d))) (\<lambda>pt.
     go_of (DecodeEnvelope pt))))"

definition link_Close :: "'c conn \<Rightarrow> ('c world, unit) go" where
  "link_Close io = on_conn (conn_Close io)"

section \<open>Offline delivery\<close>

definition SendOffline ::
    "curve \<Rightarrow> prekey_bundle \<Rightarrow> envelope \<Rightarrow> draw \<Rightarrow> draw \<Rightarrow> (node \<times> mailbox, unit) go" where
  "SendOffline cv bundle env dEph dRatchet =
     go_bind (on_fst (on_sessions (\<lambda>m. session_Initiate cv m bundle dEph dRatchet))) (\<lambda>(p, hs).
     go_bind (go_of (envelope_Encode env)) (\<lambda>pt.
     go_bind (on_fst (on_sessions (\<lambda>m. session_Encrypt cv m p pt))) (\<lambda>ct.
     go_bind (go_of (EncodeFrame \<lparr> f_bundle = None, f_handshake = Some hs, f_payload = ct \<rparr>)) (\<lambda>frame.
     on_snd (go_call (\<lambda>mb. mb_Put mb (Fingerprint (b_identitySign bundle)) frame))))))"

fun fetch_loop :: "curve \<Rightarrow> (nat \<Rightarrow> draw) \<Rightarrow> nat \<Rightarrow> bytes list \<Rightarrow> envelope list \<Rightarrow> (node, envelope list) go" where
  "fetch_loop cv d i [] out = go_ret out"
| "fetch_loop cv d i (raw # raws) out =
     go_bind (go_of (DecodeFrame raw)) (\<lambda>frame.
     (case f_handshake frame of
        None \<Rightarrow> go_err ''node: offline message missing handshake''
      | Some hs \<Rightarrow>
          go_bind (on_sessions (\<lambda>m. session_Accept cv m hs)) (\<lambda>p.
          go_bind (on_sessions (\<lambda>m. session_Decrypt cv m p (f_payload frame) (d i))) (\<lambda>pt.
          go_bind (go_of (DecodeEnvelope pt)) (\<lambda>env.
          fetch_loop cv d (Suc i) raws (out @ [env]))))))"

definition FetchOffline :: "curve \<Rightarrow> (nat \<Rightarrow> draw) \<Rightarrow> (node \<times> mailbox, envelope list) go" where
  "FetchOffline cv d =
     go_bind (go_get (\<lambda>(n, _). account_Fingerprint (nd_account n))) (\<lambda>fp.
     go_bind (on_snd (go_call (\<lambda>mb. mb_Fetch mb fp))) (\<lambda>raws.
     on_fst (fetch_loop cv d 0 raws [])))"

section \<open>Files\<close>

definition offer_json :: "offer \<Rightarrow> json" where
  "offer_json f =
     JObj [(''fileId'', JStr (o_fileID f)), (''name'', JStr (o_name f)), (''size'', je_uint (o_size f)),
           (''mime'', JStr (o_mime f)), (''chunkSize'', je_uint (o_chunkSize f)), (''hash'', je_bytes (o_hash f)),
           (''transferKey'', je_bytes (o_transferKey f))]"

definition zero_offer :: offer where
  "zero_offer = \<lparr> o_fileID = [], o_name = [], o_size = 0, o_mime = [], o_chunkSize = 0, o_hash = [], o_transferKey = [] \<rparr>"

definition offer_fields :: "offer jfields" where
  "offer_fields =
     [jfield ''fileId'' o_fileID (\<lambda>v f. f\<lparr>o_fileID := v\<rparr>) jd_string,
      jfield ''name'' o_name (\<lambda>v f. f\<lparr>o_name := v\<rparr>) jd_string,
      jfield ''size'' o_size (\<lambda>v f. f\<lparr>o_size := v\<rparr>) jd_uint,
      jfield ''mime'' o_mime (\<lambda>v f. f\<lparr>o_mime := v\<rparr>) jd_string,
      jfield ''chunkSize'' o_chunkSize (\<lambda>v f. f\<lparr>o_chunkSize := v\<rparr>) jd_uint,
      jfield ''hash'' o_hash (\<lambda>v f. f\<lparr>o_hash := v\<rparr>) jd_bytes,
      jfield ''transferKey'' o_transferKey (\<lambda>v f. f\<lparr>o_transferKey := v\<rparr>) jd_bytes]"

definition chunk_json :: "chunk \<Rightarrow> json" where
  "chunk_json c = JObj [(''fileId'', JStr (c_fileID c)), (''index'', je_uint (c_index c)), (''data'', je_bytes (c_data c))]"

definition zero_chunk :: chunk where
  "zero_chunk = \<lparr> c_fileID = [], c_index = 0, c_data = [] \<rparr>"

definition chunk_fields :: "chunk jfields" where
  "chunk_fields =
     [jfield ''fileId'' c_fileID (\<lambda>v c. c\<lparr>c_fileID := v\<rparr>) jd_string,
      jfield ''index'' c_index (\<lambda>v c. c\<lparr>c_index := v\<rparr>) jd_uint,
      jfield ''data'' c_data (\<lambda>v c. c\<lparr>c_data := v\<rparr>) jd_bytes]"

text \<open>\<open>mustJSON\<close> panics when the value cannot be marshalled; offers and chunks always can.\<close>

definition mustJSON :: "json \<Rightarrow> bytes" where
  [simp]: "mustJSON v = marshal v"

definition envFor :: "string \<Rightarrow> string \<Rightarrow> json \<Rightarrow> bytes \<Rightarrow> gotime \<Rightarrow> envelope" where
  "envFor t convID v idBytes now = NewEnvelope t convID (Some (mustJSON v)) idBytes now"

fun send_chunks ::
    "curve \<Rightarrow> 'c conn \<Rightarrow> link \<Rightarrow> (nat \<Rightarrow> flush_env) \<Rightarrow> string \<Rightarrow> (nat \<Rightarrow> bytes) \<Rightarrow> (nat \<Rightarrow> gotime) \<Rightarrow> nat \<Rightarrow> chunk list \<Rightarrow> ('c world, unit) go" where
  "send_chunks cv io l fe convID ids now i [] = go_ret ()"
| "send_chunks cv io l fe convID ids now i (c # cs) =
     go_bind (link_SendEnvelope cv io l (fe i) (envFor TypeFileChunk convID (chunk_json c) (ids i) (now i))) (\<lambda>_.
     send_chunks cv io l fe convID ids now (Suc i) cs)"

definition link_SendFile ::
    "curve \<Rightarrow> 'c conn \<Rightarrow> link \<Rightarrow> (nat \<Rightarrow> flush_env) \<Rightarrow> string \<Rightarrow> string \<Rightarrow> string \<Rightarrow> bytes \<Rightarrow> bytes result \<Rightarrow> bytes \<Rightarrow>
     (nat \<Rightarrow> bytes) \<Rightarrow> (nat \<Rightarrow> gotime) \<Rightarrow> ('c world, offer) go" where
  "link_SendFile cv io l fe convID name mime data keyDraw fileID ids now =
     go_bind (go_of (Split name mime data 0 keyDraw fileID)) (\<lambda>(off, chunks).
     go_bind (link_SendEnvelope cv io l (fe 0) (envFor TypeFileOffer convID (offer_json off) (ids 0) (now 0))) (\<lambda>_.
     go_bind (send_chunks cv io l fe convID ids now 1 chunks) (\<lambda>_.
     go_ret off)))"

definition ParseFileOffer :: "envelope \<Rightarrow> offer result" where
  "ParseFileOffer env =
     (if e_type env \<noteq> TypeFileOffer then Inl ''node: expected file offer''
      else decode_json (json_into offer_fields) (slice_list (e_body env)) zero_offer)"

text \<open>The number of chunks \<open>ReceiveFileBody\<close> expects, in the 64-bit arithmetic of the source: the sum wraps,
  and the conversion to \<open>int\<close> reads the result as signed. \<open>make\<close> panics on a negative capacity and on one
  beyond the address space (a \<open>Chunk\<close> has 48 bytes); a panic does not return.\<close>

definition num_chunks :: "offer \<Rightarrow> int" where
  "num_chunks off =
     (if 0 < o_chunkSize off
      then sint ((o_size off + ucast (o_chunkSize off) - 1) div ucast (o_chunkSize off) :: u64)
      else 0)"

definition make_ok :: "int \<Rightarrow> bool" where
  "make_ok n \<longleftrightarrow> 0 \<le> n \<and> n * 48 \<le> 2 ^ 48"

fun recv_chunks :: "curve \<Rightarrow> 'c conn \<Rightarrow> link \<Rightarrow> (nat \<Rightarrow> draw) \<Rightarrow> nat \<Rightarrow> nat \<Rightarrow> chunk list \<Rightarrow> ('c world, chunk list) go" where
  "recv_chunks cv io l d i 0 chunks = go_ret chunks"
| "recv_chunks cv io l d i (Suc n) chunks =
     go_bind (link_Receive cv io l (d i)) (\<lambda>cenv.
     go_bind (go_of (decode_json (json_into chunk_fields) (slice_list (e_body cenv)) zero_chunk)) (\<lambda>c.
     recv_chunks cv io l d (Suc i) n (chunks @ [c])))"

definition ReceiveFileBody :: "curve \<Rightarrow> 'c conn \<Rightarrow> link \<Rightarrow> (nat \<Rightarrow> draw) \<Rightarrow> offer \<Rightarrow> ('c world, bytes) go" where
  "ReceiveFileBody cv io l d off w =
     (if make_ok (num_chunks off)
      then go_bind (recv_chunks cv io l d 0 (nat (num_chunks off)) []) (\<lambda>chunks. go_of (Reassemble off chunks)) w
      else None)"

definition ReceiveFile :: "curve \<Rightarrow> 'c conn \<Rightarrow> link \<Rightarrow> draw \<Rightarrow> (nat \<Rightarrow> draw) \<Rightarrow> ('c world, offer \<times> bytes) go" where
  "ReceiveFile cv io l d0 d =
     go_bind (link_Receive cv io l d0) (\<lambda>env.
     go_bind (go_of (ParseFileOffer env)) (\<lambda>off.
     go_bind (ReceiveFileBody cv io l d off) (\<lambda>data. go_ret (off, data))))"

end
