(* ===== verification/Duplex.thy ===== *)
theory Duplex
  imports Transport
begin

text \<open>
  Both ends of a connection together. The locale \<open>duplex\<close> is what two nodes rely on when they talk over
  one: what one end sends is what the other end receives, in order. The in-process pipe keeps it, and so
  does the WebRTC data channel: two connection objects of \<open>pion.go\<close> (\<open>newPionConn\<close>, \<open>Send\<close>, \<open>Recv\<close>, the
  \<open>OnMessage\<close> callback) joined by a reliable, ordered channel that holds what the receiving callback has
  no room for.
\<close>

section \<open>The contract of the two ends\<close>

lemma other_end_iff: "e' \<noteq> e \<longleftrightarrow> e' = other_end e"
  by (cases e; cases e') simp_all

locale duplex =
  fixes io :: "pipe_end \<Rightarrow> 'c conn"
    and queue :: "'c \<Rightarrow> pipe_end \<Rightarrow> bytes list"
    and up :: "'c \<Rightarrow> bool"
    and room :: "'c \<Rightarrow> pipe_end \<Rightarrow> bool"
  assumes send_queued: "up c \<Longrightarrow> room c e \<Longrightarrow>
      \<exists>c'. conn_Send (io e) b c = Some (Inr (), c') \<and> up c' \<and> queue c' = (queue c)(e := queue c e @ [b])"
    and send_waits: "up c \<Longrightarrow> \<not> room c e \<Longrightarrow> conn_Send (io e) b c = None"
    and recv_queued: "up c \<Longrightarrow> queue c (other_end e) = b # bs \<Longrightarrow>
      \<exists>c'. conn_Recv (io e) c = Some (Inr b, c') \<and> up c' \<and> queue c' = (queue c)(other_end e := bs)"
    and recv_waits: "up c \<Longrightarrow> queue c (other_end e) = [] \<Longrightarrow> conn_Recv (io e) c = None"
    and room_empty: "queue c e = [] \<Longrightarrow> room c e"
begin

text \<open>One message over an idle connection.\<close>

lemma pass:
  assumes "up c" "queue c e = []"
  obtains c1 c2 where "conn_Send (io e) b c = Some (Inr (), c1)" "up c1" "queue c1 = (queue c)(e := [b])"
    "conn_Recv (io (other_end e)) c1 = Some (Inr b, c2)" "up c2" "queue c2 = queue c"
proof -
  obtain c1 where c1: "conn_Send (io e) b c = Some (Inr (), c1)" "up c1" "queue c1 = (queue c)(e := [b])"
    using send_queued [OF assms(1) room_empty [OF assms(2)], of b] assms(2) by auto
  then have "queue c1 (other_end (other_end e)) = b # []" by simp
  from recv_queued [OF c1(2) this] obtain c2 where c2: "conn_Recv (io (other_end e)) c1 = Some (Inr b, c2)" "up c2"
    "queue c2 = (queue c1)(e := [])" by auto
  have "queue c2 = queue c" using c1(3) c2(3) assms(2) by auto
  then show ?thesis by (rule that [OF c1 c2(1,2)])
qed

end

section \<open>The pipe\<close>

lemma pipe_out_set_out: "(\<lambda>e'. pipe_out e' (set_out e q p)) = (\<lambda>e'. pipe_out e' p)(e := q)"
  by (auto simp: fun_eq_iff pipe_out_other)

interpretation pipe_duplex: duplex "\<lambda>e. pipe_conn (pick e) e" "\<lambda>p e. pipe_out e p" "\<lambda>p. \<not> pp_done p"
    "\<lambda>p e. length (pipe_out e p) < pipe_cap"
  for pick
  by unfold_locales
    (auto simp: pipe_Send_def pipe_Recv_def pipe_in_out set_in_out pipe_out_set_out pipe_cap_def Let_def)

lemma pipe_eqI: "(\<lambda>e. pipe_out e p) = (\<lambda>e. pipe_out e q) \<Longrightarrow> pp_done p = pp_done q \<Longrightarrow> p = (q :: pipe)"
  by (cases p; cases q) (auto simp: fun_eq_iff pipe_out_def split: pipe_end.splits)

section \<open>The data channel\<close>

text \<open>\<open>dn_flight e\<close> is what end \<open>e\<close> has handed to the library and the callback at the other end has not taken:
  \<open>OnMessage\<close> waits while its queue of 64 messages is full.\<close>

record data_channel =
  dn_conn :: "pipe_end \<Rightarrow> pionConn"
  dn_flight :: "pipe_end \<Rightarrow> bytes list"

fun callbacks :: "bytes list \<Rightarrow> pionConn \<Rightarrow> bytes list \<times> pionConn" where
  "callbacks [] c = ([], c)"
| "callbacks (b # bs) c = (case pion_onMessage False b c of None \<Rightarrow> (b # bs, c) | Some c' \<Rightarrow> callbacks bs c')"

definition dn_deliver :: "pipe_end \<Rightarrow> data_channel \<Rightarrow> data_channel" where
  "dn_deliver e d =
     (case callbacks (dn_flight d e) (dn_conn d (other_end e)) of (rest, c) \<Rightarrow>
        d\<lparr> dn_conn := (dn_conn d)(other_end e := c), dn_flight := (dn_flight d)(e := rest) \<rparr>)"

definition dn_put :: "pipe_end \<Rightarrow> pionConn \<Rightarrow> data_channel \<Rightarrow> data_channel" where
  "dn_put e c d = d\<lparr> dn_conn := (dn_conn d)(e := c) \<rparr>"

definition dn_Send :: "unit result \<Rightarrow> pipe_end \<Rightarrow> bytes \<Rightarrow> (data_channel, unit) go" where
  "dn_Send dc e b d =
     (case pion_Send dc b (dn_conn d e) of
        None \<Rightarrow> None
      | Some (Inl err, c) \<Rightarrow> Some (Inl err, dn_put e c d)
      | Some (Inr _, c) \<Rightarrow>
          Some (Inr (), dn_deliver e (dn_put e c (d\<lparr> dn_flight := (dn_flight d)(e := dn_flight d e @ [b]) \<rparr>))))"

definition dn_Recv :: "pipe_end \<Rightarrow> (data_channel, bytes) go" where
  "dn_Recv e d =
     (case pion_Recv (dn_conn d e) of
        None \<Rightarrow> None
      | Some (r, c) \<Rightarrow> Some (r, dn_deliver (other_end e) (dn_put e c d)))"

definition dn_Close :: "unit result \<Rightarrow> pipe_end \<Rightarrow> (data_channel, unit) go" where
  "dn_Close pc e d =
     (case pion_Close pc (dn_conn d e) of None \<Rightarrow> None | Some (r, c) \<Rightarrow> Some (r, dn_put e c d))"

definition data_conn :: "unit result \<Rightarrow> unit result \<Rightarrow> pipe_end \<Rightarrow> data_channel conn" where
  "data_conn dc pc e = \<lparr> conn_Send = dn_Send dc e, conn_Recv = dn_Recv e, conn_Close = dn_Close pc e \<rparr>"

definition dn_queue :: "data_channel \<Rightarrow> pipe_end \<Rightarrow> bytes list" where
  "dn_queue d e = pc_in (dn_conn d (other_end e)) @ dn_flight d e"

definition dn_up :: "data_channel \<Rightarrow> bool" where
  "dn_up d \<longleftrightarrow> (\<forall>e. \<not> pc_done (dn_conn d e) \<and> (dn_flight d e \<noteq> [] \<longrightarrow> pipe_cap \<le> length (pc_in (dn_conn d (other_end e)))))"

lemma callbacks_run:
  "callbacks bs c = (rest, c') \<Longrightarrow> \<not> pc_done c \<Longrightarrow>
   pc_in c' @ rest = pc_in c @ bs \<and> (rest \<noteq> [] \<longrightarrow> pipe_cap \<le> length (pc_in c')) \<and> \<not> pc_done c' \<and> pc_sent c' = pc_sent c"
proof (induction bs arbitrary: c)
  case (Cons b bs)
  show ?case
  proof (cases "length (pc_in c) < pipe_cap")
    case True
    then have "callbacks bs (c\<lparr> pc_in := pc_in c @ [b] \<rparr>) = (rest, c')" using Cons.prems by (simp add: pion_onMessage_def)
    from Cons.IH [OF this] Cons.prems(2) show ?thesis by simp
  next
    case False
    then have "rest = b # bs" "c' = c" using Cons.prems by (simp_all add: pion_onMessage_def)
    then show ?thesis using Cons.prems(2) False by simp
  qed
qed simp

text \<open>What holds of both ends is checked at one end and at the other.\<close>

lemma both_ends: "(\<forall>e'. P e') \<longleftrightarrow> P e \<and> P (other_end e)"
  by (metis other_end_iff)

lemma ends_eqI: "f e = g e \<Longrightarrow> f (other_end e) = g (other_end e) \<Longrightarrow> f = g"
  by (rule ext) (metis other_end_iff)

lemma dn_up_ends:
  "dn_up d \<longleftrightarrow> \<not> pc_done (dn_conn d e) \<and> \<not> pc_done (dn_conn d (other_end e)) \<and>
     (dn_flight d e \<noteq> [] \<longrightarrow> pipe_cap \<le> length (pc_in (dn_conn d (other_end e)))) \<and>
     (dn_flight d (other_end e) \<noteq> [] \<longrightarrow> pipe_cap \<le> length (pc_in (dn_conn d e)))"
  unfolding dn_up_def both_ends [of _ e] by auto

lemma dn_deliver_run:
  assumes "\<not> pc_done (dn_conn d e)" "\<not> pc_done (dn_conn d (other_end e))"
    "dn_flight d (other_end e) \<noteq> [] \<Longrightarrow> pipe_cap \<le> length (pc_in (dn_conn d e))"
  shows "dn_up (dn_deliver e d) \<and> dn_queue (dn_deliver e d) = dn_queue d"
proof -
  obtain rest c where c: "callbacks (dn_flight d e) (dn_conn d (other_end e)) = (rest, c)" by force
  note r = callbacks_run [OF c assms(2)]
  have "dn_up (dn_deliver e d)" using r assms by (simp add: dn_up_ends [of _ e] dn_deliver_def c)
  moreover have "dn_queue (dn_deliver e d) = dn_queue d"
    by (rule ends_eqI [of _ e]) (use r in \<open>simp_all add: dn_queue_def dn_deliver_def c\<close>)
  ultimately show ?thesis by blast
qed

interpretation data_duplex: duplex "data_conn (Inr ()) pc" dn_queue dn_up "\<lambda>_ _. True"
  for pc
proof unfold_locales
  fix d e b
  assume u: "dn_up d"
  let ?c = "dn_conn d e"
  let ?d = "dn_put e (?c\<lparr> pc_sent := pc_sent ?c @ [b] \<rparr>) (d\<lparr> dn_flight := (dn_flight d)(e := dn_flight d e @ [b]) \<rparr>)"
  have "dn_up (dn_deliver e ?d) \<and> dn_queue (dn_deliver e ?d) = dn_queue ?d"
    by (rule dn_deliver_run) (use u in \<open>simp_all add: dn_up_ends [of _ e] dn_put_def\<close>)
  moreover have "dn_queue ?d = (dn_queue d)(e := dn_queue d e @ [b])"
    by (rule ends_eqI [of _ e]) (simp_all add: dn_queue_def dn_put_def)
  moreover have "conn_Send (data_conn (Inr ()) pc e) b d = Some (Inr (), dn_deliver e ?d)"
    using u by (simp add: data_conn_def dn_Send_def pion_Send_def dn_up_def)
  ultimately show "\<exists>d'. conn_Send (data_conn (Inr ()) pc e) b d = Some (Inr (), d') \<and> dn_up d' \<and>
      dn_queue d' = (dn_queue d)(e := dn_queue d e @ [b])" by auto
next
  fix d e b bs
  assume u: "dn_up d" and q: "dn_queue d (other_end e) = b # bs"
  let ?c = "dn_conn d e"
  have "pc_in ?c \<noteq> []" using u q by (auto simp: dn_queue_def dn_up_ends [of _ e] pipe_cap_def)
  then obtain cs where cs: "pc_in ?c = b # cs" "bs = cs @ dn_flight d (other_end e)"
    using q by (cases "pc_in ?c") (simp_all add: dn_queue_def)
  let ?d = "dn_put e (?c\<lparr> pc_in := cs \<rparr>) d"
  have "dn_up (dn_deliver (other_end e) ?d) \<and> dn_queue (dn_deliver (other_end e) ?d) = dn_queue ?d"
    by (rule dn_deliver_run) (use u in \<open>simp_all add: dn_up_ends [of _ e] dn_put_def\<close>)
  moreover have "dn_queue ?d = (dn_queue d)(other_end e := bs)"
    by (rule ends_eqI [of _ e]) (use cs in \<open>simp_all add: dn_queue_def dn_put_def\<close>)
  ultimately show "\<exists>d'. conn_Recv (data_conn (Inr ()) pc e) d = Some (Inr b, d') \<and> dn_up d' \<and>
      dn_queue d' = (dn_queue d)(other_end e := bs)"
    using cs by (simp add: data_conn_def dn_Recv_def pion_Recv_def)
next
  fix d e
  assume "dn_up d" "dn_queue d (other_end e) = []"
  then show "conn_Recv (data_conn (Inr ()) pc e) d = None"
    by (simp add: data_conn_def dn_Recv_def pion_Recv_def dn_queue_def dn_up_def)
qed simp_all

section \<open>A connection that is being fed\<close>

text \<open>One end of the channel, with the messages on their way to it: while it is open, \<open>OnMessage\<close> takes in as many
  of them as its queue has room for before each \<open>Recv\<close>; once it is closed it takes no more. So a reader can take more messages
  in a row than the queue holds.\<close>

record fedConn =
  fc_conn :: pionConn
  fc_way :: "bytes list"

definition fed_take :: "fedConn \<Rightarrow> fedConn" where
  "fed_take c =
     (if pc_done (fc_conn c) then c
      else case callbacks (fc_way c) (fc_conn c) of (rest, p) \<Rightarrow> \<lparr> fc_conn = p, fc_way = rest \<rparr>)"

definition fed_on :: "(pionConn, 'a) go \<Rightarrow> (fedConn, 'a) go" where
  "fed_on m c = map_option (\<lambda>(x, p). (x, c\<lparr> fc_conn := p \<rparr>)) (m (fc_conn c))"

definition fed_conn :: "unit result \<Rightarrow> unit result \<Rightarrow> fedConn conn" where
  "fed_conn dc pc =
     \<lparr> conn_Send = (\<lambda>b. fed_on (pion_Send dc b)), conn_Recv = (\<lambda>c. fed_on pion_Recv (fed_take c)),
       conn_Close = fed_on (pion_Close pc) \<rparr>"

definition fed_arrived :: "fedConn \<Rightarrow> bytes list" where
  "fed_arrived c = pc_in (fc_conn c) @ (if pc_done (fc_conn c) then [] else fc_way c)"

lemma fed_take_run:
  assumes "\<not> pc_done (fc_conn c)"
  shows "fed_arrived (fed_take c) = fed_arrived c \<and> \<not> pc_done (fc_conn (fed_take c)) \<and>
    pc_sent (fc_conn (fed_take c)) = pc_sent (fc_conn c) \<and> (pc_in (fc_conn (fed_take c)) = [] \<longrightarrow> fc_way (fed_take c) = [])"
proof -
  obtain rest p where p: "callbacks (fc_way c) (fc_conn c) = (rest, p)" by force
  from callbacks_run [OF p assms] show ?thesis using assms by (auto simp: fed_take_def fed_arrived_def p pipe_cap_def)
qed

lemma fed_recv:
  "conn_Recv (fed_conn dc pc) c =
     (case pc_in (fc_conn (fed_take c)) of
        b # bs \<Rightarrow> Some (Inr b, (fed_take c)\<lparr> fc_conn := (fc_conn (fed_take c))\<lparr> pc_in := bs \<rparr> \<rparr>)
      | [] \<Rightarrow> if pc_done (fc_conn (fed_take c)) then Some (Inl ErrClosed, fed_take c) else None)"
  by (simp add: fed_conn_def fed_on_def pion_Recv_def split: list.split)

interpretation fed_conn: conn_flow "fed_conn dc pc" fed_arrived "\<lambda>c. pc_sent (fc_conn c)" "\<lambda>c. pc_done (fc_conn c)" for dc pc
proof unfold_locales
  fix c b bs
  assume a: "fed_arrived c = b # bs"
  show "\<exists>c'. conn_Recv (fed_conn dc pc) c = Some (Inr b, c') \<and> fed_arrived c' = bs \<and>
      pc_sent (fc_conn c') = pc_sent (fc_conn c) \<and> pc_done (fc_conn c') = pc_done (fc_conn c)"
  proof (cases "pc_done (fc_conn c)")
    case True
    then show ?thesis using a by (simp add: fed_recv fed_take_def fed_arrived_def)
  next
    case False
    note t = fed_take_run [OF False]
    then obtain cs where "pc_in (fc_conn (fed_take c)) = b # cs" "cs @ fc_way (fed_take c) = bs"
      using a by (cases "pc_in (fc_conn (fed_take c))") (auto simp: fed_arrived_def)
    then show ?thesis using t False by (simp add: fed_recv) (simp add: fed_arrived_def)
  qed
next
  fix c assume "fed_arrived c = []" "pc_done (fc_conn c)"
  then show "conn_Recv (fed_conn dc pc) c = Some (Inl ErrClosed, c)" by (simp add: fed_recv fed_take_def fed_arrived_def)
next
  fix c assume "fed_arrived c = []" "\<not> pc_done (fc_conn c)"
  then show "conn_Recv (fed_conn dc pc) c = None" by (simp add: fed_recv fed_take_def fed_arrived_def)
qed (auto simp: fed_conn_def fed_on_def pion_Send_def fed_arrived_def split: if_splits sum.splits)

end
