(* ===== verification/Ratchet_Receive.thy ===== *)
theory Ratchet_Receive
  imports Ratchet
begin

text \<open>
  What the receiving side of the ratchet does with a genuine message, in the three cases of
  \<open>ratchet.decrypt\<close>: a message whose key was stored when it was skipped, a message of the current
  receiving chain, and the first message of a new chain, which makes the receiver take a DH ratchet
  step. A \<open>packet\<close> is a message as its sender saw it: the header fields, the message key and the
  plaintext; \<open>p_wire\<close> is what \<open>ratchet.encrypt\<close> puts on the wire for it.
\<close>

record packet =
  p_dh :: bytes
  p_pn :: u32
  p_n :: u32
  p_mk :: bytes
  p_pt :: bytes

definition p_header :: "packet \<Rightarrow> ratchetHeader" where
  "p_header p = \<lparr> h_DH = Some (p_dh p), h_PN = p_pn p, h_N = p_n p \<rparr>"

definition p_wire :: "bytes \<Rightarrow> packet \<Rightarrow> bytes" where
  "p_wire ad p = encodeMessage (p_header p) (seal_with (p_mk p) (ad @ header_bytes (p_header p)) (p_pt p))"

abbreviation p_key :: "packet \<Rightarrow> string" where
  "p_key p \<equiv> skipped_key (Some (p_dh p)) (p_n p)"

lemma p_header_simps [simp]: "h_DH (p_header p) = Some (p_dh p)" "h_PN (p_header p) = p_pn p" "h_N (p_header p) = p_n p"
  by (simp_all add: p_header_def)

lemma encrypt_packet:
  "ratchet_encrypt cv r pt =
     (Inr (p_wire (r_ad r) \<lparr> p_dh = x25519_base cv (r_dhs r), p_pn = r_pn r, p_n = r_ns r,
                             p_mk = msg_key (r_cks r) 0, p_pt = pt \<rparr>),
      r\<lparr> r_cks := chain_key (r_cks r) 1, r_ns := r_ns r + 1 \<rparr>)"
  by (simp add: ratchet_encrypt_def chainStep_0 p_wire_def p_header_def Let_def)

section \<open>A stored key\<close>

lemma decrypt_skipped:
  "r_skipped r (p_key p) = Some (p_mk p) \<Longrightarrow>
     ratchet_decrypt cv r (p_wire (r_ad r) p) d =
       (Inr (p_pt p), r\<lparr> r_skipped := (r_skipped r)(p_key p := None) \<rparr>)"
  by (simp add: ratchet_decrypt_def p_wire_def trySkipped_def)

section \<open>The current chain\<close>

text \<open>\<open>skip\<close> stays inside its window; a missing chain skips nothing.\<close>

definition skippable :: "ratchet \<Rightarrow> u32 \<Rightarrow> bool" where
  "skippable r until \<longleftrightarrow> (r_ckr r = [] \<longrightarrow> until = 0) \<and> unat until \<le> unat (r_nr r) + 1000"

lemma ratchet_skip_ok:
  assumes "skippable r until" "unat (r_nr r) + 1000 < 2 ^ 32"
  shows "ratchet_skip r until = (Inr (), skip_loop until r)"
proof -
  have "unat (r_nr r + maxSkip) = unat (r_nr r) + 1000"
    using assms(2) unat_add_const [of "r_nr r" 1000] by (simp add: maxSkip_def)
  with assms show ?thesis
    by (auto simp: ratchet_skip_def skippable_def word_less_nat_alt skip_loop_done)
qed

definition advance :: "ratchet \<Rightarrow> u32 \<Rightarrow> ratchet" where
  "advance r n = (let r' = skip_loop n r in r'\<lparr> r_ckr := chain_key (r_ckr r') 1, r_nr := r_nr r' + 1 \<rparr>)"

lemma decrypt_chain_ok:
  assumes "skippable r (p_n p)" "unat (r_nr r) + 1000 < 2 ^ 32" "r_nr r \<le> p_n p"
    and mk: "p_mk p = msg_key (r_ckr r) (unat (p_n p) - unat (r_nr r))"
    and ct: "ct = seal_with (p_mk p) (r_ad r @ header_bytes (p_header p)) (p_pt p)"
  shows "decrypt_chain r (p_header p) ct = (Inr (p_pt p), advance r (p_n p))"
proof -
  have ad: "r_ad (skip_loop (p_n p) r) = r_ad r"
    using skip_loop_frame [of "p_n p" r] by auto
  have "msg_key (r_ckr (skip_loop (p_n p) r)) 0 = p_mk p"
    using assms(3) mk by (simp add: skip_loop_ckr msg_key_add)
  with ad ct show ?thesis
    by (simp add: decrypt_chain_def ratchet_skip_ok [OF assms(1,2)] chainStep_0 advance_def Let_def)
qed

lemma decrypt_current:
  assumes "r_dhr r = Some (p_dh p)" "r_skipped r (p_key p) = None"
    "skippable r (p_n p)" "unat (r_nr r) + 1000 < 2 ^ 32" "r_nr r \<le> p_n p"
    "p_mk p = msg_key (r_ckr r) (unat (p_n p) - unat (r_nr r))"
  shows "ratchet_decrypt cv r (p_wire (r_ad r) p) d = (Inr (p_pt p), advance r (p_n p))"
  using assms(1,2) decrypt_chain_ok [OF assms(3-6) refl]
  by (simp add: ratchet_decrypt_def p_wire_def trySkipped_def)

text \<open>Where \<open>skip\<close> does nothing the head of the chain is used, whatever the position in the header, and spent
  whatever the outcome.\<close>

lemma decrypt_at_head:
  assumes "r_dhr r = Some (p_dh p)" "r_skipped r (p_key p) = None" "ratchet_skip r (p_n p) = (Inr (), r)"
  shows "ratchet_decrypt cv r (encodeMessage (p_header p) ct) d =
    (aeadOpen (msg_key (r_ckr r) 0) ct (r_ad r @ header_bytes (p_header p)),
     r\<lparr> r_ckr := chain_key (r_ckr r) 1, r_nr := r_nr r + 1 \<rparr>)"
  using assms by (simp add: ratchet_decrypt_def trySkipped_def decrypt_chain_def chainStep_0 Let_def)

lemma skip_behind: "until \<le> r_nr r \<Longrightarrow> unat (r_nr r) + 1000 < 2 ^ 32 \<Longrightarrow> ratchet_skip r until = (Inr (), r)"
  using ratchet_skip_ok [of r until] skip_loop_done [of r until]
  by (cases "r_ckr r = []") (simp add: ratchet_skip_def, simp add: skippable_def word_le_nat_alt word_less_nat_alt)

lemma advance_frame:
  "r_dhs (advance r n) = r_dhs r" "r_dhr (advance r n) = r_dhr r" "r_rk (advance r n) = r_rk r"
  "r_cks (advance r n) = r_cks r" "r_ns (advance r n) = r_ns r" "r_pn (advance r n) = r_pn r"
  "r_ad (advance r n) = r_ad r"
  using skip_loop_frame [of n r] by (auto simp: advance_def Let_def)

lemma advance_nr: "r_nr r \<le> n \<Longrightarrow> r_nr (advance r n) = n + 1"
  by (simp add: advance_def Let_def skip_loop_nr)

lemma advance_ckr: "r_nr r \<le> n \<Longrightarrow> r_ckr (advance r n) = chain_key (r_ckr r) (Suc (unat n - unat (r_nr r)))"
  by (simp add: advance_def Let_def skip_loop_ckr chain_key_add)

lemma skip_loop_lookup:
  "r_skipped (skip_loop n r) (skipped_key dh m) =
     (if slice_list dh = slice_list (r_dhr r) \<and> r_nr r \<le> m \<and> m < n
      then Some (msg_key (r_ckr r) (unat m - unat (r_nr r))) else r_skipped r (skipped_key dh m))"
proof (cases "slice_list dh = slice_list (r_dhr r)")
  case True
  then have k: "skipped_key dh m = skipped_key (r_dhr r) m" by simp
  show ?thesis unfolding k using True by (simp add: skip_loop_skipped)
next
  case False
  then show ?thesis by (simp add: skip_loop_other)
qed

lemma advance_skipped:
  "r_skipped (advance r n) (skipped_key dh m) =
     (if slice_list dh = slice_list (r_dhr r) \<and> r_nr r \<le> m \<and> m < n
      then Some (msg_key (r_ckr r) (unat m - unat (r_nr r))) else r_skipped r (skipped_key dh m))"
  using skip_loop_lookup [of n r dh m] by (simp add: advance_def Let_def)

lemmas advance_simps = advance_frame advance_nr advance_ckr

section \<open>A new chain\<close>

text \<open>The state a DH ratchet step leaves.\<close>

definition turned :: "curve \<Rightarrow> ratchet \<Rightarrow> bytes \<Rightarrow> bytes \<Rightarrow> ratchet" where
  "turned cv r dh k =
     (case kdfRoot (r_rk r) (x25519_mult cv (r_dhs r) dh) of (rk, ckr) \<Rightarrow>
      case kdfRoot rk (x25519_mult cv k dh) of (rk', cks) \<Rightarrow>
        r\<lparr> r_pn := r_ns r, r_ns := 0, r_nr := 0, r_dhr := Some dh, r_rk := rk', r_ckr := ckr,
           r_dhs := k, r_cks := cks \<rparr>)"

lemma dhRatchet_ok:
  assumes cv: "curve_ok cv" and l: "length (r_dhs r) = 32" "length k = 32" "length x = 32"
  shows "dhRatchet cv r (Some (x25519_base cv x)) (Inr k) = (Inr (), turned cv r (x25519_base cv x) k)"
proof -
  have "ratchet_dh cv s (x25519_base cv x) = Inr (x25519_mult cv (r_dhs s) (x25519_base cv x))"
    if "length (r_dhs s) = 32" for s
    using that l(3) cv by (simp add: ratchet_dh_def ecdh_shared_ok)
  with l show ?thesis by (simp add: dhRatchet_def turned_def Let_def case_prod_beta)
qed

lemma decrypt_new_chain:
  assumes cv: "curve_ok cv" and l: "length (r_dhs r) = 32" "length k = 32" "length x = 32"
    and dh: "p_dh p = x25519_base cv x" "r_dhr r \<noteq> Some (p_dh p)" "r_skipped r (p_key p) = None"
    and pn: "skippable r (p_pn p)" "unat (r_nr r) + 1000 < 2 ^ 32"
    and n: "unat (p_n p) \<le> 1000"
    and mk: "p_mk p = msg_key (snd (kdfRoot (r_rk r) (x25519_mult cv (r_dhs r) (p_dh p)))) (unat (p_n p))"
  shows "ratchet_decrypt cv r (p_wire (r_ad r) p) (Inr k) =
    (Inr (p_pt p), advance (turned cv (skip_loop (p_pn p) r) (p_dh p) k) (p_n p))"
proof -
  let ?r = "skip_loop (p_pn p) r"
  let ?t = "turned cv ?r (p_dh p) k"
  obtain ck nr sk where fr: "?r = r\<lparr> r_ckr := ck, r_nr := nr, r_skipped := sk \<rparr>"
    using skip_loop_frame by blast
  then have same: "r_dhs ?r = r_dhs r" "r_rk ?r = r_rk r" "r_ad ?r = r_ad r" by simp_all
  have ckr: "r_ckr ?t = snd (kdfRoot (r_rk r) (x25519_mult cv (r_dhs r) (p_dh p)))" "r_nr ?t = 0" "r_ad ?t = r_ad r"
    using same by (simp_all add: turned_def case_prod_beta)
  then have ne: "r_ckr ?t \<noteq> []" by (auto simp: kdfRoot_def Let_def)
  have chain: "decrypt_chain ?t (p_header p) (seal_with (p_mk p) (r_ad r @ header_bytes (p_header p)) (p_pt p)) =
      (Inr (p_pt p), advance ?t (p_n p))"
    using ne n mk ckr by (intro decrypt_chain_ok) (simp_all add: skippable_def)
  have "dhRatchet cv ?r (Some (p_dh p)) (Inr k) = (Inr (), ?t)"
    using dhRatchet_ok [OF cv _ l(2,3), of ?r] same l dh(1) by simp
  with chain dh(2,3) show ?thesis
    by (auto simp: ratchet_decrypt_def p_wire_def trySkipped_def ratchet_skip_ok [OF pn] split: option.splits)
qed

section \<open>The key a message is opened with\<close>

text \<open>\<open>position_key\<close>: the key of the position a header names, as it was stored when the position was skipped, on
  the current receiving chain at or ahead of its counter, or on the chain that a DH ratchet step with the
  header's key begins. \<open>stray_key\<close>: on the current chain the code also tries its next key for a header that
  names a position already passed (whose stored key is gone), and, while there is no receiving chain, a
  constant for any position.\<close>

definition same_chain :: "ratchet \<Rightarrow> ratchetHeader \<Rightarrow> bool" where
  "same_chain r h \<longleftrightarrow> r_dhr r \<noteq> None \<and> slice_list (h_DH h) = slice_list (r_dhr r)"

definition stored_key :: "ratchet \<Rightarrow> ratchetHeader \<Rightarrow> bytes option" where
  "stored_key r h = r_skipped r (skipped_key (h_DH h) (h_N h))"

definition position_key :: "curve \<Rightarrow> ratchet \<Rightarrow> ratchetHeader \<Rightarrow> bytes \<Rightarrow> bool" where
  "position_key cv r h mk \<longleftrightarrow>
     (case stored_key r h of
        Some mk' \<Rightarrow> mk = mk'
      | None \<Rightarrow>
          if same_chain r h
          then r_ckr r \<noteq> [] \<and> unat (r_nr r) \<le> unat (h_N h) \<and> unat (h_N h) \<le> unat (r_nr r) + 1000 \<and>
            mk = msg_key (r_ckr r) (unat (h_N h) - unat (r_nr r))
          else unat (h_N h) \<le> 1000 \<and>
            mk = msg_key (snd (kdfRoot (r_rk r) (x25519_mult cv (r_dhs r) (slice_list (h_DH h))))) (unat (h_N h)))"

definition stray_key :: "ratchet \<Rightarrow> ratchetHeader \<Rightarrow> bytes \<Rightarrow> bool" where
  "stray_key r h mk \<longleftrightarrow>
     stored_key r h = None \<and> same_chain r h \<and> (r_ckr r = [] \<or> h_N h < r_nr r) \<and> mk = msg_key (r_ckr r) 0"

text \<open>The position is used up: its key is no longer stored, and unless it was, the chain has moved past it.\<close>

definition spent :: "ratchet \<Rightarrow> ratchet \<Rightarrow> ratchetHeader \<Rightarrow> bool" where
  "spent r r' h \<longleftrightarrow> stored_key r' h = None \<and> (stored_key r h = None \<longrightarrow> same_chain r' h \<and> r_nr r' = h_N h + 1)"

lemma ratchet_skip_Inr:
  assumes "ratchet_skip r until = (Inr u, r')"
  shows "r' = (if r_ckr r = [] then r else skip_loop until r)" "r_ckr r \<noteq> [] \<Longrightarrow> unat until \<le> unat (r_nr r) + 1000"
proof -
  have "unat (r_nr r + maxSkip) \<le> unat (r_nr r) + unat maxSkip" by (simp add: unat_word_ariths)
  then show "r_ckr r \<noteq> [] \<Longrightarrow> unat until \<le> unat (r_nr r) + 1000"
    using assms by (auto simp: ratchet_skip_def maxSkip_def word_less_nat_alt split: if_splits)
qed (use assms in \<open>auto simp: ratchet_skip_def split: if_splits\<close>)

lemma skip_loop_ckr_any: "r_ckr (skip_loop until r) = chain_key (r_ckr r) (unat until - unat (r_nr r))"
  by (cases "r_nr r \<le> until") (simp_all add: skip_loop_ckr skip_loop_done word_le_nat_alt word_less_nat_alt)

lemma decrypt_chain_Inr:
  assumes "decrypt_chain r h ct = (Inr pt, r')"
  shows "aeadOpen (msg_key (r_ckr r) (if r_ckr r = [] then 0 else unat (h_N h) - unat (r_nr r))) ct
      (r_ad r @ header_bytes h) = Inr pt"
    and "r_ckr r \<noteq> [] \<Longrightarrow> unat (h_N h) \<le> unat (r_nr r) + 1000"
    and "r_ckr r \<noteq> [] \<Longrightarrow> r_nr r \<le> h_N h \<Longrightarrow> r' = advance r (h_N h)"
proof -
  obtain u r1 where s: "ratchet_skip r (h_N h) = (Inr u, r1)"
    and o: "aeadOpen (msg_key (r_ckr r1) 0) ct (r_ad r1 @ header_bytes h) = Inr pt"
    and r': "r' = r1\<lparr> r_ckr := chain_key (r_ckr r1) 1, r_nr := r_nr r1 + 1 \<rparr>"
    using assms by (auto simp: decrypt_chain_def chainStep_0 Let_def split: prod.splits sum.splits)
  note sk = ratchet_skip_Inr [OF s]
  show "r_ckr r \<noteq> [] \<Longrightarrow> unat (h_N h) \<le> unat (r_nr r) + 1000" by (rule sk(2))
  show "r_ckr r \<noteq> [] \<Longrightarrow> r_nr r \<le> h_N h \<Longrightarrow> r' = advance r (h_N h)" using r' sk(1) by (simp add: advance_def Let_def)
  have "r_ad (skip_loop (h_N h) r) = r_ad r" using skip_loop_frame [of "h_N h" r] by auto
  then show "aeadOpen (msg_key (r_ckr r) (if r_ckr r = [] then 0 else unat (h_N h) - unat (r_nr r))) ct
      (r_ad r @ header_bytes h) = Inr pt"
    using o sk(1) by (simp add: skip_loop_ckr_any msg_key_add split: if_splits)
qed

lemma dhRatchet_Inr:
  assumes "dhRatchet cv r dh d = (Inr u, r')"
  shows "r_ckr r' = snd (kdfRoot (r_rk r) (x25519_mult cv (r_dhs r) (slice_list dh)))" "r_nr r' = 0" "r_ad r' = r_ad r"
    "r_dhr r' = dh" "r_skipped r' = r_skipped r" "length (slice_list dh) = 32"
  using assms
  by (auto simp: dhRatchet_def ratchet_dh_def ecdh_shared_def ecdh_public_def Let_def
      split: prod.splits sum.splits if_splits)

text \<open>The three ways through \<open>decrypt\<close>.\<close>

lemma decrypt_stored_Inr:
  assumes "ratchet_decrypt cv r w d = (Inr pt, r')" "decodeMessage w = Inr (h, ct)" "stored_key r h = Some mk"
  shows "aeadOpen mk ct (r_ad r @ header_bytes h) = Inr pt" "spent r r' h"
  using assms by (auto simp: ratchet_decrypt_def trySkipped_def stored_key_def spent_def split: sum.splits)

lemma decrypt_same_Inr:
  assumes "ratchet_decrypt cv r w d = (Inr pt, r')" "decodeMessage w = Inr (h, ct)" "stored_key r h = None" "same_chain r h"
  shows "\<exists>mk. aeadOpen mk ct (r_ad r @ header_bytes h) = Inr pt \<and> (position_key cv r h mk \<and> spent r r' h \<or> stray_key r h mk)"
proof -
  have c: "decrypt_chain r h ct = (Inr pt, r')"
    using assms by (auto simp: ratchet_decrypt_def trySkipped_def stored_key_def same_chain_def)
  show ?thesis
  proof (cases "r_ckr r \<noteq> [] \<and> r_nr r \<le> h_N h")
    case True
    have "spent r r' h"
      using decrypt_chain_Inr(3) [OF c] True assms(3,4)
      by (auto simp: spent_def stored_key_def same_chain_def advance_skipped advance_simps)
    then show ?thesis
      using decrypt_chain_Inr(1,2) [OF c] True assms(3,4) by (auto simp: position_key_def word_le_nat_alt)
  next
    case False
    then have "stray_key r h (msg_key (r_ckr r) 0)" using assms(3,4) by (auto simp: stray_key_def)
    moreover have "aeadOpen (msg_key (r_ckr r) 0) ct (r_ad r @ header_bytes h) = Inr pt"
      using decrypt_chain_Inr(1) [OF c] False by (auto simp: word_le_nat_alt split: if_splits)
    ultimately show ?thesis by blast
  qed
qed

lemma decrypt_new_Inr:
  assumes "ratchet_decrypt cv r w d = (Inr pt, r')" "decodeMessage w = Inr (h, ct)" "stored_key r h = None" "\<not> same_chain r h"
  shows "\<exists>mk. aeadOpen mk ct (r_ad r @ header_bytes h) = Inr pt \<and> position_key cv r h mk \<and> spent r r' h"
proof -
  have new: "case r_dhr r of None \<Rightarrow> True | Some k \<Rightarrow> \<not> equal_bytes (slice_list (h_DH h)) k"
    using assms(4) by (auto simp: same_chain_def split: option.splits)
  note eqs = ratchet_decrypt_def trySkipped_def
  have none: "r_skipped r (skipped_key (h_DH h) (h_N h)) = None" using assms(3) by (simp add: stored_key_def)
  obtain u2 r2 where s: "ratchet_skip r (h_PN h) = (Inr u2, r2)"
    using assms(1,2) none new
    by (cases "ratchet_skip r (h_PN h)"; cases "fst (ratchet_skip r (h_PN h))") (auto simp: eqs)
  obtain u3 r3 where t: "dhRatchet cv r2 (h_DH h) d = (Inr u3, r3)"
    using assms(1,2) none new s
    by (cases "dhRatchet cv r2 (h_DH h) d"; cases "fst (dhRatchet cv r2 (h_DH h) d)") (auto simp: eqs)
  have c: "decrypt_chain r3 h ct = (Inr pt, r')" using assms(1,2) none new s t by (simp add: eqs)
  note dh = dhRatchet_Inr [OF t]
  have same: "r_rk r2 = r_rk r" "r_dhs r2 = r_dhs r" "r_ad r2 = r_ad r"
    using ratchet_skip_Inr(1) [OF s] skip_loop_frame [of "h_PN h" r] by auto
  have ne: "r_ckr r3 \<noteq> []" using dh(1) by (auto simp: kdfRoot_def Let_def)
  have le: "r_nr r3 \<le> h_N h" using dh(2) by simp
  have "slice_list (h_DH h) \<noteq> slice_list (r_dhr r)" using assms(4) dh(6) by (cases "r_dhr r") (auto simp: same_chain_def)
  then have "stored_key r3 h = None"
    using none dh(5) ratchet_skip_Inr(1) [OF s] by (auto simp: stored_key_def skip_loop_lookup)
  then have "spent r r' h"
    using decrypt_chain_Inr(3) [OF c ne le] dh(4,6) le
    by (cases "h_DH h") (auto simp: spent_def stored_key_def same_chain_def advance_skipped advance_simps)
  moreover have "position_key cv r h (msg_key (r_ckr r3) (unat (h_N h)))"
    using decrypt_chain_Inr(2) [OF c ne] dh(1,2) same assms(3,4) by (simp add: position_key_def)
  moreover have "aeadOpen (msg_key (r_ckr r3) (unat (h_N h))) ct (r_ad r @ header_bytes h) = Inr pt"
    using decrypt_chain_Inr(1) [OF c] ne dh(2,3) same by simp
  ultimately show ?thesis by blast
qed

section \<open>Properties\<close>

text \<open>C14. Authenticity of the ratchet. Whatever \<open>decrypt\<close> returns was sealed, with the session's associated data and
  the header bound in, under one of these keys and no other: the key of the position the header names
  (stored, on the current chain no more than 1000 ahead, or on the chain that the header's ratchet key and
  the root key determine), and then the position is used up; or, where the header names a position of the
  current chain that was passed already or there is no receiving chain yet, the next key of the chain (which
  is a public constant in the latter case).\<close>

theorem decrypt_authentic:
  assumes "ratchet_decrypt cv r w d = (Inr pt, r')"
  shows "\<exists>h ct mk. decodeMessage w = Inr (h, ct) \<and> ct = seal_with mk (r_ad r @ header_bytes h) pt \<and>
    (position_key cv r h mk \<and> spent r r' h \<or> stray_key r h mk)"
proof -
  obtain h ct where dec: "decodeMessage w = Inr (h, ct)"
    using assms by (auto simp: ratchet_decrypt_def split: sum.splits)
  have "\<exists>mk. aeadOpen mk ct (r_ad r @ header_bytes h) = Inr pt \<and> (position_key cv r h mk \<and> spent r r' h \<or> stray_key r h mk)"
  proof (cases "stored_key r h")
    case (Some mk)
    from decrypt_stored_Inr [OF assms dec this] Some show ?thesis by (auto simp: position_key_def)
  next
    case None
    show ?thesis using decrypt_same_Inr [OF assms dec None] decrypt_new_Inr [OF assms dec None] by blast
  qed
  with dec show ?thesis using aeadOpen_Inr by metis
qed

definition toy_ratchet :: ratchet where
  "toy_ratchet = \<lparr> r_dhs = replicate 32 1, r_dhr = Some (replicate 32 2), r_rk = replicate 32 3,
     r_cks = replicate 32 4, r_ckr = replicate 32 5, r_ns = 0, r_nr = 0, r_pn = 0,
     r_skipped = (\<lambda>_. None), r_ad = [9] \<rparr>"

definition toy_packet :: packet where
  "toy_packet = \<lparr> p_dh = replicate 32 2, p_pn = 0, p_n = 0, p_mk = msg_key (replicate 32 5) 0, p_pt = [104, 105] \<rparr>"

lemma toy_decrypt:
  "ratchet_decrypt cv toy_ratchet (p_wire [9] toy_packet) d = (Inr [104, 105], advance toy_ratchet 0)"
  using decrypt_current [of toy_ratchet toy_packet cv d]
  by (simp add: toy_ratchet_def toy_packet_def skippable_def)

theorem decrypt_authentic_witness:
  "\<exists>h ct mk. decodeMessage (p_wire [9] toy_packet) = Inr (h, ct) \<and> ct = seal_with mk ([9] @ header_bytes h) [104, 105] \<and>
     position_key toy_curve toy_ratchet h mk \<and> spent toy_ratchet (advance toy_ratchet 0) h"
proof -
  have "\<not> stray_key toy_ratchet h mk" for h mk by (simp add: stray_key_def toy_ratchet_def)
  with decrypt_authentic [OF toy_decrypt, of toy_curve] show ?thesis by (auto simp: toy_ratchet_def)
qed

text \<open>C23. A header cannot force unbounded work: whatever position it names, one \<open>skip\<close> stores at most
  1000 message keys, for every value of the 32-bit counters (also where \<open>nr + maxSkip\<close> wraps), and
  when it refuses the state is unchanged.\<close>

theorem skip_bounded:
  assumes "ratchet_skip r until = (res, r')"
  shows "card {k. r_skipped r' k \<noteq> r_skipped r k} \<le> 1000 \<and> finite {k. r_skipped r' k \<noteq> r_skipped r k} \<and>
    (\<forall>e. res = Inl e \<longrightarrow> r' = r)"
proof (cases "r_ckr r = [] \<or> r_nr r + maxSkip < until \<or> \<not> r_nr r < until")
  case True
  then have "r' = r" using assms by (auto simp: ratchet_skip_def skip_loop_done split: if_splits)
  then show ?thesis by simp
next
  case False
  then have r': "r' = skip_loop until r" "res = Inr ()" and lt: "unat (r_nr r) < unat until"
    and le: "unat until \<le> unat (r_nr r + maxSkip)"
    using assms by (auto simp: ratchet_skip_def word_less_nat_alt)
  have "unat (r_nr r + maxSkip) \<le> unat (r_nr r) + unat maxSkip" by (simp add: unat_word_ariths)
  then have small: "unat until - unat (r_nr r) \<le> 1000" using le by (simp add: maxSkip_def)
  let ?K = "(\<lambda>j. skipped_key (r_dhr r) (of_nat j)) ` {unat (r_nr r)..<unat until}"
  have "{k. r_skipped r' k \<noteq> r_skipped r k} \<subseteq> ?K"
  proof
    fix k assume "k \<in> {k. r_skipped r' k \<noteq> r_skipped r k}"
    then have ch: "r_skipped (skip_loop until r) k \<noteq> r_skipped r k" using r' by simp
    then obtain m where k: "k = skipped_key (r_dhr r) m" using skip_loop_other [of k r until] by blast
    then have "r_nr r \<le> m \<and> m < until" using ch by (auto simp: skip_loop_lookup split: if_splits)
    then have "unat m \<in> {unat (r_nr r)..<unat until}" by (simp add: word_le_nat_alt word_less_nat_alt)
    then show "k \<in> ?K" unfolding k by (intro image_eqI [of _ _ "unat m"]) simp_all
  qed
  moreover have "card ?K \<le> 1000" using small by (intro le_trans [OF card_image_le]) simp_all
  ultimately show ?thesis using r' by (auto intro: finite_subset le_trans [OF card_mono])
qed

theorem skip_bounded_witness:
  "card {k. r_skipped (skip_loop 3 toy_ratchet) k \<noteq> r_skipped toy_ratchet k} \<le> 1000"
proof -
  have "ratchet_skip toy_ratchet 3 = (Inr (), skip_loop 3 toy_ratchet)"
    by (simp add: ratchet_skip_def toy_ratchet_def maxSkip_def)
  from skip_bounded [OF this] show ?thesis by blast
qed

text \<open>C40. The counter bound of \<open>skip\<close> is computed in 32 bits: on a chain within \<open>maxSkip\<close> of the end of
  the counter range every message that is ahead of the receiver is refused as too many skipped
  messages, however near it is.\<close>

theorem skip_wraps_near_limit:
  assumes "r_ckr r \<noteq> []" "2 ^ 32 \<le> unat (r_nr r) + 1000" "r_nr r < until"
  shows "ratchet_skip r until = (Inl ''crypto: too many skipped messages'', r)"
proof -
  have "unat (r_nr r) < 2 ^ 32" using unsigned_less [of "r_nr r", where 'a = nat] by simp
  then have "(unat (r_nr r) + 1000) mod 2 ^ 32 = unat (r_nr r) + 1000 - 2 ^ 32"
    using assms(2) by (simp add: mod_if)
  then have "unat (r_nr r + maxSkip) = unat (r_nr r) + 1000 - 2 ^ 32"
    by (simp add: maxSkip_def unat_word_ariths)
  then have "r_nr r + maxSkip < until" using assms(2,3) \<open>unat (r_nr r) < 2 ^ 32\<close> by (simp add: word_less_nat_alt)
  with assms(1) show ?thesis by (simp add: ratchet_skip_def)
qed

theorem skip_wraps_near_limit_witness:
  "ratchet_skip (toy_ratchet\<lparr> r_nr := 4294966800 \<rparr>) 4294966801 =
     (Inl ''crypto: too many skipped messages'', toy_ratchet\<lparr> r_nr := 4294966800 \<rparr>)"
  by (rule skip_wraps_near_limit) (simp_all add: toy_ratchet_def)

text \<open>Two sealings under different message keys with the same outcome: what it would take for a ciphertext to be
  opened with a key that is not its own.\<close>

definition key_collision :: "bytes \<Rightarrow> bytes \<Rightarrow> bytes \<Rightarrow> bytes \<Rightarrow> bool" where
  "key_collision mk mk' ad pt \<longleftrightarrow> (\<exists>pt'. seal_with mk' ad pt' = seal_with mk ad pt)"

definition auth_failed :: goerr where
  "auth_failed = ''cipher: message authentication failed''"

lemma aeadOpen_other:
  "aeadOpen mk' (seal_with mk ad pt) ad = Inl auth_failed \<or> key_collision mk mk' ad pt"
proof (cases "aeadOpen mk' (seal_with mk ad pt) ad")
  case (Inl e)
  then have "e = auth_failed"
    by (auto simp: aeadOpen_def msgGCM_ok gcm_open_def auth_failed_def case_prod_beta Let_def split: if_splits)
  with Inl show ?thesis by simp
next
  case (Inr pt')
  then show ?thesis using aeadOpen_Inr by (metis key_collision_def)
qed

text \<open>C34. \<open>decrypt\<close> advances its chain before it has authenticated the message: a forged message with the header of
  the next expected one is rejected, but it consumes the message key. The genuine message, which would have
  been opened before, is then rejected too, whatever plaintext it carries, unless AES-GCM seals some other
  plaintext under the following message key to the very same ciphertext.\<close>

theorem forgery_consumes_key:
  assumes "r_dhr r = Some (p_dh p)" "r_skipped r (p_key p) = None" "p_n p = r_nr r" "unat (r_nr r) + 1001 < 2 ^ 32"
    and "p_mk p = msg_key (r_ckr r) 0" and "r_ckr r \<noteq> []"
    and forged: "ratchet_decrypt cv r (encodeMessage (p_header p) junk) d = (Inl e, r')"
  shows "fst (ratchet_decrypt cv r (p_wire (r_ad r) p) d) = Inr (p_pt p) \<and>
    (fst (ratchet_decrypt cv r' (p_wire (r_ad r) p) d) = Inl auth_failed \<or>
     key_collision (msg_key (r_ckr r) 0) (msg_key (r_ckr r) 1) (r_ad r @ header_bytes (p_header p)) (p_pt p))"
proof
  have sk: "skippable r (p_n p)" "unat (r_nr r) + 1000 < 2 ^ 32" using assms(3,4,6) by (simp_all add: skippable_def)
  show "fst (ratchet_decrypt cv r (p_wire (r_ad r) p) d) = Inr (p_pt p)"
    using decrypt_current [OF assms(1,2) sk, of cv d] assms(3,5) by simp
  have r': "r' = r\<lparr> r_ckr := chain_key (r_ckr r) 1, r_nr := r_nr r + 1 \<rparr>"
    using forged decrypt_at_head [OF assms(1,2) skip_behind] assms(3,4) by simp
  have "unat (r_nr r') = unat (r_nr r) + 1" using r' assms(4) unat_inc [of "r_nr r"] by simp
  then have "ratchet_skip r' (p_n p) = (Inr (), r')"
    using assms(3,4) by (intro skip_behind) (simp_all add: word_le_nat_alt)
  then have "fst (ratchet_decrypt cv r' (p_wire (r_ad r) p) d) =
      aeadOpen (msg_key (r_ckr r) 1) (seal_with (msg_key (r_ckr r) 0) (r_ad r @ header_bytes (p_header p)) (p_pt p))
        (r_ad r @ header_bytes (p_header p))"
    using decrypt_at_head [of r' p] r' assms(1,2,5) by (simp add: p_wire_def msg_key_add)
  with aeadOpen_other show "fst (ratchet_decrypt cv r' (p_wire (r_ad r) p) d) = Inl auth_failed \<or>
     key_collision (msg_key (r_ckr r) 0) (msg_key (r_ckr r) 1) (r_ad r @ header_bytes (p_header p)) (p_pt p)"
    by metis
qed

theorem forgery_consumes_key_witness:
  "\<exists>e r'. ratchet_decrypt toy_curve toy_ratchet (encodeMessage (p_header toy_packet) []) (Inl ''eof'') = (Inl e, r') \<and>
    fst (ratchet_decrypt toy_curve toy_ratchet (p_wire [9] toy_packet) (Inl ''eof'')) = Inr [104, 105] \<and>
    (fst (ratchet_decrypt toy_curve r' (p_wire [9] toy_packet) (Inl ''eof'')) = Inl auth_failed \<or>
     key_collision (msg_key (replicate 32 5) 0) (msg_key (replicate 32 5) 1) ([9] @ header_bytes (p_header toy_packet)) [104, 105])"
proof -
  have "ratchet_decrypt toy_curve toy_ratchet (encodeMessage (p_header toy_packet) []) (Inl ''eof'') =
    (Inl ''cipher: message authentication failed'', toy_ratchet\<lparr> r_ckr := chain_key (replicate 32 5) 1, r_nr := 1 \<rparr>)"
    by (simp add: ratchet_decrypt_def trySkipped_def decrypt_chain_def ratchet_skip_def skip_loop_done chainStep_0
        aeadOpen_def msgGCM_ok gcm_open_def Let_def toy_ratchet_def toy_packet_def p_header_def case_prod_beta)
  from forgery_consumes_key [OF _ _ _ _ _ _ this] this show ?thesis
    by (simp add: toy_ratchet_def toy_packet_def)
qed

text \<open>The wire format of the ratchet is read back exactly: decoding an encoded message gives the
  header and the ciphertext that were encoded.\<close>

theorem message_roundtrip: "decodeMessage (encodeMessage h ct) = Inr (h, ct)"
  by simp

text \<open>Stored message keys never collide: \<open>itoa\<close> prints the decimal numeral in at most ten characters,
  and the map key built from it tells apart any two ratchet keys and any two message numbers.\<close>

theorem skipped_keys_distinct:
  "itoa n = dec_string (unat n) \<and> length (itoa n) \<le> 10 \<and>
   (skipped_key (Some a) m = skipped_key (Some b) n \<longleftrightarrow> a = b \<and> m = n)"
  by (simp add: itoa_dec_string [symmetric] length_itoa)

end
