(* ===== verification/Ratchet_Sync.thy ===== *)
theory Ratchet_Sync
  imports Ratchet_Receive Session
begin

text \<open>
  Two ratchets that talk to each other over a network that may reorder and lose messages. The state
  holds both ratchets, the messages in flight in each direction (with the plaintext each was made
  from, which no operation reads) and the public ratchet keys drawn so far. A step sends, loses a message in
  flight, or delivers one, whichever it is and whether it can be opened or not, with one exception: a
  message that finds no receiving chain although messages before it on its own or on the previous chain are
  still under way (\<open>chain_gap\<close>). There the code loses its place, which is shown at the end of this theory.
  The invariant \<open>lead\<close> has a leader, the party that took the last DH ratchet step, and a follower.
\<close>

record net =
  n_a :: ratchet
  n_b :: ratchet
  n_ab :: "(bytes \<times> bytes) list"
  n_ba :: "(bytes \<times> bytes) list"
  n_used :: "bytes set"

definition flip_net :: "net \<Rightarrow> net" where
  "flip_net s = \<lparr> n_a = n_b s, n_b = n_a s, n_ab = n_ba s, n_ba = n_ab s, n_used = n_used s \<rparr>"

definition without :: "nat \<Rightarrow> 'a list \<Rightarrow> 'a list" where
  "without i xs = take i xs @ drop (Suc i) xs"

text \<open>The window in which a receiver accepts a message: its key is stored, or \<open>skip\<close> does not have to
  pass more than \<open>maxSkip\<close> positions (and, where no receiving chain exists yet, none).\<close>

definition in_window :: "ratchet \<Rightarrow> bytes \<Rightarrow> bool" where
  "in_window r w =
     (case decodeMessage w of
        Inl _ \<Rightarrow> False
      | Inr (h, _) \<Rightarrow>
          r_skipped r (skipped_key (h_DH h) (h_N h)) \<noteq> None \<or>
          (if r_dhr r = h_DH h then skippable r (h_N h) else skippable r (h_PN h) \<and> unat (h_N h) \<le> 1000))"

text \<open>The exception: there is no receiving chain (\<open>skip\<close> does nothing then), and the message is not the first on
  its chain, or is on a new chain and the previous one was not empty.\<close>

definition chain_gap :: "ratchet \<Rightarrow> bytes \<Rightarrow> bool" where
  "chain_gap r w =
     (case decodeMessage w of
        Inl _ \<Rightarrow> False
      | Inr (h, _) \<Rightarrow>
          r_skipped r (skipped_key (h_DH h) (h_N h)) = None \<and> r_ckr r = [] \<and>
          (if r_dhr r = h_DH h then h_N h \<noteq> 0 else h_PN h \<noteq> 0))"

definition too_many :: goerr where
  "too_many = ''crypto: too many skipped messages''"

inductive half_step :: "curve \<Rightarrow> net \<Rightarrow> net \<Rightarrow> bool" for cv where
  send: "unat (r_ns (n_a s)) + 1001 < 2 ^ 32 \<Longrightarrow> ratchet_encrypt cv (n_a s) pt = (Inr w, r) \<Longrightarrow>
    half_step cv s (s\<lparr> n_a := r, n_ab := n_ab s @ [(w, pt)] \<rparr>)"
| deliver: "i < length (n_ab s) \<Longrightarrow> \<not> chain_gap (n_b s) (fst (n_ab s ! i)) \<Longrightarrow>
    length k = 32 \<Longrightarrow> x25519_base cv k \<notin> n_used s \<Longrightarrow>
    ratchet_decrypt cv (n_b s) (fst (n_ab s ! i)) (Inr k) = (res, r) \<Longrightarrow>
    half_step cv s (s\<lparr> n_b := r, n_ab := without i (n_ab s), n_used := insert (x25519_base cv k) (n_used s) \<rparr>)"
| lose: "half_step cv s (s\<lparr> n_ab := without i (n_ab s) \<rparr>)"

inductive net_reach :: "curve \<Rightarrow> net \<Rightarrow> net \<Rightarrow> bool" for cv where
  start: "net_reach cv s s"
| left: "net_reach cv s t \<Longrightarrow> half_step cv t u \<Longrightarrow> net_reach cv s u"
| right: "net_reach cv s t \<Longrightarrow> half_step cv (flip_net t) u \<Longrightarrow> net_reach cv s (flip_net u)"

inductive_cases half_stepE: "half_step cv s t"

text \<open>The two ratchets a handshake leaves.\<close>

definition net_start :: "curve \<Rightarrow> bytes \<Rightarrow> bytes \<Rightarrow> bytes \<Rightarrow> bytes \<Rightarrow> net" where
  "net_start cv sk x ad k =
     \<lparr> n_a = initiator_state cv sk (x25519_base cv x) ad k, n_b = newRatchetResponder sk x ad,
       n_ab = [], n_ba = [], n_used = {x25519_base cv x, x25519_base cv k} \<rparr>"

section \<open>What a receiver can open\<close>

definition opens :: "ratchet \<Rightarrow> packet \<Rightarrow> bool" where
  "opens r p \<longleftrightarrow>
     r_skipped r (p_key p) = Some (p_mk p) \<or>
     r_dhr r = Some (p_dh p) \<and> r_nr r \<le> p_n p \<and> p_mk p = msg_key (r_ckr r) (unat (p_n p) - unat (r_nr r))"

definition recv_inv :: "bytes set \<Rightarrow> ratchet \<Rightarrow> bool" where
  "recv_inv used r \<longleftrightarrow>
     (\<forall>dh n. r_skipped r (skipped_key (Some dh) n) \<noteq> None \<longrightarrow> dh \<in> used) \<and>
     (\<forall>dh n. r_dhr r = Some dh \<longrightarrow> r_nr r \<le> n \<longrightarrow> r_skipped r (skipped_key (Some dh) n) = None) \<and>
     (\<forall>dh. r_dhr r = Some dh \<longrightarrow> dh \<in> used) \<and>
     (r_dhr r = None \<longrightarrow> r_ckr r = []) \<and>
     unat (r_nr r) + 1000 < 2 ^ 32"

abbreviation same_pos :: "packet \<Rightarrow> packet \<Rightarrow> bool" where
  "same_pos p q \<equiv> p_dh p = p_dh q \<and> p_n p = p_n q"

lemma recv_inv_mono: "recv_inv used r \<Longrightarrow> used \<subseteq> used' \<Longrightarrow> recv_inv used' r"
  by (auto simp: recv_inv_def)

lemma recv_inv_unused:
  "recv_inv used r \<Longrightarrow> dh \<notin> used \<Longrightarrow> r_dhr r \<noteq> Some dh \<and> (\<forall>n. r_skipped r (skipped_key (Some dh) n) = None)"
  unfolding recv_inv_def by blast

lemma opens_delete:
  "opens r q \<Longrightarrow> \<not> same_pos p q \<Longrightarrow> opens (r\<lparr> r_skipped := (r_skipped r)(p_key p := None) \<rparr>) q"
  by (auto simp: opens_def)

lemma recv_inv_delete:
  "recv_inv used r \<Longrightarrow> recv_inv used (r\<lparr> r_skipped := (r_skipped r)(k := None) \<rparr>)"
  by (auto simp: recv_inv_def)

lemma unat_succ_bound: "unat n + 1001 < 2 ^ 32 \<Longrightarrow> unat (n + 1) = Suc (unat n)" for n :: u32
  using unat_inc [of n] by simp

lemma opens_advance:
  assumes inv: "recv_inv used r" and p: "r_dhr r = Some (p_dh p)" "r_nr r \<le> p_n p" "unat (p_n p) + 1001 < 2 ^ 32"
    and q: "opens r q" "\<not> same_pos p q"
  shows "opens (advance r (p_n p)) q"
proof -
  have n: "unat (r_nr r) \<le> unat (p_n p)" using p(2) by (simp add: word_le_nat_alt)
  note succ = unat_succ_bound [OF p(3)]
  consider (stored) "r_skipped r (p_key q) = Some (p_mk q)"
    | (before) "p_dh q = p_dh p" "r_nr r \<le> p_n q" "p_n q < p_n p"
        "p_mk q = msg_key (r_ckr r) (unat (p_n q) - unat (r_nr r))"
    | (after) "p_dh q = p_dh p" "r_nr r \<le> p_n q" "p_n p < p_n q"
        "p_mk q = msg_key (r_ckr r) (unat (p_n q) - unat (r_nr r))"
    using q p(1) by (auto simp: opens_def) (metis linorder_neqE)
  then show ?thesis
  proof cases
    case stored
    then have "\<not> (p_dh q = p_dh p \<and> r_nr r \<le> p_n q)" using inv p(1) by (auto simp: recv_inv_def)
    with stored p(1) show ?thesis by (auto simp: opens_def advance_skipped)
  next
    case before
    with p(1) show ?thesis by (simp add: opens_def advance_skipped)
  next
    case after
    have "Suc (unat (p_n p) - unat (r_nr r)) + (unat (p_n q) - unat (p_n p + 1)) = unat (p_n q) - unat (r_nr r)"
      using after(3) n succ by (simp add: word_less_nat_alt)
    with after p show ?thesis
      using succ by (simp add: opens_def advance_simps msg_key_add word_le_nat_alt word_less_nat_alt)
  qed
qed

lemma recv_inv_advance:
  assumes inv: "recv_inv used r" and p: "r_dhr r = Some dh" "r_nr r \<le> n" "unat n + 1001 < 2 ^ 32"
  shows "recv_inv used (advance r n)"
proof -
  note succ = unat_succ_bound [OF p(3)]
  have "r_skipped (advance r n) (skipped_key (Some dh) m) = None" if "n + 1 \<le> m" for m
    using that inv p succ by (simp add: advance_skipped recv_inv_def word_le_nat_alt word_less_nat_alt)
  moreover have "dh' \<in> used" if "r_skipped (advance r n) (skipped_key (Some dh') m) \<noteq> None" for dh' m
    using that inv p(1) by (auto simp: advance_skipped recv_inv_def split: if_splits)
  ultimately show ?thesis
    using inv p succ by (simp add: recv_inv_def advance_simps)
qed

section \<open>A DH ratchet step of the receiver\<close>

lemma turned_simps [simp]:
  "r_dhr (turned cv r dh k) = Some dh" "r_nr (turned cv r dh k) = 0" "r_ns (turned cv r dh k) = 0"
  "r_pn (turned cv r dh k) = r_ns r" "r_dhs (turned cv r dh k) = k" "r_ad (turned cv r dh k) = r_ad r"
  "r_skipped (turned cv r dh k) = r_skipped r"
  by (simp_all add: turned_def case_prod_beta)

lemma turned_keys:
  "kdfRoot (r_rk r) (x25519_mult cv (r_dhs r) dh) = (rk, c) \<Longrightarrow> r_ckr (turned cv r dh k) = c \<and>
     (r_rk (turned cv r dh k), r_cks (turned cv r dh k)) = kdfRoot rk (x25519_mult cv k dh)"
  by (simp add: turned_def case_prod_beta)

lemma skip_loop_same:
  "r_dhs (skip_loop n r) = r_dhs r" "r_dhr (skip_loop n r) = r_dhr r" "r_rk (skip_loop n r) = r_rk r"
  "r_cks (skip_loop n r) = r_cks r" "r_ns (skip_loop n r) = r_ns r" "r_pn (skip_loop n r) = r_pn r"
  "r_ad (skip_loop n r) = r_ad r"
  using skip_loop_frame [of n r] by auto

lemma skip_loop_old:
  assumes "recv_inv used r" "skippable r until"
  shows "r_skipped (skip_loop until r) (skipped_key (Some d) m) =
     (if r_dhr r = Some d \<and> r_nr r \<le> m \<and> m < until
      then Some (msg_key (r_ckr r) (unat m - unat (r_nr r))) else r_skipped r (skipped_key (Some d) m))"
proof (cases "r_dhr r")
  case None
  with assms have "until = 0" by (simp add: recv_inv_def skippable_def)
  with None show ?thesis by (simp add: skip_loop_done)
qed (auto simp: skip_loop_lookup)

lemma recv_inv_turned:
  assumes inv: "recv_inv used r" and pn: "skippable r pn" and dh: "dh \<in> used" "r_dhr r \<noteq> Some dh"
    and fresh: "\<And>n. r_skipped r (skipped_key (Some dh) n) = None"
  shows "recv_inv used (turned cv (skip_loop pn r) dh k)"
  using assms by (auto simp: recv_inv_def skip_loop_old [OF inv pn] split: if_splits)

text \<open>Messages of the old chain, all below the previous count \<open>pn\<close>, have their keys stored.\<close>

lemma opens_turned_old:
  assumes inv: "recv_inv used r" and pn: "skippable r pn"
    and q: "opens r q" "r_dhr r = Some (p_dh q) \<Longrightarrow> p_n q < pn"
  shows "opens (turned cv (skip_loop pn r) dh k) q"
proof -
  have "r_skipped (skip_loop pn r) (p_key q) = Some (p_mk q)"
  proof (cases "r_dhr r = Some (p_dh q) \<and> r_nr r \<le> p_n q")
    case True
    with inv q show ?thesis by (simp add: skip_loop_old [OF inv pn] opens_def recv_inv_def)
  next
    case False
    with q(1) show ?thesis by (auto simp: skip_loop_old [OF inv pn] opens_def)
  qed
  then show ?thesis by (simp add: opens_def)
qed

section \<open>The invariant\<close>

abbreviation pub :: "curve \<Rightarrow> ratchet \<Rightarrow> bytes" where
  "pub cv r \<equiv> x25519_base cv (r_dhs r)"

definition send_inv :: "curve \<Rightarrow> bytes set \<Rightarrow> ratchet \<Rightarrow> packet list \<Rightarrow> bool" where
  "send_inv cv used r P \<longleftrightarrow>
     length (r_dhs r) = 32 \<and> pub cv r \<in> used \<and> unat (r_ns r) + 1000 < 2 ^ 32 \<and>
     distinct (map (\<lambda>p. (p_dh p, p_n p)) P) \<and>
     (\<forall>p \<in> set P. p_dh p \<in> used \<and> unat (p_n p) + 1001 < 2 ^ 32 \<and> (p_dh p = pub cv r \<longrightarrow> p_n p < r_ns r))"

text \<open>A message from the leader: on its new chain, whose first key is \<open>c\<close>, or one the follower can open.\<close>

definition ahead :: "curve \<Rightarrow> bytes \<Rightarrow> ratchet \<Rightarrow> ratchet \<Rightarrow> packet \<Rightarrow> bool" where
  "ahead cv c x y p \<longleftrightarrow>
     (if p_dh p = pub cv x then p_pn p = r_pn x \<and> p_mk p = msg_key c (unat (p_n p))
      else opens y p \<and> (r_dhr y = Some (p_dh p) \<longrightarrow> p_n p < r_pn x))"

definition lead :: "curve \<Rightarrow> bytes set \<Rightarrow> ratchet \<Rightarrow> ratchet \<Rightarrow> packet list \<Rightarrow> packet list \<Rightarrow> bool" where
  "lead cv used x y pxy pyx \<longleftrightarrow>
     r_ad x = r_ad y \<and> send_inv cv used x pxy \<and> send_inv cv used y pyx \<and> recv_inv used x \<and> recv_inv used y \<and>
     r_dhr x = Some (pub cv y) \<and> r_nr x \<le> r_ns y \<and>
     r_cks y = chain_key (r_ckr x) (unat (r_ns y) - unat (r_nr x)) \<and> (\<forall>p \<in> set pyx. opens x p) \<and>
     r_dhr y \<noteq> Some (pub cv x) \<and> (\<forall>n. r_skipped y (skipped_key (Some (pub cv x)) n) = None) \<and>
     (\<exists>c. kdfRoot (r_rk y) (x25519_mult cv (r_dhs y) (pub cv x)) = (r_rk x, c) \<and>
        r_cks x = chain_key c (unat (r_ns x)) \<and> (\<forall>p \<in> set pxy. ahead cv c x y p))"

lemma send_inv_mono: "send_inv cv used r P \<Longrightarrow> used \<subseteq> used' \<Longrightarrow> send_inv cv used' r P"
  by (auto simp: send_inv_def)

lemma lead_mono: "lead cv used x y pxy pyx \<Longrightarrow> used \<subseteq> used' \<Longrightarrow> lead cv used' x y pxy pyx"
  unfolding lead_def by (meson send_inv_mono recv_inv_mono)

text \<open>The packet the next \<open>encrypt\<close> makes, and what sending does to the sender's part.\<close>

definition next_packet :: "curve \<Rightarrow> ratchet \<Rightarrow> bytes \<Rightarrow> packet" where
  "next_packet cv r pt =
     \<lparr> p_dh = pub cv r, p_pn = r_pn r, p_n = r_ns r, p_mk = msg_key (r_cks r) 0, p_pt = pt \<rparr>"

definition sent :: "ratchet \<Rightarrow> ratchet" where
  "sent r = r\<lparr> r_cks := chain_key (r_cks r) 1, r_ns := r_ns r + 1 \<rparr>"

lemma encrypt_next: "ratchet_encrypt cv r pt = (Inr (p_wire (r_ad r) (next_packet cv r pt)), sent r)"
  by (simp add: encrypt_packet next_packet_def sent_def)

lemma sent_simps [simp]:
  "r_dhs (sent r) = r_dhs r" "r_dhr (sent r) = r_dhr r" "r_rk (sent r) = r_rk r" "r_ckr (sent r) = r_ckr r"
  "r_ns (sent r) = r_ns r + 1" "r_nr (sent r) = r_nr r" "r_pn (sent r) = r_pn r" "r_ad (sent r) = r_ad r"
  "r_skipped (sent r) = r_skipped r" "r_cks (sent r) = chain_key (r_cks r) 1"
  by (simp_all add: sent_def)

lemma next_packet_simps [simp]:
  "p_dh (next_packet cv r pt) = pub cv r" "p_pn (next_packet cv r pt) = r_pn r" "p_n (next_packet cv r pt) = r_ns r"
  "p_mk (next_packet cv r pt) = msg_key (r_cks r) 0" "p_pt (next_packet cv r pt) = pt"
  by (simp_all add: next_packet_def)

lemma opens_sent [simp]: "opens (sent r) p \<longleftrightarrow> opens r p" "recv_inv used (sent r) \<longleftrightarrow> recv_inv used r"
  by (simp_all add: opens_def recv_inv_def)

lemma send_inv_sent:
  assumes "send_inv cv used r P" "unat (r_ns r) + 1001 < 2 ^ 32"
  shows "send_inv cv used (sent r) (P @ [next_packet cv r pt])"
proof -
  note succ = unat_succ_bound [OF assms(2)]
  have "\<not> (p_dh p = pub cv r \<and> p_n p = r_ns r)" if "p \<in> set P" for p
    using assms(1) that by (auto simp: send_inv_def)
  then have "distinct (map (\<lambda>p. (p_dh p, p_n p)) (P @ [next_packet cv r pt]))"
    using assms(1) by (auto simp: send_inv_def)
  with assms succ show ?thesis
    by (auto simp: send_inv_def word_less_nat_alt less_SucI)
qed

lemma lead_send_leader:
  assumes l: "lead cv used x y pxy pyx" and b: "unat (r_ns x) + 1001 < 2 ^ 32"
  shows "lead cv used (sent x) y (pxy @ [next_packet cv x pt]) pyx"
proof -
  have "send_inv cv used x pxy" using l by (simp add: lead_def)
  note si = send_inv_sent [OF this b, of pt]
  show ?thesis
    using l si unat_succ_bound [OF b] by (auto simp: lead_def ahead_def chain_key_add msg_key_add)
qed

lemma lead_send_follower:
  assumes l: "lead cv used x y pxy pyx" and b: "unat (r_ns y) + 1001 < 2 ^ 32"
  shows "lead cv used x (sent y) pxy (pyx @ [next_packet cv y pt])"
proof -
  have s: "send_inv cv used y pyx" and le: "r_nr x \<le> r_ns y" using l by (simp_all add: lead_def)
  note si = send_inv_sent [OF s b, of pt] and succ = unat_succ_bound [OF b]
  have le': "r_nr x \<le> r_ns y + 1" and d: "unat (r_ns y + 1) - unat (r_nr x) = unat (r_ns y) - unat (r_nr x) + 1"
    using le succ by (simp_all add: word_le_nat_alt)
  have "opens x (next_packet cv y pt)" using l le by (simp add: opens_def lead_def msg_key_add)
  with l si le' d show ?thesis
    by (auto simp: lead_def ahead_def chain_key_add simp del: One_nat_def)
qed

section \<open>Deliveries keep the invariant\<close>

lemma set_without: "set (without i xs) \<subseteq> set xs"
  using set_take_subset [of i xs] set_drop_subset [of "Suc i" xs] by (auto simp: without_def)

lemma map_without: "map f (without i xs) = without i (map f xs)"
  by (simp add: without_def take_map drop_map)

lemma distinct_without: "distinct xs \<Longrightarrow> i < length xs \<Longrightarrow> distinct (without i xs) \<and> xs ! i \<notin> set (without i xs)"
proof -
  assume d: "distinct xs" and i: "i < length xs"
  then have "distinct (take i xs @ xs ! i # drop (Suc i) xs)" by (simp add: id_take_nth_drop [symmetric])
  then show ?thesis by (auto simp: without_def)
qed

lemma other_pos:
  assumes "send_inv cv used r P" "i < length P" "q \<in> set (without i P)"
  shows "q \<in> set P" "\<not> same_pos (P ! i) q"
proof -
  let ?f = "\<lambda>p. (p_dh p, p_n p)"
  have "map ?f P ! i \<notin> set (without i (map ?f P))"
    using assms(1,2) by (intro conjunct2 [OF distinct_without]) (simp_all add: send_inv_def)
  moreover have "?f q \<in> set (without i (map ?f P))" using assms(3) by (auto simp flip: map_without)
  ultimately show "\<not> same_pos (P ! i) q" using assms(2) by auto
  show "q \<in> set P" using assms(3) set_without by fast
qed

lemma send_inv_without: "send_inv cv used r P \<Longrightarrow> send_inv cv used r (without i P)"
proof -
  assume s: "send_inv cv used r P"
  have "distinct (without i (map (\<lambda>p. (p_dh p, p_n p)) P))"
    using s by (cases "i < length P") (simp_all add: send_inv_def distinct_without, simp add: without_def)
  with s set_without [of i P] show ?thesis by (auto simp: send_inv_def map_without)
qed

lemma send_inv_frame:
  "r_dhs r' = r_dhs r \<Longrightarrow> r_ns r' = r_ns r \<Longrightarrow> send_inv cv used r' P = send_inv cv used r P"
  by (simp add: send_inv_def)

text \<open>Receiving on an existing chain, or with a stored key, changes only the receiving half.\<close>

definition same_sender :: "ratchet \<Rightarrow> ratchet \<Rightarrow> bool" where
  "same_sender r r' \<longleftrightarrow> r_dhs r' = r_dhs r \<and> r_dhr r' = r_dhr r \<and> r_rk r' = r_rk r \<and> r_cks r' = r_cks r \<and>
     r_ns r' = r_ns r \<and> r_pn r' = r_pn r \<and> r_ad r' = r_ad r"

lemma receive_known:
  assumes inv: "recv_inv used r" and p: "opens r p" "in_window r (p_wire ad p)" "ad = r_ad r"
    "unat (p_n p) + 1001 < 2 ^ 32"
  obtains r' where "ratchet_decrypt cv r (p_wire ad p) d = (Inr (p_pt p), r')"
    "recv_inv used r'" "same_sender r r'" "\<And>q. opens r q \<Longrightarrow> \<not> same_pos p q \<Longrightarrow> opens r' q"
    "\<And>d n. r_dhr r \<noteq> Some d \<Longrightarrow> r_skipped r (skipped_key (Some d) n) = None \<Longrightarrow> r_skipped r' (skipped_key (Some d) n) = None"
    "r_nr r' = r_nr r \<and> r_ckr r' = r_ckr r \<or>
     r_dhr r = Some (p_dh p) \<and> r_nr r' = p_n p + 1 \<and> r_nr r \<le> p_n p \<and> r_ckr r' = chain_key (r_ckr r) (Suc (unat (p_n p) - unat (r_nr r)))"
proof (cases "r_skipped r (p_key p) = Some (p_mk p)")
  case True
  show ?thesis
    by (rule that [OF decrypt_skipped [OF True, of cv d, folded p(3)]])
       (simp_all add: recv_inv_delete inv same_sender_def opens_delete)
next
  case False
  with p(1) have cur: "r_dhr r = Some (p_dh p)" "r_nr r \<le> p_n p"
    "p_mk p = msg_key (r_ckr r) (unat (p_n p) - unat (r_nr r))"
    by (auto simp: opens_def)
  have none: "r_skipped r (p_key p) = None" and nr: "unat (r_nr r) + 1000 < 2 ^ 32"
    using inv cur by (simp_all add: recv_inv_def)
  have sk: "skippable r (p_n p)" using p(2) none cur(1) by (simp add: in_window_def p_wire_def)
  show ?thesis
  proof (rule that [OF decrypt_current [OF cur(1) none sk nr cur(2,3), of cv d, folded p(3)]])
    show "recv_inv used (advance r (p_n p))" by (rule recv_inv_advance [OF inv cur(1,2) p(4)])
    show "same_sender r (advance r (p_n p))" by (simp add: same_sender_def advance_frame)
    show "opens r q \<Longrightarrow> \<not> same_pos p q \<Longrightarrow> opens (advance r (p_n p)) q" for q
      by (rule opens_advance [OF inv cur(1,2) p(4)])
  qed (use cur in \<open>simp_all add: advance_skipped advance_simps\<close>)
qed

lemma lead_follower_known:
  assumes l: "lead cv used x y pxy pyx" and i: "i < length pxy" "p_dh (pxy ! i) \<noteq> pub cv x"
    and w: "in_window y (p_wire (r_ad y) (pxy ! i))"
  obtains y' where "ratchet_decrypt cv y (p_wire (r_ad y) (pxy ! i)) d = (Inr (p_pt (pxy ! i)), y')"
    "lead cv used x y' (without i pxy) pyx"
proof -
  let ?p = "pxy ! i"
  have p: "?p \<in> set pxy" using i(1) by simp
  have sx: "send_inv cv used x pxy" and ry: "recv_inv used y" using l by (simp_all add: lead_def)
  have op: "opens y ?p" "unat (p_n ?p) + 1001 < 2 ^ 32"
    using l p i(2) sx by (auto simp: lead_def ahead_def send_inv_def)
  obtain y' where y': "ratchet_decrypt cv y (p_wire (r_ad y) ?p) d = (Inr (p_pt ?p), y')" "recv_inv used y'"
    "same_sender y y'" "\<And>q. opens y q \<Longrightarrow> \<not> same_pos ?p q \<Longrightarrow> opens y' q"
    "\<And>d n. r_dhr y \<noteq> Some d \<Longrightarrow> r_skipped y (skipped_key (Some d) n) = None \<Longrightarrow> r_skipped y' (skipped_key (Some d) n) = None"
    using receive_known [OF ry op(1) w refl op(2), of cv d] by metis
  have "ahead cv c x y' q" if "q \<in> set (without i pxy)" "ahead cv c x y q" for c q
    using y'(3,4) that other_pos [OF sx i(1) that(1)] by (auto simp: ahead_def same_sender_def)
  then have fwd: "\<forall>q \<in> set pxy. ahead cv c x y q \<Longrightarrow> \<forall>q \<in> set (without i pxy). ahead cv c x y' q" for c
    using set_without [of i pxy] by blast
  have "lead cv used x y' (without i pxy) pyx"
    using l y'(2,3,5) send_inv_without [OF sx, of i] send_inv_frame [of y' y cv used pyx] fwd
    by (auto simp: lead_def same_sender_def)
  with y'(1) show ?thesis by (rule that)
qed

lemma lead_leader_known:
  assumes l: "lead cv used x y pxy pyx" and i: "i < length pyx"
    and w: "in_window x (p_wire (r_ad x) (pyx ! i))"
  obtains x' where "ratchet_decrypt cv x (p_wire (r_ad x) (pyx ! i)) d = (Inr (p_pt (pyx ! i)), x')"
    "lead cv used x' y pxy (without i pyx)"
proof -
  let ?p = "pyx ! i"
  have p: "?p \<in> set pyx" using i by simp
  have sy: "send_inv cv used y pyx" and rx: "recv_inv used x" and dhr: "r_dhr x = Some (pub cv y)"
    using l by (simp_all add: lead_def)
  have op: "opens x ?p" "unat (p_n ?p) + 1001 < 2 ^ 32" "p_dh ?p = pub cv y \<Longrightarrow> p_n ?p < r_ns y"
    using l p sy by (auto simp: lead_def send_inv_def)
  obtain x' where x': "ratchet_decrypt cv x (p_wire (r_ad x) ?p) d = (Inr (p_pt ?p), x')" "recv_inv used x'"
    "same_sender x x'" "\<And>q. opens x q \<Longrightarrow> \<not> same_pos ?p q \<Longrightarrow> opens x' q"
    "r_nr x' = r_nr x \<and> r_ckr x' = r_ckr x \<or>
     r_dhr x = Some (p_dh ?p) \<and> r_nr x' = p_n ?p + 1 \<and> r_nr x \<le> p_n ?p \<and> r_ckr x' = chain_key (r_ckr x) (Suc (unat (p_n ?p) - unat (r_nr x)))"
    using receive_known [OF rx op(1) w refl op(2), of cv d] by metis
  have opn: "\<forall>q \<in> set (without i pyx). opens x' q"
    using l x'(4) other_pos [OF sy i] by (auto simp: lead_def)
  have "r_nr x' \<le> r_ns y \<and> r_cks y = chain_key (r_ckr x') (unat (r_ns y) - unat (r_nr x'))"
    using x'(5)
  proof
    assume m: "r_dhr x = Some (p_dh ?p) \<and> r_nr x' = p_n ?p + 1 \<and> r_nr x \<le> p_n ?p \<and>
      r_ckr x' = chain_key (r_ckr x) (Suc (unat (p_n ?p) - unat (r_nr x)))"
    then have lt: "p_n ?p < r_ns y" using op(3) dhr by simp
    then have "unat (p_n ?p) < unat (r_ns y)" "unat (r_nr x) \<le> unat (p_n ?p)"
      using m by (simp_all add: word_less_nat_alt word_le_nat_alt)
    then have "Suc (unat (p_n ?p) - unat (r_nr x)) + (unat (r_ns y) - Suc (unat (p_n ?p))) = unat (r_ns y) - unat (r_nr x)"
      by arith
    with lt m l show ?thesis
      by (simp add: chain_key_add lead_def unat_succ_bound [OF op(2)] word_le_nat_alt word_less_nat_alt)
  qed (use l in \<open>simp add: lead_def\<close>)
  then have "lead cv used x' y pxy (without i pyx)"
    using l x'(2,3) opn send_inv_without [OF sy, of i] send_inv_frame [of x' x cv used pxy]
    by (auto simp: lead_def ahead_def same_sender_def)
  with x'(1) show ?thesis by (rule that)
qed

text \<open>The follower's state after it has received \<open>p\<close>, the first message it sees of the leader's new
  chain, with fresh key \<open>k\<close>.\<close>

definition follow :: "curve \<Rightarrow> ratchet \<Rightarrow> packet \<Rightarrow> bytes \<Rightarrow> ratchet" where
  "follow cv y p k = advance (turned cv (skip_loop (p_pn p) y) (p_dh p) k) (p_n p)"

lemma follow_simps:
  "r_dhr (follow cv y p k) = Some (p_dh p)" "r_ns (follow cv y p k) = 0" "r_pn (follow cv y p k) = r_ns y"
  "r_dhs (follow cv y p k) = k" "r_ad (follow cv y p k) = r_ad y" "r_nr (follow cv y p k) = p_n p + 1"
  by (simp_all add: follow_def advance_simps skip_loop_same)

lemma follow_keys:
  assumes "kdfRoot (r_rk y) (x25519_mult cv (r_dhs y) (p_dh p)) = (rk, c)"
  shows "r_ckr (follow cv y p k) = chain_key c (Suc (unat (p_n p)))"
    and "(r_rk (follow cv y p k), r_cks (follow cv y p k)) = kdfRoot rk (x25519_mult cv k (p_dh p))"
  using turned_keys [of "skip_loop (p_pn p) y" cv "p_dh p" rk c k] assms
  by (simp_all add: follow_def advance_simps skip_loop_same)

lemma follow_recv:
  assumes inv: "recv_inv used y" and pn: "skippable y (p_pn p)" and p: "p_dh p \<in> used" "unat (p_n p) + 1001 < 2 ^ 32"
    and fresh: "r_dhr y \<noteq> Some (p_dh p)" "\<And>n. r_skipped y (skipped_key (Some (p_dh p)) n) = None"
  shows "recv_inv used (turned cv (skip_loop (p_pn p) y) (p_dh p) k)" "recv_inv used (follow cv y p k)"
proof -
  show t: "recv_inv used (turned cv (skip_loop (p_pn p) y) (p_dh p) k)"
    by (rule recv_inv_turned [OF inv pn p(1) fresh])
  show "recv_inv used (follow cv y p k)"
    unfolding follow_def by (rule recv_inv_advance [OF t _ _ p(2)]) simp_all
qed

lemma follow_opens:
  assumes t: "recv_inv used (turned cv (skip_loop (p_pn p) y) (p_dh p) k)" and inv: "recv_inv used y"
    and pn: "skippable y (p_pn p)" "p_pn p = r_pn x" and bn: "unat (p_n p) + 1001 < 2 ^ 32"
    and c: "snd (kdfRoot (r_rk y) (x25519_mult cv (r_dhs y) (p_dh p))) = c" and dh: "p_dh p = pub cv x"
    and q: "ahead cv c x y q" "\<not> same_pos p q"
  shows "opens (follow cv y p k) q"
proof -
  let ?t = "turned cv (skip_loop (p_pn p) y) (p_dh p) k"
  have tk: "r_ckr ?t = c"
    using turned_keys [of "skip_loop (p_pn p) y" cv "p_dh p" _ c k] c by (metis skip_loop_same(1,3) surjective_pairing)
  have "opens ?t q"
  proof (cases "p_dh q = pub cv x")
    case True
    then show ?thesis using q(1) tk dh by (auto simp: opens_def ahead_def)
  next
    case False
    then show ?thesis using q(1) pn by (intro opens_turned_old [OF inv pn(1)]) (auto simp: ahead_def)
  qed
  then show ?thesis unfolding follow_def by (intro opens_advance [OF t _ _ bn _ q(2)]) simp_all
qed

text \<open>The follower has turned to the leader's new chain: it leads now.\<close>

lemma lead_turn:
  assumes cv: "curve_ok cv" and l: "lead cv used x y pxy pyx" and k: "length k = 32" "x25519_base cv k \<notin> used"
    and c: "kdfRoot (r_rk y) (x25519_mult cv (r_dhs y) (pub cv x)) = (r_rk x, c)"
    and y': "r_dhs y' = k" "r_dhr y' = Some (pub cv x)" "r_ns y' = 0" "r_ad y' = r_ad y" "r_pn y' = r_ns y"
      "(r_rk y', r_cks y') = kdfRoot (r_rk x) (x25519_mult cv k (pub cv x))" "recv_inv (insert (x25519_base cv k) used) y'"
    and chain: "r_nr y' \<le> r_ns x" "r_cks x = chain_key (r_ckr y') (unat (r_ns x) - unat (r_nr y'))"
    and opn: "\<forall>q \<in> set P. opens y' q" and P: "send_inv cv used x P"
  shows "lead cv (insert (x25519_base cv k) used) y' x pyx P"
proof -
  let ?u = "insert (x25519_base cv k) used"
  have sx: "send_inv cv used x pxy" and sy: "send_inv cv used y pyx" and rx: "recv_inv used x" and dhr: "r_dhr x = Some (pub cv y)"
    using l by (simp_all add: lead_def)
  have len: "length (r_dhs x) = 32" using sx by (simp add: send_inv_def)
  have root: "kdfRoot (r_rk x) (x25519_mult cv (r_dhs x) (pub cv y')) = (r_rk y', r_cks y')"
    using y'(1,6) curve_dh [OF cv k(1) len] by simp
  have old: "\<forall>q \<in> set pyx. ahead cv (r_cks y') y' x q"
    using l sy k(2) dhr y'(1,5) by (auto simp: ahead_def lead_def send_inv_def)
  have "send_inv cv ?u y' pyx" using sy k y'(1,3) by (auto simp: send_inv_def)
  moreover have "send_inv cv ?u x P" using P by (rule send_inv_mono) auto
  moreover have "recv_inv ?u x" using rx by (rule recv_inv_mono) blast
  moreover have "r_dhr x \<noteq> Some (pub cv y')" "\<forall>n. r_skipped x (skipped_key (Some (pub cv y')) n) = None"
    using recv_inv_unused [OF rx k(2)] y'(1) by simp_all
  moreover have "r_ad y' = r_ad x" using l y'(4) by (simp add: lead_def)
  moreover have "r_cks y' = chain_key (r_cks y') (unat (r_ns y'))" using y'(3) by simp
  ultimately show ?thesis unfolding lead_def using y'(2,7) opn chain root old by blast
qed

text \<open>What the leader's state says about a message on its new chain.\<close>

lemma lead_new_packet:
  assumes l: "lead cv used x y pxy pyx" and i: "i < length pxy" "p_dh (pxy ! i) = pub cv x"
  obtains c where "kdfRoot (r_rk y) (x25519_mult cv (r_dhs y) (pub cv x)) = (r_rk x, c)"
    "r_cks x = chain_key c (unat (r_ns x))" "\<forall>q \<in> set pxy. ahead cv c x y q"
    "p_pn (pxy ! i) = r_pn x" "p_mk (pxy ! i) = msg_key c (unat (p_n (pxy ! i)))"
    "unat (p_n (pxy ! i)) + 1001 < 2 ^ 32" "p_n (pxy ! i) < r_ns x" "pub cv x \<in> used"
    "length (r_dhs x) = 32" "length (r_dhs y) = 32" "unat (r_nr y) + 1000 < 2 ^ 32"
proof -
  have p: "pxy ! i \<in> set pxy" using i(1) by simp
  have sx: "send_inv cv used x pxy" and sy: "send_inv cv used y pyx" and ry: "recv_inv used y" using l by (simp_all add: lead_def)
  obtain c where c: "kdfRoot (r_rk y) (x25519_mult cv (r_dhs y) (pub cv x)) = (r_rk x, c)"
    "r_cks x = chain_key c (unat (r_ns x))" "\<forall>q \<in> set pxy. ahead cv c x y q"
    using l by (auto simp: lead_def)
  show ?thesis by (rule that [OF c]) (use c(3) p i(2) sx sy ry in \<open>auto simp: ahead_def send_inv_def recv_inv_def\<close>)
qed

lemma lead_new_chain:
  assumes cv: "curve_ok cv" and l: "lead cv used x y pxy pyx" and i: "i < length pxy" "p_dh (pxy ! i) = pub cv x"
    and w: "in_window y (p_wire (r_ad y) (pxy ! i))" and k: "length k = 32" "x25519_base cv k \<notin> used"
  shows "ratchet_decrypt cv y (p_wire (r_ad y) (pxy ! i)) (Inr k) = (Inr (p_pt (pxy ! i)), follow cv y (pxy ! i) k)"
    (is ?dec)
    and "lead cv (insert (x25519_base cv k) used) (follow cv y (pxy ! i) k) x pyx (without i pxy)" (is ?lead)
proof -
  let ?p = "pxy ! i" and ?u = "insert (x25519_base cv k) used" and ?y = "follow cv y (pxy ! i) k"
  have sx: "send_inv cv used x pxy" and ry: "recv_inv used y" and dhr: "r_dhr y \<noteq> Some (pub cv x)"
    and fresh: "\<And>n. r_skipped y (skipped_key (Some (pub cv x)) n) = None"
    using l by (simp_all add: lead_def)
  obtain c where c: "kdfRoot (r_rk y) (x25519_mult cv (r_dhs y) (pub cv x)) = (r_rk x, c)"
    "r_cks x = chain_key c (unat (r_ns x))" "\<forall>q \<in> set pxy. ahead cv c x y q"
    and pk: "p_pn ?p = r_pn x" "p_mk ?p = msg_key c (unat (p_n ?p))"
    and bn: "unat (p_n ?p) + 1001 < 2 ^ 32" and lt: "p_n ?p < r_ns x" and ux: "pub cv x \<in> used"
    and len: "length (r_dhs x) = 32" "length (r_dhs y) = 32" and bnr: "unat (r_nr y) + 1000 < 2 ^ 32"
    by (rule lead_new_packet [OF l i])
  have win: "skippable y (p_pn ?p)" "unat (p_n ?p) \<le> 1000"
    using w fresh [of "p_n ?p"] dhr i(2) by (simp_all add: in_window_def p_wire_def)
  show ?dec
    using decrypt_new_chain [OF cv len(2) k(1) len(1) i(2) _ _ win(1) bnr win(2)] dhr fresh pk i(2) c(1)
    by (simp add: follow_def)
  have ry': "recv_inv ?u y" using ry by (rule recv_inv_mono) blast
  note rt = follow_recv [OF ry' win(1), of cv k]
  have r: "recv_inv ?u (turned cv (skip_loop (p_pn ?p) y) (p_dh ?p) k)" "recv_inv ?u ?y"
    using rt bn ux dhr fresh i(2) by simp_all
  have opn: "\<forall>q \<in> set (without i pxy). opens ?y q"
    using follow_opens [OF r(1) ry' win(1) pk(1) bn _ i(2), of c] c(1,3) i(2) other_pos [OF sx i(1)] by simp
  have chain: "r_nr ?y \<le> r_ns x" "r_cks x = chain_key (r_ckr ?y) (unat (r_ns x) - unat (r_nr ?y))"
    using lt c(1,2) i(2) unat_succ_bound [OF bn]
    by (simp_all add: follow_simps follow_keys(1) chain_key_add word_le_nat_alt word_less_nat_alt)
  show ?lead
    by (rule lead_turn [OF cv l k c(1) _ _ _ _ _ _ r(2) chain opn send_inv_without [OF sx]])
       (use follow_keys(2) [of y cv ?p "r_rk x" c k] c(1) i(2) in \<open>simp_all add: follow_simps\<close>)
qed

section \<open>Messages outside the window\<close>

text \<open>A message that is too far ahead is refused. On a chain the receiver knows nothing else happens; on a new
  chain the receiver has already turned to that chain.\<close>

lemma skip_refused:
  assumes "r_ckr r \<noteq> []" "unat (r_nr r) + 1000 < unat until" "unat (r_nr r) + 1000 < 2 ^ 32"
  shows "ratchet_skip r until = (Inl too_many, r)"
proof -
  have "unat (r_nr r + maxSkip) = unat (r_nr r) + 1000"
    using assms(3) unat_add_const [of "r_nr r" 1000] by (simp add: maxSkip_def)
  with assms show ?thesis by (simp add: ratchet_skip_def too_many_def word_less_nat_alt)
qed

lemma refused_known:
  assumes inv: "recv_inv used r" and p: "opens r p" "\<not> in_window r (p_wire ad p)" "\<not> chain_gap r (p_wire ad p)"
  shows "ratchet_decrypt cv r (p_wire ad p) d = (Inl too_many, r)"
proof -
  have none: "r_skipped r (p_key p) = None" and cur: "r_dhr r = Some (p_dh p)" and sk: "\<not> skippable r (p_n p)"
    using p(1,2) by (auto simp: opens_def in_window_def p_wire_def split: if_splits)
  have "r_ckr r \<noteq> []" using p(3) sk none cur by (auto simp: chain_gap_def p_wire_def skippable_def)
  then have "ratchet_skip r (p_n p) = (Inl too_many, r)"
    using sk inv by (intro skip_refused) (auto simp: skippable_def recv_inv_def)
  with none cur show ?thesis
    by (simp add: ratchet_decrypt_def p_wire_def trySkipped_def decrypt_chain_def)
qed

lemma lead_new_refused:
  assumes cv: "curve_ok cv" and l: "lead cv used x y pxy pyx" and i: "i < length pxy" "p_dh (pxy ! i) = pub cv x"
    and w: "\<not> in_window y (p_wire (r_ad y) (pxy ! i))" "\<not> chain_gap y (p_wire (r_ad y) (pxy ! i))"
    and k: "length k = 32" "x25519_base cv k \<notin> used"
  obtains y' where "ratchet_decrypt cv y (p_wire (r_ad y) (pxy ! i)) (Inr k) = (Inl too_many, y')"
    "y' = y \<or> lead cv (insert (x25519_base cv k) used) y' x pyx (without i pxy)"
proof -
  let ?p = "pxy ! i" and ?u = "insert (x25519_base cv k) used"
  have sx: "send_inv cv used x pxy" and ry: "recv_inv used y" and dhr: "r_dhr y \<noteq> Some (pub cv x)"
    and fresh: "\<And>n. r_skipped y (skipped_key (Some (pub cv x)) n) = None"
    using l by (simp_all add: lead_def)
  have none: "r_skipped y (p_key ?p) = None" using fresh i(2) by simp
  have new: "case r_dhr y of None \<Rightarrow> True | Some d \<Rightarrow> \<not> equal_bytes (slice_list (h_DH (p_header ?p))) d"
    using dhr i(2) by (auto split: option.split)
  obtain c where c: "kdfRoot (r_rk y) (x25519_mult cv (r_dhs y) (pub cv x)) = (r_rk x, c)"
    "r_cks x = chain_key c (unat (r_ns x))" "\<forall>q \<in> set pxy. ahead cv c x y q"
    and pk: "p_pn ?p = r_pn x" and ux: "pub cv x \<in> used"
    and len: "length (r_dhs x) = 32" "length (r_dhs y) = 32" and bnr: "unat (r_nr y) + 1000 < 2 ^ 32"
    by (rule lead_new_packet [OF l i])
  have gap: "r_ckr y = [] \<Longrightarrow> p_pn ?p = 0"
    using w(2) none dhr i(2) by (auto simp: chain_gap_def p_wire_def split: if_splits)
  show ?thesis
  proof (cases "skippable y (p_pn ?p)")
    case False
    then have "ratchet_skip y (p_pn ?p) = (Inl too_many, y)"
      using gap bnr by (intro skip_refused) (auto simp: skippable_def)
    then have "ratchet_decrypt cv y (p_wire (r_ad y) ?p) (Inr k) = (Inl too_many, y)"
      using none new by (simp add: ratchet_decrypt_def p_wire_def trySkipped_def)
    then show ?thesis by (rule that) simp
  next
    case True
    let ?y = "turned cv (skip_loop (p_pn ?p) y) (p_dh ?p) k"
    have far: "1000 < unat (p_n ?p)"
      using w(1) True none dhr i(2) by (auto simp: in_window_def p_wire_def split: if_splits)
    have tk: "r_ckr ?y = c" "(r_rk ?y, r_cks ?y) = kdfRoot (r_rk x) (x25519_mult cv k (pub cv x))"
      using turned_keys [of "skip_loop (p_pn ?p) y" cv "p_dh ?p" "r_rk x" c k] c(1) i(2) by (simp_all add: skip_loop_same)
    have "c \<noteq> []" using kdfRoot_lengths [OF c(1)] by auto
    then have sk: "ratchet_skip ?y (p_n ?p) = (Inl too_many, ?y)" using far tk(1) by (intro skip_refused) simp_all
    have "dhRatchet cv (skip_loop (p_pn ?p) y) (Some (p_dh ?p)) (Inr k) = (Inr (), ?y)"
      using dhRatchet_ok [OF cv _ k(1) len(1), of "skip_loop (p_pn ?p) y"] len(2) i(2) by (simp add: skip_loop_same)
    then have dec: "ratchet_decrypt cv y (p_wire (r_ad y) ?p) (Inr k) = (Inl too_many, ?y)"
      using none new sk by (simp add: ratchet_decrypt_def p_wire_def trySkipped_def ratchet_skip_ok [OF True bnr] decrypt_chain_def)
    have ry': "recv_inv ?u y" using ry by (rule recv_inv_mono) blast
    have r: "recv_inv ?u ?y" by (rule recv_inv_turned [OF ry' True]) (use ux dhr fresh i(2) in simp_all)
    have "opens ?y q" if "q \<in> set pxy" for q
    proof (cases "p_dh q = pub cv x")
      case True
      then show ?thesis using c(3) that tk(1) i(2) by (auto simp: opens_def ahead_def)
    next
      case False
      then show ?thesis using c(3) that pk by (intro opens_turned_old [OF ry' \<open>skippable y (p_pn ?p)\<close>]) (auto simp: ahead_def)
    qed
    then have opn: "\<forall>q \<in> set (without i pxy). opens ?y q" using set_without [of i pxy] by blast
    have "lead cv ?u ?y x pyx (without i pxy)"
      by (rule lead_turn [OF cv l k c(1) _ _ _ _ _ tk(2) r _ _ opn send_inv_without [OF sx]])
         (use tk(1) c(2) i(2) in \<open>simp_all add: skip_loop_same\<close>)
    then show ?thesis by (intro that [OF dec] disjI2)
  qed
qed

section \<open>Every reachable state\<close>

definition flight :: "bytes \<Rightarrow> packet list \<Rightarrow> (bytes \<times> bytes) list" where
  "flight ad P = map (\<lambda>p. (p_wire ad p, p_pt p)) P"

definition synced :: "curve \<Rightarrow> net \<Rightarrow> bool" where
  "synced cv s \<longleftrightarrow> (\<exists>pab pba.
     n_ab s = flight (r_ad (n_a s)) pab \<and> n_ba s = flight (r_ad (n_b s)) pba \<and>
     (lead cv (n_used s) (n_a s) (n_b s) pab pba \<or> lead cv (n_used s) (n_b s) (n_a s) pba pab))"

lemma syncedI:
  "n_ab s = flight (r_ad (n_a s)) pab \<Longrightarrow> n_ba s = flight (r_ad (n_b s)) pba \<Longrightarrow>
   lead cv (n_used s) (n_a s) (n_b s) pab pba \<or> lead cv (n_used s) (n_b s) (n_a s) pba pab \<Longrightarrow> synced cv s"
  by (auto simp: synced_def)

lemma synced_flip: "synced cv (flip_net s) \<longleftrightarrow> synced cv s"
  by (auto simp: synced_def flip_net_def)

lemma lead_ad: "lead cv used x y pxy pyx \<Longrightarrow> r_ad x = r_ad y"
  by (simp add: lead_def)

text \<open>A delivery: the plaintext comes out, or the message is refused, and the invariant holds again.\<close>

lemma lead_lose: "lead cv used x y pxy pyx \<Longrightarrow> lead cv used x y (without i pxy) pyx \<and> lead cv used x y pxy (without i pyx)"
  using set_without [of i pxy] set_without [of i pyx] unfolding lead_def by (blast intro: send_inv_without)

lemma lead_deliver:
  assumes cv: "curve_ok cv" and ld: "lead cv used a b pab pba \<or> lead cv used b a pba pab"
    and i: "i < length pab" "\<not> chain_gap b (p_wire (r_ad b) (pab ! i))" and k: "length k = 32" "x25519_base cv k \<notin> used"
  shows "\<exists>r. ratchet_decrypt cv b (p_wire (r_ad b) (pab ! i)) (Inr k) =
      (if in_window b (p_wire (r_ad b) (pab ! i)) then Inr (p_pt (pab ! i)) else Inl too_many, r) \<and>
    (lead cv (insert (x25519_base cv k) used) a r (without i pab) pba \<or> lead cv (insert (x25519_base cv k) used) r a pba (without i pab))"
  (is "\<exists>r. ?dec r \<and> ?lead r")
proof (cases "in_window b (p_wire (r_ad b) (pab ! i))")
  case w: True
  show ?thesis using ld
  proof
    assume l: "lead cv used a b pab pba"
    show ?thesis
    proof (cases "p_dh (pab ! i) = pub cv a")
      case True
      then show ?thesis using lead_new_chain [OF cv l i(1) _ w k] w by auto
    next
      case False
      obtain r where "ratchet_decrypt cv b (p_wire (r_ad b) (pab ! i)) (Inr k) = (Inr (p_pt (pab ! i)), r)"
        "lead cv used a r (without i pab) pba"
        by (rule lead_follower_known [OF l i(1) False w])
      with w show ?thesis using lead_mono [OF _ subset_insertI] by (intro exI [of _ r]) simp
    qed
  next
    assume l: "lead cv used b a pba pab"
    obtain r where "ratchet_decrypt cv b (p_wire (r_ad b) (pab ! i)) (Inr k) = (Inr (p_pt (pab ! i)), r)"
      "lead cv used r a pba (without i pab)"
      by (rule lead_leader_known [OF l i(1) w])
    with w show ?thesis using lead_mono [OF _ subset_insertI] by (intro exI [of _ r]) simp
  qed
next
  case w: False
  have stay: ?thesis if "ratchet_decrypt cv b (p_wire (r_ad b) (pab ! i)) (Inr k) = (Inl too_many, b)"
    using that w ld lead_lose lead_mono by (intro exI [of _ b]) (auto simp: subset_insertI)
  show ?thesis using ld
  proof
    assume l: "lead cv used a b pab pba"
    show ?thesis
    proof (cases "p_dh (pab ! i) = pub cv a")
      case True
      obtain r where r: "ratchet_decrypt cv b (p_wire (r_ad b) (pab ! i)) (Inr k) = (Inl too_many, r)"
        "r = b \<or> lead cv (insert (x25519_base cv k) used) r a pba (without i pab)"
        by (rule lead_new_refused [OF cv l i(1) True w i(2) k])
      show ?thesis
      proof (cases "r = b")
        case True
        with r(1) show ?thesis by (intro stay) simp
      next
        case False
        with r w show ?thesis by (intro exI [of _ r]) simp
      qed
    next
      case False
      then have "opens b (pab ! i)" "recv_inv used b" using l i(1) by (auto simp: lead_def ahead_def)
      from refused_known [OF this(2,1) w i(2)] show ?thesis by (rule stay)
    qed
  next
    assume l: "lead cv used b a pba pab"
    then have "opens b (pab ! i)" "recv_inv used b" using i(1) by (auto simp: lead_def)
    from refused_known [OF this(2,1) w i(2)] show ?thesis by (rule stay)
  qed
qed

lemma synced_deliver:
  assumes cv: "curve_ok cv" and s: "synced cv s" and i: "i < length (n_ab s)" "\<not> chain_gap (n_b s) (fst (n_ab s ! i))"
    and k: "length k = 32" "x25519_base cv k \<notin> n_used s"
  obtains r where "ratchet_decrypt cv (n_b s) (fst (n_ab s ! i)) (Inr k) =
      (if in_window (n_b s) (fst (n_ab s ! i)) then Inr (snd (n_ab s ! i)) else Inl too_many, r)"
    "synced cv (s\<lparr> n_b := r, n_ab := without i (n_ab s), n_used := insert (x25519_base cv k) (n_used s) \<rparr>)"
proof -
  let ?u = "insert (x25519_base cv k) (n_used s)"
  obtain pab pba where q: "n_ab s = flight (r_ad (n_a s)) pab" "n_ba s = flight (r_ad (n_b s)) pba"
    and ld: "lead cv (n_used s) (n_a s) (n_b s) pab pba \<or> lead cv (n_used s) (n_b s) (n_a s) pba pab"
    using s by (auto simp: synced_def)
  have ad: "r_ad (n_a s) = r_ad (n_b s)" using ld lead_ad by metis
  have ip: "i < length pab" and it: "n_ab s ! i = (p_wire (r_ad (n_b s)) (pab ! i), p_pt (pab ! i))"
    using i(1) q(1) ad by (simp_all add: flight_def)
  have g: "\<not> chain_gap (n_b s) (p_wire (r_ad (n_b s)) (pab ! i))" using i(2) it by simp
  obtain r where r: "ratchet_decrypt cv (n_b s) (p_wire (r_ad (n_b s)) (pab ! i)) (Inr k) =
      (if in_window (n_b s) (p_wire (r_ad (n_b s)) (pab ! i)) then Inr (p_pt (pab ! i)) else Inl too_many, r)"
    and l': "lead cv ?u (n_a s) r (without i pab) pba \<or> lead cv ?u r (n_a s) pba (without i pab)"
    using lead_deliver [OF cv ld ip g k] by blast
  have "r_ad r = r_ad (n_b s)" using l' lead_ad ad by metis
  then have "synced cv (s\<lparr> n_b := r, n_ab := without i (n_ab s), n_used := ?u \<rparr>)"
    using q l' by (intro syncedI [of _ "without i pab" pba]) (simp_all add: flight_def map_without)
  with r it show ?thesis using that by simp
qed

lemma synced_send:
  assumes s: "synced cv s" and b: "unat (r_ns (n_a s)) + 1001 < 2 ^ 32"
    and e: "ratchet_encrypt cv (n_a s) pt = (Inr w, r)"
  shows "synced cv (s\<lparr> n_a := r, n_ab := n_ab s @ [(w, pt)] \<rparr>)"
proof -
  obtain pab pba where q: "n_ab s = flight (r_ad (n_a s)) pab" "n_ba s = flight (r_ad (n_b s)) pba"
    and ld: "lead cv (n_used s) (n_a s) (n_b s) pab pba \<or> lead cv (n_used s) (n_b s) (n_a s) pba pab"
    using s by (auto simp: synced_def)
  let ?p = "next_packet cv (n_a s) pt"
  have r: "r = sent (n_a s)" and w: "w = p_wire (r_ad (n_a s)) ?p" using e by (simp_all add: encrypt_next)
  have "lead cv (n_used s) r (n_b s) (pab @ [?p]) pba \<or> lead cv (n_used s) (n_b s) r pba (pab @ [?p])"
    using ld lead_send_leader lead_send_follower b unfolding r by metis
  then show ?thesis
    using q w by (intro syncedI [of _ "pab @ [?p]" pba]) (simp_all add: flight_def r)
qed

lemma synced_lose: "synced cv s \<Longrightarrow> synced cv (s\<lparr> n_ab := without i (n_ab s) \<rparr>)"
proof -
  assume "synced cv s"
  then obtain pab pba where q: "n_ab s = flight (r_ad (n_a s)) pab" "n_ba s = flight (r_ad (n_b s)) pba"
    and ld: "lead cv (n_used s) (n_a s) (n_b s) pab pba \<or> lead cv (n_used s) (n_b s) (n_a s) pba pab"
    by (auto simp: synced_def)
  then have "lead cv (n_used s) (n_a s) (n_b s) (without i pab) pba \<or> lead cv (n_used s) (n_b s) (n_a s) pba (without i pab)"
    using lead_lose by blast
  with q show ?thesis
    by (intro syncedI [of _ "without i pab" pba]) (simp_all add: flight_def map_without)
qed

lemma synced_half_step: "curve_ok cv \<Longrightarrow> half_step cv s t \<Longrightarrow> synced cv s \<Longrightarrow> synced cv t"
proof (erule half_stepE, goal_cases)
  case (2 i k res r)
  show ?case
    by (rule synced_deliver [OF 2(1,2) 2(4-7)]) (use 2 in simp)
qed (simp_all add: synced_send synced_lose)

lemma synced_reach: "net_reach cv s t \<Longrightarrow> curve_ok cv \<Longrightarrow> synced cv s \<Longrightarrow> synced cv t"
  by (induction rule: net_reach.induct) (auto simp: synced_half_step synced_flip)

lemma synced_start:
  assumes cv: "curve_ok cv" and l: "length x = 32" "length k = 32"
  shows "synced cv (net_start cv sk x ad k)"
proof -
  let ?s = "net_start cv sk x ad k"
  have "lead cv (n_used ?s) (n_a ?s) (n_b ?s) [] []"
    using l curve_dh [OF cv l(2,1)]
    by (auto simp: lead_def net_start_def initiator_state_def newRatchetResponder_def send_inv_def recv_inv_def
        case_prod_beta)
  then show ?thesis by (auto simp: synced_def net_start_def flight_def)
qed

section \<open>Properties\<close>

text \<open>The two ratchets of a finished handshake, before any message is sent.\<close>

definition net_of :: "ratchet \<Rightarrow> ratchet \<Rightarrow> bytes set \<Rightarrow> net" where
  "net_of ra rb used = \<lparr> n_a = ra, n_b = rb, n_ab = [], n_ba = [], n_used = used \<rparr>"

lemma handshake_synced:
  assumes cv: "curve_ok cv" and a: "identity_ok cv (m_local ma)"
    and b: "m_pre mb = Some pre" "prekeys_ok cv pre" "pk_id pre = m_local mb" and d: "length eph = 32" "length k0 = 32"
    and i: "session_Initiate cv ma (Bundle cv pre) (Inr eph) (Inr k0) = (Inr (p, hs), ma')"
    and r: "session_Accept cv mb hs = (Inr q, mb')"
  shows "synced cv (net_of (s_r (m_heap ma' ! p)) (s_r (m_heap mb' ! q))
    {x25519_base cv (pk_signedPre pre), x25519_base cv k0})"
proof -
  let ?ad = "associatedData (signing_pub (m_local ma)) (signing_pub (m_local mb))"
  obtain sk where sk: "s_r (m_heap ma' ! p) = initiator_state cv sk (x25519_base cv (pk_signedPre pre)) ?ad k0"
    "s_r (m_heap mb' ! q) = newRatchetResponder sk (pk_signedPre pre) ?ad"
    by (rule handshake_sessions [OF cv a b d]) (use i r in auto)
  have "length (pk_signedPre pre) = 32" using b(2) by (simp add: prekeys_ok_def)
  from synced_start [OF cv this d(2), of sk ?ad] show ?thesis
    unfolding sk by (simp add: net_of_def net_start_def)
qed

text \<open>C9. End-to-end delivery. Two well-formed parties run the handshake (\<open>Initiate\<close> on the published bundle,
  \<open>Accept\<close> on the handshake it produced), then send each other any number of messages over a network
  that may delay, reorder and lose them but makes no copies. In every state they can reach, in both
  directions, a message in flight decrypts to exactly the plaintext that was encrypted when it lies
  within the receiver's window, and is refused with the code's own error when more than a thousand keys would have to be
  skipped. The one exception, in the run and for the message, is \<open>chain_gap\<close>: a receiver that has no receiving
  chain yet is not handed a message that is not the first of its chain, or that follows a
  chain whose messages it has not seen.\<close>

theorem e2e_delivery:
  assumes cv: "curve_ok cv" and parties: "identity_ok cv (m_local ma)" "m_pre mb = Some pre" "prekeys_ok cv pre"
      "pk_id pre = m_local mb" "length eph = 32" "length k0 = 32"
    and handshake: "session_Initiate cv ma (Bundle cv pre) (Inr eph) (Inr k0) = (Inr (p, hs), ma')"
      "session_Accept cv mb hs = (Inr q, mb')"
    and run: "net_reach cv (net_of (s_r (m_heap ma' ! p)) (s_r (m_heap mb' ! q))
      {x25519_base cv (pk_signedPre pre), x25519_base cv k0}) s" "t = s \<or> t = flip_net s"
    and message: "i < length (n_ab t)" "\<not> chain_gap (n_b t) (fst (n_ab t ! i))"
    and fresh: "length k = 32" "x25519_base cv k \<notin> n_used t"
  shows "fst (ratchet_decrypt cv (n_b t) (fst (n_ab t ! i)) (Inr k)) =
    (if in_window (n_b t) (fst (n_ab t ! i)) then Inr (snd (n_ab t ! i)) else Inl too_many)"
proof -
  have "synced cv t"
    using synced_reach [OF run(1) cv handshake_synced [OF cv parties handshake]] run(2) synced_flip by metis
  then obtain r where "ratchet_decrypt cv (n_b t) (fst (n_ab t ! i)) (Inr k) =
      (if in_window (n_b t) (fst (n_ab t ! i)) then Inr (snd (n_ab t ! i)) else Inl too_many, r)"
    by (rule synced_deliver [OF cv _ message fresh])
  then show ?thesis by (rule arg_cong [of _ "(_, r)" fst, unfolded fst_conv])
qed

text \<open>Two messages of the initiator are in flight; either can be delivered first.\<close>

theorem e2e_delivery_witness:
  "\<exists>s r r' w w'. half_step toy_curve s (s\<lparr> n_a := r, n_ab := [(w, [104, 105])] \<rparr>) \<and>
     half_step toy_curve (s\<lparr> n_a := r, n_ab := [(w, [104, 105])] \<rparr>) (s\<lparr> n_a := r', n_ab := [(w, [104, 105]), (w', [98])] \<rparr>) \<and>
     fst (ratchet_decrypt toy_curve (n_b s) w (Inr (replicate 32 77))) = Inr [104, 105] \<and>
     fst (ratchet_decrypt toy_curve (n_b s) w' (Inr (replicate 32 77))) = Inr [98]"
proof -
  let ?ma = "NewMemStore (toy_identity 1) None" and ?mb = "NewMemStore (toy_identity 2) (Some toy_prekeys)"
  let ?e = "replicate 32 5 :: bytes" and ?k = "replicate 32 6 :: bytes"
  have pre: "identity_ok toy_curve (m_local ?ma)" "m_pre ?mb = Some toy_prekeys" "pk_id toy_prekeys = m_local ?mb"
    "length ?e = 32" "length ?k = 32"
    by (simp_all add: NewMemStore_def toy_identity_ok toy_prekeys_def)
  obtain sk hs ma' mb' where hs:
    "session_Initiate toy_curve ?ma (Bundle toy_curve toy_prekeys) (Inr ?e) (Inr ?k) = (Inr (length (m_heap ?ma), hs), ma')"
    "session_Accept toy_curve ?mb hs = (Inr (length (m_heap ?mb)), mb')"
    and sb: "m_heap mb' = m_heap ?mb @ [\<lparr> s_r = newRatchetResponder sk (pk_signedPre toy_prekeys)
        (associatedData (signing_pub (m_local ?ma)) (signing_pub (m_local ?mb))),
        s_peerFP = Fingerprint (signing_pub (m_local ?ma)), s_peerSig = signing_pub (m_local ?ma) \<rparr>]"
    and sa: "m_heap ma' = m_heap ?ma @ [\<lparr> s_r = initiator_state toy_curve sk (x25519_base toy_curve (pk_signedPre toy_prekeys))
        (associatedData (signing_pub (m_local ?ma)) (signing_pub (m_local ?mb))) ?k,
        s_peerFP = Fingerprint (signing_pub (m_local ?mb)), s_peerSig = signing_pub (m_local ?mb) \<rparr>]"
    by (rule handshake_sessions [OF toy_curve_ok pre(1,2) toy_prekeys_ok pre(3-5)]) blast
  let ?s = "net_of (s_r (m_heap ma' ! length (m_heap ?ma))) (s_r (m_heap mb' ! length (m_heap ?mb)))
    {x25519_base toy_curve (pk_signedPre toy_prekeys), x25519_base toy_curve ?k}"
  let ?w = "p_wire (r_ad (n_a ?s)) (next_packet toy_curve (n_a ?s) [104, 105])"
  let ?t = "?s\<lparr> n_a := sent (n_a ?s), n_ab := n_ab ?s @ [(?w, [104, 105])] \<rparr>"
  let ?w' = "p_wire (r_ad (n_a ?t)) (next_packet toy_curve (n_a ?t) [98])"
  let ?u = "?t\<lparr> n_a := sent (n_a ?t), n_ab := n_ab ?t @ [(?w', [98])] \<rparr>"
  have st: "n_b ?s = newRatchetResponder sk (pk_signedPre toy_prekeys)
      (associatedData (signing_pub (m_local ?ma)) (signing_pub (m_local ?mb)))"
    "r_ns (n_a ?s) = 0" "r_pn (n_a ?s) = 0"
    using sa sb by (simp_all add: net_of_def nth_append initiator_state_def case_prod_beta)
  have step: "half_step toy_curve ?s ?t" by (rule half_step.send [OF _ encrypt_next]) (simp add: st(2))
  have step': "half_step toy_curve ?t ?u" by (rule half_step.send [OF _ encrypt_next]) (simp add: st(2))
  have reach: "net_reach toy_curve ?s ?u" by (rule net_reach.left [OF net_reach.left [OF net_reach.start step] step'])
  have win: "in_window (n_b ?u) (fst (n_ab ?u ! i))" "\<not> chain_gap (n_b ?u) (fst (n_ab ?u ! i))" if "i = 0 \<or> i = 1" for i
    using that
    by (auto simp: in_window_def chain_gap_def p_wire_def net_of_def st(2,3) [unfolded net_of_def, simplified]
        st(1) [unfolded net_of_def, simplified] newRatchetResponder_def skippable_def)
  have dec: "fst (ratchet_decrypt toy_curve (n_b ?u) (fst (n_ab ?u ! i)) (Inr (replicate 32 77))) = Inr (snd (n_ab ?u ! i))" if "i = 0 \<or> i = 1" for i
  proof -
    have "fst (ratchet_decrypt toy_curve (n_b ?u) (fst (n_ab ?u ! i)) (Inr (replicate 32 77))) =
        (if in_window (n_b ?u) (fst (n_ab ?u ! i)) then Inr (snd (n_ab ?u ! i)) else Inl too_many)"
      by (rule e2e_delivery [OF toy_curve_ok pre(1,2) toy_prekeys_ok pre(3-5) hs reach _ _ win(2) [OF that]])
         (use that in \<open>auto simp: net_of_def toy_curve_def toy_prekeys_def\<close>)
    then show ?thesis unfolding if_P [OF win(1) [OF that]] .
  qed
  have "fst (ratchet_decrypt toy_curve (n_b ?s) ?w (Inr (replicate 32 77))) = Inr [104, 105]"
    "fst (ratchet_decrypt toy_curve (n_b ?s) ?w' (Inr (replicate 32 77))) = Inr [98]"
    using dec [of 0] dec [of 1] by (simp_all add: net_of_def)
  moreover have "half_step toy_curve ?s (?s\<lparr> n_a := sent (n_a ?s), n_ab := [(?w, [104, 105])] \<rparr>)"
    "half_step toy_curve (?s\<lparr> n_a := sent (n_a ?s), n_ab := [(?w, [104, 105])] \<rparr>)
       (?s\<lparr> n_a := sent (n_a ?t), n_ab := [(?w, [104, 105]), (?w', [98])] \<rparr>)"
    using step step' by (simp_all add: net_of_def)
  ultimately show ?thesis by blast
qed

section \<open>A responder that speaks first\<close>

text \<open>The message anyone can make who knows the signed prekey and the identity keys of the two parties: sealed under
  the HMAC of an empty key.\<close>

definition public_message :: "bytes \<Rightarrow> bytes \<Rightarrow> bytes \<Rightarrow> bytes" where
  "public_message spk ad pt =
     (let h = \<lparr> h_DH = Some spk, h_PN = 0, h_N = 0 \<rparr>
      in encodeMessage h (seal_with (hmacSHA256 [] [1]) (ad @ header_bytes h) pt))"

definition unkeyed_packet :: "bytes \<Rightarrow> nat \<Rightarrow> bytes \<Rightarrow> packet" where
  "unkeyed_packet spk n pt = \<lparr> p_dh = spk, p_pn = 0, p_n = of_nat n, p_mk = msg_key [] n, p_pt = pt \<rparr>"

lemma unkeyed_simps [simp]:
  "p_dh (unkeyed_packet spk n pt) = spk" "p_pn (unkeyed_packet spk n pt) = 0" "p_n (unkeyed_packet spk n pt) = of_nat n"
  "p_mk (unkeyed_packet spk n pt) = msg_key [] n" "p_pt (unkeyed_packet spk n pt) = pt"
  by (simp_all add: unkeyed_packet_def)

lemma public_message_packet: "public_message spk ad pt = p_wire ad (unkeyed_packet spk 0 pt)"
  by (simp add: public_message_def p_wire_def p_header_def unkeyed_packet_def msg_key_def Let_def)

lemma responder_encrypts:
  fixes sk x ad
  defines "r \<equiv> newRatchetResponder sk x ad"
  shows "ratchet_encrypt cv r pt = (Inr (p_wire ad (unkeyed_packet (x25519_base cv x) 0 pt)), sent r)"
    and "ratchet_encrypt cv (sent r) pt' = (Inr (p_wire ad (unkeyed_packet (x25519_base cv x) 1 pt')), sent (sent r))"
  by (simp_all add: encrypt_next next_packet_def unkeyed_packet_def r_def newRatchetResponder_def msg_key_add)

lemma initiator_in_order:
  assumes "r_dhr r = Some spk" "r_ckr r = []" "r_nr r = 0" "r_skipped r = (\<lambda>_. None)" "r_ad r = ad"
  shows "ratchet_decrypt cv r (p_wire ad (unkeyed_packet spk 0 pt)) d = (Inr pt, advance r 0)"
    and "fst (ratchet_decrypt cv (advance r 0) (p_wire ad (unkeyed_packet spk 1 pt')) d) = Inr pt'"
proof -
  show "ratchet_decrypt cv r (p_wire ad (unkeyed_packet spk 0 pt)) d = (Inr pt, advance r 0)"
    using decrypt_current [of r "unkeyed_packet spk 0 pt" cv d] assms by (simp add: skippable_def)
  have "r_skipped (advance r 0) = (\<lambda>_. None)" using assms by (simp add: advance_def Let_def skip_loop_done)
  moreover have "chain_key [] (Suc 0) \<noteq> []" by (simp add: chain_key_Suc)
  ultimately show "fst (ratchet_decrypt cv (advance r 0) (p_wire ad (unkeyed_packet spk 1 pt')) d) = Inr pt'"
    using decrypt_current [of "advance r 0" "unkeyed_packet spk 1 pt'" cv d] assms
    by (simp add: skippable_def advance_simps msg_key_add)
qed

text \<open>C36. Until it has received something, a responder has no sending chain: its chain key is empty. So the first message it sends is
  sealed under a key that everyone can compute, and an initiator whose handshake has just succeeded accepts
  any plaintext in such a message, as coming from its peer, whoever made it from the published bundle and
  the two identity keys.\<close>

theorem responder_first_message_unkeyed:
  assumes accepted: "m_pre mb = Some pre" "session_Accept cv mb hs = (Inr q, mb')"
    and initiated: "session_Initiate cv ma b dEph dRatchet = (Inr (p, hs'), ma')"
  shows "fst (session_Encrypt cv mb' q pt) = Inr (public_message (x25519_base cv (pk_signedPre pre))
      (associatedData (signing_pub (m_local mb)) (hs_identitySign hs)) pt) \<and>
    fst (session_Decrypt cv ma' p (public_message (b_signedPreKey b)
      (associatedData (signing_pub (m_local ma)) (b_identitySign b)) forged) d) = Inr forged"
proof
  from accepted(2,1) show "fst (session_Encrypt cv mb' q pt) = Inr (public_message (x25519_base cv (pk_signedPre pre))
      (associatedData (signing_pub (m_local mb)) (hs_identitySign hs)) pt)"
    by (rule Accept_ratchet) (simp add: session_Encrypt_def responder_encrypts public_message_packet)
  obtain r where r: "p < length (m_heap ma')" "s_r (m_heap ma' ! p) = r" "r_dhr r = Some (b_signedPreKey b)"
      "r_ckr r = []" "r_nr r = 0" "r_skipped r = (\<lambda>_. None)"
      "r_ad r = associatedData (signing_pub (m_local ma)) (b_identitySign b)"
    by (rule Initiate_ratchet [OF initiated])
  from initiator_in_order(1) [OF r(3-7)] show "fst (session_Decrypt cv ma' p (public_message (b_signedPreKey b)
      (associatedData (signing_pub (m_local ma)) (b_identitySign b)) forged) d) = Inr forged"
    using r(1,2) by (simp add: session_Decrypt_def public_message_packet case_prod_beta)
qed

text \<open>A handshake of two parties with concrete keys.\<close>

lemma toy_handshake:
  obtains p hs ma q mb where
    "session_Initiate toy_curve (NewMemStore (toy_identity 1) None) (Bundle toy_curve toy_prekeys) (Inr (replicate 32 5)) (Inr (replicate 32 6)) = (Inr (p, hs), ma)"
    "session_Accept toy_curve (NewMemStore (toy_identity 2) (Some toy_prekeys)) hs = (Inr q, mb)"
    "hs_identitySign hs = replicate 32 1"
  by (rule handshake_sessions [OF toy_curve_ok _ _ toy_prekeys_ok, of "NewMemStore (toy_identity 1) None"
        "NewMemStore (toy_identity 2) (Some toy_prekeys)" "replicate 32 5" "replicate 32 6"])
     (auto simp: NewMemStore_def toy_identity_ok toy_prekeys_def, auto simp: toy_identity_def)

theorem responder_first_message_unkeyed_witness:
  "\<exists>p hs ma q mb.
     session_Initiate toy_curve (NewMemStore (toy_identity 1) None) (Bundle toy_curve toy_prekeys) (Inr (replicate 32 5)) (Inr (replicate 32 6)) = (Inr (p, hs), ma) \<and>
     session_Accept toy_curve (NewMemStore (toy_identity 2) (Some toy_prekeys)) hs = (Inr q, mb) \<and>
     fst (session_Encrypt toy_curve mb q [104, 105]) =
       Inr (public_message (x25519_base toy_curve (replicate 32 3)) (associatedData (replicate 32 2) (replicate 32 1)) [104, 105]) \<and>
     fst (session_Decrypt toy_curve ma p (public_message (x25519_base toy_curve (replicate 32 3))
       (associatedData (replicate 32 1) (replicate 32 2)) [98, 97, 100]) (Inl ''eof'')) = Inr [98, 97, 100]"
proof -
  obtain p hs ma q mb where h:
    "session_Initiate toy_curve (NewMemStore (toy_identity 1) None) (Bundle toy_curve toy_prekeys) (Inr (replicate 32 5)) (Inr (replicate 32 6)) = (Inr (p, hs), ma)"
    "session_Accept toy_curve (NewMemStore (toy_identity 2) (Some toy_prekeys)) hs = (Inr q, mb)" "hs_identitySign hs = replicate 32 1"
    by (rule toy_handshake)
  have pre: "m_pre (NewMemStore (toy_identity 2) (Some toy_prekeys)) = Some toy_prekeys" by (simp add: NewMemStore_def)
  from responder_first_message_unkeyed [OF pre h(2,1), of "[104, 105]" "[98, 97, 100]" "Inl ''eof''"] h
  show ?thesis by (auto simp: Bundle_def toy_prekeys_def NewMemStore_def toy_identity_def)
qed

text \<open>What the \<open>n\<close>-th message of such a responder is sealed with besides its key.\<close>

definition bound_data :: "curve \<Rightarrow> memStore \<Rightarrow> memStore \<Rightarrow> prekeys \<Rightarrow> u32 \<Rightarrow> bytes" where
  "bound_data cv ma mb pre n =
     associatedData (signing_pub (m_local ma)) (signing_pub (m_local mb)) @
     header_bytes \<lparr> h_DH = Some (x25519_base cv (pk_signedPre pre)), h_PN = 0, h_N = n \<rparr>"

text \<open>C35. What happens in the excepted case. A responder answers a handshake with two messages. Received in the order they
  were sent, both come out. When the second arrives first, \<open>skip\<close> does nothing because there is no receiving
  chain yet: the second is tried with the key of the first and rejected, the counter moves on, and the first, when it
  arrives, is tried with the key of the second and rejected too. Each rejection holds unless AES-GCM, with the same
  associated data, seals some plaintext to the very same ciphertext under the other key.\<close>

theorem first_messages_reordered:
  assumes parties: "m_pre mb = Some pre" "pk_id pre = m_local mb"
    and handshake: "session_Initiate cv ma (Bundle cv pre) dEph dRatchet = (Inr (p, hs), ma')"
      "session_Accept cv mb hs = (Inr q, mb')"
    and sent: "session_Encrypt cv mb' q pt = (Inr w, mb1)" "session_Encrypt cv mb1 q pt' = (Inr w', mb2)"
    and ordered: "session_Decrypt cv ma' p w d = (res, ma1)" "session_Decrypt cv ma1 p w' d = (res', ma2)"
    and swapped: "session_Decrypt cv ma' p w' d = (bad', mc1)" "session_Decrypt cv mc1 p w d = (bad, mc2)"
  shows "res = Inr pt \<and> res' = Inr pt' \<and>
    (bad' = Inl auth_failed \<or> key_collision (msg_key [] 1) (msg_key [] 0) (bound_data cv ma mb pre 1) pt') \<and>
    (bad = Inl auth_failed \<or> key_collision (msg_key [] 0) (msg_key [] 1) (bound_data cv ma mb pre 0) pt)"
proof -
  let ?spk = "x25519_base cv (pk_signedPre pre)" and ?ad = "associatedData (signing_pub (m_local ma)) (signing_pub (m_local mb))"
  obtain r where r: "p < length (m_heap ma')" "s_r (m_heap ma' ! p) = r" "r_dhr r = Some ?spk"
      "r_ckr r = []" "r_nr r = 0" "r_skipped r = (\<lambda>_. None)" "r_ad r = ?ad" and hs: "hs_identitySign hs = signing_pub (m_local ma)"
    using Initiate_ratchet [OF handshake(1)] parties(2) by (auto simp: Bundle_def)
  obtain sk where sk: "q < length (m_heap mb')" "s_r (m_heap mb' ! q) = newRatchetResponder sk (pk_signedPre pre) ?ad"
    using Accept_ratchet [OF handshake(2) parties(1)] by (auto simp: hs associatedData_commute)
  have w: "w = p_wire ?ad (unkeyed_packet ?spk 0 pt)" "w' = p_wire ?ad (unkeyed_packet ?spk 1 pt')"
    using sent sk by (auto simp: session_Encrypt_def responder_encrypts)
  have ok: "res = Inr pt" "res' = Inr pt'"
    using ordered r(1,2) initiator_in_order [OF r(3-7)] by (auto simp: session_Decrypt_def w case_prod_beta)
  let ?r = "r\<lparr> r_ckr := chain_key (r_ckr r) 1, r_nr := r_nr r + 1 \<rparr>"
  let ?b0 = "bound_data cv ma mb pre 0" and ?b1 = "bound_data cv ma mb pre 1"
  have b: "?ad @ header_bytes (p_header (unkeyed_packet ?spk 1 pt')) = ?b1" "?ad @ header_bytes (p_header (unkeyed_packet ?spk 0 pt)) = ?b0"
    by (simp_all add: bound_data_def p_header_def)
  have d1: "ratchet_decrypt cv r w' d = (aeadOpen (msg_key [] 0) (seal_with (msg_key [] 1) ?b1 pt')
      ?b1, ?r)"
    unfolding w(2) p_wire_def using decrypt_at_head [of r "unkeyed_packet ?spk 1 pt'"] r(3-7) b by (simp add: ratchet_skip_def)
  have "ratchet_skip ?r 0 = (Inr (), ?r)" using r(5) by (intro skip_behind) simp_all
  then have d2: "fst (ratchet_decrypt cv ?r w d) = aeadOpen (msg_key [] 1) (seal_with (msg_key [] 0) ?b0 pt)
      ?b0"
    unfolding w(1) p_wire_def using decrypt_at_head [of ?r "unkeyed_packet ?spk 0 pt"] r(3-7) b by (simp add: msg_key_add)
  have "bad' = fst (ratchet_decrypt cv r w' d)" "bad = fst (ratchet_decrypt cv ?r w d)"
    using swapped r(1,2) d1 by (auto simp: session_Decrypt_def case_prod_beta)
  then show ?thesis using ok d1 d2 aeadOpen_other by (metis fst_conv)
qed

theorem first_messages_reordered_witness:
  "\<exists>p hs ma q mb w mb1 w' mb2.
     session_Initiate toy_curve (NewMemStore (toy_identity 1) None) (Bundle toy_curve toy_prekeys) (Inr (replicate 32 5)) (Inr (replicate 32 6)) = (Inr (p, hs), ma) \<and>
     session_Accept toy_curve (NewMemStore (toy_identity 2) (Some toy_prekeys)) hs = (Inr q, mb) \<and>
     session_Encrypt toy_curve mb q [104, 105] = (Inr w, mb1) \<and> session_Encrypt toy_curve mb1 q [98, 97, 100] = (Inr w', mb2) \<and>
     fst (session_Decrypt toy_curve ma p w (Inl ''eof'')) = Inr [104, 105] \<and>
     (fst (session_Decrypt toy_curve ma p w' (Inl ''eof'')) = Inl auth_failed \<or>
      key_collision (msg_key [] 1) (msg_key [] 0) (bound_data toy_curve (NewMemStore (toy_identity 1) None)
        (NewMemStore (toy_identity 2) (Some toy_prekeys)) toy_prekeys 1) [98, 97, 100])"
proof -
  obtain p hs ma q mb where h:
    "session_Initiate toy_curve (NewMemStore (toy_identity 1) None) (Bundle toy_curve toy_prekeys) (Inr (replicate 32 5)) (Inr (replicate 32 6)) = (Inr (p, hs), ma)"
    "session_Accept toy_curve (NewMemStore (toy_identity 2) (Some toy_prekeys)) hs = (Inr q, mb)"
    by (rule toy_handshake)
  have pre: "m_pre (NewMemStore (toy_identity 2) (Some toy_prekeys)) = Some toy_prekeys"
    "pk_id toy_prekeys = m_local (NewMemStore (toy_identity 2) (Some toy_prekeys))" by (simp_all add: NewMemStore_def toy_prekeys_def)
  have enc: "\<exists>w m'. session_Encrypt toy_curve m q pt = (Inr w, m') \<and> length (m_heap m') = length (m_heap m)"
    if "q < length (m_heap m)" for m pt
    using that by (auto simp: session_Encrypt_def encrypt_next)
  have "q < length (m_heap mb)" using Accept_ratchet [OF h(2) pre(1)] by metis
  then obtain w mb1 w' mb2 where e: "session_Encrypt toy_curve mb q [104, 105] = (Inr w, mb1)" "session_Encrypt toy_curve mb1 q [98, 97, 100] = (Inr w', mb2)"
    using enc by metis
  note r = first_messages_reordered [OF pre h e surjective_pairing surjective_pairing surjective_pairing surjective_pairing, of "Inl ''eof''"]
  show ?thesis by (rule exI)+ (intro conjI, rule h, rule h, rule e, rule e, rule r [THEN conjunct1], rule r [THEN conjunct2, THEN conjunct2, THEN conjunct1])
qed

end
