(* ===== verification/Ratchet_Fifo.thy ===== *)
theory Ratchet_Fifo
  imports Ratchet_Sync
begin

text \<open>
  Two ratchets over a connection that keeps messages in order and loses none, as \<open>transport.Conn\<close>
  promises. The queues then hold consecutive positions: from the leader the rest of its previous
  chain followed by its current one, from the follower the rest of its current chain. The message at
  the head of a queue is therefore always within the receiver's window, so the window condition of
  \<open>Ratchet_Sync\<close> disappears: every message sent is received.
\<close>

definition positions :: "packet list \<Rightarrow> (bytes option \<times> nat) list" where
  "positions P = map (\<lambda>p. (Some (p_dh p), unat (p_n p))) P"

definition span :: "bytes option \<Rightarrow> nat \<Rightarrow> nat \<Rightarrow> (bytes option \<times> nat) list" where
  "span d a b = map (Pair d) [a..<b]"

lemma positions_simps [simp]:
  "positions [] = []" "positions (p # P) = (Some (p_dh p), unat (p_n p)) # positions P"
  "positions (P @ Q) = positions P @ positions Q"
  by (simp_all add: positions_def)

lemma span_simps [simp]: "span d a a = []" "a \<le> b \<Longrightarrow> span d a (Suc b) = span d a b @ [(d, b)]"
  by (simp_all add: span_def)

lemma span_Cons: "x # xs = span d a b \<longleftrightarrow> a < b \<and> x = (d, a) \<and> xs = span d (Suc a) b"
  by (cases "a < b") (auto simp: span_def upt_conv_Cons)

lemma unat_eq: "unat m = unat n \<Longrightarrow> m = n" for m n :: "'a::len word"
  using unsigned_word_eqI by blast

definition in_order :: "curve \<Rightarrow> bytes set \<Rightarrow> ratchet \<Rightarrow> ratchet \<Rightarrow> packet list \<Rightarrow> packet list \<Rightarrow> bool" where
  "in_order cv used x y pxy pyx \<longleftrightarrow>
     lead cv used x y pxy pyx \<and> r_nr y \<le> r_pn x \<and>
     positions pxy = span (r_dhr y) (unat (r_nr y)) (unat (r_pn x)) @ span (Some (pub cv x)) 0 (unat (r_ns x)) \<and>
     positions pyx = span (Some (pub cv y)) (unat (r_nr x)) (unat (r_ns y)) \<and>
     (r_ckr x = [] \<longrightarrow> r_nr x = 0) \<and> (r_ckr y = [] \<longrightarrow> r_nr y = 0)"

lemma in_order_lead: "in_order cv used x y pxy pyx \<Longrightarrow> lead cv used x y pxy pyx"
  by (simp add: in_order_def)

lemma in_order_mono: "in_order cv used x y pxy pyx \<Longrightarrow> used \<subseteq> used' \<Longrightarrow> in_order cv used' x y pxy pyx"
  using lead_mono by (auto simp: in_order_def)

section \<open>Sending\<close>

lemma in_order_send_leader:
  assumes o: "in_order cv used x y pxy pyx" and b: "unat (r_ns x) + 1001 < 2 ^ 32"
  shows "in_order cv used (sent x) y (pxy @ [next_packet cv x pt]) pyx"
  using o lead_send_leader [OF in_order_lead [OF o] b, of pt] unat_succ_bound [OF b]
  by (simp add: in_order_def)

lemma in_order_send_follower:
  assumes o: "in_order cv used x y pxy pyx" and b: "unat (r_ns y) + 1001 < 2 ^ 32"
  shows "in_order cv used x (sent y) pxy (pyx @ [next_packet cv y pt])"
proof -
  have "unat (r_nr x) \<le> unat (r_ns y)" using o by (simp add: in_order_def lead_def word_le_nat_alt)
  then show ?thesis
    using o lead_send_follower [OF in_order_lead [OF o] b, of pt] unat_succ_bound [OF b]
    by (simp add: in_order_def)
qed

section \<open>Receiving the head of a queue\<close>

lemma chain_key_nonempty: "chain_key c (Suc n) \<noteq> []"
  by (simp add: chain_key_Suc)

lemma current_head:
  assumes inv: "recv_inv used r" and p: "r_dhr r = Some (p_dh p)" "p_n p = r_nr r" "opens r p"
    and s: "r_ckr r = [] \<longrightarrow> r_nr r = 0"
  shows "in_window r (p_wire (r_ad r) p)"
    and "ratchet_decrypt cv r (p_wire (r_ad r) p) d = (Inr (p_pt p), advance r (r_nr r))"
proof -
  have none: "r_skipped r (p_key p) = None" and nr: "unat (r_nr r) + 1000 < 2 ^ 32"
    using inv p(1,2) by (simp_all add: recv_inv_def)
  have sk: "skippable r (p_n p)" using s p(2) by (auto simp: skippable_def)
  then show "in_window r (p_wire (r_ad r) p)" using p(1) by (simp add: in_window_def p_wire_def)
  have "p_mk p = msg_key (r_ckr r) (unat (p_n p) - unat (r_nr r))" using p none by (auto simp: opens_def)
  then show "ratchet_decrypt cv r (p_wire (r_ad r) p) d = (Inr (p_pt p), advance r (r_nr r))"
    using decrypt_current [OF p(1) none sk nr, of cv d] p(2) by simp
qed

lemma without_head [simp]: "without 0 (x # xs) = xs"
  by (simp add: without_def)

lemma in_order_recv_leader:
  assumes o: "in_order cv used x y pxy (p # pyx)"
  obtains x' where "ratchet_decrypt cv x (p_wire (r_ad x) p) d = (Inr (p_pt p), x')" "in_order cv used x' y pxy pyx"
proof -
  note l = in_order_lead [OF o]
  have pos: "Some (p_dh p) = Some (pub cv y)" "unat (p_n p) = unat (r_nr x)"
    "positions pyx = span (Some (pub cv y)) (Suc (unat (r_nr x))) (unat (r_ns y))"
    using o by (auto simp: in_order_def span_Cons)
  have inv: "recv_inv used x" "r_dhr x = Some (p_dh p)" "opens x p" "r_ckr x = [] \<longrightarrow> r_nr x = 0"
    and b: "unat (p_n p) + 1001 < 2 ^ 32"
    using o pos(1) by (simp_all add: in_order_def lead_def send_inv_def)
  have n: "p_n p = r_nr x" using pos(2) by (rule unat_eq)
  note h = current_head [OF inv(1,2) n inv(3,4)]
  obtain x' where x': "ratchet_decrypt cv x (p_wire (r_ad x) p) d = (Inr (p_pt p), x')" "lead cv used x' y pxy pyx"
    using lead_leader_known [OF l, of 0 d] h(1) by auto
  then have e: "x' = advance x (r_nr x)" using h(2) [of cv d] by simp
  have "unat (r_nr x + 1) = Suc (unat (r_nr x))" using unat_succ_bound b n by simp
  then have "in_order cv used x' y pxy pyx"
    using o x'(2) pos(3) unfolding in_order_def e by (simp add: advance_simps chain_key_nonempty)
  with x'(1) show ?thesis by (rule that)
qed

lemma in_order_recv_follower:
  assumes cv: "curve_ok cv" and o: "in_order cv used x y (p # pxy) pyx"
    and k: "length k = 32" "x25519_base cv k \<notin> used"
  obtains y' where "ratchet_decrypt cv y (p_wire (r_ad y) p) (Inr k) = (Inr (p_pt p), y')"
    "in_order cv (insert (x25519_base cv k) used) x y' pxy pyx \<or> in_order cv (insert (x25519_base cv k) used) y' x pyx pxy"
proof (cases "r_nr y < r_pn x")
  case True
  note l = in_order_lead [OF o]
  have lt: "unat (r_nr y) < unat (r_pn x)" using True by (simp add: word_less_nat_alt)
  then have "(Some (p_dh p), unat (p_n p)) # positions pxy =
      (r_dhr y, unat (r_nr y)) # span (r_dhr y) (Suc (unat (r_nr y))) (unat (r_pn x)) @ span (Some (pub cv x)) 0 (unat (r_ns x))"
    using o by (simp add: in_order_def span_def upt_conv_Cons)
  then have pos: "r_dhr y = Some (p_dh p)" "p_n p = r_nr y"
    "positions pxy = span (r_dhr y) (Suc (unat (r_nr y))) (unat (r_pn x)) @ span (Some (pub cv x)) 0 (unat (r_ns x))"
    by (auto intro: unat_eq)
  have ne: "p_dh p \<noteq> pub cv x" and inv: "recv_inv used y" "r_ckr y = [] \<longrightarrow> r_nr y = 0"
    and b: "unat (p_n p) + 1001 < 2 ^ 32"
    using o pos(1) by (auto simp: in_order_def lead_def send_inv_def)
  have op: "opens y p" using l ne by (auto simp: lead_def ahead_def)
  note h = current_head [OF inv(1) pos(1,2) op inv(2)]
  obtain y' where y': "ratchet_decrypt cv y (p_wire (r_ad y) p) (Inr k) = (Inr (p_pt p), y')" "lead cv used x y' pxy pyx"
    using lead_follower_known [OF l, of 0 "Inr k"] h(1) ne by auto
  then have e: "y' = advance y (r_nr y)" using h(2) [of cv "Inr k"] by simp
  have succ: "unat (r_nr y + 1) = Suc (unat (r_nr y))" using unat_succ_bound b pos(2) by simp
  then have "r_nr y + 1 \<le> r_pn x" using lt by (simp add: word_le_nat_alt)
  then have "in_order cv used x y' pxy pyx"
    using o y'(2) pos(3) succ unfolding in_order_def e by (simp add: advance_simps chain_key_nonempty)
  then show ?thesis using y'(1) that in_order_mono by blast
next
  case False
  note l = in_order_lead [OF o]
  have eq: "r_nr y = r_pn x" using o False by (simp add: in_order_def)
  then have pos: "p_dh p = pub cv x" "p_n p = 0" "positions pxy = span (Some (pub cv x)) 1 (unat (r_ns x))"
    "positions pyx = span (r_dhr x) (unat (r_nr x)) (unat (r_ns y))"
    using o by (auto simp: in_order_def span_Cons lead_def unat_eq_zero)
  have pn: "p_pn p = r_pn x" and dhr: "r_dhr y \<noteq> Some (pub cv x)" and le: "r_nr x \<le> r_ns y"
    using l pos(1) by (auto simp: lead_def ahead_def)
  have "skippable y (p_pn p)" using o eq pn by (auto simp: skippable_def in_order_def)
  then have w: "in_window y (p_wire (r_ad y) p)" using dhr pos by (simp add: in_window_def p_wire_def)
  let ?y = "follow cv y p k"
  have dec: "ratchet_decrypt cv y (p_wire (r_ad y) p) (Inr k) = (Inr (p_pt p), ?y)"
    and ld: "lead cv (insert (x25519_base cv k) used) ?y x pyx pxy"
    using lead_new_chain [OF cv l, of 0 k] w pos(1) k by auto
  have "r_ckr ?y \<noteq> []" using follow_keys(1) [of y cv p] by (metis chain_key_nonempty surj_pair)
  then have "in_order cv (insert (x25519_base cv k) used) ?y x pyx pxy"
    using ld pos le o by (simp add: in_order_def follow_simps)
  with dec show ?thesis using that by blast
qed

section \<open>The connection\<close>

definition ordered :: "curve \<Rightarrow> net \<Rightarrow> bool" where
  "ordered cv s \<longleftrightarrow> (\<exists>pab pba.
     n_ab s = flight (r_ad (n_a s)) pab \<and> n_ba s = flight (r_ad (n_b s)) pba \<and>
     (in_order cv (n_used s) (n_a s) (n_b s) pab pba \<or> in_order cv (n_used s) (n_b s) (n_a s) pba pab))"

lemma ordered_flip: "ordered cv (flip_net s) \<longleftrightarrow> ordered cv s"
  by (auto simp: ordered_def flip_net_def)

lemma ordered_synced: "ordered cv s \<Longrightarrow> synced cv s"
  by (auto simp: ordered_def synced_def dest: in_order_lead)

lemma ordered_send:
  assumes s: "ordered cv s" and b: "unat (r_ns (n_a s)) + 1001 < 2 ^ 32"
  shows "ordered cv (s\<lparr> n_a := sent (n_a s), n_ab := n_ab s @ [(p_wire (r_ad (n_a s)) (next_packet cv (n_a s) pt), pt)] \<rparr>)"
proof -
  obtain pab pba where q: "n_ab s = flight (r_ad (n_a s)) pab" "n_ba s = flight (r_ad (n_b s)) pba"
    and ld: "in_order cv (n_used s) (n_a s) (n_b s) pab pba \<or> in_order cv (n_used s) (n_b s) (n_a s) pba pab"
    using s by (auto simp: ordered_def)
  let ?p = "next_packet cv (n_a s) pt"
  have "in_order cv (n_used s) (sent (n_a s)) (n_b s) (pab @ [?p]) pba \<or> in_order cv (n_used s) (n_b s) (sent (n_a s)) pba (pab @ [?p])"
    using ld in_order_send_leader in_order_send_follower b by metis
  then show ?thesis
    unfolding ordered_def using q by (intro exI [of _ "pab @ [?p]"] exI [of _ pba]) (simp add: flight_def)
qed

lemma ordered_recv:
  assumes cv: "curve_ok cv" and s: "ordered cv s" and h: "n_ab s = (w, pt) # rest"
    and k: "length k = 32" "x25519_base cv k \<notin> n_used s"
  obtains r where "ratchet_decrypt cv (n_b s) w (Inr k) = (Inr pt, r)"
    "ordered cv (s\<lparr> n_b := r, n_ab := rest, n_used := insert (x25519_base cv k) (n_used s) \<rparr>)"
proof -
  let ?u = "insert (x25519_base cv k) (n_used s)"
  obtain pab pba where q: "n_ab s = flight (r_ad (n_a s)) pab" "n_ba s = flight (r_ad (n_b s)) pba"
    and ld: "in_order cv (n_used s) (n_a s) (n_b s) pab pba \<or> in_order cv (n_used s) (n_b s) (n_a s) pba pab"
    using s by (auto simp: ordered_def)
  have ad: "r_ad (n_a s) = r_ad (n_b s)" using ld in_order_lead lead_ad by metis
  obtain p P where P: "pab = p # P" "w = p_wire (r_ad (n_b s)) p" "pt = p_pt p" "rest = flight (r_ad (n_a s)) P"
    using h q(1) ad by (cases pab) (auto simp: flight_def)
  obtain r where r: "ratchet_decrypt cv (n_b s) w (Inr k) = (Inr pt, r)"
    "in_order cv ?u (n_a s) r P pba \<or> in_order cv ?u r (n_a s) pba P"
    using ld unfolding P
  proof
    assume "in_order cv (n_used s) (n_a s) (n_b s) (p # P) pba"
    from in_order_recv_follower [OF cv this k] show ?thesis using that P by metis
  next
    assume "in_order cv (n_used s) (n_b s) (n_a s) pba (p # P)"
    from in_order_recv_leader [OF this, of "Inr k"] show ?thesis
      using that P in_order_mono [of cv "n_used s" _ _ _ _ ?u] by (metis subset_insertI)
  qed
  have "r_ad r = r_ad (n_b s)" using r(2) in_order_lead lead_ad ad by metis
  then have "ordered cv (s\<lparr> n_b := r, n_ab := rest, n_used := ?u \<rparr>)"
    unfolding ordered_def using q(2) r(2) P(4) by (intro exI [of _ P] exI [of _ pba]) simp
  with r(1) show ?thesis by (rule that)
qed

lemma handshake_ordered:
  assumes cv: "curve_ok cv" and a: "identity_ok cv (m_local ma)"
    and b: "m_pre mb = Some pre" "prekeys_ok cv pre" "pk_id pre = m_local mb" and d: "length eph = 32" "length k0 = 32"
    and i: "session_Initiate cv ma (Bundle cv pre) (Inr eph) (Inr k0) = (Inr (p, hs), ma')"
    and r: "session_Accept cv mb hs = (Inr q, mb')"
  shows "ordered cv (net_of (s_r (m_heap ma' ! p)) (s_r (m_heap mb' ! q))
    {x25519_base cv (pk_signedPre pre), x25519_base cv k0})"
proof -
  let ?ad = "associatedData (signing_pub (m_local ma)) (signing_pub (m_local mb))"
  obtain sk where sk: "s_r (m_heap ma' ! p) = initiator_state cv sk (x25519_base cv (pk_signedPre pre)) ?ad k0"
    "s_r (m_heap mb' ! q) = newRatchetResponder sk (pk_signedPre pre) ?ad"
    by (rule handshake_sessions [OF cv a b d]) (use i r in auto)
  have len: "length (pk_signedPre pre) = 32" using b(2) by (simp add: prekeys_ok_def)
  let ?s = "net_start cv sk (pk_signedPre pre) ?ad k0"
  have "lead cv (n_used ?s) (n_a ?s) (n_b ?s) [] []"
    using len d(2) curve_dh [OF cv d(2) len]
    by (auto simp: lead_def net_start_def initiator_state_def newRatchetResponder_def send_inv_def recv_inv_def
        case_prod_beta)
  then have "in_order cv (n_used ?s) (n_a ?s) (n_b ?s) [] []"
    by (simp add: in_order_def net_start_def initiator_state_def newRatchetResponder_def case_prod_beta)
  then show ?thesis unfolding sk ordered_def by (auto simp: net_of_def net_start_def flight_def)
qed

end
