(* ===== verification/Node_Delivery.thy ===== *)
theory Node_Delivery
  imports Node Duplex Ratchet_Fifo
begin

text \<open>
  What nodes deliver to each other: the operations of \<open>Node\<close> on top of the ordered ratchets of
  \<open>Ratchet_Fifo\<close>. \<open>peer_net\<close> looks at the two sessions behind a pair of links as a ratchet network; the
  lemmas say what one send and one receive do to it, for every connection.
\<close>

definition link_live :: "node \<Rightarrow> link \<Rightarrow> bool" where
  "link_live n l \<longleftrightarrow> lk_session l < length (m_heap (nd_sessions n))"

definition sess :: "node \<Rightarrow> link \<Rightarrow> ratchet" where
  "sess n l = s_r (m_heap (nd_sessions n) ! lk_session l)"

definition set_sess :: "link \<Rightarrow> ratchet \<Rightarrow> node \<Rightarrow> node" where
  "set_sess l r n = n\<lparr> nd_sessions := (nd_sessions n)\<lparr> m_heap := (m_heap (nd_sessions n))[lk_session l :=
     (m_heap (nd_sessions n) ! lk_session l)\<lparr> s_r := r \<rparr>] \<rparr> \<rparr>"

lemma set_sess_simps [simp]:
  "link_live (set_sess l r n) l' \<longleftrightarrow> link_live n l'"
  "link_live n l \<Longrightarrow> sess (set_sess l r n) l = r"
  "nd_store (set_sess l r n) = nd_store n" "nd_account (set_sess l r n) = nd_account n"
  by (simp_all add: link_live_def sess_def set_sess_def)

lemma set_sess_other: "lk_session l' \<noteq> lk_session l \<Longrightarrow> sess (set_sess l r n) l' = sess n l'"
  by (simp add: sess_def set_sess_def)

definition payload_frame :: "bytes \<Rightarrow> bytes" where
  "payload_frame w = marshal (frame_json \<lparr> f_bundle = None, f_handshake = None, f_payload = w \<rparr>)"

lemma DecodeFrame_frame [simp]: "DecodeFrame (marshal (frame_json f)) = Inr f"
  by (rule DecodeFrame_EncodeFrame) (simp add: EncodeFrame_def)

definition env_bytes :: "envelope \<Rightarrow> bytes" where
  "env_bytes env = marshal (envelope_json env)"

lemma env_bytes_codec [simp]:
  "envelope_ok env \<Longrightarrow> envelope_Encode env = Inr (env_bytes env)"
  "envelope_ok env \<Longrightarrow> DecodeEnvelope (env_bytes env) = Inr env"
  by (simp_all add: env_bytes_def envelope_Encode_ok DecodeEnvelope_Encode)

definition peer_net :: "node \<Rightarrow> link \<Rightarrow> node \<Rightarrow> link \<Rightarrow> bytes set \<Rightarrow> (bytes \<times> bytes) list \<Rightarrow> (bytes \<times> bytes) list \<Rightarrow> net" where
  "peer_net na la nb lb used qa qb =
     \<lparr> n_a = sess na la, n_b = sess nb lb, n_ab = qa, n_ba = qb, n_used = used \<rparr>"

lemma peer_net_flip: "flip_net (peer_net na la nb lb used qa qb) = peer_net nb lb na la used qb qa"
  by (simp add: flip_net_def peer_net_def)

lemma ordered_swap: "ordered cv (peer_net na la nb lb used qa qb) \<longleftrightarrow> ordered cv (peer_net nb lb na la used qb qa)"
  using ordered_flip [of cv "peer_net na la nb lb used qa qb"] by (simp add: peer_net_flip)

section \<open>One message\<close>

lemma session_Encrypt_live:
  "link_live n l \<Longrightarrow> on_sessions (\<lambda>m. session_Encrypt cv m (lk_session l) pt) n =
     Some (Inr (p_wire (r_ad (sess n l)) (next_packet cv (sess n l) pt)), set_sess l (sent (sess n l)) n)"
  by (simp add: on_sessions_def session_Encrypt_def link_live_def go_on_def go_call_def encrypt_next set_sess_def sess_def)

lemma session_Decrypt_live:
  "link_live n l \<Longrightarrow> ratchet_decrypt cv (sess n l) w d = (res, r) \<Longrightarrow>
   on_sessions (\<lambda>m. session_Decrypt cv m (lk_session l) w d) n = Some (res, set_sess l r n)"
  by (simp add: on_sessions_def session_Decrypt_def link_live_def go_on_def go_call_def set_sess_def sess_def)

definition sent_wire :: "curve \<Rightarrow> node \<Rightarrow> link \<Rightarrow> envelope \<Rightarrow> bytes" where
  "sent_wire cv n l env = p_wire (r_ad (sess n l)) (next_packet cv (sess n l) (env_bytes env))"

definition after_send :: "node \<Rightarrow> link \<Rightarrow> node" where
  "after_send n l = set_sess l (sent (sess n l)) n"

definition after_recv :: "curve \<Rightarrow> node \<Rightarrow> link \<Rightarrow> bytes \<Rightarrow> draw \<Rightarrow> node" where
  "after_recv cv n l w d = set_sess l (snd (ratchet_decrypt cv (sess n l) w d)) n"

lemma after_simps [simp]:
  "link_live (after_send n l) l' \<longleftrightarrow> link_live n l'" "link_live (after_recv cv n l w d) l' \<longleftrightarrow> link_live n l'"
  "nd_store (after_send n l) = nd_store n" "nd_store (after_recv cv n l w d) = nd_store n"
  "link_live n l \<Longrightarrow> sess (after_send n l) l = sent (sess n l)"
  by (simp_all add: after_send_def after_recv_def)

lemma encryptSend_run:
  assumes "link_live n l" "envelope_ok env"
  shows "encryptSendLocked cv io l env \<lparr> w_node = n, w_conn = c \<rparr> =
    (case conn_Send io (payload_frame (sent_wire cv n l env)) c of
       None \<Rightarrow> None | Some (r, c') \<Rightarrow> Some (r, \<lparr> w_node = after_send n l, w_conn = c' \<rparr>))"
  using assms(2) session_Encrypt_live [OF assms(1), of cv "env_bytes env"]
  by (simp add: encryptSendLocked_def go_bind_def go_of_def on_node_def on_conn_def go_on_def EncodeFrame_def
      payload_frame_def sent_wire_def after_send_def split: option.split)

lemma Receive_run:
  assumes "link_live n l" "envelope_ok env" "conn_Recv io c = Some (Inr (payload_frame w), c')"
    "fst (ratchet_decrypt cv (sess n l) w d) = Inr (env_bytes env)"
  shows "link_Receive cv io l d \<lparr> w_node = n, w_conn = c \<rparr> = Some (Inr env, \<lparr> w_node = after_recv cv n l w d, w_conn = c' \<rparr>)"
proof -
  have "ratchet_decrypt cv (sess n l) w d = (Inr (env_bytes env), snd (ratchet_decrypt cv (sess n l) w d))"
    using assms(4) by (simp add: prod_eq_iff)
  from session_Decrypt_live [OF assms(1) this] show ?thesis
    using assms(2,3)
    by (simp add: link_Receive_def go_bind_def go_of_def on_node_def on_conn_def go_on_def payload_frame_def after_recv_def)
qed

lemma peer_send:
  assumes o: "ordered cv (peer_net na la nb lb used qa qb)" and l: "link_live na la"
    and b: "unat (r_ns (sess na la)) + 1001 < 2 ^ 32"
  shows "ordered cv (peer_net (after_send na la) la nb lb used (qa @ [(sent_wire cv na la env, env_bytes env)]) qb)"
  using ordered_send [OF o, of "env_bytes env"] b l by (simp add: peer_net_def sent_wire_def)

lemma peer_recv:
  assumes cv: "curve_ok cv" and o: "ordered cv (peer_net na la nb lb used ((w, pt) # qa) qb)"
    and l: "link_live nb lb" and k: "length k = 32" "x25519_base cv k \<notin> used"
  shows "fst (ratchet_decrypt cv (sess nb lb) w (Inr k)) = Inr pt"
    and "ordered cv (peer_net na la (after_recv cv nb lb w (Inr k)) lb (insert (x25519_base cv k) used) qa qb)"
proof -
  let ?s = "peer_net na la nb lb used ((w, pt) # qa) qb"
  obtain r where r: "ratchet_decrypt cv (sess nb lb) w (Inr k) = (Inr pt, r)"
    "ordered cv (?s\<lparr> n_b := r, n_ab := qa, n_used := insert (x25519_base cv k) used \<rparr>)"
    by (rule ordered_recv [OF cv o, of w pt qa k]) (use k in \<open>simp_all add: peer_net_def\<close>)
  show "fst (ratchet_decrypt cv (sess nb lb) w (Inr k)) = Inr pt" using r(1) by simp
  show "ordered cv (peer_net na la (after_recv cv nb lb w (Inr k)) lb (insert (x25519_base cv k) used) qa qb)"
    using r l by (simp add: peer_net_def after_recv_def)
qed

text \<open>A receive leaves the number of the next message to send as it is or resets it.\<close>

lemma decrypt_ns: "r_ns (snd (ratchet_decrypt cv r w d)) \<in> {r_ns r, 0}"
proof -
  have sk: "r_ns (snd (ratchet_skip r n)) = r_ns r" for r n by (simp add: ratchet_skip_def skip_loop_same)
  have ch: "r_ns (snd (decrypt_chain r h ct)) = r_ns r" for r h ct
    using sk [of r "h_N h"] by (auto simp: decrypt_chain_def Let_def split: prod.splits sum.splits)
  have dh: "r_ns (snd (dhRatchet cv r pub d)) = 0" for r pub
    by (auto simp: dhRatchet_def Let_def split: prod.splits sum.splits)
  have ts: "r_ns (snd (trySkipped r h ct)) = r_ns r" for h ct
    by (auto simp: trySkipped_def Let_def split: option.splits sum.splits)
  show ?thesis
  proof (cases "decodeMessage w")
    case (Inr m)
    obtain h ct t r1 where m: "m = (h, ct)" "trySkipped r h ct = (t, r1)" by force
    obtain s r2 where s: "ratchet_skip r1 (h_PN h) = (s, r2)" by force
    obtain g r3 where g: "dhRatchet cv r2 (h_DH h) d = (g, r3)" by force
    have "r_ns r1 = r_ns r" "r_ns r2 = r_ns r1" "r_ns r3 = 0" using ts [of h ct] sk [of r1 "h_PN h"] dh [of r2 "h_DH h"] m(2) s g by simp_all
    then show ?thesis
      using ch by (auto simp: ratchet_decrypt_def Inr m s g split: sum.split option.split)
  qed (simp add: ratchet_decrypt_def)
qed

section \<open>The live handshake\<close>

definition node_ok :: "curve \<Rightarrow> node \<Rightarrow> bool" where
  "node_ok cv n \<longleftrightarrow> account_ok cv (nd_account n) \<and> m_local (nd_sessions n) = ac_identity (nd_account n) \<and>
     m_pre (nd_sessions n) = Some (ac_preKeys (nd_account n))"

lemma node_ok_New: "account_ok cv a \<Longrightarrow> node_ok cv (node_New a st)"
  by (simp add: node_ok_def node_New_def account_Sessions_def NewMemStore_def)

abbreviation node_key :: "node \<Rightarrow> bytes" where
  "node_key n \<equiv> signing_pub (ac_identity (nd_account n))"

definition idle :: "pipe \<Rightarrow> bool" where
  "idle p \<longleftrightarrow> pp_a2b p = [] \<and> pp_b2a p = [] \<and> \<not> pp_done p"

lemma on_sessions_run:
  "on_node (on_sessions f) \<lparr> w_node = n, w_conn = c \<rparr> =
     Some (fst (f (nd_sessions n)), \<lparr> w_node = n\<lparr> nd_sessions := snd (f (nd_sessions n)) \<rparr>, w_conn = c \<rparr>)"
  by (simp add: on_sessions_def on_node_def go_on_def go_call_def split: prod.split)

lemma on_conn_run:
  "on_conn m \<lparr> w_node = n, w_conn = c \<rparr> = (case m c of None \<Rightarrow> None | Some (r, c') \<Rightarrow> Some (r, \<lparr> w_node = n, w_conn = c' \<rparr>))"
  by (simp add: on_conn_def go_on_def split: option.split)

definition used_keys :: "curve \<Rightarrow> node \<Rightarrow> bytes \<Rightarrow> bytes set" where
  "used_keys cv nb k0 = {x25519_base cv (pk_signedPre (ac_preKeys (nd_account nb))), x25519_base cv k0}"

text \<open>The two frames of the handshake.\<close>

definition hello_frame :: "curve \<Rightarrow> node \<Rightarrow> bytes" where
  "hello_frame cv n = marshal (frame_json \<lparr> f_bundle = Some (node_Bundle cv n), f_handshake = None, f_payload = [] \<rparr>)"

definition handshake_frame :: "handshake \<Rightarrow> bytes" where
  "handshake_frame hs = marshal (frame_json \<lparr> f_bundle = None, f_handshake = Some hs, f_payload = [] \<rparr>)"

lemma responder_hello_run:
  "conn_Send io (hello_frame cv n) c = Some (r, c') \<Longrightarrow>
   responder_hello cv io \<lparr> w_node = n, w_conn = c \<rparr> = Some (r, \<lparr> w_node = n, w_conn = c' \<rparr>)"
  by (simp add: responder_hello_def go_of_def go_bind_def go_get_def EncodeFrame_def hello_frame_def on_conn_run)

text \<open>What the handshake makes of two well-formed nodes, whatever carries its frames: each side only needs
  its connection to give it the frame of the other.\<close>

lemma handshake_peers:
  assumes cv: "curve_ok cv" and n: "node_ok cv na" "node_ok cv nb" and d: "length eph = 32" "length k0 = 32"
  obtains hs la lb na' nb' where
    "\<And>ioa c c1 c2. conn_Recv (ioa :: 'a conn) c = Some (Inr (hello_frame cv nb), c1) \<Longrightarrow> conn_Send ioa (handshake_frame hs) c1 = Some (Inr (), c2) \<Longrightarrow>
       handshakeInitiator cv ioa (node_key nb) (Inr eph) (Inr k0) \<lparr> w_node = na, w_conn = c \<rparr> = Some (Inr la, \<lparr> w_node = na', w_conn = c2 \<rparr>)"
    "\<And>iob c c1. conn_Recv (iob :: 'b conn) c = Some (Inr (handshake_frame hs), c1) \<Longrightarrow>
       responder_finish cv iob \<lparr> w_node = nb, w_conn = c \<rparr> = Some (Inr lb, \<lparr> w_node = nb', w_conn = c1 \<rparr>)"
    "lk_peerKey la = node_key nb" "lk_peerFP la = Fingerprint (node_key nb)"
    "lk_peerKey lb = node_key na" "lk_peerFP lb = Fingerprint (node_key na)"
    "link_live na' la" "link_live nb' lb" "ordered cv (peer_net na' la nb' lb (used_keys cv nb k0) [] [])"
    "nd_store na' = nd_store na" "nd_store nb' = nd_store nb" "r_ns (sess na' la) = 0" "r_ns (sess nb' lb) = 0"
proof -
  let ?ma = "nd_sessions na" and ?mb = "nd_sessions nb" and ?pre = "ac_preKeys (nd_account nb)"
  have a: "identity_ok cv (m_local ?ma)" and b: "m_pre ?mb = Some ?pre" "prekeys_ok cv ?pre" "pk_id ?pre = m_local ?mb"
    and ids: "m_local ?ma = ac_identity (nd_account na)" "m_local ?mb = ac_identity (nd_account nb)"
    using n by (simp_all add: node_ok_def account_ok_def)
  obtain sk hs ma' mb' where i: "session_Initiate cv ?ma (Bundle cv ?pre) (Inr eph) (Inr k0) = (Inr (length (m_heap ?ma), hs), ma')"
    and r: "session_Accept cv ?mb hs = (Inr (length (m_heap ?mb)), mb')"
    and ha: "m_heap ma' = m_heap ?ma @ [\<lparr> s_r = initiator_state cv sk (x25519_base cv (pk_signedPre ?pre))
        (associatedData (signing_pub (m_local ?ma)) (signing_pub (m_local ?mb))) k0,
        s_peerFP = Fingerprint (signing_pub (m_local ?mb)), s_peerSig = signing_pub (m_local ?mb) \<rparr>]"
    and hb: "m_heap mb' = m_heap ?mb @ [\<lparr> s_r = newRatchetResponder sk (pk_signedPre ?pre)
        (associatedData (signing_pub (m_local ?ma)) (signing_pub (m_local ?mb))),
        s_peerFP = Fingerprint (signing_pub (m_local ?ma)), s_peerSig = signing_pub (m_local ?ma) \<rparr>]"
    and hs: "hs_identitySign hs = signing_pub (m_local ?ma)"
    by (rule handshake_sessions [OF cv a b d]) auto
  let ?na = "na\<lparr> nd_sessions := ma' \<rparr>" and ?nb = "nb\<lparr> nd_sessions := mb' \<rparr>"
  let ?la = "new_link (length (m_heap ?ma)) (node_key nb) ?na" and ?lb = "new_link (length (m_heap ?mb)) (node_key na) ?nb"
  have bp: "b_identitySign (Bundle cv ?pre) = node_key nb" using b(3) ids by (simp add: Bundle_def)
  have o: "ordered cv (peer_net ?na ?la ?nb ?lb (used_keys cv nb k0) [] [])"
    using handshake_ordered [OF cv a b d i r]
    by (simp add: peer_net_def net_of_def sess_def new_link_def used_keys_def)
  show ?thesis
    by (rule that [of hs ?la ?na ?lb ?nb])
       (use o in \<open>simp_all add: new_link_def session_PeerFingerprint_def ha hb hs ids link_live_def sess_def nth_append i r bp
         initiator_state_def newRatchetResponder_def case_prod_beta handshakeInitiator_def responder_finish_def hello_frame_def
         handshake_frame_def node_Bundle_def go_of_def go_bind_def go_get_def EncodeFrame_def on_conn_run on_sessions_run\<close>)
qed

context duplex
begin

lemma handshake_run:
  assumes cv: "curve_ok cv" and n: "node_ok cv na" "node_ok cv nb" and c: "up c" "queue c = (\<lambda>_. [])"
    and d: "length eph = 32" "length k0 = 32"
  obtains la lb na' nb' c1 c2 c3 where
    "responder_hello cv (io EndB) \<lparr> w_node = nb, w_conn = c \<rparr> = Some (Inr (), \<lparr> w_node = nb, w_conn = c1 \<rparr>)"
    "handshakeInitiator cv (io EndA) (node_key nb) (Inr eph) (Inr k0) \<lparr> w_node = na, w_conn = c1 \<rparr> =
       Some (Inr la, \<lparr> w_node = na', w_conn = c2 \<rparr>)"
    "responder_finish cv (io EndB) \<lparr> w_node = nb, w_conn = c2 \<rparr> = Some (Inr lb, \<lparr> w_node = nb', w_conn = c3 \<rparr>)"
    "up c3" "queue c3 = queue c"
    "lk_peerKey la = node_key nb" "lk_peerFP la = Fingerprint (node_key nb)"
    "lk_peerKey lb = node_key na" "lk_peerFP lb = Fingerprint (node_key na)"
    "link_live na' la" "link_live nb' lb" "ordered cv (peer_net na' la nb' lb (used_keys cv nb k0) [] [])"
    "nd_store na' = nd_store na" "nd_store nb' = nd_store nb" "r_ns (sess na' la) = 0" "r_ns (sess nb' lb) = 0"
proof (rule handshake_peers [OF cv n d, where 'a = 'c and 'b = 'c], goal_cases)
  case peers: (1 hs la lb na' nb')
  obtain c1 c2 where c1: "conn_Send (io EndB) (hello_frame cv nb) c = Some (Inr (), c1)"
    "conn_Recv (io EndA) c1 = Some (Inr (hello_frame cv nb), c2)" "up c2" "queue c2 = queue c"
    by (rule pass [OF c(1), of EndB "hello_frame cv nb"]) (simp_all add: c(2))
  obtain c3 c4 where c3: "conn_Send (io EndA) (handshake_frame hs) c2 = Some (Inr (), c3)"
    "conn_Recv (io EndB) c3 = Some (Inr (handshake_frame hs), c4)" "up c4" "queue c4 = queue c"
    by (rule pass [OF c1(3), of EndA "handshake_frame hs"]) (simp_all add: c(2) c1(4))
  show ?case
    by (rule that [OF responder_hello_run [OF c1(1)] peers(2) [OF c1(2) c3(1)] peers(3) [OF c3(2)] c3(3,4) peers(4-14)])
qed

text \<open>A text over an established link, sent at end \<open>e\<close> of an idle connection and received at the other end.\<close>

lemma text_run:
  assumes cv: "curve_ok cv" and o: "ordered cv (peer_net na la nb lb used [] [])" and l: "link_live na la" "link_live nb lb"
    and ns: "unat (r_ns (sess na la)) + 1001 < 2 ^ 32" and c: "up c" "queue c e = []"
    and k: "length k = 32" "x25519_base cv k \<notin> used" and t: "utf8_valid conv" "utf8_valid text" "time_ok now"
  obtains env na' nb' c1 c2 where
    "link_SendText cv (io e) la fe conv text ids now \<lparr> w_node = na, w_conn = c \<rparr> = Some (Inr env, \<lparr> w_node = na', w_conn = c1 \<rparr>)"
    "link_Receive cv (io (other_end e)) lb (Inr k) \<lparr> w_node = nb, w_conn = c1 \<rparr> = Some (Inr env, \<lparr> w_node = nb', w_conn = c2 \<rparr>)"
    "text_of env = text" "up c2" "queue c2 = queue c" "link_live na' la" "link_live nb' lb"
    "r_ns (sess na' la) = r_ns (sess na la) + 1" "r_ns (sess nb' lb) \<in> {r_ns (sess nb lb), 0}"
    "ordered cv (peer_net na' la nb' lb (insert (x25519_base cv k) used) [] [])"
proof -
  obtain env where env: "NewText conv text [] ids now = Inr env" by (simp add: NewText_def)
  have ok: "envelope_ok env" using env t by (auto simp: NewText_def TypeText_def utf8_valid_ascii intro!: NewEnvelope_ok)
  define x where "x = sent_wire cv na la env"
  define na1 where "na1 = after_send na la"
  define na' where "na' = store_sent fe env na1"
  define nb' where "nb' = after_recv cv nb lb x (Inr k)"
  obtain c1 c2 where p: "conn_Send (io e) (payload_frame x) c = Some (Inr (), c1)"
    "conn_Recv (io (other_end e)) c1 = Some (Inr (payload_frame x), c2)" "up c2" "queue c2 = queue c"
    by (rule pass [OF c])
  have sess: "nd_sessions na' = nd_sessions na1" by (simp add: na'_def store_sent_def split: option.split)
  then have same: "sess na' la = sess na1 la" "link_live na' la = link_live na1 la" by (simp_all add: sess_def link_live_def)
  have o1: "ordered cv (peer_net na1 la nb lb used [(x, env_bytes env)] [])"
    using peer_send [OF o l(1) ns, of env] by (simp add: x_def na1_def)
  note r = peer_recv [OF cv o1 l(2) k]
  have s1: "link_SendText cv (io e) la fe conv text ids now \<lparr> w_node = na, w_conn = c \<rparr> = Some (Inr env, \<lparr> w_node = na', w_conn = c1 \<rparr>)"
    using p(1) env
    by (simp add: link_SendText_def link_SendEnvelope_def go_bind_def go_of_def go_ret_def go_put_def
        encryptSend_run [OF l(1) ok] x_def na1_def na'_def)
  have s2: "link_Receive cv (io (other_end e)) lb (Inr k) \<lparr> w_node = nb, w_conn = c1 \<rparr> = Some (Inr env, \<lparr> w_node = nb', w_conn = c2 \<rparr>)"
    using Receive_run [OF l(2) ok p(2) r(1)] by (simp add: nb'_def)
  have o2: "ordered cv (peer_net na' la nb' lb (insert (x25519_base cv k) used) [] [])"
    using r(2) same(1) by (simp add: peer_net_def nb'_def)
  show ?thesis
    by (rule that [OF s1 s2 text_of_NewText [OF t(2) env] p(3,4) _ _ _ _ o2])
       (use l same decrypt_ns [of cv "sess nb lb" x "Inr k"] in \<open>simp_all add: na1_def nb'_def after_recv_def\<close>)
qed

end

lemma live_handshake_run:
  assumes cv: "curve_ok cv" and n: "node_ok cv na" "node_ok cv nb" and p: "idle p" and d: "length eph = 32" "length k0 = 32"
  obtains la lb na' nb' p1 p2 where
    "responder_hello cv (pipe_conn pkb EndB) \<lparr> w_node = nb, w_conn = p \<rparr> = Some (Inr (), \<lparr> w_node = nb, w_conn = p1 \<rparr>)"
    "handshakeInitiator cv (pipe_conn pka EndA) (node_key nb) (Inr eph) (Inr k0) \<lparr> w_node = na, w_conn = p1 \<rparr> =
       Some (Inr la, \<lparr> w_node = na', w_conn = p2 \<rparr>)"
    "responder_finish cv (pipe_conn pkb EndB) \<lparr> w_node = nb, w_conn = p2 \<rparr> = Some (Inr lb, \<lparr> w_node = nb', w_conn = p \<rparr>)"
    "lk_peerKey la = node_key nb" "lk_peerFP la = Fingerprint (node_key nb)"
    "lk_peerKey lb = node_key na" "lk_peerFP lb = Fingerprint (node_key na)"
    "link_live na' la" "link_live nb' lb" "ordered cv (peer_net na' la nb' lb (used_keys cv nb k0) [] [])"
    "nd_store na' = nd_store na" "nd_store nb' = nd_store nb" "r_ns (sess na' la) = 0"
proof -
  have q: "(\<lambda>e. pipe_out e p) = (\<lambda>_. [])" "\<not> pp_done p"
    using p by (auto simp: idle_def pipe_out_def fun_eq_iff split: pipe_end.split)
  have final: "c = p" if "\<not> pp_done c" "(\<lambda>e. pipe_out e c) = (\<lambda>e. pipe_out e p)" for c
    using that q(2) by (intro pipe_eqI) simp_all
  show ?thesis
    by (rule pipe_duplex.handshake_run [OF cv n q(2,1) d, of "\<lambda>e. case e of EndA \<Rightarrow> pka | EndB \<Rightarrow> pkb"])
       (simp only: pipe_end.case, use that final in blast)
qed

section \<open>Properties\<close>

text \<open>A live handshake between two well-formed nodes over an idle connection succeeds on both sides: the
  responder's bundle is accepted by an initiator that expects its identity, the handshake is accepted
  by the responder, and each link names the identity key and the fingerprint of the other node.\<close>

theorem live_handshake:
  assumes "curve_ok cv" "node_ok cv na" "node_ok cv nb" "idle p" "length eph = 32" "length k0 = 32"
  shows "\<exists>la lb na' nb' p1 p2.
    responder_hello cv (pipe_conn pkb EndB) \<lparr> w_node = nb, w_conn = p \<rparr> = Some (Inr (), \<lparr> w_node = nb, w_conn = p1 \<rparr>) \<and>
    handshakeInitiator cv (pipe_conn pka EndA) (node_key nb) (Inr eph) (Inr k0) \<lparr> w_node = na, w_conn = p1 \<rparr> =
      Some (Inr la, \<lparr> w_node = na', w_conn = p2 \<rparr>) \<and>
    responder_finish cv (pipe_conn pkb EndB) \<lparr> w_node = nb, w_conn = p2 \<rparr> = Some (Inr lb, \<lparr> w_node = nb', w_conn = p \<rparr>) \<and>
    lk_peerKey la = node_key nb \<and> lk_peerFP la = Fingerprint (node_key nb) \<and>
    lk_peerKey lb = node_key na \<and> lk_peerFP lb = Fingerprint (node_key na)"
  by (rule live_handshake_run [OF assms, of pkb pka]) blast

definition toy_account :: "byte \<Rightarrow> account" where
  "toy_account b = \<lparr> ac_identity = toy_identity b, ac_preKeys = toy_prekeys\<lparr> pk_id := toy_identity b,
     pk_signedPreSig := fit 64 (replicate 32 b) \<rparr>, ac_contacts = NewMemory, ac_dir = [], ac_key = [] \<rparr>"

definition toy_node :: "byte \<Rightarrow> node" where
  "toy_node b = node_New (toy_account b) None"

lemma toy_node_ok: "node_ok toy_curve (toy_node b)"
  unfolding toy_node_def
  by (rule node_ok_New)
     (simp add: account_ok_def toy_account_def prekeys_ok_def toy_prekeys_def toy_identity_ok Verify_def,
      simp add: toy_curve_def toy_identity_def)

lemma idle_Pipe: "idle Pipe"
  by (simp add: idle_def Pipe_def)

theorem live_handshake_witness:
  "\<exists>la lb na' nb' p1 p2.
    responder_hello toy_curve (pipe_conn True EndB) \<lparr> w_node = toy_node 2, w_conn = Pipe \<rparr> = Some (Inr (), \<lparr> w_node = toy_node 2, w_conn = p1 \<rparr>) \<and>
    handshakeInitiator toy_curve (pipe_conn True EndA) (node_key (toy_node 2)) (Inr (replicate 32 5)) (Inr (replicate 32 6))
      \<lparr> w_node = toy_node 1, w_conn = p1 \<rparr> = Some (Inr la, \<lparr> w_node = na', w_conn = p2 \<rparr>) \<and>
    responder_finish toy_curve (pipe_conn True EndB) \<lparr> w_node = toy_node 2, w_conn = p2 \<rparr> = Some (Inr lb, \<lparr> w_node = nb', w_conn = Pipe \<rparr>) \<and>
    lk_peerKey la = node_key (toy_node 2) \<and> lk_peerFP la = Fingerprint (node_key (toy_node 2)) \<and>
    lk_peerKey lb = node_key (toy_node 1) \<and> lk_peerFP lb = Fingerprint (node_key (toy_node 1))"
  by (rule live_handshake [OF toy_curve_ok toy_node_ok toy_node_ok idle_Pipe]) simp_all

text \<open>C8. The initiator pins the contact: if its handshake returns a link at all, then the frame it read carried
  a bundle for exactly the expected identity key, and that bundle's signed prekey is signed by that
  key; with any other identity it fails with \<open>ErrIdentityMismatch\<close> and creates no session.\<close>

theorem connect_pins_identity:
  assumes "conn_Recv io c = Some (Inr raw, c')" "DecodeFrame raw = Inr frame"
    and run: "handshakeInitiator cv io peer dEph dRatchet \<lparr> w_node = n, w_conn = c \<rparr> = Some (r, w)"
  shows "(is_ok r \<longrightarrow> (\<exists>bd. f_bundle frame = Some bd \<and> b_identitySign bd = peer \<and>
      Verify cv peer (b_signedPreKey bd) (b_signedPreKeySig bd))) \<and>
    ((\<exists>bd. f_bundle frame = Some bd \<and> b_identitySign bd \<noteq> peer) \<longrightarrow> r = Inl ErrIdentityMismatch \<and> w_node w = n)"
proof -
  have no: "w_node w = n \<and> r = Inl ErrIdentityMismatch" if "f_bundle frame = Some bd" "b_identitySign bd \<noteq> peer" for bd
    using that run assms(1,2) by (auto simp: handshakeInitiator_def go_bind_def on_conn_run go_of_def go_err_def)
  have "\<exists>bd. f_bundle frame = Some bd \<and> b_identitySign bd = peer \<and>
      Verify cv peer (b_signedPreKey bd) (b_signedPreKeySig bd)" if ok: "is_ok r"
  proof -
    have "f_bundle frame \<noteq> None"
      using ok run assms(1,2)
      by (cases "f_bundle frame") (auto simp: handshakeInitiator_def go_bind_def on_conn_run go_of_def go_err_def)
    then obtain bd where b: "f_bundle frame = Some bd" "b_identitySign bd = peer" using ok no by force
    then have "is_ok (fst (session_Initiate cv (nd_sessions n) bd dEph dRatchet))"
      using ok run assms(1,2)
      by (auto simp: handshakeInitiator_def go_bind_def on_conn_run go_of_def on_sessions_run is_ok_iff split: sum.splits)
    then have "is_ok (x3dhInitiate cv (m_local (nd_sessions n)) bd dEph)"
      by (auto simp: session_Initiate_def is_ok_iff split: sum.splits)
    then have "Verify cv peer (b_signedPreKey bd) (b_signedPreKeySig bd)"
      using b(2) by (auto simp: x3dhInitiate_def is_ok_iff split: if_splits)
    with b show ?thesis by blast
  qed
  with no show ?thesis by blast
qed

theorem connect_pins_identity_witness:
  "\<exists>w. handshakeInitiator toy_curve (pipe_conn True EndA) (replicate 32 9) (Inr (replicate 32 5)) (Inr (replicate 32 6))
     \<lparr> w_node = toy_node 1, w_conn = Pipe\<lparr> pp_b2a := [marshal (frame_json \<lparr> f_bundle = Some (node_Bundle toy_curve (toy_node 2)),
        f_handshake = None, f_payload = [] \<rparr>)] \<rparr> \<rparr> = Some (Inl ErrIdentityMismatch, w) \<and> w_node w = toy_node 1"
proof -
  let ?raw = "marshal (frame_json \<lparr> f_bundle = Some (node_Bundle toy_curve (toy_node 2)), f_handshake = None, f_payload = [] \<rparr>)"
  let ?p = "Pipe\<lparr> pp_b2a := [?raw] \<rparr>"
  have ne: "b_identitySign (node_Bundle toy_curve (toy_node 2)) \<noteq> replicate 32 9"
    by (simp add: node_Bundle_def toy_node_def node_New_def toy_account_def Bundle_def toy_identity_def toy_curve_def fit_def)
  have r: "conn_Recv (pipe_conn True EndA) ?p = Some (Inr ?raw, Pipe)"
    by (simp add: pipe_Recv_def Pipe_def pipe_parts)
  obtain x w where run: "handshakeInitiator toy_curve (pipe_conn True EndA) (replicate 32 9) (Inr (replicate 32 5)) (Inr (replicate 32 6))
     \<lparr> w_node = toy_node 1, w_conn = ?p \<rparr> = Some (x, w)"
    using r ne by (simp add: handshakeInitiator_def go_bind_def on_conn_run go_of_def go_err_def)
  from connect_pins_identity [OF r DecodeFrame_frame run] run ne show ?thesis by simp
qed

end
