(* ===== verification/Node_Offline.thy ===== *)
theory Node_Offline
  imports Node_Delivery
begin

text \<open>
  Offline delivery between nodes: \<open>SendOffline\<close> opens a session of its own for every message and deposits
  the handshake with the first ciphertext; \<open>FetchOffline\<close> drains the mailbox, accepts every handshake and
  decrypts. A mailbox item is good for a recipient if every node with the recipient's prekeys opens it.
\<close>

lemma store_session_sel [simp]:
  "m_local (store_session m s) = m_local m" "m_pre (store_session m s) = m_pre m"
  by (simp_all add: store_session_def)

lemma session_ops_sel [simp]:
  "m_local (snd (session_Accept cv m hs)) = m_local m" "m_pre (snd (session_Accept cv m hs)) = m_pre m"
  "m_local (snd (session_Decrypt cv m p ct d)) = m_local m" "m_pre (snd (session_Decrypt cv m p ct d)) = m_pre m"
  by (auto simp: session_Accept_def session_Decrypt_def Let_def split: option.split sum.split prod.split)

lemma on_sessions_bare: "on_sessions f n = Some (fst (f (nd_sessions n)), n\<lparr> nd_sessions := snd (f (nd_sessions n)) \<rparr>)"
  by (simp add: on_sessions_def go_on_def go_call_def split: prod.split)

definition same_keys :: "node \<Rightarrow> node \<Rightarrow> bool" where
  "same_keys n n' \<longleftrightarrow> nd_account n' = nd_account n \<and>
     m_local (nd_sessions n') = m_local (nd_sessions n) \<and> m_pre (nd_sessions n') = m_pre (nd_sessions n)"

lemma same_keys_refl [simp]: "same_keys n n"
  by (simp add: same_keys_def)

lemma same_keys_trans: "same_keys a b \<Longrightarrow> same_keys b c \<Longrightarrow> same_keys a c"
  by (simp add: same_keys_def)

text \<open>An item of the mailbox that carries an envelope for the node \<open>nb\<close>: reading it consumes one fresh key.\<close>

definition carries :: "curve \<Rightarrow> node \<Rightarrow> bytes \<Rightarrow> bytes \<Rightarrow> envelope \<Rightarrow> bool" where
  "carries cv nb raw k0 env \<longleftrightarrow>
     (\<forall>n d i raws out k. same_keys nb n \<longrightarrow> d i = Inr k \<longrightarrow> length k = 32 \<longrightarrow> x25519_base cv k \<notin> used_keys cv nb k0 \<longrightarrow>
        (\<exists>n'. same_keys nb n' \<and> fetch_loop cv d i (raw # raws) out n = fetch_loop cv d (Suc i) raws (out @ [env]) n'))"

lemma first_message:
  assumes cv: "curve_ok cv" and n: "node_ok cv na" "node_ok cv nb" and d: "length eph = 32" "length k0 = 32"
    and k: "length k = 32" "x25519_base cv k \<notin> used_keys cv nb k0"
    and i: "session_Initiate cv (nd_sessions na) (node_Bundle cv nb) (Inr eph) (Inr k0) = (Inr (p, hs), ma)"
    and e: "session_Encrypt cv ma p pt = (Inr ct, ma')"
  obtains q mb where "session_Accept cv (nd_sessions nb) hs = (Inr q, mb)" "fst (session_Decrypt cv mb q ct (Inr k)) = Inr pt"
proof -
  let ?ma = "nd_sessions na" and ?mb = "nd_sessions nb" and ?pre = "ac_preKeys (nd_account nb)"
  have a: "identity_ok cv (m_local ?ma)" and b: "m_pre ?mb = Some ?pre" "prekeys_ok cv ?pre" "pk_id ?pre = m_local ?mb"
    using n by (simp_all add: node_ok_def account_ok_def)
  have i': "session_Initiate cv ?ma (Bundle cv ?pre) (Inr eph) (Inr k0) = (Inr (p, hs), ma)" using i by (simp add: node_Bundle_def)
  obtain mb' where r: "session_Accept cv ?mb hs = (Inr (length (m_heap ?mb)), mb')"
    and p: "p = length (m_heap ?ma)" "p < length (m_heap ma)" and q: "length (m_heap ?mb) < length (m_heap mb')"
    and ns: "r_ns (s_r (m_heap ma ! p)) = 0"
    by (rule handshake_sessions [OF cv a b d]) (use i' in \<open>auto simp: initiator_state_def case_prod_beta\<close>)
  let ?la = "\<lparr> lk_session = p, lk_peerFP = [], lk_peerKey = [] \<rparr>" and ?lb = "\<lparr> lk_session = length (m_heap ?mb), lk_peerFP = [], lk_peerKey = [] \<rparr>"
  let ?na = "na\<lparr> nd_sessions := ma \<rparr>" and ?nb = "nb\<lparr> nd_sessions := mb' \<rparr>"
  have o: "ordered cv (peer_net ?na ?la ?nb ?lb (used_keys cv nb k0) [] [])"
    using handshake_ordered [OF cv a b d i' r] by (simp add: peer_net_def net_of_def sess_def used_keys_def)
  have la: "link_live ?na ?la" and lb: "link_live ?nb ?lb" using p q by (simp_all add: link_live_def)
  have ct: "ct = p_wire (r_ad (sess ?na ?la)) (next_packet cv (sess ?na ?la) pt)"
    using e p by (simp add: session_Encrypt_def encrypt_next sess_def)
  have "ordered cv (peer_net (after_send ?na ?la) ?la ?nb ?lb (used_keys cv nb k0) ([] @ [(ct, pt)]) [])"
    using ordered_send [OF o, of pt] ns p(2) ct by (simp add: peer_net_def sess_def after_send_def set_sess_def)
  then have o2: "ordered cv (peer_net (after_send ?na ?la) ?la ?nb ?lb (used_keys cv nb k0) ((ct, pt) # []) [])" by simp
  have "fst (session_Decrypt cv mb' (length (m_heap ?mb)) ct (Inr k)) = Inr pt"
    using peer_recv(1) [OF cv o2 lb k] q by (simp add: session_Decrypt_def sess_def case_prod_beta)
  with r show ?thesis by (rule that)
qed

lemma node_ok_same: "node_ok cv nb \<Longrightarrow> same_keys nb n \<Longrightarrow> node_ok cv n \<and> node_Bundle cv n = node_Bundle cv nb \<and> used_keys cv n k0 = used_keys cv nb k0"
  by (simp add: node_ok_def same_keys_def node_Bundle_def used_keys_def)

definition recipient :: "node \<Rightarrow> string" where
  "recipient nb = account_Fingerprint (nd_account nb)"

text \<open>What one \<open>SendOffline\<close> does: it returns, deposits one item for the recipient, and the item carries
  the envelope.\<close>

lemma SendOffline_run:
  assumes cv: "curve_ok cv" and n: "node_ok cv na" "node_ok cv nb" and d: "length eph = 32" "length k0 = 32" and env: "envelope_ok env"
  obtains raw na' where "SendOffline cv (node_Bundle cv nb) env (Inr eph) (Inr k0) (na, mb) =
      Some (Inr (), (na', snd (mb_Put mb (recipient nb) raw)))" "carries cv nb raw k0 env"
proof -
  let ?pre = "ac_preKeys (nd_account nb)"
  have a: "identity_ok cv (m_local (nd_sessions na))" and b: "m_pre (nd_sessions nb) = Some ?pre" "prekeys_ok cv ?pre"
    "pk_id ?pre = m_local (nd_sessions nb)" and fp: "Fingerprint (b_identitySign (node_Bundle cv nb)) = recipient nb"
    using n by (simp_all add: node_ok_def account_ok_def node_Bundle_def Bundle_def recipient_def account_Fingerprint_def)
  obtain p hs ma where i: "session_Initiate cv (nd_sessions na) (node_Bundle cv nb) (Inr eph) (Inr k0) = (Inr (p, hs), ma)"
    and p: "p < length (m_heap ma)"
    by (rule handshake_sessions [OF cv a b d]) (auto simp: node_Bundle_def)
  obtain ct ma' where e: "session_Encrypt cv ma p (env_bytes env) = (Inr ct, ma')"
    using p by (simp add: session_Encrypt_def encrypt_next)
  let ?frame = "\<lparr> f_bundle = None, f_handshake = Some hs, f_payload = ct \<rparr>"
  have s: "SendOffline cv (node_Bundle cv nb) env (Inr eph) (Inr k0) (na, mb) =
      Some (Inr (), (na\<lparr> nd_sessions := ma' \<rparr>, snd (mb_Put mb (recipient nb) (marshal (frame_json ?frame)))))"
    using i e env fp
    by (simp add: SendOffline_def go_bind_def on_fst_def on_snd_def go_on_def on_sessions_bare go_of_def EncodeFrame_def go_call_def mb_Put_def)
  have "carries cv nb (marshal (frame_json ?frame)) k0 env"
    unfolding carries_def
  proof (intro allI impI)
    fix n :: node and d :: "nat \<Rightarrow> draw" and i raws out k
    assume same: "same_keys nb n" and di: "d i = Inr k" and k: "length k = 32" "x25519_base cv k \<notin> used_keys cv nb k0"
    note nk = node_ok_same [OF n(2) same]
    have i': "session_Initiate cv (nd_sessions na) (node_Bundle cv n) (Inr eph) (Inr k0) = (Inr (p, hs), ma)"
      and k': "x25519_base cv k \<notin> used_keys cv n k0" using i k nk by simp_all
    obtain q m1 where r: "session_Accept cv (nd_sessions n) hs = (Inr q, m1)" "fst (session_Decrypt cv m1 q ct (Inr k)) = Inr (env_bytes env)"
      using first_message [OF cv n(1) conjunct1 [OF nk] assms(4,5) k(1) k' i' e] by blast
    let ?n = "n\<lparr> nd_sessions := snd (session_Decrypt cv m1 q ct (Inr k)) \<rparr>"
    have m1: "m_local m1 = m_local (nd_sessions n)" "m_pre m1 = m_pre (nd_sessions n)"
      using session_ops_sel(1,2) [of cv "nd_sessions n" hs] r(1) by simp_all
    have "fetch_loop cv d i (marshal (frame_json ?frame) # raws) out n = fetch_loop cv d (Suc i) raws (out @ [env]) ?n"
      using r di env by (simp add: go_bind_def go_of_def on_sessions_bare)
    moreover have "same_keys nb ?n" using same m1 by (simp add: same_keys_def)
    ultimately show "\<exists>n'. same_keys nb n' \<and> fetch_loop cv d i (marshal (frame_json ?frame) # raws) out n =
        fetch_loop cv d (Suc i) raws (out @ [env]) n'" by blast
  qed
  with s show ?thesis by (rule that)
qed

section \<open>A batch of offline messages\<close>

text \<open>Offline messages of any senders to one recipient, one after the other.\<close>

record offline_msg =
  om_from :: node
  om_env :: envelope
  om_eph :: bytes
  om_ratchet :: bytes

definition offline_ok :: "curve \<Rightarrow> offline_msg \<Rightarrow> bool" where
  "offline_ok cv m \<longleftrightarrow> node_ok cv (om_from m) \<and> envelope_ok (om_env m) \<and> length (om_eph m) = 32 \<and> length (om_ratchet m) = 32"

fun send_all :: "curve \<Rightarrow> prekey_bundle \<Rightarrow> offline_msg list \<Rightarrow> mailbox \<Rightarrow> mailbox option" where
  "send_all cv bd [] mb = Some mb"
| "send_all cv bd (m # ms) mb =
     (case SendOffline cv bd (om_env m) (Inr (om_eph m)) (Inr (om_ratchet m)) (om_from m, mb) of
        Some (Inr _, (n, mb')) \<Rightarrow> send_all cv bd ms mb'
      | _ \<Rightarrow> None)"

definition item_for :: "curve \<Rightarrow> node \<Rightarrow> bytes \<Rightarrow> offline_msg \<Rightarrow> bool" where
  "item_for cv nb raw m \<longleftrightarrow> carries cv nb raw (om_ratchet m) (om_env m)"

lemma send_all_run:
  assumes "curve_ok cv" "node_ok cv nb"
  shows "list_all (offline_ok cv) ms \<Longrightarrow>
    \<exists>raws. send_all cv (node_Bundle cv nb) ms mb = Some (mem_mb.put_all (map (Pair (recipient nb)) raws) mb) \<and>
      list_all2 (item_for cv nb) raws ms"
proof (induction ms arbitrary: mb)
  case Nil
  then show ?case by (simp add: mem_mb.put_all_def)
next
  case (Cons m ms)
  then have m: "node_ok cv (om_from m)" "envelope_ok (om_env m)" "length (om_eph m) = 32" "length (om_ratchet m) = 32"
    by (simp_all add: offline_ok_def)
  obtain raw n' where r: "SendOffline cv (node_Bundle cv nb) (om_env m) (Inr (om_eph m)) (Inr (om_ratchet m)) (om_from m, mb) =
      Some (Inr (), (n', snd (mb_Put mb (recipient nb) raw)))" "item_for cv nb raw m"
    unfolding item_for_def by (rule SendOffline_run [OF assms(1) m(1) assms(2) m(3,4,2)])
  obtain raws where "send_all cv (node_Bundle cv nb) ms (snd (mb_Put mb (recipient nb) raw)) =
      Some (mem_mb.put_all (map (Pair (recipient nb)) raws) (snd (mb_Put mb (recipient nb) raw)))"
    "list_all2 (item_for cv nb) raws ms"
    using Cons.IH [of "snd (mb_Put mb (recipient nb) raw)"] Cons.prems by auto
  with r show ?case by (intro exI [of _ "raw # raws"]) (simp add: mem_mb.put_all_def)
qed

text \<open>The keys drawn while fetching: one per item, different from the two public keys of its session.\<close>

fun fresh_draws :: "curve \<Rightarrow> node \<Rightarrow> (nat \<Rightarrow> bytes) \<Rightarrow> nat \<Rightarrow> offline_msg list \<Rightarrow> bool" where
  "fresh_draws cv nb k i [] \<longleftrightarrow> True"
| "fresh_draws cv nb k i (m # ms) \<longleftrightarrow>
     length (k i) = 32 \<and> x25519_base cv (k i) \<notin> used_keys cv nb (om_ratchet m) \<and> fresh_draws cv nb k (Suc i) ms"

lemma item_forD:
  "item_for cv nb raw m \<Longrightarrow> same_keys nb n \<Longrightarrow> length (k i) = 32 \<Longrightarrow> x25519_base cv (k i) \<notin> used_keys cv nb (om_ratchet m) \<Longrightarrow>
   \<exists>n'. same_keys nb n' \<and> fetch_loop cv (\<lambda>i. Inr (k i)) i (raw # raws) out n = fetch_loop cv (\<lambda>i. Inr (k i)) (Suc i) raws (out @ [om_env m]) n'"
  unfolding item_for_def carries_def
  by (elim allE [where x = n] allE [where x = "\<lambda>i. Inr (k i)"] allE [where x = i] allE [where x = raws] allE [where x = out]
      allE [where x = "k i"] impE) (rule refl | assumption)+

lemma fetch_all:
  "list_all2 (item_for cv nb) raws ms \<Longrightarrow> fresh_draws cv nb k i ms \<Longrightarrow> same_keys nb n \<Longrightarrow>
   \<exists>n'. fetch_loop cv (\<lambda>i. Inr (k i)) i (raws @ rest) out n = fetch_loop cv (\<lambda>i. Inr (k i)) (i + length ms) rest (out @ map om_env ms) n'"
proof (induction raws ms arbitrary: i out n rule: list_all2_induct)
  case Nil
  then show ?case by auto
next
  case (Cons raw raws m ms)
  have k: "length (k i) = 32" "x25519_base cv (k i) \<notin> used_keys cv nb (om_ratchet m)" "fresh_draws cv nb k (Suc i) ms"
    using Cons.prems(1) by simp_all
  obtain n' where n': "same_keys nb n'"
    "fetch_loop cv (\<lambda>i. Inr (k i)) i (raw # raws @ rest) out n = fetch_loop cv (\<lambda>i. Inr (k i)) (Suc i) (raws @ rest) (out @ [om_env m]) n'"
    using item_forD [where k = k and i = i, OF Cons.hyps(1) Cons.prems(2) k(1,2), of "raws @ rest" out] by blast
  show ?case using Cons.IH [OF k(3) n'(1), of "out @ [om_env m]"] n'(2) by simp
qed

lemma FetchOffline_run:
  "FetchOffline cv d (n, mb) =
     (case fetch_loop cv d 0 (mb_queue mb (recipient n)) [] n of
        None \<Rightarrow> None | Some (r, n') \<Rightarrow> Some (r, (n', snd (mb_Fetch mb (recipient n)))))"
  by (simp add: FetchOffline_def go_bind_def go_get_def go_call_def on_snd_def on_fst_def go_on_def recipient_def mb_Fetch_def Let_def
      split: option.split)

section \<open>Properties\<close>

text \<open>C15. Offline messages are delivered: after any well-formed nodes have sent any number of envelopes to a
  recipient through the mailbox, the recipient's next \<open>FetchOffline\<close> returns exactly those envelopes in
  the order they were sent, and nothing stays pending. Every call returns.\<close>

theorem offline_delivery:
  assumes "curve_ok cv" "node_ok cv nb" "list_all (offline_ok cv) ms" and mb: "gm_ok mb" "mb_Pending mb (recipient nb) = 0"
    and fresh: "fresh_draws cv nb k 0 ms"
  shows "\<exists>mb1 nb' mb2. send_all cv (node_Bundle cv nb) ms mb = Some mb1 \<and>
    FetchOffline cv (\<lambda>i. Inr (k i)) (nb, mb1) = Some (Inr (map om_env ms), (nb', mb2)) \<and> mb_Pending mb2 (recipient nb) = 0"
proof -
  obtain raws where r: "send_all cv (node_Bundle cv nb) ms mb = Some (mem_mb.put_all (map (Pair (recipient nb)) raws) mb)"
    "list_all2 (item_for cv nb) raws ms"
    using send_all_run [OF assms(1-3), of mb] by blast
  let ?mb1 = "mem_mb.put_all (map (Pair (recipient nb)) raws) mb"
  have q: "mb_queue ?mb1 (recipient nb) = raws" "mb_Pending (snd (mb_Fetch ?mb1 (recipient nb))) (recipient nb) = 0"
    using mem_mb.queue_put_all [of "map (Pair (recipient nb)) raws" mb "recipient nb"] mem_mb.fetch_queue [OF mem_mb.ok_put_all [OF mb(1)]] mb(2)
    by (simp_all add: mem_mb.pending_queue comp_def)
  obtain nb' where "fetch_loop cv (\<lambda>i. Inr (k i)) 0 raws [] nb = Some (Inr (map om_env ms), nb')"
    using fetch_all [OF r(2) fresh same_keys_refl, of "[]" "[]"] by (auto simp: go_ret_def)
  with q r(1) show ?thesis by (simp add: FetchOffline_run)
qed

theorem offline_delivery_witness:
  "\<exists>mb1 nb' mb2. send_all toy_curve (node_Bundle toy_curve (toy_node 2))
       [\<lparr> om_from = toy_node 1, om_env = NewEnvelope TypeTyping ''c'' None [1] zero_time, om_eph = replicate 32 5, om_ratchet = replicate 32 6 \<rparr>,
        \<lparr> om_from = toy_node 3, om_env = NewEnvelope TypeTyping ''d'' None [2] zero_time, om_eph = replicate 32 7, om_ratchet = replicate 32 8 \<rparr>]
       NewMailbox = Some mb1 \<and>
     FetchOffline toy_curve (\<lambda>i. Inr (replicate 32 77)) (toy_node 2, mb1) =
       Some (Inr [NewEnvelope TypeTyping ''c'' None [1] zero_time, NewEnvelope TypeTyping ''d'' None [2] zero_time], (nb', mb2)) \<and>
     mb_Pending mb2 (recipient (toy_node 2)) = 0"
proof -
  have ok: "envelope_ok (NewEnvelope TypeTyping c None [i] zero_time)" if "utf8_valid c" for c i
    by (rule NewEnvelope_ok) (use that in \<open>simp_all add: TypeTyping_def utf8_valid_ascii time_ok_def zero_time_def days_in_def\<close>)
  have fr: "x25519_base toy_curve (replicate 32 77) \<notin> used_keys toy_curve (toy_node 2) (replicate 32 b)" if "b \<noteq> 77" for b
    using that by (simp add: used_keys_def toy_curve_def toy_node_def node_New_def toy_account_def toy_prekeys_def fit_def)
  show ?thesis
    using offline_delivery [OF toy_curve_ok toy_node_ok [of 2], of
        "[\<lparr> om_from = toy_node 1, om_env = NewEnvelope TypeTyping ''c'' None [1] zero_time, om_eph = replicate 32 5, om_ratchet = replicate 32 6 \<rparr>,
          \<lparr> om_from = toy_node 3, om_env = NewEnvelope TypeTyping ''d'' None [2] zero_time, om_eph = replicate 32 7, om_ratchet = replicate 32 8 \<rparr>]"
        NewMailbox "\<lambda>_. replicate 32 77"]
    by (simp add: offline_ok_def toy_node_ok ok fr utf8_valid_ascii NewMailbox_def mem_mb.pending_queue mb_queue_def)
qed

text \<open>C37. The whole batch is lost when one item of it cannot be opened: \<open>FetchOffline\<close> has taken all items out of
  the mailbox before it decodes the first one, and on an error it returns none of them. Whoever deposits
  a single malformed item loses the recipient all messages queued before it.\<close>

theorem offline_batch_lost:
  assumes "curve_ok cv" "node_ok cv nb" "list_all (offline_ok cv) ms" and mb: "gm_ok mb" "mb_Pending mb (recipient nb) = 0"
    and fresh: "fresh_draws cv nb k 0 ms" and bad: "DecodeFrame bad = Inl e"
  shows "\<exists>mb1 nb' mb2. send_all cv (node_Bundle cv nb) ms mb = Some mb1 \<and>
    FetchOffline cv (\<lambda>i. Inr (k i)) (nb, snd (mb_Put mb1 (recipient nb) bad)) = Some (Inl e, (nb', mb2)) \<and> mb_Pending mb2 (recipient nb) = 0"
proof -
  obtain raws where r: "send_all cv (node_Bundle cv nb) ms mb = Some (mem_mb.put_all (map (Pair (recipient nb)) raws) mb)"
    "list_all2 (item_for cv nb) raws ms"
    using send_all_run [OF assms(1-3), of mb] by blast
  let ?mb1 = "mem_mb.put_all (map (Pair (recipient nb)) raws) mb"
  have q: "mb_queue (snd (mb_Put ?mb1 (recipient nb) bad)) (recipient nb) = raws @ [bad]"
    "mb_Pending (snd (mb_Fetch (snd (mb_Put ?mb1 (recipient nb) bad)) (recipient nb))) (recipient nb) = 0"
    using mem_mb.queue_put_all [of "map (Pair (recipient nb)) raws" mb "recipient nb"] mem_mb.put_queue [of ?mb1 "recipient nb" bad]
      mem_mb.fetch_queue [OF mem_mb.ok_put [OF mem_mb.ok_put_all [OF mb(1)]]] mb(2)
    by (simp_all add: mem_mb.pending_queue comp_def)
  obtain nb' where "fetch_loop cv (\<lambda>i. Inr (k i)) 0 (raws @ [bad]) [] nb = Some (Inl e, nb')"
    using fetch_all [OF r(2) fresh same_keys_refl, of "[bad]" "[]"] bad by (auto simp: go_bind_def go_of_def)
  with q r(1) show ?thesis by (simp add: FetchOffline_run)
qed

theorem offline_batch_lost_witness:
  "\<exists>e mb1 nb' mb2. send_all toy_curve (node_Bundle toy_curve (toy_node 2))
       [\<lparr> om_from = toy_node 1, om_env = NewEnvelope TypeTyping ''c'' None [1] zero_time, om_eph = replicate 32 5, om_ratchet = replicate 32 6 \<rparr>]
       NewMailbox = Some mb1 \<and>
     FetchOffline toy_curve (\<lambda>i. Inr (replicate 32 77)) (toy_node 2, snd (mb_Put mb1 (recipient (toy_node 2)) [])) = Some (Inl e, (nb', mb2)) \<and>
     mb_Pending mb2 (recipient (toy_node 2)) = 0"
proof -
  have ok: "envelope_ok (NewEnvelope TypeTyping ''c'' None [1] zero_time)"
    by (rule NewEnvelope_ok) (simp_all add: TypeTyping_def utf8_valid_ascii time_ok_def zero_time_def days_in_def)
  have fr: "x25519_base toy_curve (replicate 32 77) \<notin> used_keys toy_curve (toy_node 2) (replicate 32 6)"
    by (simp add: used_keys_def toy_curve_def toy_node_def node_New_def toy_account_def toy_prekeys_def fit_def)
  obtain e where "DecodeFrame [] = Inl e" by (simp add: DecodeFrame_def decode_json_def unmarshal_def json_parse_def of_bytes_def)
  from offline_batch_lost [OF toy_curve_ok toy_node_ok [of 2] _ _ _ _ this, of
        "[\<lparr> om_from = toy_node 1, om_env = NewEnvelope TypeTyping ''c'' None [1] zero_time, om_eph = replicate 32 5, om_ratchet = replicate 32 6 \<rparr>]"
        NewMailbox "\<lambda>_. replicate 32 77"]
  show ?thesis
    by (auto simp: offline_ok_def toy_node_ok ok fr NewMailbox_def mem_mb.pending_queue mb_queue_def)
qed

end
