(* ===== verification/Conversation.thy ===== *)
theory Conversation
  imports Node_Delivery
begin

text \<open>
  Conversations: two nodes with an established link that call its operations in any order. The invariant
  is proved once for every connection that keeps the contract \<open>duplex\<close>, and holds for the in-process pipe
  and for the WebRTC data channel.
\<close>

section \<open>The conversation\<close>

text \<open>The two nodes at the ends of a connection, with the envelopes each has sent and what each \<open>Receive\<close>
  returned. A step is a call that returns: a persisted or a control message sent, or a receive.\<close>

record 'c chat =
  ch_node :: "pipe_end \<Rightarrow> node"
  ch_conn :: 'c
  ch_used :: "bytes set"
  ch_sent :: "pipe_end \<Rightarrow> envelope list"
  ch_got :: "pipe_end \<Rightarrow> envelope result list"

inductive chat_step :: "curve \<Rightarrow> (pipe_end \<Rightarrow> 'c conn) \<Rightarrow> (pipe_end \<Rightarrow> link) \<Rightarrow> 'c chat \<Rightarrow> 'c chat \<Rightarrow> bool" for cv io lk where
  message: "envelope_ok env \<Longrightarrow> unat (r_ns (sess (ch_node s e) (lk e))) + 1001 < 2 ^ 32 \<Longrightarrow>
    link_SendEnvelope cv (io e) (lk e) fe env \<lparr> w_node = ch_node s e, w_conn = ch_conn s \<rparr> = Some (r, w) \<Longrightarrow>
    chat_step cv io lk s (s\<lparr> ch_node := (ch_node s)(e := w_node w), ch_conn := w_conn w,
      ch_sent := (ch_sent s)(e := ch_sent s e @ [env]) \<rparr>)"
| control: "envelope_ok env \<Longrightarrow> unat (r_ns (sess (ch_node s e) (lk e))) + 1001 < 2 ^ 32 \<Longrightarrow>
    encryptSendLocked cv (io e) (lk e) env \<lparr> w_node = ch_node s e, w_conn = ch_conn s \<rparr> = Some (r, w) \<Longrightarrow>
    chat_step cv io lk s (s\<lparr> ch_node := (ch_node s)(e := w_node w), ch_conn := w_conn w,
      ch_sent := (ch_sent s)(e := ch_sent s e @ [env]) \<rparr>)"
| receive: "length k = 32 \<Longrightarrow> x25519_base cv k \<notin> ch_used s \<Longrightarrow>
    link_Receive cv (io e) (lk e) (Inr k) \<lparr> w_node = ch_node s e, w_conn = ch_conn s \<rparr> = Some (r, w) \<Longrightarrow>
    chat_step cv io lk s (s\<lparr> ch_node := (ch_node s)(e := w_node w), ch_conn := w_conn w,
      ch_used := insert (x25519_base cv k) (ch_used s), ch_got := (ch_got s)(e := ch_got s e @ [r]) \<rparr>)"

inductive chat_reach :: "curve \<Rightarrow> (pipe_end \<Rightarrow> 'c conn) \<Rightarrow> (pipe_end \<Rightarrow> link) \<Rightarrow> 'c chat \<Rightarrow> 'c chat \<Rightarrow> bool" for cv io lk where
  start: "chat_reach cv io lk s s"
| step: "chat_reach cv io lk s t \<Longrightarrow> chat_step cv io lk t u \<Longrightarrow> chat_reach cv io lk s u"

definition chat_start :: "node \<Rightarrow> node \<Rightarrow> 'c \<Rightarrow> bytes set \<Rightarrow> 'c chat" where
  "chat_start na nb c used = \<lparr> ch_node = (\<lambda>e. case e of EndA \<Rightarrow> na | EndB \<Rightarrow> nb), ch_conn = c, ch_used = used,
     ch_sent = (\<lambda>_. []), ch_got = (\<lambda>_. []) \<rparr>"

section \<open>The invariant\<close>

context duplex
begin

text \<open>\<open>q e\<close> are the ciphertexts and envelopes on their way from \<open>e\<close>.\<close>

definition chat_inv :: "curve \<Rightarrow> (pipe_end \<Rightarrow> link) \<Rightarrow> (pipe_end \<Rightarrow> (bytes \<times> envelope) list) \<Rightarrow> 'c chat \<Rightarrow> bool" where
  "chat_inv cv lk q s \<longleftrightarrow>
     up (ch_conn s) \<and>
     (\<forall>e. link_live (ch_node s e) (lk e) \<and> list_all (\<lambda>(w, env). envelope_ok env) (q e) \<and>
        queue (ch_conn s) e = map (\<lambda>(w, env). payload_frame w) (q e) \<and>
        (\<exists>got. ch_got s (other_end e) = map Inr got \<and> ch_sent s e = got @ map snd (q e)) \<and>
        ordered cv (peer_net (ch_node s e) (lk e) (ch_node s (other_end e)) (lk (other_end e)) (ch_used s)
          (map (apsnd env_bytes) (q e)) (map (apsnd env_bytes) (q (other_end e)))))"

lemma chat_invE:
  assumes "chat_inv cv lk q s"
  shows "up (ch_conn s)" "link_live (ch_node s e) (lk e)" "list_all (\<lambda>(w, env). envelope_ok env) (q e)"
    "queue (ch_conn s) e = map (\<lambda>(w, env). payload_frame w) (q e)"
    "\<exists>got. ch_got s (other_end e) = map Inr got \<and> ch_sent s e = got @ map snd (q e)"
    "ordered cv (peer_net (ch_node s e) (lk e) (ch_node s (other_end e)) (lk (other_end e)) (ch_used s)
       (map (apsnd env_bytes) (q e)) (map (apsnd env_bytes) (q (other_end e))))"
  using assms unfolding chat_inv_def by simp_all

text \<open>It suffices to establish the network part from one end.\<close>

lemma chat_invI:
  assumes "up (ch_conn s)" "\<And>e. link_live (ch_node s e) (lk e)"
    "\<And>e. list_all (\<lambda>(w, env). envelope_ok env) (q e)"
    "\<And>e. queue (ch_conn s) e = map (\<lambda>(w, env). payload_frame w) (q e)"
    "\<And>e. \<exists>got. ch_got s (other_end e) = map Inr got \<and> ch_sent s e = got @ map snd (q e)"
    "ordered cv (peer_net (ch_node s e) (lk e) (ch_node s (other_end e)) (lk (other_end e)) (ch_used s)
       (map (apsnd env_bytes) (q e)) (map (apsnd env_bytes) (q (other_end e))))"
  shows "chat_inv cv lk q s"
proof -
  have "ordered cv (peer_net (ch_node s e') (lk e') (ch_node s (other_end e')) (lk (other_end e')) (ch_used s)
       (map (apsnd env_bytes) (q e')) (map (apsnd env_bytes) (q (other_end e'))))" for e'
  proof (cases "e' = e")
    case False
    then have "e' = other_end e" by (simp add: other_end_iff)
    then show ?thesis using assms(6) ordered_swap by simp
  qed (use assms(6) in simp)
  then show ?thesis unfolding chat_inv_def using assms(1-5) by blast
qed

text \<open>A send or a receive that returned is the one the contract describes.\<close>

lemma sent_is_queued:
  assumes "up c" "conn_Send (io e) b c = Some (r, c')"
  shows "r = Inr ()" "up c'" "queue c' = (queue c)(e := queue c e @ [b])"
  using assms send_queued [of c e b] send_waits [of c e b] by (cases "room c e"; auto)+

lemma got_was_queued:
  assumes "up c" "conn_Recv (io e) c = Some (r, c')"
  obtains b bs where "queue c (other_end e) = b # bs" "r = Inr b" "up c'" "queue c' = (queue c)(other_end e := bs)"
proof (cases "queue c (other_end e)")
  case (Cons b bs)
  with recv_queued [OF assms(1) Cons] assms(2) that show ?thesis by auto
qed (use assms recv_waits [of c e] in auto)

lemma chat_inv_sent:
  assumes i: "chat_inv cv lk q s" and env: "envelope_ok env" "unat (r_ns (sess (ch_node s e) (lk e))) + 1001 < 2 ^ 32"
    and run: "encryptSendLocked cv (io e) (lk e) env \<lparr> w_node = ch_node s e, w_conn = ch_conn s \<rparr> = Some (r, w)"
    and n: "nd_sessions n = nd_sessions (w_node w)"
  shows "r = Inr () \<and> (\<exists>q'. chat_inv cv lk q' (s\<lparr> ch_node := (ch_node s)(e := n), ch_conn := w_conn w,
      ch_sent := (ch_sent s)(e := ch_sent s e @ [env]) \<rparr>))"
proof -
  note inv = chat_invE [OF i]
  define x where "x = sent_wire cv (ch_node s e) (lk e) env"
  define na' where "na' = after_send (ch_node s e) (lk e)"
  have o: "ordered cv (peer_net na' (lk e) (ch_node s (other_end e)) (lk (other_end e)) (ch_used s)
      (map (apsnd env_bytes) (q e) @ [(x, env_bytes env)]) (map (apsnd env_bytes) (q (other_end e))))"
    and l: "link_live na' (lk e)"
    using peer_send [OF inv(6) inv(2) env(2), of env] inv(2) by (simp_all add: x_def na'_def)
  have w: "conn_Send (io e) (payload_frame x) (ch_conn s) = Some (r, w_conn w)" "w_node w = na'"
    using run by (auto simp: encryptSend_run [OF inv(2) env(1)] x_def na'_def split: option.splits)
  note p = sent_is_queued [OF inv(1) w(1)]
  have same: "sess n = sess na'" "link_live n = link_live na'"
    using n w(2) by (simp_all add: sess_def link_live_def fun_eq_iff)
  let ?q = "q(e := q e @ [(x, env)])"
  let ?s = "s\<lparr> ch_node := (ch_node s)(e := n), ch_conn := w_conn w, ch_sent := (ch_sent s)(e := ch_sent s e @ [env]) \<rparr>"
  have "chat_inv cv lk ?q ?s"
  proof (rule chat_invI [where e = e])
    show "queue (ch_conn ?s) e' = map (\<lambda>(w, env). payload_frame w) (?q e')" for e'
      using inv(4) [of e'] inv(4) [of e] p(3) by simp
    show "\<exists>got. ch_got ?s (other_end e') = map Inr got \<and> ch_sent ?s e' = got @ map snd (?q e')" for e'
      using inv(5) [of e'] by (cases "e' = e") auto
    show "ordered cv (peer_net (ch_node ?s e) (lk e) (ch_node ?s (other_end e)) (lk (other_end e)) (ch_used ?s)
       (map (apsnd env_bytes) (?q e)) (map (apsnd env_bytes) (?q (other_end e))))"
      using o same by (simp add: peer_net_def)
  qed (use inv(2,3) env(1) l same p(2) in simp_all)
  with p(1) show ?thesis by blast
qed

text \<open>What the next receive returns, and what is left to receive.\<close>

lemma chat_next:
  assumes cv: "curve_ok cv" and i: "chat_inv cv lk q s" and q: "q (other_end e) = (x, env) # rest"
    and k: "length k = 32" "x25519_base cv k \<notin> ch_used s"
  obtains c' where
    "link_Receive cv (io e) (lk e) (Inr k) \<lparr> w_node = ch_node s e, w_conn = ch_conn s \<rparr> =
       Some (Inr env, \<lparr> w_node = after_recv cv (ch_node s e) (lk e) x (Inr k), w_conn = c' \<rparr>)"
    "up c'" "queue c' = (queue (ch_conn s))(other_end e := map (\<lambda>(w, env). payload_frame w) rest)"
    "ordered cv (peer_net (ch_node s (other_end e)) (lk (other_end e)) (after_recv cv (ch_node s e) (lk e) x (Inr k)) (lk e)
       (insert (x25519_base cv k) (ch_used s)) (map (apsnd env_bytes) rest) (map (apsnd env_bytes) (q e)))"
proof -
  note inv = chat_invE [OF i]
  have "queue (ch_conn s) (other_end e) = payload_frame x # map (\<lambda>(w, env). payload_frame w) rest"
    using inv(4) [of "other_end e"] q by simp
  from recv_queued [OF inv(1) this] obtain c' where c': "conn_Recv (io e) (ch_conn s) = Some (Inr (payload_frame x), c')" "up c'"
    "queue c' = (queue (ch_conn s))(other_end e := map (\<lambda>(w, env). payload_frame w) rest)" by blast
  have ord: "ordered cv (peer_net (ch_node s (other_end e)) (lk (other_end e)) (ch_node s e) (lk e) (ch_used s)
      ((x, env_bytes env) # map (apsnd env_bytes) rest) (map (apsnd env_bytes) (q e)))"
    using inv(6) [of "other_end e"] q by simp
  have ok: "envelope_ok env" using inv(3) [of "other_end e"] q by simp
  note pr = peer_recv [OF cv ord inv(2) k]
  show ?thesis by (rule that [OF Receive_run [OF inv(2) ok c'(1) pr(1)] c'(2,3) pr(2)])
qed

lemma chat_inv_recv:
  assumes cv: "curve_ok cv" and i: "chat_inv cv lk q s" and k: "length k = 32" "x25519_base cv k \<notin> ch_used s"
    and run: "link_Receive cv (io e) (lk e) (Inr k) \<lparr> w_node = ch_node s e, w_conn = ch_conn s \<rparr> = Some (r, w)"
  shows "\<exists>q'. chat_inv cv lk q' (s\<lparr> ch_node := (ch_node s)(e := w_node w), ch_conn := w_conn w,
      ch_used := insert (x25519_base cv k) (ch_used s), ch_got := (ch_got s)(e := ch_got s e @ [r]) \<rparr>)"
proof -
  note inv = chat_invE [OF i]
  let ?f = "other_end e"
  obtain r0 c0 where "conn_Recv (io e) (ch_conn s) = Some (r0, c0)"
    using run by (auto simp: link_Receive_def go_bind_def on_conn_def go_on_def split: option.splits)
  then have "q ?f \<noteq> []" using got_was_queued [OF inv(1)] inv(4) [of ?f] by (metis list.distinct(1) list.simps(8))
  then obtain x env rest where q: "q ?f = (x, env) # rest" by (metis list.exhaust surj_pair)
  define nb' where "nb' = after_recv cv (ch_node s e) (lk e) x (Inr k)"
  obtain c' where nx: "link_Receive cv (io e) (lk e) (Inr k) \<lparr> w_node = ch_node s e, w_conn = ch_conn s \<rparr> = Some (Inr env, \<lparr> w_node = nb', w_conn = c' \<rparr>)"
    "up c'" "queue c' = (queue (ch_conn s))(?f := map (\<lambda>(w, env). payload_frame w) rest)"
    "ordered cv (peer_net (ch_node s ?f) (lk ?f) nb' (lk e) (insert (x25519_base cv k) (ch_used s)) (map (apsnd env_bytes) rest) (map (apsnd env_bytes) (q e)))"
    unfolding nb'_def by (rule chat_next [OF cv i q k])
  have w: "r = Inr env" "w = \<lparr> w_node = nb', w_conn = c' \<rparr>" using nx(1) run by auto
  let ?q = "q(?f := rest)"
  let ?s = "s\<lparr> ch_node := (ch_node s)(e := w_node w), ch_conn := w_conn w,
      ch_used := insert (x25519_base cv k) (ch_used s), ch_got := (ch_got s)(e := ch_got s e @ [r]) \<rparr>"
  have "chat_inv cv lk ?q ?s"
  proof (rule chat_invI [where e = ?f])
    show "list_all (\<lambda>(w, env). envelope_ok env) (?q e')" for e' using inv(3) [of e'] q by (cases "e' = ?f") auto
    show "queue (ch_conn ?s) e' = map (\<lambda>(w, env). payload_frame w) (?q e')" for e' using inv(4) [of e'] nx(3) w(2) by simp
    show "\<exists>got. ch_got ?s (other_end e') = map Inr got \<and> ch_sent ?s e' = got @ map snd (?q e')" for e'
    proof (cases "e' = ?f")
      case True
      obtain got where "ch_got s e = map Inr got" "ch_sent s ?f = got @ env # map snd rest" using inv(5) [of ?f] q by auto
      with True w(1) show ?thesis by (intro exI [of _ "got @ [env]"]) simp
    next
      case False
      then have "other_end e' \<noteq> e" by (auto simp: other_end_iff)
      with False inv(5) [of e'] show ?thesis by simp
    qed
    show "ordered cv (peer_net (ch_node ?s ?f) (lk ?f) (ch_node ?s (other_end ?f)) (lk (other_end ?f)) (ch_used ?s)
       (map (apsnd env_bytes) (?q ?f)) (map (apsnd env_bytes) (?q (other_end ?f))))"
      using nx(4) w(2) by (simp add: peer_net_def)
  qed (use inv(2) nx(2) w in \<open>simp_all add: nb'_def\<close>)
  then show ?thesis by blast
qed

lemma chat_inv_step:
  assumes "curve_ok cv" "chat_step cv io lk s t" "chat_inv cv lk q s"
  shows "\<exists>q'. chat_inv cv lk q' t"
  using assms(2)
proof cases
  case (message env e fe r w)
  then obtain r' w' where run: "encryptSendLocked cv (io e) (lk e) env \<lparr> w_node = ch_node s e, w_conn = ch_conn s \<rparr> = Some (r', w')"
    by (auto simp: link_SendEnvelope_def go_bind_def split: option.splits)
  have r': "r' = Inr ()" using chat_inv_sent [OF assms(3) message(2,3) run refl] by simp
  then have w: "w = w'\<lparr> w_node := store_sent fe env (w_node w') \<rparr>"
    using message(4) run by (simp add: link_SendEnvelope_def go_bind_def go_put_def)
  have "nd_sessions (store_sent fe env (w_node w')) = nd_sessions (w_node w')"
    by (simp add: store_sent_def split: option.split)
  from chat_inv_sent [OF assms(3) message(2,3) run this] show ?thesis unfolding message(1) w by simp
next
  case (control env e r w)
  from chat_inv_sent [OF assms(3) control(2-4) refl] show ?thesis unfolding control(1) by blast
next
  case (receive k e r w)
  from chat_inv_recv [OF assms(1,3) receive(2-4)] show ?thesis unfolding receive(1) by blast
qed

lemma chat_inv_reach: "chat_reach cv io lk s t \<Longrightarrow> curve_ok cv \<Longrightarrow> chat_inv cv lk q s \<Longrightarrow> \<exists>q'. chat_inv cv lk q' t"
  by (induction rule: chat_reach.induct) (blast dest: chat_inv_step)+

lemma conversation:
  assumes cv: "curve_ok cv" and n: "node_ok cv na" "node_ok cv nb" and c: "up c" "queue c = (\<lambda>_. [])" and d: "length eph = 32" "length k0 = 32"
    and hello: "responder_hello cv (io EndB) \<lparr> w_node = nb, w_conn = c \<rparr> = Some (Inr (), w1)"
    and init: "handshakeInitiator cv (io EndA) (node_key nb) (Inr eph) (Inr k0) \<lparr> w_node = na, w_conn = w_conn w1 \<rparr> = Some (Inr la, w2)"
    and fin: "responder_finish cv (io EndB) \<lparr> w_node = nb, w_conn = w_conn w2 \<rparr> = Some (Inr lb, w3)"
    and lk: "lk EndA = la" "lk EndB = lb"
    and run: "chat_reach cv io lk (chat_start (w_node w2) (w_node w3) (w_conn w3) (used_keys cv nb k0)) s"
    and fresh: "length k = 32" "x25519_base cv k \<notin> ch_used s"
  shows "\<exists>got. ch_got s (other_end e) = map Inr got \<and> got = take (length got) (ch_sent s e) \<and>
    length (ch_sent s e) = length got + length (queue (ch_conn s) e) \<and>
    (queue (ch_conn s) e \<noteq> [] \<longrightarrow>
       (\<exists>w. link_Receive cv (io (other_end e)) (lk (other_end e)) (Inr k)
          \<lparr> w_node = ch_node s (other_end e), w_conn = ch_conn s \<rparr> = Some (Inr (ch_sent s e ! length got), w)))"
proof -
  let ?c = "chat_start (w_node w2) (w_node w3) (w_conn w3) (used_keys cv nb k0)"
  have o: "ordered cv (peer_net (w_node w2) la (w_node w3) lb (used_keys cv nb k0) [] [])"
    and l: "link_live (w_node w2) la" "link_live (w_node w3) lb" and c3: "up (w_conn w3)" "queue (w_conn w3) = (\<lambda>_. [])"
    by (rule handshake_run [OF cv n c d], use hello init fin c(2) in auto)+
  have "chat_inv cv lk (\<lambda>_. []) ?c"
    by (rule chat_invI [where e = EndA]) (use o l c3 lk in \<open>auto simp: chat_start_def split: pipe_end.split\<close>)
  then obtain q where q: "chat_inv cv lk q s" using chat_inv_reach [OF run cv] by blast
  note inv = chat_invE [OF q]
  obtain got where g: "ch_got s (other_end e) = map Inr got" "ch_sent s e = got @ map snd (q e)" using inv(5) [of e] by blast
  have len: "length (queue (ch_conn s) e) = length (q e)" using inv(4) [of e] by simp
  have nxt: "\<exists>w. link_Receive cv (io (other_end e)) (lk (other_end e)) (Inr k)
      \<lparr> w_node = ch_node s (other_end e), w_conn = ch_conn s \<rparr> = Some (Inr env, w)" if "q e = (x, env) # rest" for x env rest
    by (rule chat_next [OF cv q _ fresh, of "other_end e"]) (use that in auto)
  show ?thesis
    by (rule exI [of _ got], cases "q e") (use g len nxt in \<open>auto simp: nth_append\<close>)
qed

text \<open>A conversation that has begun: the handshake and one message of the initiator.\<close>

lemma opening_message:
  assumes cv: "curve_ok cv" and n: "node_ok cv na" "node_ok cv nb" and c: "up c" "queue c = (\<lambda>_. [])" and d: "length eph = 32" "length k0 = 32"
    and env: "envelope_ok env"
  obtains la lb w1 w2 w3 lk t where
    "responder_hello cv (io EndB) \<lparr> w_node = nb, w_conn = c \<rparr> = Some (Inr (), w1)"
    "handshakeInitiator cv (io EndA) (node_key nb) (Inr eph) (Inr k0) \<lparr> w_node = na, w_conn = w_conn w1 \<rparr> = Some (Inr la, w2)"
    "responder_finish cv (io EndB) \<lparr> w_node = nb, w_conn = w_conn w2 \<rparr> = Some (Inr lb, w3)"
    "lk EndA = la" "lk EndB = lb"
    "chat_step cv io lk (chat_start (w_node w2) (w_node w3) (w_conn w3) (used_keys cv nb k0)) t"
    "ch_sent t EndA = [env]" "queue (ch_conn t) EndA \<noteq> []" "ch_used t = used_keys cv nb k0"
proof -
  obtain la lb na' nb' c1 c2 c3 where
    h: "responder_hello cv (io EndB) \<lparr> w_node = nb, w_conn = c \<rparr> = Some (Inr (), \<lparr> w_node = nb, w_conn = c1 \<rparr>)"
      "handshakeInitiator cv (io EndA) (node_key nb) (Inr eph) (Inr k0) \<lparr> w_node = na, w_conn = c1 \<rparr> = Some (Inr la, \<lparr> w_node = na', w_conn = c2 \<rparr>)"
      "responder_finish cv (io EndB) \<lparr> w_node = nb, w_conn = c2 \<rparr> = Some (Inr lb, \<lparr> w_node = nb', w_conn = c3 \<rparr>)"
    and c3: "up c3" "queue c3 = queue c" and l: "link_live na' la" and ns: "r_ns (sess na' la) = 0"
    by (rule handshake_run [OF cv n c d])
  define lk where "lk = (\<lambda>e. case e of EndA \<Rightarrow> la | EndB \<Rightarrow> lb)"
  let ?s = "chat_start na' nb' c3 (used_keys cv nb k0)"
  have "room c3 EndA" by (rule room_empty) (simp add: c3 c)
  from send_queued [OF c3(1) this, of "payload_frame (sent_wire cv na' la env)"] obtain c4 where
    c4: "conn_Send (io EndA) (payload_frame (sent_wire cv na' la env)) c3 = Some (Inr (), c4)" "queue c4 EndA \<noteq> []" by auto
  have snd: "encryptSendLocked cv (io EndA) (lk EndA) env \<lparr> w_node = ch_node ?s EndA, w_conn = ch_conn ?s \<rparr> =
      Some (Inr (), \<lparr> w_node = after_send na' la, w_conn = c4 \<rparr>)"
    by (simp add: encryptSend_run [OF l env] chat_start_def lk_def c4(1))
  have b: "unat (r_ns (sess (ch_node ?s EndA) (lk EndA))) + 1001 < 2 ^ 32" using ns by (simp add: chat_start_def lk_def)
  let ?t = "?s\<lparr> ch_node := (ch_node ?s)(EndA := after_send na' la), ch_conn := c4, ch_sent := (ch_sent ?s)(EndA := ch_sent ?s EndA @ [env]) \<rparr>"
  have st: "chat_step cv io lk ?s ?t"
    using chat_step.control [where lk = lk and s = ?s and e = EndA and cv = cv and io = io, OF env b snd] by simp
  show ?thesis
    by (rule that [OF h(1), of la "\<lparr> w_node = na', w_conn = c2 \<rparr>" lb "\<lparr> w_node = nb', w_conn = c3 \<rparr>" lk ?t])
       (use h(2,3) st c4(2) in \<open>simp_all add: lk_def\<close>, simp_all add: chat_start_def)
qed

end

section \<open>Properties\<close>

text \<open>A conversation over the in-process connection is delivered completely and in order, as over the data
  channel below.\<close>

theorem conversation_in_order:
  assumes cv: "curve_ok cv" and n: "node_ok cv na" "node_ok cv nb" "idle p" and d: "length eph = 32" "length k0 = 32"
    and hello: "responder_hello cv (pipe_conn (pick EndB) EndB) \<lparr> w_node = nb, w_conn = p \<rparr> = Some (Inr (), w1)"
    and init: "handshakeInitiator cv (pipe_conn (pick EndA) EndA) (node_key nb) (Inr eph) (Inr k0)
      \<lparr> w_node = na, w_conn = w_conn w1 \<rparr> = Some (Inr la, w2)"
    and fin: "responder_finish cv (pipe_conn (pick EndB) EndB) \<lparr> w_node = nb, w_conn = w_conn w2 \<rparr> = Some (Inr lb, w3)"
    and lk: "lk EndA = la" "lk EndB = lb"
    and run: "chat_reach cv (\<lambda>e. pipe_conn (pick e) e) lk (chat_start (w_node w2) (w_node w3) (w_conn w3) (used_keys cv nb k0)) s"
    and fresh: "length k = 32" "x25519_base cv k \<notin> ch_used s"
  shows "\<exists>got. ch_got s (other_end e) = map Inr got \<and> got = take (length got) (ch_sent s e) \<and>
    length (ch_sent s e) = length got + length (pipe_out e (ch_conn s)) \<and>
    (pipe_out e (ch_conn s) \<noteq> [] \<longrightarrow>
       (\<exists>w. link_Receive cv (pipe_conn (pick (other_end e)) (other_end e)) (lk (other_end e)) (Inr k)
          \<lparr> w_node = ch_node s (other_end e), w_conn = ch_conn s \<rparr> = Some (Inr (ch_sent s e ! length got), w)))"
proof -
  have p: "\<not> pp_done p" "(\<lambda>e. pipe_out e p) = (\<lambda>_. [])"
    using n(3) by (auto simp: idle_def pipe_out_def fun_eq_iff split: pipe_end.split)
  show ?thesis by (rule pipe_duplex.conversation [OF cv n(1,2) p d hello init fin lk run fresh])
qed

lemma only_message: "x = [m] \<Longrightarrow> length x = length got + length q \<Longrightarrow> q \<noteq> [] \<Longrightarrow> x ! length got = m"
  by (cases got; cases q) simp_all

lemma typing_ok: "envelope_ok (NewEnvelope TypeTyping ''c'' None [1] zero_time)"
  by (rule NewEnvelope_ok) (simp_all add: TypeTyping_def utf8_valid_ascii)

lemma toy_fresh: "length (replicate 32 (77::byte)) = 32" "x25519_base toy_curve (replicate 32 77) \<notin> used_keys toy_curve (toy_node 2) (replicate 32 6)"
  by (simp_all add: used_keys_def toy_node_def node_New_def toy_account_def toy_prekeys_def toy_curve_def)

theorem conversation_in_order_witness:
  "\<exists>s lk w env t. chat_step toy_curve (pipe_conn True) lk s t \<and> ch_sent t EndA = [env] \<and>
     link_Receive toy_curve (pipe_conn True EndB) (lk EndB) (Inr (replicate 32 77))
       \<lparr> w_node = ch_node t EndB, w_conn = ch_conn t \<rparr> = Some (Inr env, w)"
proof -
  have p: "\<not> pp_done Pipe" "(\<lambda>e. pipe_out e Pipe) = (\<lambda>_. [])" by (auto simp: Pipe_def pipe_out_def fun_eq_iff split: pipe_end.split)
  have d: "length (replicate 32 (5::byte)) = 32" "length (replicate 32 (6::byte)) = 32" by simp_all
  note toy = toy_curve_ok toy_node_ok [of 1] toy_node_ok [of 2]
  obtain la lb w1 w2 w3 lk t where h:
    "responder_hello toy_curve (pipe_conn True EndB) \<lparr> w_node = toy_node 2, w_conn = Pipe \<rparr> = Some (Inr (), w1)"
    "handshakeInitiator toy_curve (pipe_conn True EndA) (node_key (toy_node 2)) (Inr (replicate 32 5)) (Inr (replicate 32 6))
       \<lparr> w_node = toy_node 1, w_conn = w_conn w1 \<rparr> = Some (Inr la, w2)"
    "responder_finish toy_curve (pipe_conn True EndB) \<lparr> w_node = toy_node 2, w_conn = w_conn w2 \<rparr> = Some (Inr lb, w3)"
    "lk EndA = la" "lk EndB = lb" and st: "chat_step toy_curve (\<lambda>e. pipe_conn True e) lk
       (chat_start (w_node w2) (w_node w3) (w_conn w3) (used_keys toy_curve (toy_node 2) (replicate 32 6))) t"
    and t: "ch_sent t EndA = [NewEnvelope TypeTyping ''c'' None [1] zero_time]" "pipe_out EndA (ch_conn t) \<noteq> []"
      "ch_used t = used_keys toy_curve (toy_node 2) (replicate 32 6)"
    by (rule pipe_duplex.opening_message [OF toy p d typing_ok, where pick = "\<lambda>_. True"])
  have "x25519_base toy_curve (replicate 32 77) \<notin> ch_used t" using t(3) toy_fresh(2) by simp
  from conversation_in_order [OF toy idle_Pipe d, of "\<lambda>_. True", OF h chat_reach.step [OF chat_reach.start st] toy_fresh(1) this, of EndA]
  have "\<exists>w. link_Receive toy_curve (pipe_conn True EndB) (lk EndB) (Inr (replicate 32 77)) \<lparr> w_node = ch_node t EndB, w_conn = ch_conn t \<rparr> =
      Some (Inr (NewEnvelope TypeTyping ''c'' None [1] zero_time), w)"
    using t(2) only_message [OF t(1)] by (metis other_end.simps(1))
  with st t(1) show ?thesis by blast
qed

text \<open>C3. A conversation is delivered completely and in order. Two well-formed nodes run the live handshake over a
  WebRTC data channel, then call the send and receive operations of their links any number of times,
  in any interleaving, with messages and control messages in both directions. In every state they
  reach, what one side's receives returned is exactly a prefix of what the other side sent, with no
  error among them; the rest is on its way in the channel, and if anything is, the next receive
  returns the next envelope.\<close>

theorem conversation_over_webrtc:
  assumes cv: "curve_ok cv" and n: "node_ok cv na" "node_ok cv nb" and c: "dn_up c" "dn_queue c = (\<lambda>_. [])"
    and d: "length eph = 32" "length k0 = 32"
    and hello: "responder_hello cv (data_conn (Inr ()) pc EndB) \<lparr> w_node = nb, w_conn = c \<rparr> = Some (Inr (), w1)"
    and init: "handshakeInitiator cv (data_conn (Inr ()) pc EndA) (node_key nb) (Inr eph) (Inr k0)
      \<lparr> w_node = na, w_conn = w_conn w1 \<rparr> = Some (Inr la, w2)"
    and fin: "responder_finish cv (data_conn (Inr ()) pc EndB) \<lparr> w_node = nb, w_conn = w_conn w2 \<rparr> = Some (Inr lb, w3)"
    and lk: "lk EndA = la" "lk EndB = lb"
    and run: "chat_reach cv (data_conn (Inr ()) pc) lk (chat_start (w_node w2) (w_node w3) (w_conn w3) (used_keys cv nb k0)) s"
    and fresh: "length k = 32" "x25519_base cv k \<notin> ch_used s"
  shows "\<exists>got. ch_got s (other_end e) = map Inr got \<and> got = take (length got) (ch_sent s e) \<and>
    length (ch_sent s e) = length got + length (dn_queue (ch_conn s) e) \<and>
    (dn_queue (ch_conn s) e \<noteq> [] \<longrightarrow>
       (\<exists>w. link_Receive cv (data_conn (Inr ()) pc (other_end e)) (lk (other_end e)) (Inr k)
          \<lparr> w_node = ch_node s (other_end e), w_conn = ch_conn s \<rparr> = Some (Inr (ch_sent s e ! length got), w)))"
  by (rule data_duplex.conversation [OF assms])

definition toy_channel :: data_channel where
  "toy_channel = \<lparr> dn_conn = (\<lambda>_. newPionConn\<lparr> pc_open := True \<rparr>), dn_flight = (\<lambda>_. []) \<rparr>"

theorem conversation_over_webrtc_witness:
  "\<exists>s lk w env t. chat_step toy_curve (data_conn (Inr ()) (Inr ())) lk s t \<and> ch_sent t EndA = [env] \<and>
     link_Receive toy_curve (data_conn (Inr ()) (Inr ()) EndB) (lk EndB) (Inr (replicate 32 77))
       \<lparr> w_node = ch_node t EndB, w_conn = ch_conn t \<rparr> = Some (Inr env, w)"
proof -
  have c: "dn_up toy_channel" "dn_queue toy_channel = (\<lambda>_. [])"
    by (auto simp: toy_channel_def dn_up_def dn_queue_def newPionConn_def fun_eq_iff)
  have d: "length (replicate 32 (5::byte)) = 32" "length (replicate 32 (6::byte)) = 32" by simp_all
  note toy = toy_curve_ok toy_node_ok [of 1] toy_node_ok [of 2]
  obtain la lb w1 w2 w3 lk t where h:
    "responder_hello toy_curve (data_conn (Inr ()) (Inr ()) EndB) \<lparr> w_node = toy_node 2, w_conn = toy_channel \<rparr> = Some (Inr (), w1)"
    "handshakeInitiator toy_curve (data_conn (Inr ()) (Inr ()) EndA) (node_key (toy_node 2)) (Inr (replicate 32 5)) (Inr (replicate 32 6))
       \<lparr> w_node = toy_node 1, w_conn = w_conn w1 \<rparr> = Some (Inr la, w2)"
    "responder_finish toy_curve (data_conn (Inr ()) (Inr ()) EndB) \<lparr> w_node = toy_node 2, w_conn = w_conn w2 \<rparr> = Some (Inr lb, w3)"
    "lk EndA = la" "lk EndB = lb" and st: "chat_step toy_curve (data_conn (Inr ()) (Inr ())) lk
       (chat_start (w_node w2) (w_node w3) (w_conn w3) (used_keys toy_curve (toy_node 2) (replicate 32 6))) t"
    and t: "ch_sent t EndA = [NewEnvelope TypeTyping ''c'' None [1] zero_time]" "dn_queue (ch_conn t) EndA \<noteq> []"
      "ch_used t = used_keys toy_curve (toy_node 2) (replicate 32 6)"
    by (rule data_duplex.opening_message [OF toy c d typing_ok])
  have "x25519_base toy_curve (replicate 32 77) \<notin> ch_used t" using t(3) toy_fresh(2) by simp
  from conversation_over_webrtc [OF toy c d h chat_reach.step [OF chat_reach.start st] toy_fresh(1) this, of EndA]
  have "\<exists>w. link_Receive toy_curve (data_conn (Inr ()) (Inr ()) EndB) (lk EndB) (Inr (replicate 32 77)) \<lparr> w_node = ch_node t EndB, w_conn = ch_conn t \<rparr> =
      Some (Inr (NewEnvelope TypeTyping ''c'' None [1] zero_time), w)"
    using t(2) only_message [OF t(1)] by (metis other_end.simps(1))
  with st t(1) show ?thesis by blast
qed

end
