(* ===== verification/Store_Refinement.thy ===== *)
theory Store_Refinement
  imports Storage
begin

text \<open>
  The \<open>Store\<close> interface of \<open>src/core/pkg/storage/storage.go\<close> as an abstract database: finite maps, a log per
  conversation, a queue, and a saved copy of it that a restart falls back to. The file store of
  \<open>filestore.go\<close>, with its entry lists, its JSON document, the vault around it and its rewriting of the file
  on every mutation, refines it under every sequence of operations, failed flushes and restarts.
\<close>

section \<open>Opening\<close>

record options =
  opt_Path :: string
  opt_Key :: bytes

definition store_Open :: "options \<Rightarrow> unit result \<Rightarrow> file_read \<Rightarrow> fileStore result" where
  "store_Open opts mkdir rd = openFileStore (opt_Path opts) (opt_Key opts) mkdir rd"

section \<open>The abstract database\<close>

record store_spec =
  sp_settings :: "settings option"
  sp_contacts :: "string \<rightharpoonup> contact"
  sp_conversations :: "string \<rightharpoonup> conversation"
  sp_log :: "string \<Rightarrow> (envelope \<times> string) list"
  sp_outbox :: "(string \<times> envelope) list"
  sp_blobs :: "string \<rightharpoonup> bytes"

definition spec_empty :: store_spec where
  "spec_empty = \<lparr> sp_settings = None, sp_contacts = Map.empty, sp_conversations = Map.empty, sp_log = (\<lambda>_. []),
     sp_outbox = [], sp_blobs = Map.empty \<rparr>"

text \<open>The mutations of the interface.\<close>

datatype store_op =
    PutSettings settings
  | PutContact contact
  | DropContact string
  | PutConversation conversation
  | DropConversation string
  | Append string envelope string
  | DropMessage string string
  | Enqueue string envelope
  | PutBlob string string bytes
  | CloseStore

definition blob_name :: "string \<Rightarrow> string \<Rightarrow> string" where
  "blob_name namespace key = namespace @ ''/'' @ key"

fun spec_step :: "store_op \<Rightarrow> store_spec \<Rightarrow> store_spec" where
  "spec_step (PutSettings x) d = d\<lparr> sp_settings := Some x \<rparr>"
| "spec_step (PutContact c) d = d\<lparr> sp_contacts := (sp_contacts d)(ct_handle c \<mapsto> c) \<rparr>"
| "spec_step (DropContact h) d = d\<lparr> sp_contacts := (sp_contacts d)(h := None) \<rparr>"
| "spec_step (PutConversation c) d = d\<lparr> sp_conversations := (sp_conversations d)(cv_id c \<mapsto> c) \<rparr>"
| "spec_step (DropConversation i) d =
     d\<lparr> sp_conversations := (sp_conversations d)(i := None), sp_log := (sp_log d)(i := []) \<rparr>"
| "spec_step (Append i e st) d = d\<lparr> sp_log := (sp_log d)(i := sp_log d i @ [(e, st)]) \<rparr>"
| "spec_step (DropMessage i m) d = d\<lparr> sp_log := (sp_log d)(i := filter (\<lambda>(e, st). e_msgID e \<noteq> m) (sp_log d i)) \<rparr>"
| "spec_step (Enqueue i e) d = d\<lparr> sp_outbox := sp_outbox d @ [(i, e)] \<rparr>"
| "spec_step (PutBlob ns k v) d = d\<lparr> sp_blobs := (sp_blobs d)(blob_name ns k \<mapsto> v) \<rparr>"
| "spec_step CloseStore d = d"

text \<open>The queries.\<close>

definition spec_page :: "store_spec \<Rightarrow> string \<Rightarrow> int \<Rightarrow> int \<Rightarrow> envelope list" where
  "spec_page d i limit offset = map fst ((if 0 < limit then take (nat limit) else id) (drop (nat offset) (sp_log d i)))"

definition answers_as :: "fileStore \<Rightarrow> store_spec \<Rightarrow> bool" where
  "answers_as s d \<longleftrightarrow>
     LoadSettings s = Inr (case sp_settings d of None \<Rightarrow> settings_Default | Some x \<Rightarrow> x) \<and>
     (\<exists>cs. Contacts s = Inr cs \<and> set cs = ran (sp_contacts d)) \<and>
     (\<exists>cs. Conversations s = Inr cs \<and> set cs = ran (sp_conversations d)) \<and>
     (\<forall>i limit offset. 0 \<le> offset \<longrightarrow> Messages s i limit offset = Inr (spec_page d i limit offset)) \<and>
     PendingOutbox s = Inr (map snd (sp_outbox d)) \<and>
     (\<forall>ns k. LoadBlob s ns k = (case sp_blobs d (blob_name ns k) of None \<Rightarrow> Inl ''storage: blob not found'' | Some v \<Rightarrow> Inr v))"

section \<open>Runs\<close>

text \<open>What happens to the file at a mutation: it is written with a nonce, the random source fails, or the
  write fails before it touches the file.\<close>

datatype outcome = Written bytes | SealFails string | WriteFails string

datatype store_event = Do store_op outcome | Restart

fun flush_of :: "outcome \<Rightarrow> bytes option \<Rightarrow> flush_env" where
  "flush_of (Written n) disk = \<lparr> fe_nonce = Inr n, fe_write = None \<rparr>"
| "flush_of (SealFails e) disk = \<lparr> fe_nonce = Inl e, fe_write = None \<rparr>"
| "flush_of (WriteFails e) disk = \<lparr> fe_nonce = Inr (replicate 12 0), fe_write = Some (disk, e) \<rparr>"

fun store_step :: "flush_env \<Rightarrow> store_op \<Rightarrow> fileStore \<Rightarrow> unit result \<times> fileStore" where
  "store_step env (PutSettings x) s = SaveSettings env s x"
| "store_step env (PutContact c) s = SaveContact env s c"
| "store_step env (DropContact h) s = DeleteContact env s h"
| "store_step env (PutConversation c) s = UpsertConversation env s c"
| "store_step env (DropConversation i) s = DeleteConversation env s i"
| "store_step env (Append i e st) s = AppendMessage env s i e st"
| "store_step env (DropMessage i m) s = DeleteMessage env s i m"
| "store_step env (Enqueue i e) s = EnqueueOutbox env s i e"
| "store_step env (PutBlob ns k v) s = SaveBlob env s ns k v"
| "store_step env CloseStore s = store_Close env s"

definition disk_read :: "fileStore \<Rightarrow> file_read" where
  "disk_read s = (case fs_disk s of None \<Rightarrow> NotExist | Some x \<Rightarrow> Content x)"

fun store_run :: "store_event list \<Rightarrow> fileStore \<Rightarrow> fileStore result" where
  "store_run [] s = Inr s"
| "store_run (Do op out # es) s = store_run es (snd (store_step (flush_of out (fs_disk s)) op s))"
| "store_run (Restart # es) s = rbind (openFileStore (fs_path s) (fs_key s) (Inr ()) (disk_read s)) (store_run es)"

text \<open>The abstract run: memory and the saved copy.\<close>

fun spec_run :: "store_event list \<Rightarrow> store_spec \<times> store_spec \<Rightarrow> store_spec \<times> store_spec" where
  "spec_run [] m = m"
| "spec_run (Do op out # es) (d, saved) =
     spec_run es (spec_step op d, case out of Written _ \<Rightarrow> spec_step op d | _ \<Rightarrow> saved)"
| "spec_run (Restart # es) (d, saved) = spec_run es (saved, saved)"

text \<open>Data that the document carries: valid UTF-8, times that can be written, nonces of twelve bytes.\<close>

fun op_ok :: "store_op \<Rightarrow> bool" where
  "op_ok (PutSettings x) = settings_ok x"
| "op_ok (PutContact c) = contact_ok c"
| "op_ok (PutConversation c) = conversation_ok c"
| "op_ok (Append i e st) = (utf8_valid i \<and> envelope_ok e \<and> utf8_valid st)"
| "op_ok (DropMessage i m) = utf8_valid i"
| "op_ok (Enqueue i e) = (utf8_valid i \<and> envelope_ok e)"
| "op_ok (PutBlob ns k v) = utf8_valid (blob_name ns k)"
| "op_ok _ = True"

fun event_ok :: "store_event \<Rightarrow> bool" where
  "event_ok (Do op (Written n)) = (op_ok op \<and> length n = 12)"
| "event_ok (Do op _) = op_ok op"
| "event_ok Restart = True"

section \<open>The abstraction\<close>

definition abs_db :: "dbData \<Rightarrow> store_spec" where
  "abs_db d = \<lparr> sp_settings = db_settings d, sp_contacts = gm_get (db_contacts d),
     sp_conversations = gm_get (db_conversations d),
     sp_log = (\<lambda>i. map (\<lambda>m. (sm_envelope m, sm_state m)) (nil_list (msgs_of d i))),
     sp_outbox = map (\<lambda>m. (sm_convID m, sm_envelope m)) (nil_list (db_outbox d)),
     sp_blobs = (\<lambda>k. map_option slice_list (gm_get (db_blobs d) k)) \<rparr>"

lemma map_ok_get: "map_ok P m \<longleftrightarrow> gm_ok m \<and> (\<forall>k v. gm_get m k = Some v \<longrightarrow> utf8_valid k \<and> P v)"
  by (auto simp: map_ok_def gm_ok_def gm_get_def dest: map_of_SomeD)

lemma map_ok_put: "map_ok P m \<Longrightarrow> utf8_valid k \<Longrightarrow> P v \<Longrightarrow> map_ok P (gm_put k v m)"
  by (simp add: map_ok_get)

lemma map_ok_del: "map_ok P m \<Longrightarrow> map_ok P (gm_del k m)"
  by (simp add: map_ok_get)

lemma map_ok_sorted: "map_ok P m \<Longrightarrow> map_ok P (sort_keys m)"
  using sort_keys_get [of m] by (simp add: map_ok_get)

lemmas map_ok_intros = map_ok_put map_ok_del

lemma db_ok_gm:
  assumes "db_ok d"
  shows "gm_ok (db_contacts d)" "gm_ok (db_conversations d)" "gm_ok (db_messages d)" "gm_ok (db_blobs d)"
  using assms by (simp_all add: db_ok_def map_ok_def)

lemma abs_canon:
  assumes "db_ok d"
  shows "abs_db (db_canon d) = abs_db d" "db_ok (db_canon d)"
  using assms msgs_of_canon [OF assms] sort_keys_get [OF db_ok_gm(1) [OF assms]] sort_keys_get [OF db_ok_gm(2) [OF assms]]
    sort_keys_get [OF db_ok_gm(4) [OF assms]]
  by (simp_all add: abs_db_def, simp_all add: db_canon_def db_ok_def map_ok_sorted)

lemma msgs_ok: "db_ok d \<Longrightarrow> list_all stored_ok (nil_list (msgs_of d i))"
  by (auto simp: db_ok_def map_ok_get msgs_of_def split: option.split)

text \<open>Every mutation changes the data in memory first, and then flushes it.\<close>

fun op_data :: "store_op \<Rightarrow> dbData \<Rightarrow> dbData" where
  "op_data (PutSettings x) d = d\<lparr> db_settings := Some x \<rparr>"
| "op_data (PutContact c) d = d\<lparr> db_contacts := gm_put (ct_handle c) c (db_contacts d) \<rparr>"
| "op_data (DropContact h) d = d\<lparr> db_contacts := gm_del h (db_contacts d) \<rparr>"
| "op_data (PutConversation c) d = d\<lparr> db_conversations := gm_put (cv_id c) c (db_conversations d) \<rparr>"
| "op_data (DropConversation i) d =
     d\<lparr> db_conversations := gm_del i (db_conversations d), db_messages := gm_del i (db_messages d) \<rparr>"
| "op_data (Append i e st) d = d\<lparr> db_messages := gm_put i
     (Some (nil_list (msgs_of d i) @ [\<lparr> sm_envelope = e, sm_state = st, sm_convID = i \<rparr>])) (db_messages d) \<rparr>"
| "op_data (DropMessage i m) d = d\<lparr> db_messages := gm_put i
     (map_option (filter (\<lambda>x. e_msgID (sm_envelope x) \<noteq> m)) (msgs_of d i)) (db_messages d) \<rparr>"
| "op_data (Enqueue i e) d = d\<lparr> db_outbox :=
     Some (nil_list (db_outbox d) @ [\<lparr> sm_envelope = e, sm_state = StateQueued, sm_convID = i \<rparr>]) \<rparr>"
| "op_data (PutBlob ns k v) d = d\<lparr> db_blobs := gm_put (blob_name ns k) (if v = [] then None else Some v) (db_blobs d) \<rparr>"
| "op_data CloseStore d = d"

lemma store_step_flush: "store_step env op s = flush env (with_data (op_data op) s)"
  by (cases op)
     (simp_all add: SaveSettings_def SaveContact_def DeleteContact_def UpsertConversation_def DeleteConversation_def
        AppendMessage_def DeleteMessage_def EnqueueOutbox_def SaveBlob_def store_Close_def blob_name_def with_data_def)

lemma op_data_ok: "db_ok d \<Longrightarrow> op_ok op \<Longrightarrow> db_ok (op_data op d)"
proof (cases op)
  case (Append i e st)
  assume "db_ok d" "op_ok op"
  with Append msgs_ok [of d i] show ?thesis by (auto simp: db_ok_def stored_ok_def intro!: map_ok_put)
next
  case (DropMessage i m)
  assume ok: "db_ok d" "op_ok op"
  have "list_all stored_ok (nil_list (map_option (filter P) (msgs_of d i)))" for P
    using msgs_ok [OF ok(1), of i] by (cases "msgs_of d i") (auto simp: list_all_iff)
  with DropMessage ok show ?thesis by (auto simp: db_ok_def intro!: map_ok_put)
next
  case (Enqueue i e)
  assume "db_ok d" "op_ok op"
  with Enqueue show ?thesis by (auto simp: db_ok_def stored_ok_def StateQueued_def utf8_valid_ascii)
qed (auto simp: db_ok_def contact_ok_def conversation_ok_def intro: map_ok_intros)

lemma nil_filter: "nil_list (map_option (filter P) x) = filter P (nil_list x)"
  by (cases x) simp_all

lemma abs_op: "db_ok d \<Longrightarrow> abs_db (op_data op d) = spec_step op (abs_db d)"
  by (cases op)
     (auto simp: abs_db_def db_ok_gm msgs_of_def fun_eq_iff nil_filter filter_map comp_def case_prod_beta split: option.split)

lemma queries_abs:
  assumes "db_ok (fs_data s)"
  shows "answers_as s (abs_db (fs_data s))"
  unfolding answers_as_def
proof (intro conjI allI impI)
  show "\<exists>cs. Contacts s = Inr cs \<and> set cs = ran (sp_contacts (abs_db (fs_data s)))"
    using gm_values_iff [OF db_ok_gm(1) [OF assms]] by (auto simp: Contacts_def abs_db_def ran_def)
  show "\<exists>cs. Conversations s = Inr cs \<and> set cs = ran (sp_conversations (abs_db (fs_data s)))"
    using gm_values_iff [OF db_ok_gm(2) [OF assms]] by (auto simp: Conversations_def abs_db_def ran_def)
  show "Messages s i limit offset = Inr (spec_page (abs_db (fs_data s)) i limit offset)" if "0 \<le> offset" for i limit offset
    using that by (auto simp: Messages_def spec_page_def abs_db_def Let_def nat_less_iff take_map drop_map comp_def)
qed (auto simp: LoadSettings_def PendingOutbox_def LoadBlob_def abs_db_def blob_name_def comp_def split: option.split)

section \<open>The simulation\<close>

text \<open>The store and the abstract database agree on what is in memory, and the file, if opened now, would give
  a store that agrees with the saved copy.\<close>

definition sim :: "fileStore \<Rightarrow> store_spec \<times> store_spec \<Rightarrow> bool" where
  "sim s m \<longleftrightarrow> db_ok (fs_data s) \<and> abs_db (fs_data s) = fst m \<and> length (fs_key s) = 32 \<and> fs_path s \<noteq> [] \<and>
     (\<exists>t. openFileStore (fs_path s) (fs_key s) (Inr ()) (disk_read s) = Inr t \<and> fs_path t = fs_path s \<and> fs_key t = fs_key s \<and>
        fs_disk t = fs_disk s \<and> db_ok (fs_data t) \<and> abs_db (fs_data t) = snd m)"

lemma sim_restart: "sim s (d, saved) \<Longrightarrow> \<exists>t. openFileStore (fs_path s) (fs_key s) (Inr ()) (disk_read s) = Inr t \<and> sim t (saved, saved)"
  by (auto simp: sim_def disk_read_def)

lemma sim_unsaved:
  assumes "sim s (d, saved)" "op_ok op" "s' = (with_data (op_data op) s)\<lparr> fs_disk := fs_disk s \<rparr>"
  shows "sim s' (spec_step op d, saved)"
  using assms op_data_ok [of "fs_data s" op] abs_op [of "fs_data s" op]
  by (auto simp: sim_def with_data_def disk_read_def)

lemma sim_written:
  assumes m: "sim s (d, saved)" and op: "op_ok op" and n: "length n = 12"
    and run: "snd (store_step (flush_of (Written n) (fs_disk s)) op s) = s'"
  shows "sim s' (spec_step op d, spec_step op d)"
proof -
  let ?t = "with_data (op_data op) s" and ?env = "flush_of (Written n) (fs_disk s)"
  have k: "length (fs_key ?t) = 32" "fs_path ?t \<noteq> []" and ok: "db_ok (fs_data ?t)" and d: "abs_db (fs_data ?t) = spec_step op d"
    using m op_data_ok [OF _ op, of "fs_data s"] abs_op [of "fs_data s" op] by (auto simp: sim_def with_data_def)
  have fl: "flush ?env ?t = (Inr (), s')"
    using run db_times [OF ok] k n
    by (auto simp: store_step_flush flush_def vault_Seal_def newGCM_def KeySize_def split: sum.splits)
  have nonce: "fe_nonce ?env = Inr n" by simp
  obtain sealed where f: "fs_disk s' = Some sealed" "fs_data s' = fs_data ?t"
    "openFileStore (fs_path ?t) (fs_key ?t) (Inr ()) (Content sealed) =
       Inr \<lparr> fs_path = fs_path ?t, fs_key = fs_key ?t, fs_data = db_canon (fs_data ?t), fs_disk = Some sealed \<rparr>"
    by (rule flush_open [OF fl ok nonce n k])
  have "fs_key s' = fs_key ?t" "fs_path s' = fs_path ?t" using flush_data [of ?env ?t] fl by simp_all
  with f k ok d abs_canon [OF ok] show ?thesis by (simp add: sim_def disk_read_def)
qed

lemma sim_failed:
  assumes m: "sim s (d, saved)" and op: "op_ok op" and out: "out = SealFails e \<or> out = WriteFails e"
  shows "sim (snd (store_step (flush_of out (fs_disk s)) op s)) (spec_step op d, saved)"
proof (rule sim_unsaved [OF m op])
  have "db_times_ok (fs_data (with_data (op_data op) s))"
    using m op_data_ok [OF _ op, of "fs_data s"] by (auto simp: sim_def with_data_def intro: db_times)
  moreover have "length (fs_key (with_data (op_data op) s)) = 32" using m by (simp add: sim_def with_data_def)
  ultimately show "snd (store_step (flush_of out (fs_disk s)) op s) = (with_data (op_data op) s)\<lparr> fs_disk := fs_disk s \<rparr>"
    using out by (auto simp: store_step_flush flush_def vault_Seal_def newGCM_def KeySize_def with_data_def)
qed

lemma sim_run:
  "sim s m \<Longrightarrow> list_all event_ok es \<Longrightarrow> \<exists>t. store_run es s = Inr t \<and> sim t (spec_run es m)"
proof (induction es arbitrary: s m)
  case (Cons e es)
  obtain d saved where m: "m = (d, saved)" by force
  show ?case
  proof (cases e)
    case (Do op out)
    have ok: "op_ok op" using Cons.prems(2) Do by (cases out) simp_all
    have "sim (snd (store_step (flush_of out (fs_disk s)) op s)) (spec_step op d, case out of Written _ \<Rightarrow> spec_step op d | _ \<Rightarrow> saved)"
      using Cons.prems m Do ok sim_written [of s d saved op] sim_failed [of s d saved op out] by (cases out) auto
    from Cons.IH [OF this] Cons.prems(2) show ?thesis by (simp add: Do m)
  next
    case Restart
    obtain t where "openFileStore (fs_path s) (fs_key s) (Inr ()) (disk_read s) = Inr t" "sim t (saved, saved)"
      using sim_restart Cons.prems(1) m by blast
    with Cons.IH [of t "(saved, saved)"] Cons.prems(2) show ?thesis by (simp add: Restart m)
  qed
qed simp

section \<open>Properties\<close>

text \<open>C5. The file store refines the abstract database. Start with a new store and perform any sequence of
  mutations, each of which may be written or may fail to reach the file, interrupted by any number of
  restarts: every restart reopens the store, and afterwards every query answers as the abstract
  database, in which a mutation takes effect in memory also when its flush fails, and a restart
  goes back to the state of the last mutation that was written.\<close>

theorem store_refines_database:
  assumes "store_Open opts (Inr ()) NotExist = Inr s" "list_all event_ok es"
  shows "\<exists>t. store_run es s = Inr t \<and> answers_as t (fst (spec_run es (spec_empty, spec_empty)))"
proof -
  have s: "s = \<lparr> fs_path = opt_Path opts, fs_key = opt_Key opts, fs_data = empty_db, fs_disk = None \<rparr>"
      "length (opt_Key opts) = 32" "opt_Path opts \<noteq> []"
    using assms(1) by (auto simp: store_Open_def openFileStore_def KeySize_def Let_def split: if_splits)
  have "db_ok empty_db" by (simp add: db_ok_def empty_db_def map_ok_def)
  moreover have "abs_db empty_db = spec_empty" by (simp add: abs_db_def empty_db_def spec_empty_def msgs_of_def fun_eq_iff)
  ultimately have "sim s (spec_empty, spec_empty)"
    using s by (simp add: sim_def disk_read_def openFileStore_def KeySize_def Let_def)
  from sim_run [OF this assms(2)] show ?thesis by (auto simp: sim_def dest: queries_abs)
qed

theorem store_refines_database_witness:
  "\<exists>t. store_run [Do (PutBlob ''app'' ''state'' [1]) (Written (replicate 12 0)), Do (PutBlob ''app'' ''state'' [2]) (SealFails ''no entropy''), Restart]
      \<lparr> fs_path = ''db'', fs_key = replicate 32 1, fs_data = empty_db, fs_disk = None \<rparr> = Inr t \<and>
    answers_as t (spec_empty\<lparr> sp_blobs := [''app/state'' \<mapsto> [1]] \<rparr>) \<and> LoadBlob t ''app'' ''state'' = Inr [1]"
proof -
  let ?es = "[Do (PutBlob ''app'' ''state'' [1]) (Written (replicate 12 0)), Do (PutBlob ''app'' ''state'' [2]) (SealFails ''no entropy''), Restart]"
  have "store_Open \<lparr> opt_Path = ''db'', opt_Key = replicate 32 1 \<rparr> (Inr ()) NotExist = Inr \<lparr> fs_path = ''db'', fs_key = replicate 32 1, fs_data = empty_db, fs_disk = None \<rparr>"
    by (simp add: store_Open_def openFileStore_def KeySize_def)
  moreover have "list_all event_ok ?es" by (simp add: blob_name_def utf8_valid_ascii)
  ultimately obtain t where "store_run ?es \<lparr> fs_path = ''db'', fs_key = replicate 32 1, fs_data = empty_db, fs_disk = None \<rparr> = Inr t"
    "answers_as t (fst (spec_run ?es (spec_empty, spec_empty)))"
    using store_refines_database by blast
  then show ?thesis by (intro exI [of _ t]) (simp add: spec_empty_def blob_name_def answers_as_def)
qed

end
