(* ===== verification/Go_Path.thy ===== *)
theory Go_Path
  imports Encoding
begin

text \<open>
  The parts of Go's \<open>path/filepath\<close> the program uses, for the slash-separated paths of Unix systems:
  \<open>Base\<close>, \<open>Ext\<close>, \<open>Clean\<close> and the two-element \<open>Join\<close>. \<open>path_Join_component\<close> says where a file lies whose name is
  a single component.
\<close>

definition last_element :: "string \<Rightarrow> string" where
  "last_element p = rev (takeWhile (\<lambda>c. c \<noteq> CHR ''/'') (rev p))"

definition path_Base :: "string \<Rightarrow> string" where
  "path_Base p =
     (if p = [] then ''.''
      else let b = last_element (rev (dropWhile (\<lambda>c. c = CHR ''/'') (rev p)))
           in if b = [] then ''/'' else b)"

definition path_Ext :: "string \<Rightarrow> string" where
  "path_Ext p =
     (let e = last_element p in
      if CHR ''.'' \<in> set e then CHR ''.'' # rev (takeWhile (\<lambda>c. c \<noteq> CHR ''.'') (rev e)) else [])"

fun split_slash :: "string \<Rightarrow> string list" where
  "split_slash [] = [[]]"
| "split_slash (c # cs) =
     (if c = CHR ''/'' then [] # split_slash cs
      else case split_slash cs of [] \<Rightarrow> [[c]] | w # ws \<Rightarrow> (c # w) # ws)"

fun join_slash :: "string list \<Rightarrow> string" where
  "join_slash [] = []"
| "join_slash [w] = w"
| "join_slash (w # v # ws) = w @ CHR ''/'' # join_slash (v # ws)"

text \<open>The elements of a cleaned path, built from left to right.\<close>

definition clean_step :: "bool \<Rightarrow> string list \<Rightarrow> string \<Rightarrow> string list" where
  "clean_step rooted out c =
     (if c = [] \<or> c = ''.'' then out
      else if c = ''..'' then
        (if out \<noteq> [] \<and> last out \<noteq> ''..'' then butlast out
         else if rooted then out else out @ [''..''])
      else out @ [c])"

definition path_rooted :: "string \<Rightarrow> bool" where
  "path_rooted p = (case p of [] \<Rightarrow> False | c # _ \<Rightarrow> c = CHR ''/'')"

definition clean_elements :: "string \<Rightarrow> string list" where
  "clean_elements p = foldl (clean_step (path_rooted p)) [] (split_slash p)"

definition path_Clean :: "string \<Rightarrow> string" where
  "path_Clean p =
     (if p = [] then ''.''
      else let s = (if path_rooted p then ''/'' else []) @ join_slash (clean_elements p)
           in if s = [] then ''.'' else s)"

definition path_Join :: "string \<Rightarrow> string \<Rightarrow> string" where
  "path_Join a b =
     (if a \<noteq> [] then path_Clean (a @ CHR ''/'' # b)
      else if b \<noteq> [] then path_Clean b
      else [])"

section \<open>Single components\<close>

definition component :: "string \<Rightarrow> bool" where
  "component x \<longleftrightarrow> CHR ''/'' \<notin> set x \<and> x \<noteq> [] \<and> x \<noteq> ''.'' \<and> x \<noteq> ''..''"

lemma last_element_no_slash [simp]: "CHR ''/'' \<notin> set (last_element p)"
  by (auto simp: last_element_def dest: set_takeWhileD)

lemma path_Base_cases: "CHR ''/'' \<notin> set (path_Base p) \<or> path_Base p = ''/''"
  by (simp add: path_Base_def Let_def)

lemma split_slash_nonempty [simp]: "split_slash s \<noteq> []"
  by (induction s) (auto split: list.splits)

lemma split_slash_plain: "CHR ''/'' \<notin> set x \<Longrightarrow> split_slash x = [x]"
  by (induction x) auto

lemma split_slash_append: "split_slash (a @ CHR ''/'' # b) = split_slash a @ split_slash b"
  by (induction a) (auto split: list.splits)

lemma clean_step_component: "component x \<Longrightarrow> clean_step r out x = out @ [x]"
  by (simp add: component_def clean_step_def)

lemma clean_elements_Join:
  assumes "a \<noteq> []" "component x"
  shows "clean_elements (a @ CHR ''/'' # x) = clean_elements a @ [x]"
proof -
  have "path_rooted (a @ CHR ''/'' # x) = path_rooted a" using assms(1) by (cases a) (simp_all add: path_rooted_def)
  then show ?thesis
    using assms(2) by (simp add: clean_elements_def split_slash_append split_slash_plain clean_step_component component_def)
qed

lemma join_slash_snoc: "join_slash (ws @ [x]) = (if ws = [] then x else join_slash ws @ CHR ''/'' # x)"
  by (induction ws rule: join_slash.induct) auto

lemma clean_step_nonempty: "[] \<notin> set out \<Longrightarrow> [] \<notin> set (clean_step r out c)"
  by (auto simp: clean_step_def dest: in_set_butlastD)

lemma clean_elements_nonempty: "[] \<notin> set (clean_elements p)"
proof -
  have "[] \<notin> set out \<Longrightarrow> [] \<notin> set (foldl (clean_step r) out cs)" for r out cs
    by (induction cs arbitrary: out) (simp_all add: clean_step_nonempty)
  then show ?thesis by (simp add: clean_elements_def)
qed

lemma join_slash_empty: "[] \<notin> set ws \<Longrightarrow> join_slash ws = [] \<longleftrightarrow> ws = []"
  by (induction ws rule: join_slash.induct) auto

text \<open>Joining a directory with one component puts the component directly below the cleaned directory.\<close>

lemma path_Join_component:
  assumes "a \<noteq> []" "component x"
  shows "path_Join a x = (if clean_elements a = [] then (if path_rooted a then ''/'' else []) @ x else path_Clean a @ CHR ''/'' # x)"
proof -
  have r: "path_rooted (a @ CHR ''/'' # x) = path_rooted a" using assms(1) by (cases a) (simp_all add: path_rooted_def)
  have "path_Join a x = (if path_rooted a then ''/'' else []) @ join_slash (clean_elements a @ [x])"
    using assms r clean_elements_Join [OF assms]
    by (simp add: path_Join_def path_Clean_def Let_def join_slash_snoc component_def)
  then show ?thesis
    using assms(1) join_slash_empty [OF clean_elements_nonempty [of a]]
    by (simp add: path_Clean_def Let_def join_slash_snoc)
qed

end
