(* ===== verification/Runtime.thy ===== *)
theory Runtime
  imports Node Go_Path
begin

text \<open>
  \<open>src/core/pkg/runtime/runtime.go\<close>: the messaging engine of one account. Its goroutines (listener, send
  worker, one reader per link, the re-advertiser) and the calls of the app work on one shared state; an
  operation below is what one of them does between two points where it waits, so that \<open>Runtime_Run\<close> can
  interleave them. The send worker's \<open>deliver\<close> is cut at its connection attempts and its back-off, with
  the position in \<open>rt_worker\<close>. Link objects live in \<open>rt_heap\<close>; a \<open>*node.Link\<close> is an index. What the clock,
  the random source, the file system and the MIME table answer during an operation is its \<open>step_env\<close>;
  the transport, the connections and the signaler are the \<open>stack\<close>.
\<close>

record event =
  ev_kind :: string
  ev_peerFP :: string
  ev_peerURI :: string
  ev_text :: string
  ev_name :: string
  ev_path :: string
  ev_msgID :: string
  ev_online :: bool
  ev_detail :: string
  ev_time :: int

record outReq =
  rq_peerURI :: string
  rq_text :: string
  rq_msgID :: string
  rq_filePath :: string

datatype worker =
    Idle
  | Connecting outReq string bytes nat
  | Backoff outReq string bytes nat goerr
  | Sending outReq string nat
  | Exited

datatype listener = AtHead | Waiting | Pausing | Gone

record ('c, 'g) runtime =
  rt_node :: node
  rt_sig :: 'g
  rt_salt :: bytes
  rt_uri :: string
  rt_fp :: string
  rt_filesDir :: string
  rt_links :: "nat gomap"
  rt_lastIn :: "string gomap"
  rt_events :: "event list"
  rt_closed :: bool
  rt_outbox :: "outReq list"
  rt_heap :: "(link \<times> 'c) list"
  rt_worker :: worker
  rt_listener :: listener
  rt_readers :: "nat list"
  rt_files :: "(string \<times> bytes) list"

record ('c, 'g) stack =
  sk_curve :: curve
  sk_sig :: "'g signaler"
  sk_dial :: "string \<Rightarrow> ('g, 'c) go"
  sk_accept :: "('g, 'c) go"
  sk_conn :: "'c conn"

record step_env =
  en_unix :: "nat \<Rightarrow> int"
  en_now :: "nat \<Rightarrow> gotime"
  en_ids :: "nat \<Rightarrow> bytes"
  en_flush :: "nat \<Rightarrow> flush_env"
  en_eph :: draw
  en_ratchet :: draw
  en_recv :: draw
  en_chunks :: "nat \<Rightarrow> draw"
  en_file :: "bytes result"
  en_key :: "bytes result"
  en_fid :: bytes
  en_mkdir :: "unit result"
  en_nano :: int
  en_write :: file_write
  en_mime :: "string \<Rightarrow> string"
  en_tick :: bool

definition RendezvousSalt :: bytes where
  "RendezvousSalt = to_bytes ''stunner/rendezvous/1''"

definition connectAttempts :: nat where
  "connectAttempts = 12"

definition outbox_cap :: nat where
  "outbox_cap = 64"

definition stateNamespace :: string where "stateNamespace = ''app''"
definition stateKey :: string where "stateKey = ''state''"

definition new_event :: "string \<Rightarrow> event" where
  "new_event kind = \<lparr> ev_kind = kind, ev_peerFP = [], ev_peerURI = [], ev_text = [], ev_name = [], ev_path = [],
     ev_msgID = [], ev_online = False, ev_detail = [], ev_time = 0 \<rparr>"

section \<open>The shared state\<close>

definition push :: "int \<Rightarrow> event \<Rightarrow> ('c, 'g) runtime \<Rightarrow> ('c, 'g) runtime" where
  "push now e r = r\<lparr> rt_events := rt_events r @ [e\<lparr> ev_time := now \<rparr>] \<rparr>"

definition isClosed :: "('c, 'g) runtime \<Rightarrow> bool" where
  [simp]: "isClosed r = rt_closed r"

definition rt_MyURI :: "('c, 'g) runtime \<Rightarrow> string" where
  [simp]: "rt_MyURI r = rt_uri r"

definition rt_Fingerprint :: "('c, 'g) runtime \<Rightarrow> string" where
  [simp]: "rt_Fingerprint r = rt_fp r"

definition getLink :: "('c, 'g) runtime \<Rightarrow> string \<Rightarrow> nat option" where
  "getLink r fp = gm_get (rt_links r) fp"

definition setLastInbound :: "string \<Rightarrow> string \<Rightarrow> ('c, 'g) runtime \<Rightarrow> ('c, 'g) runtime" where
  "setLastInbound fp msgID r = r\<lparr> rt_lastIn := gm_put fp msgID (rt_lastIn r) \<rparr>"

definition peerURI :: "link \<Rightarrow> string" where
  "peerURI l = (if length (PeerIdentityKey l) = 0 then [] else contact_URI [] (PeerIdentityKey l))"

definition link_at :: "('c, 'g) runtime \<Rightarrow> nat \<Rightarrow> link" where
  "link_at r p = fst (rt_heap r ! p)"

text \<open>An operation of \<open>node\<close> on the link behind a pointer; a pointer that leads nowhere is a panic.\<close>

definition on_link :: "nat \<Rightarrow> (link \<Rightarrow> ('c world, 'a) go) \<Rightarrow> (('c, 'g) runtime, 'a) go" where
  "on_link p m r =
     (if p < length (rt_heap r)
      then (case m (link_at r p) \<lparr> w_node = rt_node r, w_conn = snd (rt_heap r ! p) \<rparr> of
              None \<Rightarrow> None
            | Some (x, w) \<Rightarrow> Some (x, r\<lparr> rt_node := w_node w, rt_heap := (rt_heap r)[p := (link_at r p, w_conn w)] \<rparr>))
      else None)"

text \<open>Operations on the node and the signaler that give a new link object.\<close>

definition new_object :: "(node \<times> 'g, link \<times> 'c) go \<Rightarrow> (('c, 'g) runtime, nat) go" where
  "new_object m r =
     (case m (rt_node r, rt_sig r) of
        None \<Rightarrow> None
      | Some (Inl e, (n, g)) \<Rightarrow> Some (Inl e, r\<lparr> rt_node := n, rt_sig := g \<rparr>)
      | Some (Inr (l, c), (n, g)) \<Rightarrow>
          Some (Inr (length (rt_heap r)), r\<lparr> rt_node := n, rt_sig := g, rt_heap := rt_heap r @ [(l, c)] \<rparr>))"

definition on_rt_sig :: "('g, 'a) go \<Rightarrow> (('c, 'g) runtime, 'a) go" where
  "on_rt_sig = go_on rt_sig (\<lambda>g r. r\<lparr> rt_sig := g \<rparr>)"

definition rt_Connect :: "('c, 'g) stack \<Rightarrow> step_env \<Rightarrow> bytes \<Rightarrow> (('c, 'g) runtime, nat) go" where
  "rt_Connect sk env key =
     go_read (\<lambda>r. new_object
       (node_Connect (sk_curve sk) (sk_sig sk) (sk_dial sk) (sk_conn sk) key (rt_salt r) (en_eph env) (en_ratchet env)))"

definition rt_Listen :: "('c, 'g) stack \<Rightarrow> (('c, 'g) runtime, nat) go" where
  "rt_Listen sk =
     go_read (\<lambda>r. new_object (node_Listen (sk_curve sk) (sk_sig sk) (sk_accept sk) (sk_conn sk) (rt_salt r)))"

definition close_link :: "('c, 'g) stack \<Rightarrow> nat \<Rightarrow> (('c, 'g) runtime, unit) go" where
  "close_link sk p = go_ignore (on_link p (\<lambda>l. link_Close (sk_conn sk)))"

definition dropLink :: "('c, 'g) stack \<Rightarrow> string \<Rightarrow> nat \<Rightarrow> (('c, 'g) runtime, unit) go" where
  "dropLink sk fp p =
     go_seq (go_put (\<lambda>r. if gm_get (rt_links r) fp = Some p then r\<lparr> rt_links := gm_del fp (rt_links r) \<rparr> else r))
       (close_link sk p)"

text \<open>\<open>adopt\<close> registers the link under the lock, then announces it and starts its reader; here this is one step.\<close>

definition adopt :: "('c, 'g) stack \<Rightarrow> int \<Rightarrow> nat \<Rightarrow> (('c, 'g) runtime, unit) go" where
  "adopt sk now p =
     go_read (\<lambda>r.
       let l = link_at r p; fp = PeerFingerprint l in
       go_seq
         (case gm_get (rt_links r) fp of
            Some old \<Rightarrow> if old \<noteq> p then close_link sk old else go_ret ()
          | None \<Rightarrow> go_ret ())
         (go_put (\<lambda>r. push now ((new_event ''presence'')\<lparr> ev_peerFP := fp, ev_peerURI := peerURI l, ev_online := True \<rparr>)
            (r\<lparr> rt_links := gm_put fp p (rt_links r), rt_readers := rt_readers r @ [p] \<rparr>))))"

section \<open>Calls of the app\<close>

text \<open>\<open>Send\<close> and \<open>SendFile\<close>: the cases of the \<open>select\<close> are room in the outbox and the closed channel.\<close>

definition enqueue :: "bool \<Rightarrow> outReq \<Rightarrow> (('c, 'g) runtime, unit) go" where
  "enqueue pick q r =
     (let room = length (rt_outbox r) < outbox_cap;
          put = Some (Inr (), r\<lparr> rt_outbox := rt_outbox r @ [q] \<rparr>);
          lost = Some (Inr (), r)
      in if rt_closed r \<and> room then (if pick then lost else put)
         else if rt_closed r then lost
         else if room then put
         else None)"

definition rt_Send :: "bool \<Rightarrow> string \<Rightarrow> string \<Rightarrow> string \<Rightarrow> (('c, 'g) runtime, unit) go" where
  "rt_Send pick uri text msgID =
     enqueue pick \<lparr> rq_peerURI = uri, rq_text = text, rq_msgID = msgID, rq_filePath = [] \<rparr>"

definition rt_SendFile :: "bool \<Rightarrow> string \<Rightarrow> string \<Rightarrow> string \<Rightarrow> (('c, 'g) runtime, unit) go" where
  "rt_SendFile pick uri path msgID =
     enqueue pick \<lparr> rq_peerURI = uri, rq_text = [], rq_msgID = msgID, rq_filePath = path \<rparr>"

definition rt_SendTyping :: "('c, 'g) stack \<Rightarrow> step_env \<Rightarrow> string \<Rightarrow> (('c, 'g) runtime, unit) go" where
  "rt_SendTyping sk env uri =
     (case ParseURI uri (en_now env 0) of
        Inl _ \<Rightarrow> go_ret ()
      | Inr c \<Rightarrow>
          let fp = Fingerprint (ct_identityKey c) in
          go_read (\<lambda>r. case getLink r fp of
             None \<Rightarrow> go_ret ()
           | Some p \<Rightarrow> go_ignore (on_link p (\<lambda>l. link_SendTyping (sk_curve sk) (sk_conn sk) l fp (en_ids env 0) (en_now env 1)))))"

definition rt_MarkRead :: "('c, 'g) stack \<Rightarrow> step_env \<Rightarrow> string \<Rightarrow> (('c, 'g) runtime, unit) go" where
  "rt_MarkRead sk env uri =
     (case ParseURI uri (en_now env 0) of
        Inl _ \<Rightarrow> go_ret ()
      | Inr c \<Rightarrow>
          let fp = Fingerprint (ct_identityKey c) in
          go_read (\<lambda>r. case getLink r fp of
             None \<Rightarrow> go_ret ()
           | Some p \<Rightarrow>
               let msgID = (case gm_get (rt_lastIn r) fp of None \<Rightarrow> [] | Some m \<Rightarrow> m) in
               if msgID = [] then go_ret ()
               else go_ignore (on_link p (\<lambda>l. link_SendReceipt (sk_curve sk) (sk_conn sk) l fp msgID StateRead (en_ids env 0) (en_now env 1)))))"

definition rt_Poll :: "('c, 'g) runtime \<Rightarrow> event list \<times> ('c, 'g) runtime" where
  "rt_Poll r = (rt_events r, r\<lparr> rt_events := [] \<rparr>)"

fun close_all :: "('c, 'g) stack \<Rightarrow> nat list \<Rightarrow> (('c, 'g) runtime, unit) go" where
  "close_all sk [] = go_ret ()"
| "close_all sk (p # ps) = go_seq (close_link sk p) (close_all sk ps)"

text \<open>\<open>Stop\<close>. \<open>tr.Close\<close> of the WebRTC transport does nothing.\<close>

definition rt_Stop :: "('c, 'g) stack \<Rightarrow> (('c, 'g) runtime, unit) go" where
  "rt_Stop sk =
     go_read (\<lambda>r.
       if rt_closed r then go_ret ()
       else go_seq (go_put (\<lambda>r. r\<lparr> rt_closed := True, rt_links := [] \<rparr>))
              (go_seq (close_all sk (gm_values (rt_links r)))
                (go_ignore (on_rt_sig (sg_Close (sk_sig sk))))))"

section \<open>Settings and app state\<close>

definition rt_Settings :: "('c, 'g) runtime \<Rightarrow> string" where
  "rt_Settings r =
     (let s = (case nd_store (rt_node r) of
                 None \<Rightarrow> settings_Default
               | Some st \<Rightarrow> (case LoadSettings st of Inr x \<Rightarrow> x | Inl _ \<Rightarrow> settings_Default))
      in case settings_JSON s of Inl _ \<Rightarrow> ''{}'' | Inr b \<Rightarrow> of_bytes b)"

definition set_store :: "fileStore \<Rightarrow> ('c, 'g) runtime \<Rightarrow> ('c, 'g) runtime" where
  "set_store st r = r\<lparr> rt_node := (rt_node r)\<lparr> nd_store := Some st \<rparr> \<rparr>"

definition rt_SetSettings :: "flush_env \<Rightarrow> string \<Rightarrow> ('c, 'g) runtime \<Rightarrow> unit result \<times> ('c, 'g) runtime" where
  "rt_SetSettings fe json r =
     (case nd_store (rt_node r) of
        None \<Rightarrow> (Inr (), r)
      | Some st \<Rightarrow>
          (case settings_FromJSON (to_bytes json) of
             Inl e \<Rightarrow> (Inl e, r)
           | Inr s \<Rightarrow> (case SaveSettings fe st s of (res, st') \<Rightarrow> (res, set_store st' r))))"

definition rt_SaveState :: "flush_env \<Rightarrow> string \<Rightarrow> ('c, 'g) runtime \<Rightarrow> unit result \<times> ('c, 'g) runtime" where
  "rt_SaveState fe json r =
     (case nd_store (rt_node r) of
        None \<Rightarrow> (Inr (), r)
      | Some st \<Rightarrow> (case SaveBlob fe st stateNamespace stateKey (to_bytes json) of (res, st') \<Rightarrow> (res, set_store st' r)))"

definition rt_LoadState :: "('c, 'g) runtime \<Rightarrow> string" where
  "rt_LoadState r =
     (case nd_store (rt_node r) of
        None \<Rightarrow> []
      | Some st \<Rightarrow> (case LoadBlob st stateNamespace stateKey of Inl _ \<Rightarrow> [] | Inr b \<Rightarrow> of_bytes b))"

section \<open>The send worker\<close>

definition mimeOf :: "step_env \<Rightarrow> string \<Rightarrow> string" where
  "mimeOf env name =
     (let t = en_mime env (path_Ext name) in if t \<noteq> [] then t else ''application/octet-stream'')"

definition send_failed :: "int \<Rightarrow> string \<Rightarrow> outReq \<Rightarrow> string \<Rightarrow> ('c, 'g) runtime \<Rightarrow> ('c, 'g) runtime" where
  "send_failed now fp q detail r =
     push now ((new_event ''sendFailed'')\<lparr> ev_peerFP := fp, ev_msgID := rq_msgID q, ev_detail := detail \<rparr>) (r\<lparr> rt_worker := Idle \<rparr>)"

definition send_done :: "int \<Rightarrow> string \<Rightarrow> outReq \<Rightarrow> ('c, 'g) runtime \<Rightarrow> ('c, 'g) runtime" where
  "send_done now fp q r =
     push now ((new_event ''sent'')\<lparr> ev_peerFP := fp, ev_msgID := rq_msgID q \<rparr>) (r\<lparr> rt_worker := Idle \<rparr>)"

text \<open>\<open>deliver\<close> up to its first wait: the contact URI, and a link if there is one already.\<close>

definition deliver_begin :: "step_env \<Rightarrow> outReq \<Rightarrow> ('c, 'g) runtime \<Rightarrow> ('c, 'g) runtime" where
  "deliver_begin env q r =
     (case ParseURI (rq_peerURI q) (en_now env 0) of
        Inl _ \<Rightarrow> send_failed (en_unix env 0) [] q ''invalid contact URI'' r
      | Inr c \<Rightarrow>
          let fp = Fingerprint (ct_identityKey c) in
          (case getLink r fp of
             Some p \<Rightarrow> r\<lparr> rt_worker := Sending q fp p \<rparr>
           | None \<Rightarrow> r\<lparr> rt_worker := Connecting q fp (ct_identityKey c) 0 \<rparr>))"

text \<open>One iteration of the connection loop: a closed runtime makes \<open>deliver\<close> return without an event.\<close>

definition deliver_attempt :: "('c, 'g) stack \<Rightarrow> step_env \<Rightarrow> outReq \<Rightarrow> string \<Rightarrow> bytes \<Rightarrow> nat \<Rightarrow> (('c, 'g) runtime, unit) go" where
  "deliver_attempt sk env q fp key i =
     go_read (\<lambda>r.
       if isClosed r then go_put (\<lambda>r. r\<lparr> rt_worker := Idle \<rparr>)
       else go_either (rt_Connect sk env key)
              (\<lambda>e. go_put (\<lambda>r. r\<lparr> rt_worker := Backoff q fp key i e \<rparr>))
              (\<lambda>p. go_seq (adopt sk (en_unix env 0) p) (go_put (\<lambda>r. r\<lparr> rt_worker := Sending q fp p \<rparr>))))"

text \<open>The wait after a failed attempt: the timer (\<open>en_tick\<close>) or the closed channel ends it. After the last
  attempt the request has failed with the error of that attempt.\<close>

definition deliver_backoff :: "step_env \<Rightarrow> outReq \<Rightarrow> string \<Rightarrow> bytes \<Rightarrow> nat \<Rightarrow> goerr \<Rightarrow> (('c, 'g) runtime, unit) go" where
  "deliver_backoff env q fp key i e =
     go_read (\<lambda>r.
       if en_tick env then
         (if Suc i < connectAttempts then go_put (\<lambda>r. r\<lparr> rt_worker := Connecting q fp key (Suc i) \<rparr>)
          else go_put (send_failed (en_unix env 0) fp q e))
       else if rt_closed r then go_put (\<lambda>r. r\<lparr> rt_worker := Idle \<rparr>)
       else go_block)"

definition with_msgID :: "string \<Rightarrow> envelope \<Rightarrow> envelope" where
  "with_msgID msgID env = (if msgID \<noteq> [] then env\<lparr> e_msgID := msgID \<rparr> else env)"

text \<open>What is sent, the bytes of the file or the text envelope; reading the file can fail.\<close>

definition send_payload :: "step_env \<Rightarrow> outReq \<Rightarrow> string \<Rightarrow> (bytes + envelope) result" where
  "send_payload env q fp =
     (if rq_filePath q \<noteq> [] then rbind (en_file env) (\<lambda>data. Inr (Inl data))
      else rbind (NewText fp (rq_text q) [] (en_ids env 0) (en_now env 0)) (\<lambda>e. Inr (Inr (with_msgID (rq_msgID q) e))))"

definition send_op :: "('c, 'g) stack \<Rightarrow> step_env \<Rightarrow> outReq \<Rightarrow> string \<Rightarrow> bytes + envelope \<Rightarrow> link \<Rightarrow> ('c world, unit) go" where
  "send_op sk env q fp x l =
     (case x of
        Inl data \<Rightarrow>
          let name = path_Base (rq_filePath q) in
          go_bind (link_SendFile (sk_curve sk) (sk_conn sk) l (en_flush env) fp name (mimeOf env name) data
            (en_key env) (en_fid env) (en_ids env) (en_now env)) (\<lambda>_. go_ret ())
      | Inr e \<Rightarrow> link_SendEnvelope (sk_curve sk) (sk_conn sk) l (en_flush env 0) e)"

text \<open>The rest of \<open>deliver\<close>: without a payload only the request fails, a failed send drops the link too.\<close>

definition deliver_send :: "('c, 'g) stack \<Rightarrow> step_env \<Rightarrow> outReq \<Rightarrow> string \<Rightarrow> nat \<Rightarrow> (('c, 'g) runtime, unit) go" where
  "deliver_send sk env q fp p =
     (case send_payload env q fp of
        Inl e \<Rightarrow> go_put (send_failed (en_unix env 0) fp q e)
      | Inr x \<Rightarrow>
          go_either (on_link p (send_op sk env q fp x))
            (\<lambda>e. go_seq (dropLink sk fp p) (go_put (send_failed (en_unix env 0) fp q e)))
            (\<lambda>_. go_put (send_done (en_unix env 0) fp q)))"

text \<open>One step of the worker goroutine; \<open>pickClose\<close> decides its \<open>select\<close> when both cases are ready.\<close>

definition worker_step :: "('c, 'g) stack \<Rightarrow> step_env \<Rightarrow> bool \<Rightarrow> (('c, 'g) runtime, unit) go" where
  "worker_step sk env pickClose =
     go_read (\<lambda>r.
       case rt_worker r of
         Idle \<Rightarrow>
           (if rt_closed r \<and> (pickClose \<or> rt_outbox r = []) then go_put (\<lambda>r. r\<lparr> rt_worker := Exited \<rparr>)
            else case rt_outbox r of
                   [] \<Rightarrow> go_block
                 | q # qs \<Rightarrow> go_put (\<lambda>r. deliver_begin env q (r\<lparr> rt_outbox := qs \<rparr>)))
       | Connecting q fp key i \<Rightarrow> deliver_attempt sk env q fp key i
       | Backoff q fp key i e \<Rightarrow> deliver_backoff env q fp key i e
       | Sending q fp p \<Rightarrow> deliver_send sk env q fp p
       | Exited \<Rightarrow> go_block)"

section \<open>The listener and the re-advertiser\<close>

datatype loop = Continue | Return

text \<open>\<open>listenLoop\<close>: at its head, waiting in \<open>Listen\<close>, pausing after an error, or gone.\<close>

definition listen_step :: "('c, 'g) stack \<Rightarrow> step_env \<Rightarrow> (('c, 'g) runtime, unit) go" where
  "listen_step sk env =
     go_read (\<lambda>r.
       case rt_listener r of
         AtHead \<Rightarrow> go_put (\<lambda>r. r\<lparr> rt_listener := (if isClosed r then Gone else Waiting) \<rparr>)
       | Waiting \<Rightarrow>
           go_either (rt_Listen sk)
             (\<lambda>e. go_put (\<lambda>r.
                if isClosed r then r\<lparr> rt_listener := Gone \<rparr>
                else push (en_unix env 0) ((new_event ''error'')\<lparr> ev_detail := ''listen: '' @ e \<rparr>) (r\<lparr> rt_listener := Pausing \<rparr>)))
             (\<lambda>p. go_seq (adopt sk (en_unix env 0) p) (go_put (\<lambda>r. r\<lparr> rt_listener := AtHead \<rparr>)))
       | Pausing \<Rightarrow>
           (if en_tick env then go_put (\<lambda>r. r\<lparr> rt_listener := AtHead \<rparr>)
            else if rt_closed r then go_put (\<lambda>r. r\<lparr> rt_listener := Gone \<rparr>)
            else go_block)
       | Gone \<Rightarrow> go_block)"

definition readvertise_step :: "('c, 'g) stack \<Rightarrow> bool \<Rightarrow> (('c, 'g) runtime, loop) go" where
  "readvertise_step sk tick =
     go_read (\<lambda>r.
       if tick then
         go_seq (go_ignore (on_rt_sig (sg_Advertise (sk_sig sk)
           (DiscoveryKey (signing_pub (ac_identity (nd_account (rt_node r)))) (rt_salt r))))) (go_ret Continue)
       else if rt_closed r then go_ret Return
       else go_block)"

section \<open>The readers\<close>

definition int_string :: "int \<Rightarrow> string" where
  "int_string i = (if i < 0 then CHR ''-'' # dec_string (nat (- i)) else dec_string (nat i))"

definition file_base :: "string \<Rightarrow> string" where
  "file_base name =
     (let base = path_Base name in if base = ''.'' \<or> base = ''/'' \<or> base = [] then ''file'' else base)"

definition saveFile :: "step_env \<Rightarrow> string \<Rightarrow> bytes \<Rightarrow> ('c, 'g) runtime \<Rightarrow> string result \<times> ('c, 'g) runtime" where
  "saveFile env name data r =
     (case en_mkdir env of
        Inl e \<Rightarrow> (Inl e, r)
      | Inr _ \<Rightarrow>
          let p = path_Join (rt_filesDir r) (int_string (en_nano env) @ CHR ''-'' # file_base name) in
          (case en_write env of
             Some (left, e) \<Rightarrow>
               (Inl e, case left of None \<Rightarrow> r | Some part \<Rightarrow> r\<lparr> rt_files := rt_files r @ [(p, part)] \<rparr>)
           | None \<Rightarrow> (Inr p, r\<lparr> rt_files := rt_files r @ [(p, data)] \<rparr>)))"

definition push_error :: "step_env \<Rightarrow> string \<Rightarrow> goerr \<Rightarrow> ('c, 'g) runtime \<Rightarrow> ('c, 'g) runtime" where
  "push_error env what e r = push (en_unix env 0) ((new_event ''error'')\<lparr> ev_detail := what @ e \<rparr>) r"

definition send_receipt :: "('c, 'g) stack \<Rightarrow> step_env \<Rightarrow> nat \<Rightarrow> string \<Rightarrow> string \<Rightarrow> (('c, 'g) runtime, unit) go" where
  "send_receipt sk env p fp msgID =
     go_ignore (on_link p (\<lambda>l. link_SendReceipt (sk_curve sk) (sk_conn sk) l fp msgID StateDelivered (en_ids env 0) (en_now env 0)))"

definition recv_text :: "('c, 'g) stack \<Rightarrow> step_env \<Rightarrow> nat \<Rightarrow> string \<Rightarrow> string \<Rightarrow> envelope \<Rightarrow> (('c, 'g) runtime, unit) go" where
  "recv_text sk env p fp uri e =
     go_seq (go_put (\<lambda>r. push (en_unix env 0)
        ((new_event ''message'')\<lparr> ev_peerFP := fp, ev_peerURI := uri, ev_msgID := e_msgID e, ev_text := text_of e \<rparr>)
        (setLastInbound fp (e_msgID e) r)))
       (send_receipt sk env p fp (e_msgID e))"

definition recv_file :: "('c, 'g) stack \<Rightarrow> step_env \<Rightarrow> nat \<Rightarrow> string \<Rightarrow> string \<Rightarrow> envelope \<Rightarrow> (('c, 'g) runtime, unit) go" where
  "recv_file sk env p fp uri e =
     (case ParseFileOffer e of
        Inl err \<Rightarrow> go_put (push_error env ''file offer: '' err)
      | Inr off \<Rightarrow>
          go_either (on_link p (\<lambda>l. ReceiveFileBody (sk_curve sk) (sk_conn sk) l (en_chunks env) off))
            (\<lambda>err. go_put (push_error env ''file recv: '' err))
            (\<lambda>data. go_either (go_call (saveFile env (o_name off) data))
               (\<lambda>err. go_put (push_error env ''file save: '' err))
               (\<lambda>path. go_seq
                  (go_put (\<lambda>r. push (en_unix env 0) ((new_event ''file'')\<lparr> ev_peerFP := fp, ev_peerURI := uri, ev_msgID := e_msgID e,
                     ev_name := o_name off, ev_path := path, ev_detail := o_mime off \<rparr>) (setLastInbound fp (e_msgID e) r)))
                  (send_receipt sk env p fp (e_msgID e)))))"

definition handle_envelope :: "('c, 'g) stack \<Rightarrow> step_env \<Rightarrow> nat \<Rightarrow> string \<Rightarrow> string \<Rightarrow> envelope \<Rightarrow> (('c, 'g) runtime, unit) go" where
  "handle_envelope sk env p fp uri e =
     (if e_type e = TypeText then recv_text sk env p fp uri e
      else if e_type e = TypeFileOffer then recv_file sk env p fp uri e
      else if e_type e = TypeTyping then
        go_put (push (en_unix env 0) ((new_event ''typing'')\<lparr> ev_peerFP := fp, ev_peerURI := uri \<rparr>))
      else if e_type e = TypeReceipt then
        (case envelope_Receipt e of
           Inl _ \<Rightarrow> go_ret ()
         | Inr rb \<Rightarrow> go_put (push (en_unix env 0)
             ((new_event ''receipt'')\<lparr> ev_peerFP := fp, ev_msgID := rb_refMsgID rb, ev_detail := rb_state rb \<rparr>)))
      else go_ret ())"

text \<open>One round of \<open>recvLoop\<close> of the reader of the link \<open>p\<close>; an error ends the reader. The round of a file offer takes
  all its chunks. Between two of its \<open>Recv\<close> calls the network may go on filling the queue of the connection: this is
  part of the connection \<open>sk_conn\<close> (\<open>fed_conn\<close> of \<open>Duplex\<close>), not of the round.\<close>

definition recv_step :: "('c, 'g) stack \<Rightarrow> step_env \<Rightarrow> nat \<Rightarrow> (('c, 'g) runtime, loop) go" where
  "recv_step sk env p =
     go_read (\<lambda>r.
       let fp = PeerFingerprint (link_at r p); uri = peerURI (link_at r p) in
       go_either (on_link p (\<lambda>l. link_Receive (sk_curve sk) (sk_conn sk) l (en_recv env)))
         (\<lambda>e. go_seq (dropLink sk fp p)
            (go_seq (go_put (\<lambda>r. push (en_unix env 0) ((new_event ''presence'')\<lparr> ev_peerFP := fp, ev_peerURI := uri \<rparr>)
               (r\<lparr> rt_readers := remove1 p (rt_readers r) \<rparr>))) (go_ret Return)))
         (\<lambda>e. go_seq (handle_envelope sk env p fp uri e) (go_ret Continue)))"

section \<open>Diagnosis\<close>

definition pushDiag :: "int \<Rightarrow> string \<Rightarrow> string \<Rightarrow> bool \<Rightarrow> string \<Rightarrow> ('c, 'g) runtime \<Rightarrow> ('c, 'g) runtime" where
  "pushDiag now uri fp ok detail =
     push now ((new_event ''diagnostic'')\<lparr> ev_peerURI := uri, ev_peerFP := fp, ev_online := ok, ev_detail := detail \<rparr>)"

definition runDiagnose :: "('c, 'g) stack \<Rightarrow> step_env \<Rightarrow> string \<Rightarrow> (('c, 'g) runtime, unit) go" where
  "runDiagnose sk env uri =
     (case ParseURI uri (en_now env 0) of
        Inl _ \<Rightarrow> go_put (pushDiag (en_unix env 0) uri [] False
          (''Invalid contact ID '' @ em_dash @ '' re-add the contact from their shared code.''))
      | Inr c \<Rightarrow>
          let fp = Fingerprint (ct_identityKey c) in
          go_read (\<lambda>r.
            if getLink r fp \<noteq> None then
              go_put (pushDiag (en_unix env 0) uri fp True
                (''Connected '' @ em_dash @ '' a live end-to-end-encrypted link is open.''))
            else
              go_either (on_rt_sig (sg_Find (sk_sig sk) (DiscoveryKey (ct_identityKey c) (rt_salt r))))
                (\<lambda>_. go_put (pushDiag (en_unix env 0) uri fp False
                   (''Not found on the network yet. The peer may be offline, '' @
                    ''may have just come online (discovery records take ~30s to propagate), or their '' @
                    ''network blocks peer discovery. Make sure both devices are online and try again.'')))
                (\<lambda>_. go_either (rt_Connect sk env (ct_identityKey c))
                   (\<lambda>e. go_put (pushDiag (en_unix env 0) uri fp False
                      (''Found the peer but couldn'' @ [CHR 0x27] @ ''t establish a direct connection: '' @
                       e @ ''. This is usually a strict NAT/firewall. Add a TURN server in '' @
                       ''Network settings (and have the peer do the same) to relay the connection.'')))
                   (\<lambda>p. go_seq (adopt sk (en_unix env 0) p)
                      (go_put (pushDiag (en_unix env 1) uri fp True
                        (''Connected '' @ em_dash @ '' direct encrypted link established.'')))))))"

section \<open>Start\<close>

text \<open>\<open>loadOrCreateKey\<close>; the second component is what \<open>key.bin\<close> holds afterwards if it was written to, also by a write that failed.\<close>

definition loadOrCreateKey :: "string \<Rightarrow> unit result \<Rightarrow> file_read \<Rightarrow> bytes result \<Rightarrow> file_write \<Rightarrow> bytes result \<times> bytes option" where
  "loadOrCreateKey dir mkdir rd random write =
     (if dir = [] then (Inl ''runtime: empty data dir'', None)
      else case mkdir of
        Inl e \<Rightarrow> (Inl e, None)
      | Inr _ \<Rightarrow>
          let fresh = (case random of
                 Inl e \<Rightarrow> (Inl e, None)
               | Inr key \<Rightarrow> (case write of Some (left, e) \<Rightarrow> (Inl e, left) | None \<Rightarrow> (Inr key, Some key)))
          in case rd of Content b \<Rightarrow> if length b = KeySize then (Inr b, None) else fresh | _ \<Rightarrow> fresh)"

definition StartWith :: "node \<Rightarrow> 'g \<Rightarrow> string \<Rightarrow> string \<Rightarrow> ('c, 'g) runtime" where
  "StartWith n g handle tmp =
     \<lparr> rt_node = n, rt_sig = g, rt_salt = RendezvousSalt, rt_uri = ContactURI (nd_account n) handle,
       rt_fp = account_Fingerprint (nd_account n),
       rt_filesDir = path_Join (path_Join tmp ''stunner-recv'') (account_Fingerprint (nd_account n)),
       rt_links = [], rt_lastIn = [], rt_events = [], rt_closed = False, rt_outbox = [], rt_heap = [],
       rt_worker = Idle, rt_listener = AtHead, rt_readers = [], rt_files = [] \<rparr>"

text \<open>\<open>Start\<close>: the file system's answers for the key, the account and the store, and the results of building
  the transport from the configured ICE servers and the signaler.\<close>

record start_env =
  sv_mkdir :: "unit result"
  sv_key :: file_read
  sv_random :: "bytes result"
  sv_write :: file_write
  sv_account :: account_env
  sv_storeDir :: "unit result"
  sv_store :: file_read
  sv_transport :: "iceServer list \<Rightarrow> unit result"
  sv_tmp :: string

definition rt_Start :: "curve \<Rightarrow> start_env \<Rightarrow> string \<Rightarrow> string \<Rightarrow> 'g result \<Rightarrow> ('c, 'g) runtime result" where
  "rt_Start cv env dataDir handle dht =
     rbind (fst (loadOrCreateKey dataDir (sv_mkdir env) (sv_key env) (sv_random env) (sv_write env))) (\<lambda>key.
     rbind (fst (LoadOrCreate cv (sv_account env) (path_Join dataDir ''account'') key)) (\<lambda>acc.
     rbind (openFileStore (path_Join dataDir ''store.bin'') key (sv_storeDir env) (sv_store env)) (\<lambda>store.
     let st = (case LoadSettings store of Inr x \<Rightarrow> x | Inl _ \<Rightarrow> zero_settings) in
     rbind (sv_transport env (EffectiveICEServers st)) (\<lambda>_.
     rbind dht (\<lambda>sig.
     Inr ((StartWith (node_New acc (Some store)) sig handle (sv_tmp env))\<lparr> rt_filesDir := path_Join dataDir ''files'' \<rparr>))))))"

end
