(* ===== verification/Runtime_Laws.thy ===== *)
theory Runtime_Laws
  imports Runtime Node_Delivery
begin

text \<open>
  What the operations of \<open>Runtime\<close> do to its state. The locale \<open>step_law\<close> is interpreted for \<open>quiet\<close> (nothing is reported
  about any request), for \<open>frame\<close> (the links, readers and the worker stay as they are) and for \<open>keeps\<close> (the state invariant \<open>rt_ok\<close> is preserved). The worker's own steps \<open>settle\<close> the request they
  hold.
\<close>

section \<open>Operations that report nothing about a request\<close>

definition outcome :: "event \<Rightarrow> bool" where
  "outcome e \<longleftrightarrow> ev_kind e = ''sent'' \<or> ev_kind e = ''sendFailed''"

definition quiet :: "('c, 'g) runtime \<Rightarrow> ('c, 'g) runtime \<Rightarrow> bool" where
  "quiet r r' \<longleftrightarrow> (\<exists>new. rt_events r' = rt_events r @ new \<and> list_all (\<lambda>e. \<not> outcome e) new) \<and>
     rt_outbox r' = rt_outbox r \<and> rt_worker r' = rt_worker r \<and> (rt_closed r \<longrightarrow> rt_closed r')"

interpretation quiet: step_law quiet
proof
  show "quiet r r" for r :: "('c, 'g) runtime" by (simp add: quiet_def)
  show "quiet r t" if "quiet r s" "quiet s t" for r s t :: "('c, 'g) runtime"
    using that by (fastforce simp: quiet_def)
qed

lemma quiet_push: "quiet r r' \<Longrightarrow> \<not> outcome e \<Longrightarrow> quiet r (push now e r')"
  by (auto simp: quiet_def push_def outcome_def)

lemma quiet_update:
  "quiet r r' \<Longrightarrow> quiet r (setLastInbound fp m r')"
  "quiet r r' \<Longrightarrow> quiet r (r'\<lparr> rt_links := ls \<rparr>)" "quiet r r' \<Longrightarrow> quiet r (r'\<lparr> rt_readers := rs \<rparr>)"
  "quiet r r' \<Longrightarrow> quiet r (r'\<lparr> rt_listener := li \<rparr>)" "quiet r r' \<Longrightarrow> quiet r (r'\<lparr> rt_closed := True \<rparr>)"
  by (auto simp: quiet_def setLastInbound_def)

lemma outcome_update [simp]:
  "outcome (e\<lparr> ev_peerFP := a \<rparr>) = outcome e" "outcome (e\<lparr> ev_peerURI := a \<rparr>) = outcome e" "outcome (e\<lparr> ev_text := a \<rparr>) = outcome e"
  "outcome (e\<lparr> ev_name := a \<rparr>) = outcome e" "outcome (e\<lparr> ev_path := a \<rparr>) = outcome e" "outcome (e\<lparr> ev_msgID := a \<rparr>) = outcome e"
  "outcome (e\<lparr> ev_online := b \<rparr>) = outcome e" "outcome (e\<lparr> ev_detail := a \<rparr>) = outcome e" "outcome (e\<lparr> ev_time := t \<rparr>) = outcome e"
  by (simp_all add: outcome_def)

lemma outcome_new [simp]: "outcome (new_event k) \<longleftrightarrow> k = ''sent'' \<or> k = ''sendFailed''"
  by (simp add: outcome_def new_event_def)

lemma on_link_quiet: "quiet.law (on_link p m)"
  by (auto simp: quiet.law_def on_link_def quiet_def split: if_splits option.splits)

lemma new_object_quiet: "quiet.law (new_object m)"
  by (auto simp: quiet.law_def new_object_def quiet_def split: option.splits sum.splits)

lemma on_rt_sig_quiet: "quiet.law (on_rt_sig m)"
  by (auto simp: quiet.law_def on_rt_sig_def go_on_def quiet_def split: option.splits)

lemma saveFile_quiet: "quiet.law (go_call (saveFile env name data))"
  by (rule quiet.law_call) (auto simp: saveFile_def Let_def quiet_def split: sum.splits option.splits)

lemmas quiet_prims = quiet.laws quiet_push quiet_update quiet.R_refl on_link_quiet new_object_quiet on_rt_sig_quiet saveFile_quiet

lemma link_ops_quiet:
  "quiet.law (close_link sk p)" "quiet.law (dropLink sk fp p)" "quiet.law (adopt sk now p)"
  "quiet.law (rt_Connect sk env key)" "quiet.law (rt_Listen sk)" "quiet.law (send_receipt sk env p fp m)"
  unfolding close_link_def dropLink_def adopt_def rt_Connect_def rt_Listen_def send_receipt_def Let_def
  by (intro quiet_prims; simp add: quiet_def)+

lemma close_all_quiet: "quiet.law (close_all sk ps)"
  by (induction ps) (simp_all add: quiet.law_ret quiet.law_seq link_ops_quiet)

lemma handle_envelope_quiet: "quiet.law (handle_envelope sk env p fp uri e)"
  unfolding handle_envelope_def recv_text_def recv_file_def push_error_def
  by (intro quiet_prims link_ops_quiet; simp)

lemma listen_step_quiet: "quiet.law (listen_step sk env)"
  unfolding listen_step_def
  by (rule quiet.law_read, split listener.split, intro conjI impI; intro quiet_prims link_ops_quiet; auto simp: quiet_def push_def)

lemma goroutines_quiet:
  "quiet.law (recv_step sk env p)" "quiet.law (readvertise_step sk tick)"
  "quiet.law (runDiagnose sk env uri)" "quiet.law (rt_SendTyping sk env uri)" "quiet.law (rt_MarkRead sk env uri)" "quiet.law (rt_Stop sk)"
  unfolding recv_step_def readvertise_step_def runDiagnose_def rt_SendTyping_def rt_MarkRead_def rt_Stop_def
    pushDiag_def Let_def
  by (intro quiet_prims link_ops_quiet close_all_quiet handle_envelope_quiet; simp add: quiet_def)+

section \<open>The state invariant\<close>

text \<open>Every registered link is an object of the heap, registered under the fingerprint of its peer, and has a
  running reader; no link has two readers; the worker holds a pointer to an object.\<close>

definition rt_ok :: "('c, 'g) runtime \<Rightarrow> bool" where
  "rt_ok r \<longleftrightarrow> gm_ok (rt_links r) \<and> distinct (rt_readers r) \<and> (\<forall>p \<in> set (rt_readers r). p < length (rt_heap r)) \<and>
     (\<forall>fp p. gm_get (rt_links r) fp = Some p \<longrightarrow> p \<in> set (rt_readers r) \<and> lk_peerFP (link_at r p) = fp) \<and>
     (\<forall>q fp p. rt_worker r = Sending q fp p \<longrightarrow> p < length (rt_heap r))"

definition keeps :: "('c, 'g) runtime \<Rightarrow> ('c, 'g) runtime \<Rightarrow> bool" where
  "keeps r r' \<longleftrightarrow> (rt_ok r \<longrightarrow> rt_ok r')"

interpretation keeps: step_law keeps
  by unfold_locales (auto simp: keeps_def)

text \<open>What only changes the connections, the node or the other fields.\<close>

definition frame :: "('c, 'g) runtime \<Rightarrow> ('c, 'g) runtime \<Rightarrow> bool" where
  "frame r r' \<longleftrightarrow> rt_links r' = rt_links r \<and> rt_readers r' = rt_readers r \<and> rt_worker r' = rt_worker r \<and>
     map fst (rt_heap r') = map fst (rt_heap r)"

interpretation frame: step_law frame
  by unfold_locales (auto simp: frame_def)

lemma frame_heap:
  assumes "frame r r'"
  shows "length (rt_heap r') = length (rt_heap r)" "p < length (rt_heap r) \<Longrightarrow> link_at r' p = link_at r p"
proof -
  have m: "map fst (rt_heap r') = map fst (rt_heap r)" using assms by (simp add: frame_def)
  from map_eq_imp_length_eq [OF m] show l: "length (rt_heap r') = length (rt_heap r)" .
  show "link_at r' p = link_at r p" if "p < length (rt_heap r)"
    using arg_cong [OF m, of "\<lambda>xs. xs ! p"] that l by (simp add: link_at_def)
qed

lemma frame_ok: "frame r r' \<Longrightarrow> rt_ok r \<Longrightarrow> rt_ok r'"
  using frame_heap [of r r'] by (auto simp: rt_ok_def frame_def)

lemma frame_keeps: "frame.law m \<Longrightarrow> keeps.law m"
  by (auto simp: frame.law_def keeps.law_def keeps_def intro: frame_ok)

lemma frame_update:
  "frame r r' \<Longrightarrow> frame r (push now e r')" "frame r r' \<Longrightarrow> frame r (setLastInbound fp m r')"
  "frame r r' \<Longrightarrow> frame r (r'\<lparr> rt_listener := li \<rparr>)" "frame r r' \<Longrightarrow> frame r (r'\<lparr> rt_closed := b \<rparr>)"
  by (auto simp: frame_def setLastInbound_def push_def)

lemma on_link_frame: "frame.law (on_link p m)"
  by (auto simp: frame.law_def on_link_def frame_def link_at_def map_update list_update_id [where xs = "map _ _", symmetric]
      split: if_splits option.splits) (metis list_update_id length_map nth_map)

lemma on_rt_sig_frame: "frame.law (on_rt_sig m)"
  by (auto simp: frame.law_def on_rt_sig_def go_on_def frame_def split: option.splits)

lemma saveFile_frame: "frame.law (go_call (saveFile env name data))"
  by (rule frame.law_call) (auto simp: saveFile_def Let_def frame_def split: sum.splits option.splits)

lemmas frame_prims = frame.laws frame_update frame.R_refl on_link_frame on_rt_sig_frame saveFile_frame

lemma close_link_frame: "frame.law (close_link sk p)" "frame.law (send_receipt sk env p fp m)"
  unfolding close_link_def send_receipt_def by (intro frame_prims)+

lemma close_all_frame: "frame.law (close_all sk ps)"
  by (induction ps) (simp_all add: frame.law_ret frame.law_seq close_link_frame)

lemma calls_frame:
  "frame.law (handle_envelope sk env p fp uri e)" "frame.law (readvertise_step sk tick)"
  "frame.law (rt_SendTyping sk env uri)" "frame.law (rt_MarkRead sk env uri)"
  unfolding handle_envelope_def recv_text_def recv_file_def push_error_def readvertise_step_def rt_SendTyping_def rt_MarkRead_def Let_def
  by (intro frame_prims close_link_frame)+

section \<open>The invariant is kept\<close>

lemma dropLink_ok:
  assumes "rt_ok r" "dropLink sk fp p r = Some (x, r')"
  shows "rt_ok r'" "rt_readers r' = rt_readers r" "rt_worker r' = rt_worker r" "gm_get (rt_links r') fp \<noteq> Some p"
    "gm_get (rt_links r') k = Some q \<Longrightarrow> gm_get (rt_links r) k = Some q" "length (rt_heap r') = length (rt_heap r)"
proof -
  let ?r = "if gm_get (rt_links r) fp = Some p then r\<lparr> rt_links := gm_del fp (rt_links r) \<rparr> else r"
  have g: "gm_ok (rt_links r)" using assms(1) by (simp add: rt_ok_def)
  have ok: "rt_ok ?r" using assms(1) g by (auto simp: rt_ok_def link_at_def)
  have "close_link sk p ?r = Some (x, r')" using assms(2) by (simp add: dropLink_def)
  then have f: "frame ?r r'" by (rule frame.lawD [OF close_link_frame(1)])
  show "rt_ok r'" by (rule frame_ok [OF f ok])
  show "rt_readers r' = rt_readers r" "rt_worker r' = rt_worker r" "length (rt_heap r') = length (rt_heap r)"
    using f frame_heap(1) [OF f] by (simp_all add: frame_def split: if_splits)
  show "gm_get (rt_links r') fp \<noteq> Some p" "gm_get (rt_links r') k = Some q \<Longrightarrow> gm_get (rt_links r) k = Some q"
    using f g by (auto simp: frame_def split: if_splits)
qed

text \<open>Adopting a link object that has no reader yet.\<close>

lemma adopt_ok:
  assumes ok: "rt_ok r" and p: "p < length (rt_heap r)" "p \<notin> set (rt_readers r)" and a: "adopt sk now p r = Some (x, r')"
  shows "rt_ok r' \<and> rt_worker r' = rt_worker r \<and> length (rt_heap r') = length (rt_heap r)"
proof -
  let ?fp = "lk_peerFP (link_at r p)"
  let ?m = "case gm_get (rt_links r) ?fp of Some old \<Rightarrow> if old \<noteq> p then close_link sk old else go_ret () | None \<Rightarrow> go_ret ()"
  have "frame.law ?m" by (auto intro: frame.law_ret close_link_frame split: option.split)
  then have "\<And>y r1. ?m r = Some (y, r1) \<Longrightarrow> frame r r1" by (rule frame.lawD)
  moreover obtain y r1 where m: "?m r = Some (y, r1)" "y = Inr ()"
    using a by (cases "?m r") (auto simp: adopt_def go_read_def Let_def go_seq_def go_bind_def go_ignore_def go_ret_def close_link_def
      split: option.splits if_splits)
  ultimately have f: "frame r r1" by blast
  have r': "rt_links r' = gm_put ?fp p (rt_links r1)" "rt_readers r' = rt_readers r1 @ [p]" "rt_heap r' = rt_heap r1" "rt_worker r' = rt_worker r1"
    using a m by (auto simp: adopt_def go_read_def Let_def go_seq_def go_bind_def go_put_def push_def)
  have ok1: "rt_ok r1" by (rule frame_ok [OF f ok])
  have l: "length (rt_heap r1) = length (rt_heap r)" "link_at r1 p = link_at r p" using frame_heap [OF f] p by simp_all
  have la: "link_at r' q = link_at r1 q" for q using r'(3) by (simp add: link_at_def)
  have "rt_ok r'"
    using ok1 p l r' f la by (auto simp: rt_ok_def frame_def)
  with l r' f show ?thesis by (simp add: frame_def)
qed

lemma new_object_ok:
  assumes "rt_ok r" "new_object m r = Some (x, r')"
  shows "rt_ok r'" "rt_worker r' = rt_worker r" "x = Inr p \<Longrightarrow> p < length (rt_heap r') \<and> p \<notin> set (rt_readers r')"
proof -
  obtain h where h: "rt_heap r' = rt_heap r @ h" "rt_links r' = rt_links r" "rt_readers r' = rt_readers r" "rt_worker r' = rt_worker r"
    "x = Inr p \<Longrightarrow> p = length (rt_heap r) \<and> h \<noteq> []"
    using assms(2) by (cases "m (rt_node r, rt_sig r)") (auto simp: new_object_def split: sum.splits)
  have lt: "\<forall>q \<in> set (rt_readers r). q < length (rt_heap r)" using assms(1) by (simp add: rt_ok_def)
  have "link_at r' q = link_at r q" if "q \<in> set (rt_readers r)" for q
    using that lt h(1) by (simp add: link_at_def nth_append)
  then show "rt_ok r'" using assms(1) h by (fastforce simp: rt_ok_def)
  show "rt_worker r' = rt_worker r" by (rule h(4))
  show "x = Inr p \<Longrightarrow> p < length (rt_heap r') \<and> p \<notin> set (rt_readers r')" using h lt by auto
qed

text \<open>A new object, adopted.\<close>

lemma adopt_new_ok:
  assumes "rt_ok r" "new_object m r = Some (Inr p, r1)" "adopt sk now p r1 = Some (x, r')"
  shows "rt_ok r' \<and> rt_worker r' = rt_worker r \<and> p < length (rt_heap r')"
  using adopt_ok [OF new_object_ok(1) [OF assms(1,2)] _ _ assms(3)] new_object_ok [OF assms(1,2)] by auto

lemma keeps_adopt_new:
  assumes "\<And>e. keeps.law (h e)" "\<And>p. keeps.law (n p)"
  shows "keeps.law (go_either (go_read (\<lambda>r. new_object (m r))) h (\<lambda>p. go_seq (adopt sk now p) (n p)))"
  unfolding keeps.law_def keeps_def
proof (intro allI impI)
  fix r x r' assume ok: "rt_ok r" and run: "go_either (go_read (\<lambda>r. new_object (m r))) h (\<lambda>p. go_seq (adopt sk now p) (n p)) r = Some (x, r')"
  obtain y r1 where o: "new_object (m r) r = Some (y, r1)"
    using run by (cases "new_object (m r) r") (auto simp: go_either_def go_read_def)
  show "rt_ok r'"
  proof (cases y)
    case (Inl e)
    then have "h e r1 = Some (x, r')" using run o by (simp add: go_either_def go_read_def)
    then show ?thesis using keeps.lawD [OF assms(1)] new_object_ok(1) [OF ok o] by (auto simp: keeps_def)
  next
    case (Inr p)
    then have s: "go_seq (adopt sk now p) (n p) r1 = Some (x, r')" using run o by (simp add: go_either_def go_read_def)
    then obtain z r2 where a: "adopt sk now p r1 = Some (z, r2)" by (cases "adopt sk now p r1") (auto simp: go_seq_def go_bind_def)
    have "rt_ok r2" using adopt_new_ok [OF ok _ a] o Inr by simp
    moreover have "r' = r2 \<or> n p r2 = Some (x, r')" using s a by (cases z) (auto simp: go_seq_def go_bind_def)
    ultimately show ?thesis using keeps.lawD [OF assms(2)] by (auto simp: keeps_def)
  qed
qed

lemma keeps_frame_put: "(\<And>r. frame r (f r)) \<Longrightarrow> keeps.law (go_put f)"
  by (intro frame_keeps frame.law_put)

lemma listen_step_keeps: "keeps.law (listen_step sk env)"
  unfolding listen_step_def rt_Listen_def
  by (rule keeps.law_read, split listener.split, intro conjI impI)
     (auto intro!: keeps_adopt_new keeps_frame_put keeps.law_if keeps.law_block simp: frame_def push_def)

lemma runDiagnose_keeps: "keeps.law (runDiagnose sk env uri)"
  unfolding runDiagnose_def rt_Connect_def Let_def pushDiag_def
  by (intro keeps.law_sum keeps.law_read keeps.law_if keeps.law_either [OF frame_keeps [OF on_rt_sig_frame]] keeps_adopt_new
      keeps_frame_put frame_update frame.R_refl)

lemma rt_Stop_keeps: "keeps.law (rt_Stop sk)"
  unfolding rt_Stop_def
  by (intro keeps.law_read keeps.law_if keeps.law_ret keeps.law_seq frame_keeps [OF close_all_frame]
      frame_keeps [OF frame.law_ignore [OF on_rt_sig_frame]] keeps.law_put) (simp add: keeps_def rt_ok_def link_at_def)

lemma recv_step_keeps: "keeps.law (recv_step sk env p)"
  unfolding keeps.law_def keeps_def
proof (intro allI impI)
  fix r x r' assume ok: "rt_ok r" and run: "recv_step sk env p r = Some (x, r')"
  let ?m = "on_link p (\<lambda>l. link_Receive (sk_curve sk) (sk_conn sk) l (en_recv env))" and ?fp = "lk_peerFP (link_at r p)"
  obtain y r1 where m: "?m r = Some (y, r1)"
    using run by (cases "?m r") (auto simp: recv_step_def go_read_def go_either_def Let_def)
  have f: "frame r r1" by (rule frame.lawD [OF on_link_frame m])
  have ok1: "rt_ok r1" by (rule frame_ok [OF f ok])
  have p: "p < length (rt_heap r)" using m by (simp add: on_link_def split: if_splits)
  show "rt_ok r'"
  proof (cases y)
    case (Inr e)
    have "keeps.law (go_seq (handle_envelope sk env p ?fp (peerURI (link_at r p)) e) (go_ret Continue))"
      by (intro keeps.law_seq keeps.law_ret frame_keeps calls_frame)
    then show ?thesis using run m Inr ok1 keeps.lawD
      by (fastforce simp: recv_step_def go_read_def go_either_def Let_def keeps_def)
  next
    case (Inl e)
    obtain z r2 where d: "dropLink sk ?fp p r1 = Some (z, r2)" "z = Inr ()"
      using run m Inl by (cases "dropLink sk ?fp p r1")
        (auto simp: recv_step_def go_read_def go_either_def Let_def go_seq_def go_bind_def dropLink_def close_link_def go_ignore_def go_put_def
          split: option.splits)
    note dr = dropLink_ok [OF ok1 d(1)]
    have r': "rt_links r' = rt_links r2" "rt_heap r' = rt_heap r2" "rt_readers r' = remove1 p (rt_readers r2)" "rt_worker r' = rt_worker r2"
      using run m Inl d by (auto simp: recv_step_def go_read_def go_either_def Let_def go_seq_def go_bind_def go_put_def go_ret_def push_def)
    have "gm_get (rt_links r2) k \<noteq> Some p" for k
    proof
      assume a: "gm_get (rt_links r2) k = Some p"
      then have "lk_peerFP (link_at r1 p) = k" using ok1 dr(5) [OF a] by (simp add: rt_ok_def)
      then show False using a dr(4) frame_heap(2) [OF f p] by simp
    qed
    then show ?thesis using dr(1) r' by (auto simp: rt_ok_def link_at_def)
  qed
qed

section \<open>The worker's account\<close>

fun held :: "worker \<Rightarrow> outReq list" where
  "held (Connecting q fp key i) = [q]"
| "held (Backoff q fp key i e) = [q]"
| "held (Sending q fp p) = [q]"
| "held w = []"

definition in_hand :: "('c, 'g) runtime \<Rightarrow> outReq list" where
  "in_hand r = held (rt_worker r) @ rt_outbox r"

definition n_req :: "string \<Rightarrow> outReq list \<Rightarrow> nat" where
  "n_req m qs = length (filter (\<lambda>q. rq_msgID q = m) qs)"

definition n_out :: "string \<Rightarrow> event list \<Rightarrow> nat" where
  "n_out m es = length (filter (\<lambda>e. outcome e \<and> ev_msgID e = m) es)"

lemma n_simps [simp]:
  "n_req m [] = 0" "n_req m (q # qs) = (if rq_msgID q = m then 1 else 0) + n_req m qs" "n_req m (ps @ qs) = n_req m ps + n_req m qs"
  "n_out m [] = 0" "n_out m (es @ fs) = n_out m es + n_out m fs"
  by (simp_all add: n_req_def n_out_def)

lemma n_out_quiet: "list_all (\<lambda>e. \<not> outcome e) new \<Longrightarrow> n_out m new = 0"
  by (auto simp: n_out_def filter_empty_conv list_all_iff)

text \<open>A step that settles what it takes: of the requests with an id, those in hand before are those in hand
  afterwards and those reported; a closed runtime may drop some.\<close>

definition settles :: "('c, 'g) runtime \<Rightarrow> ('c, 'g) runtime \<Rightarrow> bool" where
  "settles r r' \<longleftrightarrow> (rt_closed r \<longrightarrow> rt_closed r') \<and> (\<exists>new. rt_events r' = rt_events r @ new \<and>
     (\<forall>m. n_out m new + n_req m (in_hand r') \<le> n_req m (in_hand r) \<and>
        (\<not> rt_closed r' \<longrightarrow> n_out m new + n_req m (in_hand r') = n_req m (in_hand r))))"

lemma settlesI:
  assumes "rt_closed r \<Longrightarrow> rt_closed r'" "rt_events r' = rt_events r @ new"
    "\<And>m. n_out m new + n_req m (in_hand r') \<le> n_req m (in_hand r)"
    "\<And>m. \<not> rt_closed r' \<Longrightarrow> n_out m new + n_req m (in_hand r') = n_req m (in_hand r)"
  shows "settles r r'"
  using assms unfolding settles_def by blast

lemma quiet_settles: "quiet r r' \<Longrightarrow> settles r r'"
  by (auto simp: quiet_def settles_def in_hand_def n_out_quiet)

lemma settles_trans:
  assumes "settles r s" "settles s t"
  shows "settles r t"
proof -
  obtain a where a: "rt_events s = rt_events r @ a" "\<And>m. n_out m a + n_req m (in_hand s) \<le> n_req m (in_hand r)"
    "\<And>m. \<not> rt_closed s \<Longrightarrow> n_out m a + n_req m (in_hand s) = n_req m (in_hand r)" and c: "rt_closed r \<Longrightarrow> rt_closed s"
    using assms(1) unfolding settles_def by blast
  obtain b where b: "rt_events t = rt_events s @ b" "\<And>m. n_out m b + n_req m (in_hand t) \<le> n_req m (in_hand s)"
    "\<And>m. \<not> rt_closed t \<Longrightarrow> n_out m b + n_req m (in_hand t) = n_req m (in_hand s)" and d: "rt_closed s \<Longrightarrow> rt_closed t"
    using assms(2) unfolding settles_def by blast
  show ?thesis
  proof (rule settlesI [where new = "a @ b"])
    fix m
    show "n_out m (a @ b) + n_req m (in_hand t) \<le> n_req m (in_hand r)" using a(2) [of m] b(2) [of m] by simp
    show "n_out m (a @ b) + n_req m (in_hand t) = n_req m (in_hand r)" if "\<not> rt_closed t"
      using a(3) [of m] b(3) [of m] that d by (cases "rt_closed s") auto
  qed (use a b c d in auto)
qed

lemma report_settles:
  assumes "held (rt_worker r) = [q]"
  shows "settles r (send_failed now fp q e r)" "settles r (send_done now fp q r)"
  using assms
  by (auto intro!: settlesI simp: send_failed_def send_done_def push_def in_hand_def n_out_def new_event_def outcome_def)

lemma hold_settles: "held w = held (rt_worker r) \<Longrightarrow> settles r (r\<lparr> rt_worker := w \<rparr>)"
  by (rule settlesI [where new = "[]"]) (simp_all add: in_hand_def)

lemma begin_settles:
  assumes "rt_worker r = Idle" "rt_outbox r = q # qs"
  shows "settles r (deliver_begin env q (r\<lparr> rt_outbox := qs \<rparr>))"
proof (cases "ParseURI (rq_peerURI q) (en_now env 0)")
  case (Inl e)
  then show ?thesis using assms
    by (auto intro!: settlesI simp: deliver_begin_def send_failed_def push_def in_hand_def n_out_def new_event_def outcome_def)
next
  case (Inr c)
  then show ?thesis using assms
    by (auto intro!: settlesI [where new = "[]"] simp: deliver_begin_def Let_def in_hand_def split: option.split)
qed

lemma quiet_worker: "quiet r r' \<Longrightarrow> rt_worker r' = rt_worker r"
  by (simp add: quiet_def)

lemma attempt_settles:
  assumes w: "rt_worker r = Connecting q fp key i" and run: "deliver_attempt sk env q fp key i r = Some (x, r')"
  shows "settles r r'"
proof (cases "rt_closed r")
  case True
  then show ?thesis using w run
    by (auto intro!: settlesI [where new = "[]"] simp: deliver_attempt_def go_read_def go_put_def in_hand_def)
next
  case False
  obtain y r1 where c: "rt_Connect sk env key r = Some (y, r1)"
    using run False by (cases "rt_Connect sk env key r") (auto simp: deliver_attempt_def go_read_def go_either_def)
  have q1: "quiet r r1" by (rule quiet.lawD [OF link_ops_quiet(4) c])
  show ?thesis
  proof (cases y)
    case (Inl e)
    then have "r' = r1\<lparr> rt_worker := Backoff q fp key i e \<rparr>"
      using run False c by (simp add: deliver_attempt_def go_read_def go_either_def go_put_def)
    then show ?thesis using settles_trans [OF quiet_settles [OF q1] hold_settles] w quiet_worker [OF q1] by simp
  next
    case (Inr p)
    then have s: "go_seq (adopt sk (en_unix env 0) p) (go_put (\<lambda>r. r\<lparr> rt_worker := Sending q fp p \<rparr>)) r1 = Some (x, r')"
      using run False c by (simp add: deliver_attempt_def go_read_def go_either_def)
    then obtain z r2 where a: "adopt sk (en_unix env 0) p r1 = Some (z, r2)"
      by (cases "adopt sk (en_unix env 0) p r1") (auto simp: go_seq_def go_bind_def)
    have q2: "quiet r r2" using q1 quiet.lawD [OF link_ops_quiet(3) a] quiet.R_trans by blast
    have "r' = r2 \<or> r' = r2\<lparr> rt_worker := Sending q fp p \<rparr>" using s a by (cases z) (auto simp: go_seq_def go_bind_def go_put_def)
    then show ?thesis
      using quiet_settles [OF q2] settles_trans [OF quiet_settles [OF q2] hold_settles] w quiet_worker [OF q2] by auto
  qed
qed

lemma send_settles:
  assumes w: "rt_worker r = Sending q fp p" and run: "deliver_send sk env q fp p r = Some (x, r')"
  shows "settles r r'"
proof (cases "send_payload env q fp")
  case (Inl e)
  then have "r' = send_failed (en_unix env 0) fp q e r" using run by (simp add: deliver_send_def go_put_def)
  then show ?thesis using w by (simp add: report_settles)
next
  case (Inr d)
  obtain y r1 where c: "on_link p (send_op sk env q fp d) r = Some (y, r1)"
    using run Inr by (cases "on_link p (send_op sk env q fp d) r") (auto simp: deliver_send_def go_either_def)
  have q1: "quiet r r1" by (rule quiet.lawD [OF on_link_quiet c])
  show ?thesis
  proof (cases y)
    case (Inr u)
    then have "r' = send_done (en_unix env 0) fp q r1" using run c \<open>_ = Inr d\<close> by (simp add: deliver_send_def go_either_def go_put_def)
    then show ?thesis using settles_trans [OF quiet_settles [OF q1] report_settles(2)] w quiet_worker [OF q1] by simp
  next
    case (Inl e)
    then have s: "go_seq (dropLink sk fp p) (go_put (send_failed (en_unix env 0) fp q e)) r1 = Some (x, r')"
      using run c \<open>_ = Inr d\<close> by (simp add: deliver_send_def go_either_def)
    then obtain z r2 where a: "dropLink sk fp p r1 = Some (z, r2)"
      by (cases "dropLink sk fp p r1") (auto simp: go_seq_def go_bind_def)
    have q2: "quiet r r2" using q1 quiet.lawD [OF link_ops_quiet(2) a] quiet.R_trans by blast
    have "r' = r2 \<or> r' = send_failed (en_unix env 0) fp q e r2" using s a by (cases z) (auto simp: go_seq_def go_bind_def go_put_def)
    then show ?thesis
      using quiet_settles [OF q2] settles_trans [OF quiet_settles [OF q2] report_settles(1)] w quiet_worker [OF q2] by auto
  qed
qed

lemma worker_settles:
  assumes "worker_step sk env pick r = Some (x, r')"
  shows "settles r r'"
proof (cases "rt_worker r")
  case Idle
  show ?thesis
  proof (cases "rt_closed r \<and> (pick \<or> rt_outbox r = [])")
    case True
    then have "r' = r\<lparr> rt_worker := Exited \<rparr>" using assms Idle by (simp add: worker_step_def go_read_def go_put_def)
    then show ?thesis using Idle by (simp add: hold_settles)
  next
    case False
    then obtain q qs where "rt_outbox r = q # qs" "r' = deliver_begin env q (r\<lparr> rt_outbox := qs \<rparr>)"
      using assms Idle by (cases "rt_outbox r") (auto simp: worker_step_def go_read_def go_put_def go_block_def)
    then show ?thesis using begin_settles [OF Idle] by simp
  qed
next
  case (Connecting q fp key i)
  then show ?thesis using assms attempt_settles by (simp add: worker_step_def go_read_def)
next
  case (Backoff q fp key i e)
  then show ?thesis using assms report_settles(1) [of r q] hold_settles
    by (auto simp: worker_step_def go_read_def deliver_backoff_def go_put_def go_block_def in_hand_def
        intro: settlesI [where new = "[]"] split: if_splits)
next
  case (Sending q fp p)
  then show ?thesis using assms send_settles by (simp add: worker_step_def go_read_def)
next
  case Exited
  then show ?thesis using assms by (simp add: worker_step_def go_read_def go_block_def)
qed

section \<open>The worker keeps the invariant\<close>

lemma rt_ok_worker: "rt_ok r \<Longrightarrow> (\<And>q fp p. w = Sending q fp p \<Longrightarrow> p < length (rt_heap r)) \<Longrightarrow> rt_ok (r\<lparr> rt_worker := w \<rparr>)"
  by (auto simp: rt_ok_def link_at_def)

lemma rt_ok_report: "rt_ok r \<Longrightarrow> rt_ok (send_failed now fp q e r)" "rt_ok r \<Longrightarrow> rt_ok (send_done now fp q r)"
  by (auto simp: send_failed_def send_done_def push_def rt_ok_def link_at_def)

lemma begin_keeps:
  assumes "rt_ok r"
  shows "rt_ok (deliver_begin env q (r\<lparr> rt_outbox := qs \<rparr>))"
proof -
  have ok: "rt_ok (r\<lparr> rt_outbox := qs \<rparr>)" using assms by (auto simp: rt_ok_def link_at_def)
  have "p < length (rt_heap r)" if "getLink (r\<lparr> rt_outbox := qs \<rparr>) fp = Some p" for fp p
    using that assms by (auto simp: getLink_def rt_ok_def)
  then show ?thesis
    using ok by (auto simp: deliver_begin_def Let_def rt_ok_report intro!: rt_ok_worker split: sum.split option.split)
qed

lemma attempt_keeps:
  assumes ok: "rt_ok r" and run: "deliver_attempt sk env q fp key i r = Some (x, r')"
  shows "rt_ok r'"
proof (cases "rt_closed r")
  case True
  then show ?thesis using ok run by (auto simp: deliver_attempt_def go_read_def go_put_def intro: rt_ok_worker)
next
  case False
  let ?m = "node_Connect (sk_curve sk) (sk_sig sk) (sk_dial sk) (sk_conn sk) key (rt_salt r) (en_eph env) (en_ratchet env)"
  obtain y r1 where c: "new_object ?m r = Some (y, r1)"
    using run False by (cases "new_object ?m r") (auto simp: deliver_attempt_def go_read_def go_either_def rt_Connect_def)
  note no = new_object_ok [OF ok c]
  show ?thesis
  proof (cases y)
    case (Inl e)
    then show ?thesis
      using run False c no(1) by (auto simp: deliver_attempt_def go_read_def go_either_def go_put_def rt_Connect_def intro: rt_ok_worker)
  next
    case (Inr p)
    then have s: "go_seq (adopt sk (en_unix env 0) p) (go_put (\<lambda>r. r\<lparr> rt_worker := Sending q fp p \<rparr>)) r1 = Some (x, r')"
      using run False c by (simp add: deliver_attempt_def go_read_def go_either_def rt_Connect_def)
    then obtain z r2 where a: "adopt sk (en_unix env 0) p r1 = Some (z, r2)"
      by (cases "adopt sk (en_unix env 0) p r1") (auto simp: go_seq_def go_bind_def)
    have ok2: "rt_ok r2" "p < length (rt_heap r2)" using adopt_new_ok [OF ok _ a] c Inr by auto
    have "r' = r2 \<or> r' = r2\<lparr> rt_worker := Sending q fp p \<rparr>" using s a by (cases z) (auto simp: go_seq_def go_bind_def go_put_def)
    then show ?thesis using ok2 rt_ok_worker by auto
  qed
qed

lemma send_keeps:
  assumes ok: "rt_ok r" and run: "deliver_send sk env q fp p r = Some (x, r')"
  shows "rt_ok r'"
proof (cases "send_payload env q fp")
  case (Inl e)
  then show ?thesis using ok run by (auto simp: deliver_send_def go_put_def rt_ok_report)
next
  case (Inr d)
  have "keeps.law (dropLink sk fp p)" using dropLink_ok(1) by (auto simp: keeps.law_def keeps_def)
  then have "keeps.law (deliver_send sk env q fp p)"
    unfolding deliver_send_def Inr sum.case
    by (intro keeps.law_either frame_keeps [OF on_link_frame] keeps.law_seq keeps.law_put) (simp_all add: keeps_def rt_ok_report)
  then show ?thesis using keeps.lawD ok run unfolding keeps_def by blast
qed

lemma worker_keeps: "keeps.law (worker_step sk env pick)"
  unfolding keeps.law_def keeps_def
proof (intro allI impI)
  fix r x r' assume ok: "rt_ok r" and run: "worker_step sk env pick r = Some (x, r')"
  show "rt_ok r'"
  proof (cases "rt_worker r")
    case Idle
    then show ?thesis using ok run
      by (cases "rt_outbox r")
         (auto simp: worker_step_def go_read_def go_put_def go_block_def begin_keeps intro: rt_ok_worker split: if_splits)
  next
    case (Connecting q fp key i)
    then show ?thesis using ok run attempt_keeps by (simp add: worker_step_def go_read_def)
  next
    case (Backoff q fp key i e)
    then show ?thesis using ok run
      by (auto simp: worker_step_def go_read_def deliver_backoff_def go_put_def go_block_def rt_ok_report intro: rt_ok_worker split: if_splits)
  next
    case (Sending q fp p)
    then show ?thesis using ok run send_keeps by (simp add: worker_step_def go_read_def)
  next
    case Exited
    then show ?thesis using run by (simp add: worker_step_def go_read_def go_block_def)
  qed
qed

end
