(* ===== verification/Runtime_Run.thy ===== *)
theory Runtime_Run
  imports Runtime_Laws
begin

text \<open>
  The engine of \<open>Runtime\<close> as a state machine: every step is one operation of one of its goroutines or one
  call of the app, in any interleaving, with the requests accepted and the events polled as history.
\<close>

section \<open>The engine\<close>

text \<open>The runtime together with the requests its callers handed over and the events they have polled.\<close>

record ('c, 'g) engine =
  eg_rt :: "('c, 'g) runtime"
  eg_accepted :: "outReq list"
  eg_polled :: "event list"

inductive engine_step :: "('c, 'g) engine \<Rightarrow> ('c, 'g) engine \<Rightarrow> bool" where
  send: "enqueue pick q (eg_rt s) = Some (x, r) \<Longrightarrow>
    engine_step s (s\<lparr> eg_rt := r, eg_accepted := (if rt_outbox r = rt_outbox (eg_rt s) then eg_accepted s else eg_accepted s @ [q]) \<rparr>)"
| work: "worker_step sk env pick (eg_rt s) = Some (x, r) \<Longrightarrow> engine_step s (s\<lparr> eg_rt := r \<rparr>)"
| listen: "listen_step sk env (eg_rt s) = Some (x, r) \<Longrightarrow> engine_step s (s\<lparr> eg_rt := r \<rparr>)"
| readvertise: "readvertise_step sk tick (eg_rt s) = Some (y, r) \<Longrightarrow> engine_step s (s\<lparr> eg_rt := r \<rparr>)"
| receive: "p \<in> set (rt_readers (eg_rt s)) \<Longrightarrow> recv_step sk env p (eg_rt s) = Some (y, r) \<Longrightarrow> engine_step s (s\<lparr> eg_rt := r \<rparr>)"
| typing: "rt_SendTyping sk env uri (eg_rt s) = Some (x, r) \<Longrightarrow> engine_step s (s\<lparr> eg_rt := r \<rparr>)"
| mark_read: "rt_MarkRead sk env uri (eg_rt s) = Some (x, r) \<Longrightarrow> engine_step s (s\<lparr> eg_rt := r \<rparr>)"
| diagnose: "runDiagnose sk env uri (eg_rt s) = Some (x, r) \<Longrightarrow> engine_step s (s\<lparr> eg_rt := r \<rparr>)"
| set_settings: "rt_SetSettings fe json (eg_rt s) = (x, r) \<Longrightarrow> engine_step s (s\<lparr> eg_rt := r \<rparr>)"
| save_state: "rt_SaveState fe json (eg_rt s) = (x, r) \<Longrightarrow> engine_step s (s\<lparr> eg_rt := r \<rparr>)"
| poll: "rt_Poll (eg_rt s) = (es, r) \<Longrightarrow> engine_step s (s\<lparr> eg_rt := r, eg_polled := eg_polled s @ es \<rparr>)"
| stop: "rt_Stop sk (eg_rt s) = Some (x, r) \<Longrightarrow> engine_step s (s\<lparr> eg_rt := r \<rparr>)"

definition engine_start :: "node \<Rightarrow> 'g \<Rightarrow> string \<Rightarrow> string \<Rightarrow> ('c, 'g) engine" where
  "engine_start n g handle tmp = \<lparr> eg_rt = StartWith n g handle tmp, eg_accepted = [], eg_polled = [] \<rparr>"

inductive engine_reach :: "('c, 'g) engine \<Rightarrow> ('c, 'g) engine \<Rightarrow> bool" where
  start: "engine_reach s s"
| step: "engine_reach s t \<Longrightarrow> engine_step t u \<Longrightarrow> engine_reach s u"

definition history :: "('c, 'g) engine \<Rightarrow> event list" where
  "history s = eg_polled s @ rt_events (eg_rt s)"

text \<open>The steps other than polling and sending settle what they take, and keep the ghost fields.\<close>

lemma set_store_quiet: "quiet r (set_store st r)" "frame r (set_store st r)"
  by (simp_all add: set_store_def quiet_def frame_def)

lemma settings_quiet:
  "rt_SetSettings fe json r = (x, r') \<Longrightarrow> quiet r r' \<and> frame r r'" "rt_SaveState fe json r = (x, r') \<Longrightarrow> quiet r r' \<and> frame r r'"
  by (auto simp: rt_SetSettings_def rt_SaveState_def set_store_quiet quiet.R_refl frame.R_refl split: option.splits sum.splits prod.splits)

lemma keepsD: "keeps.law m \<Longrightarrow> m r = Some (x, r') \<Longrightarrow> rt_ok r \<Longrightarrow> rt_ok r'"
  using keeps.lawD unfolding keeps_def by blast

lemma enqueue_effect:
  "enqueue pick q r = Some (x, r') \<Longrightarrow> r' = r \<or> r' = r\<lparr> rt_outbox := rt_outbox r @ [q] \<rparr> \<and> length (rt_outbox r) < 64"
  by (auto simp: enqueue_def outbox_cap_def Let_def split: if_splits)

definition accounts :: "('c, 'g) engine \<Rightarrow> bool" where
  "accounts s \<longleftrightarrow> (\<forall>m. n_out m (history s) + n_req m (in_hand (eg_rt s)) \<le> n_req m (eg_accepted s) \<and>
     (\<not> rt_closed (eg_rt s) \<longrightarrow> n_out m (history s) + n_req m (in_hand (eg_rt s)) = n_req m (eg_accepted s)))"

lemma settles_accounts:
  assumes "accounts s" "settles (eg_rt s) r"
  shows "accounts (s\<lparr> eg_rt := r \<rparr>)"
proof -
  obtain new where n: "rt_events r = rt_events (eg_rt s) @ new" "\<And>m. n_out m new + n_req m (in_hand r) \<le> n_req m (in_hand (eg_rt s))"
    "\<And>m. \<not> rt_closed r \<Longrightarrow> n_out m new + n_req m (in_hand r) = n_req m (in_hand (eg_rt s))"
    and c: "rt_closed (eg_rt s) \<Longrightarrow> rt_closed r"
    using assms(2) unfolding settles_def by blast
  have a: "n_out m (history s) + n_req m (in_hand (eg_rt s)) \<le> n_req m (eg_accepted s)"
    "\<not> rt_closed (eg_rt s) \<Longrightarrow> n_out m (history s) + n_req m (in_hand (eg_rt s)) = n_req m (eg_accepted s)" for m
    using assms(1) by (simp_all add: accounts_def)
  have h: "history (s\<lparr> eg_rt := r \<rparr>) = history s @ new" using n(1) by (simp add: history_def)
  have le: "n_out m (history s @ new) + n_req m (in_hand r) \<le> n_req m (eg_accepted s)" for m
    using a(1) [of m] n(2) [of m] by simp
  have eq: "n_out m (history s @ new) + n_req m (in_hand r) = n_req m (eg_accepted s)" if o: "\<not> rt_closed r" for m
  proof -
    have "\<not> rt_closed (eg_rt s)" using o c by blast
    from a(2) [OF this, of m] n(3) [OF o, of m] show ?thesis by simp
  qed
  show ?thesis unfolding accounts_def h using le eq by simp
qed

text \<open>Every step is a send, a poll, or settles what it takes.\<close>

lemma engine_step_cases:
  assumes "engine_step s t"
  obtains (send) pick q x r where "t = s\<lparr> eg_rt := r, eg_accepted := (if rt_outbox r = rt_outbox (eg_rt s) then eg_accepted s else eg_accepted s @ [q]) \<rparr>"
      "enqueue pick q (eg_rt s) = Some (x, r)"
  | (poll) es r where "t = s\<lparr> eg_rt := r, eg_polled := eg_polled s @ es \<rparr>" "rt_Poll (eg_rt s) = (es, r)"
  | (settled) r where "t = s\<lparr> eg_rt := r \<rparr>" "settles (eg_rt s) r"
  using assms
proof cases
  case (work sk env pick x r)
  from that(3) [OF work(1) worker_settles [OF work(2)]] show ?thesis .
next
  case (listen sk env x r)
  from that(3) [OF listen(1) quiet_settles [OF quiet.lawD [OF listen_step_quiet listen(2)]]] show ?thesis .
next
  case (readvertise sk tick y r)
  from that(3) [OF readvertise(1) quiet_settles [OF quiet.lawD [OF goroutines_quiet(2) readvertise(2)]]] show ?thesis .
next
  case (receive p sk env y r)
  from that(3) [OF receive(1) quiet_settles [OF quiet.lawD [OF goroutines_quiet(1) receive(3)]]] show ?thesis .
next
  case (typing sk env uri x r)
  from that(3) [OF typing(1) quiet_settles [OF quiet.lawD [OF goroutines_quiet(4) typing(2)]]] show ?thesis .
next
  case (mark_read sk env uri x r)
  from that(3) [OF mark_read(1) quiet_settles [OF quiet.lawD [OF goroutines_quiet(5) mark_read(2)]]] show ?thesis .
next
  case (diagnose sk env uri x r)
  from that(3) [OF diagnose(1) quiet_settles [OF quiet.lawD [OF goroutines_quiet(3) diagnose(2)]]] show ?thesis .
next
  case (set_settings fe json x r)
  from that(3) [OF set_settings(1) quiet_settles [OF conjunct1 [OF settings_quiet(1) [OF set_settings(2)]]]] show ?thesis .
next
  case (save_state fe json x r)
  from that(3) [OF save_state(1) quiet_settles [OF conjunct1 [OF settings_quiet(2) [OF save_state(2)]]]] show ?thesis .
next
  case (stop sk x r)
  from that(3) [OF stop(1) quiet_settles [OF quiet.lawD [OF goroutines_quiet(6) stop(2)]]] show ?thesis .
qed (use that(1,2) in blast)+

lemma engine_step_accounts:
  assumes "engine_step s t" "accounts s"
  shows "accounts t"
  using assms(1)
proof (cases rule: engine_step_cases)
  case (send pick q x r)
  then show ?thesis using assms(2) enqueue_effect [OF send(2)]
    by (auto simp: accounts_def history_def in_hand_def)
next
  case (poll es r)
  then show ?thesis using assms(2) by (auto simp: accounts_def history_def rt_Poll_def in_hand_def)
next
  case (settled r)
  from settles_accounts [OF assms(2) settled(2)] show ?thesis unfolding settled(1) .
qed

lemma engine_step_ok:
  assumes "engine_step s t" "rt_ok (eg_rt s)"
  shows "rt_ok (eg_rt t)"
  using assms(1)
proof cases
  case (send pick q x r)
  then show ?thesis using assms(2) enqueue_effect [OF send(2)] by (auto simp: rt_ok_def link_at_def)
next
  case (poll es r)
  then show ?thesis using assms(2) by (auto simp: rt_Poll_def rt_ok_def link_at_def)
next
  case (work sk env pick x r)
  from keepsD [OF worker_keeps work(2) assms(2)] show ?thesis unfolding work(1) by simp
next
  case (listen sk env x r)
  from keepsD [OF listen_step_keeps listen(2) assms(2)] show ?thesis unfolding listen(1) by simp
next
  case (readvertise sk tick y r)
  from keepsD [OF frame_keeps [OF calls_frame(2)] readvertise(2) assms(2)] show ?thesis unfolding readvertise(1) by simp
next
  case (receive p sk env y r)
  from keepsD [OF recv_step_keeps receive(3) assms(2)] show ?thesis unfolding receive(1) by simp
next
  case (typing sk env uri x r)
  from keepsD [OF frame_keeps [OF calls_frame(3)] typing(2) assms(2)] show ?thesis unfolding typing(1) by simp
next
  case (mark_read sk env uri x r)
  from keepsD [OF frame_keeps [OF calls_frame(4)] mark_read(2) assms(2)] show ?thesis unfolding mark_read(1) by simp
next
  case (diagnose sk env uri x r)
  from keepsD [OF runDiagnose_keeps diagnose(2) assms(2)] show ?thesis unfolding diagnose(1) by simp
next
  case (set_settings fe json x r)
  from frame_ok [OF conjunct2 [OF settings_quiet(1) [OF set_settings(2)]] assms(2)] show ?thesis unfolding set_settings(1) by simp
next
  case (save_state fe json x r)
  from frame_ok [OF conjunct2 [OF settings_quiet(2) [OF save_state(2)]] assms(2)] show ?thesis unfolding save_state(1) by simp
next
  case (stop sk x r)
  from keepsD [OF rt_Stop_keeps stop(2) assms(2)] show ?thesis unfolding stop(1) by simp
qed

lemma engine_reach_inv: "engine_reach s t \<Longrightarrow> accounts s \<Longrightarrow> rt_ok (eg_rt s) \<Longrightarrow> accounts t \<and> rt_ok (eg_rt t)"
  by (induction rule: engine_reach.induct) (blast intro: engine_step_accounts engine_step_ok)+

lemma engine_start_inv: "accounts (engine_start n g handle tmp)" "rt_ok (eg_rt (engine_start n g handle tmp))"
  by (simp_all add: accounts_def engine_start_def StartWith_def history_def in_hand_def rt_ok_def)

section \<open>The life of one request in the worker\<close>

text \<open>Steps the worker can still need for the request it holds, and connection attempts it can still make.\<close>

fun steps_left :: "worker \<Rightarrow> nat" where
  "steps_left (Connecting q fp key i) = 2 * (connectAttempts - i) + 2"
| "steps_left (Backoff q fp key i e) = 2 * (connectAttempts - i) + 1"
| "steps_left (Sending q fp p) = 1"
| "steps_left w = 0"

fun attempts_left :: "worker \<Rightarrow> nat" where
  "attempts_left (Connecting q fp key i) = connectAttempts - i"
| "attempts_left (Backoff q fp key i e) = connectAttempts - Suc i"
| "attempts_left w = 0"

definition connecting :: "worker \<Rightarrow> bool" where
  "connecting w \<longleftrightarrow> (case w of Connecting q fp key i \<Rightarrow> True | _ \<Rightarrow> False)"

definition worker_ok :: "worker \<Rightarrow> bool" where
  "worker_ok w \<longleftrightarrow> (case w of Connecting q fp key i \<Rightarrow> i < connectAttempts | Backoff q fp key i e \<Rightarrow> i < connectAttempts | _ \<Rightarrow> True)"

lemma adopt_Inr: "adopt sk now p r = Some (x, r') \<Longrightarrow> x = Inr ()"
  by (auto simp: adopt_def go_read_def Let_def go_seq_def go_bind_def go_ignore_def close_link_def go_put_def go_ret_def
      split: option.splits if_splits sum.splits)

lemma dropLink_Inr: "dropLink sk fp p r = Some (x, r') \<Longrightarrow> x = Inr ()"
  by (auto simp: dropLink_def close_link_def go_ignore_def split: option.splits)

lemma after_attempt:
  assumes w: "rt_worker r = Connecting q fp key i" and run: "deliver_attempt sk env q fp key i r = Some (x, r')"
  shows "rt_worker r' = Idle \<or> (\<exists>e. rt_worker r' = Backoff q fp key i e) \<or> (\<exists>p. rt_worker r' = Sending q fp p)"
proof (cases "rt_closed r")
  case False
  then obtain y r1 where c: "rt_Connect sk env key r = Some (y, r1)"
    using run by (cases "rt_Connect sk env key r") (auto simp: deliver_attempt_def go_read_def go_either_def)
  show ?thesis
  proof (cases y)
    case (Inr p)
    then obtain z r2 where a: "adopt sk (en_unix env 0) p r1 = Some (z, r2)"
      using run False c by (cases "adopt sk (en_unix env 0) p r1") (auto simp: deliver_attempt_def go_read_def go_either_def go_seq_def go_bind_def)
    show ?thesis using run False c a adopt_Inr [OF a] Inr
      by (auto simp: deliver_attempt_def go_read_def go_either_def go_seq_def go_bind_def go_put_def)
  qed (use run False c in \<open>auto simp: deliver_attempt_def go_read_def go_either_def go_put_def\<close>)
qed (use run in \<open>auto simp: deliver_attempt_def go_read_def go_put_def\<close>)

lemma report_idle [simp]: "rt_worker (send_failed now fp q e r) = Idle" "rt_worker (send_done now fp q r) = Idle"
  by (simp_all add: send_failed_def send_done_def push_def)

lemma after_send_step:
  assumes run: "deliver_send sk env q fp p r = Some (x, r')"
  shows "rt_worker r' = Idle"
proof (cases "send_payload env q fp")
  case (Inr d)
  then obtain y r1 where c: "on_link p (send_op sk env q fp d) r = Some (y, r1)"
    using run by (cases "on_link p (send_op sk env q fp d) r") (auto simp: deliver_send_def go_either_def)
  show ?thesis
  proof (cases y)
    case (Inl e)
    then obtain z r2 where a: "dropLink sk fp p r1 = Some (z, r2)"
      using run c \<open>_ = Inr d\<close> by (cases "dropLink sk fp p r1") (auto simp: deliver_send_def go_either_def go_seq_def go_bind_def)
    show ?thesis using run c a dropLink_Inr [OF a] Inl \<open>_ = Inr d\<close>
      by (auto simp: deliver_send_def go_either_def go_seq_def go_bind_def go_put_def)
  qed (use run c \<open>_ = Inr d\<close> in \<open>auto simp: deliver_send_def go_either_def go_put_def\<close>)
qed (use run in \<open>auto simp: deliver_send_def go_put_def\<close>)

lemma worker_progress:
  assumes run: "worker_step sk env pick r = Some (x, r')" and busy: "held (rt_worker r) \<noteq> []" and ok: "worker_ok (rt_worker r)"
  shows "worker_ok (rt_worker r') \<and> steps_left (rt_worker r') < steps_left (rt_worker r) \<and>
    attempts_left (rt_worker r') + (if connecting (rt_worker r) then 1 else 0) \<le> attempts_left (rt_worker r)"
proof (cases "rt_worker r")
  case (Connecting q fp key i)
  then have "deliver_attempt sk env q fp key i r = Some (x, r')" using run by (simp add: worker_step_def go_read_def)
  from after_attempt [OF Connecting this] show ?thesis using Connecting ok by (auto simp: worker_ok_def connecting_def)
next
  case (Backoff q fp key i e)
  then have "deliver_backoff env q fp key i e r = Some (x, r')" using run by (simp add: worker_step_def go_read_def)
  then show ?thesis using Backoff ok
    by (auto simp: deliver_backoff_def go_read_def go_put_def go_block_def worker_ok_def connecting_def split: if_splits)
next
  case (Sending q fp p)
  then have "deliver_send sk env q fp p r = Some (x, r')" using run by (simp add: worker_step_def go_read_def)
  from after_send_step [OF this] show ?thesis using Sending by (simp add: worker_ok_def connecting_def)
qed (use busy in simp_all)

section \<open>Properties\<close>

definition toy_stack :: "(pionConn, fabric) stack" where
  "toy_stack = \<lparr> sk_curve = toy_curve, sk_sig = mem_signaler ''a'', sk_dial = (\<lambda>_. go_err ''dial''), sk_accept = go_err ''accept'',
     sk_conn = pion_conn (Inr ()) (Inr ()) \<rparr>"

definition toy_step_env :: step_env where
  "toy_step_env = \<lparr> en_unix = (\<lambda>_. 1), en_now = (\<lambda>_. zero_time), en_ids = (\<lambda>_. [1]), en_flush = (\<lambda>_. toy_env), en_eph = Inr (replicate 32 5),
     en_ratchet = Inr (replicate 32 6), en_recv = Inr (replicate 32 77), en_chunks = (\<lambda>_. Inr (replicate 32 78)), en_file = Inr [1],
     en_key = Inr (replicate 32 7), en_fid = [1], en_mkdir = Inr (), en_nano = 5, en_write = None, en_mime = (\<lambda>_. []), en_tick = True \<rparr>"

definition toy_engine :: "(pionConn, fabric) engine" where
  "toy_engine = engine_start (toy_node 1) \<lparr> fb_reg = NewRegistry, fb_last = (\<lambda>_. []) \<rparr> ''a'' ''/tmp''"

definition toy_request :: outReq where
  "toy_request = \<lparr> rq_peerURI = ''x'', rq_text = ''hi'', rq_msgID = ''m'', rq_filePath = [] \<rparr>"

lemma toy_run:
  obtains s where "engine_reach toy_engine s" "eg_accepted s = [toy_request]" "in_hand (eg_rt s) = []" "\<not> rt_closed (eg_rt s)"
proof -
  let ?r = "eg_rt toy_engine"
  let ?r1 = "?r\<lparr> rt_outbox := [toy_request] \<rparr>" and ?r2 = "send_failed 1 [] toy_request ''invalid contact URI'' ?r"
  let ?s1 = "toy_engine\<lparr> eg_rt := ?r1, eg_accepted := [toy_request] \<rparr>"
  have e: "enqueue True toy_request ?r = Some (Inr (), ?r1)"
    by (simp add: toy_engine_def engine_start_def StartWith_def enqueue_def outbox_cap_def)
  have s1: "engine_step toy_engine ?s1"
    using engine_step.send [OF e] by (simp add: toy_engine_def engine_start_def StartWith_def)
  have bad: "ParseURI ''x'' zero_time = Inl ''contact: not a stunner contact URI''"
    by (simp add: ParseURI_def cut_def has_ctl_def url_parts_def get_scheme_def)
  have "worker_step toy_stack toy_step_env False ?r1 = Some (Inr (), ?r2)"
    using bad by (simp add: toy_engine_def engine_start_def StartWith_def worker_step_def go_read_def go_put_def deliver_begin_def
        toy_request_def toy_step_env_def send_failed_def push_def)
  then have s2: "engine_step ?s1 (?s1\<lparr> eg_rt := ?r2 \<rparr>)" by (intro engine_step.work) simp
  have "engine_reach toy_engine (?s1\<lparr> eg_rt := ?r2 \<rparr>)"
    by (rule engine_reach.step [OF engine_reach.step [OF engine_reach.start s1] s2])
  then show ?thesis
    by (rule that) (simp_all add: toy_engine_def engine_start_def StartWith_def send_failed_def push_def in_hand_def)
qed

text \<open>C4. Every request is accounted for. In every state the engine can reach, under any interleaving of its
  goroutines and the app's calls: for each message id, the outcome events (\<open>sent\<close> or \<open>sendFailed\<close>) ever
  reported plus the requests still queued or being worked on are at most the requests accepted from the
  app, and exactly as many as long as the runtime has not been stopped. So no request is reported twice,
  and none is lost silently by a running engine.\<close>

theorem requests_accounted:
  assumes "engine_reach (engine_start n g handle tmp) s"
  shows "n_out m (history s) + n_req m (in_hand (eg_rt s)) \<le> n_req m (eg_accepted s) \<and>
    (\<not> rt_closed (eg_rt s) \<longrightarrow> n_out m (history s) + n_req m (in_hand (eg_rt s)) = n_req m (eg_accepted s))"
  using engine_reach_inv [OF assms engine_start_inv] by (simp add: accounts_def)

theorem requests_accounted_witness:
  "\<exists>s. engine_reach toy_engine s \<and> eg_accepted s = [toy_request] \<and> in_hand (eg_rt s) = [] \<and> n_out ''m'' (history s) = 1"
proof -
  obtain s where s: "engine_reach toy_engine s" "eg_accepted s = [toy_request]" "in_hand (eg_rt s) = []" "\<not> rt_closed (eg_rt s)"
    by (rule toy_run)
  have "n_out ''m'' (history s) = 1"
    using requests_accounted [of "toy_node 1" _ "''a''" "''/tmp''" s "''m''"] s by (simp add: toy_engine_def toy_request_def)
  with s show ?thesis by blast
qed

text \<open>C19. The registered links are well formed in every state the engine can reach: each is an existing link
  object, registered under the fingerprint of its own peer, with a running reader; no link is read by
  two readers, and the worker never holds a dangling link.\<close>

theorem registered_links_live:
  assumes "engine_reach (engine_start n g handle tmp) s"
  shows "(\<forall>fp p. getLink (eg_rt s) fp = Some p \<longrightarrow> p < length (rt_heap (eg_rt s)) \<and> lk_peerFP (link_at (eg_rt s) p) = fp \<and> p \<in> set (rt_readers (eg_rt s))) \<and>
    distinct (rt_readers (eg_rt s)) \<and> (\<forall>q fp p. rt_worker (eg_rt s) = Sending q fp p \<longrightarrow> p < length (rt_heap (eg_rt s)))"
  using engine_reach_inv [OF assms engine_start_inv] by (auto simp: rt_ok_def getLink_def)

theorem registered_links_live_witness:
  "\<exists>s. engine_reach toy_engine s \<and> eg_accepted s = [toy_request] \<and> distinct (rt_readers (eg_rt s))"
proof -
  obtain s where s: "engine_reach toy_engine s" "eg_accepted s = [toy_request]" by (rule toy_run)
  from registered_links_live [OF s(1) [unfolded toy_engine_def]] s show ?thesis by blast
qed

text \<open>C11. A request occupies the worker for a bounded time: however the other goroutines interleave with its
  steps (they do not touch the worker's position), it leaves the worker after at most 26 steps of the
  worker, and makes at most 12 connection attempts.\<close>

theorem delivery_terminates:
  fixes st :: "nat \<Rightarrow> ('c, 'g) runtime"
  assumes start: "rt_worker (st 0) = Connecting q fp key 0"
    and other: "\<And>i. i < n \<Longrightarrow> rt_worker (mid i) = rt_worker (st i)"
    and step: "\<And>i. i < n \<Longrightarrow> \<exists>x. worker_step (sk i) (env i) (pick i) (mid i) = Some (x, st (Suc i))"
    and busy: "\<And>i. i < n \<Longrightarrow> held (rt_worker (st i)) \<noteq> []"
  shows "n \<le> 26 \<and> card {i. i < n \<and> connecting (rt_worker (st i))} \<le> 12"
proof -
  let ?C = "\<lambda>k. {i. i < k \<and> connecting (rt_worker (st i))}"
  have "worker_ok (rt_worker (st k)) \<and> steps_left (rt_worker (st k)) + k \<le> 26 \<and> attempts_left (rt_worker (st k)) + card (?C k) \<le> 12"
    if "k \<le> n" for k
    using that
  proof (induction k)
    case 0
    then show ?case using start by (simp add: worker_ok_def connectAttempts_def)
  next
    case (Suc k)
    then have k: "k < n" by simp
    obtain x where x: "worker_step (sk k) (env k) (pick k) (mid k) = Some (x, st (Suc k))" using step [OF k] by blast
    have C: "?C (Suc k) = (if connecting (rt_worker (st k)) then insert k (?C k) else ?C k)" by (auto simp: less_Suc_eq)
    have "card (?C (Suc k)) = card (?C k) + (if connecting (rt_worker (st k)) then 1 else 0)" unfolding C by simp
    then show ?case
      using worker_progress [OF x] busy [OF k] other [OF k] Suc k by auto
  qed
  from this [OF order_refl] show ?thesis by simp
qed

text \<open>The longest run: nobody advertises the peer, so all attempts fail.\<close>

definition toy_worker :: "nat \<Rightarrow> worker" where
  "toy_worker i = (if even i then Connecting toy_request ''f'' [1] (i div 2) else Backoff toy_request ''f'' [1] (i div 2) ErrNotImplemented)"

definition toy_failing :: "nat \<Rightarrow> (pionConn, fabric) runtime" where
  "toy_failing i = (eg_rt toy_engine)\<lparr> rt_worker := toy_worker i \<rparr>"

lemma toy_failing_step:
  assumes "i < 23"
  shows "worker_step toy_stack toy_step_env False (toy_failing i) = Some (Inr (), toy_failing (Suc i))"
proof (cases "even i")
  case True
  then have w: "rt_worker (toy_failing i) = Connecting toy_request ''f'' [1] (i div 2)" by (simp add: toy_failing_def toy_worker_def)
  show ?thesis unfolding worker_step_def go_read_def w
    using True by (simp add: deliver_attempt_def go_read_def go_either_def go_put_def rt_Connect_def new_object_def node_Connect_def
        go_bind_def on_snd_def go_on_def toy_stack_def mem_signaler_def mem_Find_def toy_failing_def toy_worker_def toy_engine_def
        engine_start_def StartWith_def NewRegistry_def)
next
  case False
  then have w: "rt_worker (toy_failing i) = Backoff toy_request ''f'' [1] (i div 2) ErrNotImplemented" by (simp add: toy_failing_def toy_worker_def)
  have "Suc (i div 2) < 12" "Suc i div 2 = Suc (i div 2)" using assms False by presburger+
  then show ?thesis unfolding worker_step_def go_read_def w
    using False by (simp add: deliver_backoff_def go_read_def go_put_def toy_step_env_def connectAttempts_def toy_failing_def toy_worker_def)
qed

theorem delivery_terminates_witness:
  "card {i. i < 23 \<and> connecting (rt_worker (toy_failing i))} \<le> 12 \<and>
   map (\<lambda>i. worker_step toy_stack toy_step_env False (toy_failing i)) [0..<23] = map (\<lambda>i. Some (Inr (), toy_failing (Suc i))) [0..<23]"
proof -
  have h: "held (rt_worker (toy_failing i)) \<noteq> []" for i by (simp add: toy_failing_def toy_worker_def)
  have z: "rt_worker (toy_failing 0) = Connecting toy_request ''f'' [1] 0" by (simp add: toy_failing_def toy_worker_def)
  from delivery_terminates [where st = toy_failing and n = 23 and mid = toy_failing and sk = "\<lambda>_. toy_stack" and
      env = "\<lambda>_. toy_step_env" and pick = "\<lambda>_. False", OF z] toy_failing_step h
  have "card {i. i < 23 \<and> connecting (rt_worker (toy_failing i))} \<le> 12" by blast
  then show ?thesis using toy_failing_step by (simp del: upt_Suc upt_rec_numeral)
qed

end
