(* ===== verification/Node_Transfer.thy ===== *)
theory Node_Transfer
  imports Node_Delivery
begin

text \<open>
  Files between nodes. A file is sent as one offer and its chunks over an established link; the client
  lemmas are proved once for every connection that keeps the laws of \<open>conn_flow\<close>.
\<close>

section \<open>Fresh ratchet keys for a sequence of receives\<close>

definition fresh_from :: "curve \<Rightarrow> bytes set \<Rightarrow> (nat \<Rightarrow> bytes) \<Rightarrow> nat \<Rightarrow> nat \<Rightarrow> bool" where
  "fresh_from cv used k i m \<longleftrightarrow>
     (\<forall>j \<in> {i..<m}. length (k j) = 32 \<and> x25519_base cv (k j) \<notin> used \<and>
        (\<forall>j' \<in> {i..<m}. x25519_base cv (k j) = x25519_base cv (k j') \<longrightarrow> j = j'))"

lemma fresh_from_now: "fresh_from cv used k i m \<Longrightarrow> i < m \<Longrightarrow> length (k i) = 32 \<and> x25519_base cv (k i) \<notin> used"
  by (simp add: fresh_from_def)

lemma fresh_from_next:
  assumes "fresh_from cv used k i m"
  shows "fresh_from cv (insert (x25519_base cv (k i)) used) k (Suc i) m"
  unfolding fresh_from_def
proof (intro ballI conjI impI)
  fix j assume j: "j \<in> {Suc i..<m}"
  then have ij: "j \<in> {i..<m}" "i \<in> {i..<m}" "j \<noteq> i" by auto
  show "length (k j) = 32" using assms ij by (simp add: fresh_from_def)
  show "x25519_base cv (k j) \<notin> insert (x25519_base cv (k i)) used" using assms ij unfolding fresh_from_def by blast
  show "j = j'" if "j' \<in> {Suc i..<m}" "x25519_base cv (k j) = x25519_base cv (k j')" for j'
    using assms ij that unfolding fresh_from_def by force
qed

lemma fresh_from_shift: "fresh_from cv used k (Suc i) (Suc m) \<Longrightarrow> fresh_from cv used (\<lambda>j. k (Suc j)) i m"
  unfolding fresh_from_def by (simp add: Ball_def) (metis Suc_inject Suc_le_mono not_less_eq)

section \<open>The JSON of offers and chunks\<close>

lemma chunk_roundtrip:
  "utf8_valid (c_fileID c) \<Longrightarrow> decode_json (json_into chunk_fields) (marshal (chunk_json c)) zero_chunk = Inr c"
  by (intro decode_json_marshal)
     (simp_all add: chunk_json_def chunk_fields_def zero_chunk_def decoder_simps utf8_valid_ascii)

lemma offer_roundtrip:
  assumes "utf8_valid (o_fileID f)" "utf8_valid (o_name f)" "utf8_valid (o_mime f)"
  shows "decode_json (json_into offer_fields) (marshal (offer_json f)) zero_offer = Inr f"
  using assms
  by (intro decode_json_marshal)
     (simp_all add: offer_json_def offer_fields_def zero_offer_def decoder_simps utf8_valid_ascii)

lemma newFileID_ascii: "utf8_valid (newFileID b)"
proof -
  have d: "hex_digits ! i \<in> set hex_digits" if "i < 16" for i using that hex_digits_props(1) by simp
  have lo: "unat (v AND 0x0f) < 16" and hi: "unat (drop_bit 4 v) < 16" for v :: byte
  proof -
    have "v AND 0x0f = take_bit 4 v" by (simp add: take_bit_eq_mask mask_eq_decr_exp)
    then have "unat (v AND 0x0f) = unat v mod 16" by (simp add: unsigned_take_bit_eq) (simp add: take_bit_eq_mod)
    then show "unat (v AND 0x0f) < 16" by simp
    have "unat v < 256" using unsigned_less [of v] by simp
    then show "unat (drop_bit 4 v) < 16" by (simp add: drop_bit_eq_div unat_div less_mult_imp_div_less)
  qed
  have "set (newFileID b) \<subseteq> set hex_digits" using d [OF lo] d [OF hi] by (auto simp: newFileID_def)
  then show ?thesis
    by (intro utf8_valid_ascii) (auto simp: hex_digits_def)
qed

section \<open>Number of chunks\<close>

lemma sint_of_nat_small: "n < 2 ^ 63 \<Longrightarrow> sint (of_nat n :: u64) = int n"
  by (simp add: signed_of_nat signed_take_bit_int_eq_self)

lemma num_chunks_default:
  assumes "o_chunkSize off = DefaultChunkSize" "o_size off = of_nat n" "n < 2 ^ 62"
  shows "num_chunks off = int ((n + 16383) div 16384)"
proof -
  have cs: "ucast DefaultChunkSize = (16384 :: u64)" "0 < DefaultChunkSize" by (simp_all add: DefaultChunkSize_def)
  have sum: "(of_nat n + 16384 - 1 :: u64) = of_nat (n + 16383)" by simp
  have u: "unat (of_nat (n + 16383) :: u64) = n + 16383" using assms(3) by (intro unat_of_nat_small) simp
  have "(of_nat (n + 16383) div 16384 :: u64) = of_nat ((n + 16383) div 16384)"
  proof (rule unat_eq)
    have "(n + 16383) div 16384 < 2 ^ 64" using assms(3) by (intro div_less_dividend [THEN less_trans] less_mult_imp_div_less) simp_all
    then show "unat (of_nat (n + 16383) div 16384 :: u64) = unat (of_nat ((n + 16383) div 16384) :: u64)"
      using u by (simp add: unat_div unat_of_nat_small del: of_nat_add)
  qed
  moreover have "(n + 16383) div 16384 < 2 ^ 63" using assms(3) by (intro less_mult_imp_div_less) simp
  ultimately show ?thesis
    using assms(1,2) cs sum by (simp add: num_chunks_def sint_of_nat_small del: of_nat_add)
qed

lemma Split_ok:
  assumes "length key = 32"
  obtains off where "Split name mime data 0 (Inr key) fid = Inr (off, seal_from key (newFileID fid) 0 (blocks 16384 data))"
proof -
  have "unat DefaultChunkSize = 16384" by (simp add: DefaultChunkSize_def)
  then show ?thesis
    using that split_loop_blocks [OF assms, of DefaultChunkSize "newFileID fid" data 0 0] by (simp add: Split_def Let_def)
qed

lemma Split_chunks:
  assumes "Split name mime data 0 (Inr key) fid = Inr (off, chunks)" "length key = 32"
  shows "chunks = seal_from key (newFileID fid) 0 (blocks 16384 data)" "length chunks = (length data + 16383) div 16384"
proof -
  show c: "chunks = seal_from key (newFileID fid) 0 (blocks 16384 data)"
    using Split_ok [OF assms(2), of name mime data fid] assms(1) by auto
  show "length chunks = (length data + 16383) div 16384" by (simp add: c length_blocks)
qed

lemma Split_num_chunks:
  assumes "Split name mime data 0 (Inr key) fid = Inr (off, chunks)" "length key = 32" "length chunks < 2 ^ 32"
  shows "num_chunks off = int (length chunks) \<and> make_ok (num_chunks off) \<and>
    (\<forall>c \<in> set chunks. c_fileID c = newFileID fid) \<and> o_fileID off = newFileID fid \<and> o_name off = name \<and> o_mime off = mime"
proof -
  note sp = Split_Inr [OF assms(1)] and ch = Split_chunks(1) [OF assms(1,2)] and len = Split_chunks(2) [OF assms(1,2)]
  have "length data < 2 ^ 62"
  proof (rule ccontr)
    assume "\<not> length data < 2 ^ 62"
    then have "2 ^ 62 div 16384 \<le> (length data + 16383) div 16384" by (intro div_le_mono) simp
    then show False using len assms(3) by simp
  qed
  then have n: "num_chunks off = int (length chunks)" using num_chunks_default [of off "length data"] sp len by auto
  have "c_fileID c = newFileID fid" if "c \<in> set (seal_from key (newFileID fid) j bs)" for c j bs
    using that by (induction bs arbitrary: j) auto
  with n ch sp assms(3) show ?thesis by (auto simp: make_ok_def)
qed

section \<open>A file over a connection\<close>

fun chunk_envs :: "string \<Rightarrow> (nat \<Rightarrow> bytes) \<Rightarrow> (nat \<Rightarrow> gotime) \<Rightarrow> nat \<Rightarrow> chunk list \<Rightarrow> envelope list" where
  "chunk_envs convID ids now i [] = []"
| "chunk_envs convID ids now i (c # cs) =
     envFor TypeFileChunk convID (chunk_json c) (ids i) (now i) # chunk_envs convID ids now (Suc i) cs"

lemma length_chunk_envs [simp]: "length (chunk_envs convID ids now i cs) = length cs"
  by (induction cs arbitrary: i) simp_all

lemma envFor_ok:
  assumes "utf8_valid convID" "time_ok now" "t = TypeFileOffer \<or> t = TypeFileChunk"
  shows "envelope_ok (envFor t convID v ids now)"
  unfolding envFor_def
  by (rule NewEnvelope_ok) (use assms in \<open>auto simp: TypeFileOffer_def TypeFileChunk_def utf8_valid_ascii\<close>)

lemma envFor_body: "slice_list (e_body (envFor t convID v ids now)) = marshal v" "e_type (envFor t convID v ids now) = t"
  by (simp_all add: envFor_def NewEnvelope_def)

lemma store_sent_sess [simp]:
  "sess (store_sent fe env n) l = sess n l" "link_live (store_sent fe env n) l = link_live n l"
  by (simp_all add: store_sent_def sess_def link_live_def split: option.split)

lemma peer_net_store [simp]: "peer_net (store_sent fe env na) la nb lb used qa qb = peer_net na la nb lb used qa qb"
  by (simp add: peer_net_def)

lemma offer_parsed:
  assumes "utf8_valid name" "utf8_valid mime" and sp: "Split name mime data 0 (Inr key) fid = Inr (off, chunks)"
    and "length key = 32" "length chunks < 2 ^ 32"
  shows "ParseFileOffer (envFor TypeFileOffer convID (offer_json off) ids now) = Inr off"
proof -
  have "decode_json (json_into offer_fields) (slice_list (e_body (envFor TypeFileOffer convID (offer_json off) ids now))) zero_offer = Inr off"
    using Split_num_chunks [OF assms(3-5)] assms(1,2) by (simp add: envFor_body offer_roundtrip newFileID_ascii)
  then show ?thesis by (simp add: ParseFileOffer_def envFor_body)
qed

context conn_flow
begin

text \<open>The connection takes the next \<open>n\<close> messages without waiting.\<close>

primrec takes :: "nat \<Rightarrow> 'c \<Rightarrow> bool" where
  "takes 0 c \<longleftrightarrow> True"
| "takes (Suc n) c \<longleftrightarrow> (\<forall>b. \<exists>c'. conn_Send io b c = Some (Inr (), c') \<and> takes n c')"

lemma link_send:
  assumes acc: "takes (Suc n) c"
    and o: "ordered cv (peer_net na la nb lb used qa qb)" and l: "link_live na la"
    and e: "envelope_ok env" and b: "unat (r_ns (sess na la)) + 1001 < 2 ^ 32"
  obtains na' c' x where "link_SendEnvelope cv io la fe env \<lparr> w_node = na, w_conn = c \<rparr> = Some (Inr (), \<lparr> w_node = na', w_conn = c' \<rparr>)"
    "handed c' = handed c @ [payload_frame x]" "takes n c'" "link_live na' la"
    "r_ns (sess na' la) = r_ns (sess na la) + 1" "ordered cv (peer_net na' la nb lb used (qa @ [(x, env_bytes env)]) qb)"
    "arrived c' = arrived c" "closed c' = closed c"
proof -
  let ?x = "sent_wire cv na la env"
  obtain c' where c': "conn_Send io (payload_frame ?x) c = Some (Inr (), c')" and t: "takes n c'"
    using acc by auto
  note h = send_ok [OF c']
  have "link_SendEnvelope cv io la fe env \<lparr> w_node = na, w_conn = c \<rparr> =
      Some (Inr (), \<lparr> w_node = store_sent fe env (after_send na la), w_conn = c' \<rparr>)"
    using encryptSend_run [OF l e, of cv io c] c' by (simp add: link_SendEnvelope_def go_bind_def go_put_def)
  then show ?thesis
    by (rule that [where x = ?x]) (use h l t peer_send [OF o l b, of env] in simp_all)
qed

lemma send_chunks_run:
  assumes "utf8_valid convID" "\<And>i. time_ok (now i)"
  shows "takes (length cs) c \<Longrightarrow> ordered cv (peer_net na la nb lb used qa qb) \<Longrightarrow> link_live na la \<Longrightarrow>
    unat (r_ns (sess na la)) + length cs + 1001 < 2 ^ 32 \<Longrightarrow>
    \<exists>na' c' xs. send_chunks cv io la fe convID ids now i cs \<lparr> w_node = na, w_conn = c \<rparr> = Some (Inr (), \<lparr> w_node = na', w_conn = c' \<rparr>) \<and>
      length xs = length cs \<and> handed c' = handed c @ map payload_frame xs \<and>
      ordered cv (peer_net na' la nb lb used (qa @ zip xs (map env_bytes (chunk_envs convID ids now i cs))) qb)"
proof (induction cs arbitrary: i na c qa)
  case Nil
  then show ?case by (intro exI [of _ na] exI [of _ c] exI [of _ "[]"]) (simp add: go_ret_def)
next
  case (Cons y cs)
  let ?env = "envFor TypeFileChunk convID (chunk_json y) (ids i) (now i)"
  have e: "envelope_ok ?env" using assms by (intro envFor_ok) simp_all
  have b: "unat (r_ns (sess na la)) + 1001 < 2 ^ 32" using Cons.prems(4) by simp
  have tk: "takes (Suc (length cs)) c" using Cons.prems(1) by simp
  obtain na1 c1 x where s: "link_SendEnvelope cv io la (fe i) ?env \<lparr> w_node = na, w_conn = c \<rparr> = Some (Inr (), \<lparr> w_node = na1, w_conn = c1 \<rparr>)"
    "handed c1 = handed c @ [payload_frame x]" "takes (length cs) c1" "link_live na1 la"
    "r_ns (sess na1 la) = r_ns (sess na la) + 1" "ordered cv (peer_net na1 la nb lb used (qa @ [(x, env_bytes ?env)]) qb)"
    by (rule link_send [OF tk Cons.prems(2,3) e b])
  have "unat (r_ns (sess na1 la)) + length cs + 1001 < 2 ^ 32"
    using Cons.prems(4) s(5) unat_succ_bound [OF b] by simp
  from Cons.IH [OF s(3,6,4) this] obtain na' c' xs where
    r: "send_chunks cv io la fe convID ids now (Suc i) cs \<lparr> w_node = na1, w_conn = c1 \<rparr> = Some (Inr (), \<lparr> w_node = na', w_conn = c' \<rparr>)"
    "length xs = length cs" "handed c' = handed c1 @ map payload_frame xs"
    "ordered cv (peer_net na' la nb lb used ((qa @ [(x, env_bytes ?env)]) @ zip xs (map env_bytes (chunk_envs convID ids now (Suc i) cs))) qb)"
    by blast
  then show ?case
    using s by (intro exI [of _ na'] exI [of _ c'] exI [of _ "x # xs"]) (simp add: go_bind_run)
qed

lemma link_recv:
  assumes cv: "curve_ok cv" and a: "arrived c = payload_frame x # bs"
    and o: "ordered cv (peer_net na la nb lb used ((x, env_bytes env) # qa) qb)" and l: "link_live nb lb" and e: "envelope_ok env"
    and k: "length k = 32" "x25519_base cv k \<notin> used"
  obtains nb' c' where "link_Receive cv io lb (Inr k) \<lparr> w_node = nb, w_conn = c \<rparr> = Some (Inr env, \<lparr> w_node = nb', w_conn = c' \<rparr>)"
    "arrived c' = bs" "link_live nb' lb" "ordered cv (peer_net na la nb' lb (insert (x25519_base cv k) used) qa qb)" "closed c' = closed c"
    "handed c' = handed c" "r_ns (sess nb' lb) \<in> {r_ns (sess nb lb), 0}"
proof -
  obtain c' where c': "conn_Recv io c = Some (Inr (payload_frame x), c')" "arrived c' = bs" "closed c' = closed c" "handed c' = handed c"
    using recv_next [OF a] by blast
  note pr = peer_recv [OF cv o l k]
  from Receive_run [OF l e c'(1) pr(1)] show ?thesis
    by (rule that) (use c'(2-4) l pr(2) decrypt_ns [of cv "sess nb lb" x "Inr k"] in \<open>simp_all add: after_recv_def\<close>)
qed

lemma recv_chunks_run:
  assumes cv: "curve_ok cv" and "utf8_valid convID" "\<And>i. time_ok (now i)"
  shows "arrived c = map payload_frame xs \<Longrightarrow> length xs = length cs \<Longrightarrow> link_live nb lb \<Longrightarrow>
    ordered cv (peer_net na la nb lb used (zip xs (map env_bytes (chunk_envs convID ids now j cs))) qb) \<Longrightarrow>
    fresh_from cv used k i (i + length cs) \<Longrightarrow> \<forall>c \<in> set cs. utf8_valid (c_fileID c) \<Longrightarrow>
    \<exists>nb' c'. recv_chunks cv io lb (\<lambda>i. Inr (k i)) i (length cs) acc \<lparr> w_node = nb, w_conn = c \<rparr> =
      Some (Inr (acc @ cs), \<lparr> w_node = nb', w_conn = c' \<rparr>)"
proof (induction cs arbitrary: i j nb c xs used acc)
  case Nil
  then show ?case by (simp add: go_ret_def)
next
  case (Cons y cs)
  let ?env = "envFor TypeFileChunk convID (chunk_json y) (ids j) (now j)"
  have e: "envelope_ok ?env" using assms(2,3) by (intro envFor_ok) simp_all
  obtain x xs' where xs: "xs = x # xs'" using Cons.prems(2) by (cases xs) auto
  have fr: "length (k i) = 32 \<and> x25519_base cv (k i) \<notin> used"
    "fresh_from cv (insert (x25519_base cv (k i)) used) k (Suc i) (Suc i + length cs)"
    using fresh_from_now [OF Cons.prems(5)] fresh_from_next [OF Cons.prems(5)] by simp_all
  have a: "arrived c = payload_frame x # map payload_frame xs'" using Cons.prems(1) xs by simp
  have o: "ordered cv (peer_net na la nb lb used ((x, env_bytes ?env) # zip xs' (map env_bytes (chunk_envs convID ids now (Suc j) cs))) qb)"
    using Cons.prems(4) xs by simp
  obtain nb1 c1 where s: "link_Receive cv io lb (Inr (k i)) \<lparr> w_node = nb, w_conn = c \<rparr> = Some (Inr ?env, \<lparr> w_node = nb1, w_conn = c1 \<rparr>)"
    "arrived c1 = map payload_frame xs'" "link_live nb1 lb"
    "ordered cv (peer_net na la nb1 lb (insert (x25519_base cv (k i)) used) (zip xs' (map env_bytes (chunk_envs convID ids now (Suc j) cs))) qb)"
    using link_recv [OF cv a o Cons.prems(3) e] fr(1) by metis
  have d: "decode_json (json_into chunk_fields) (slice_list (e_body ?env)) zero_chunk = Inr y"
    using Cons.prems(6) by (simp add: envFor_body chunk_roundtrip)
  obtain nb' c' where r: "recv_chunks cv io lb (\<lambda>i. Inr (k i)) (Suc i) (length cs) (acc @ [y]) \<lparr> w_node = nb1, w_conn = c1 \<rparr> =
      Some (Inr ((acc @ [y]) @ cs), \<lparr> w_node = nb', w_conn = c' \<rparr>)"
    using Cons.IH [OF s(2) _ s(3,4) fr(2), of "acc @ [y]"] Cons.prems(2,6) xs by auto
  show ?case using s(1) d r by (simp add: go_bind_run go_of_def)
qed

lemma SendFile_run:
  assumes utf8: "utf8_valid convID" and times: "\<And>i. time_ok (now i)"
    and sp: "Split name mime data 0 (Inr key) fid = Inr (off, chunks)"
    and c: "takes (Suc (length chunks)) c" and o: "ordered cv (peer_net na la nb lb used [] [])" and la: "link_live na la"
    and b: "unat (r_ns (sess na la)) + length chunks + 1002 < 2 ^ 32"
  obtains na' c' x xs where "link_SendFile cv io la fe convID name mime data (Inr key) fid ids now \<lparr> w_node = na, w_conn = c \<rparr> =
      Some (Inr off, \<lparr> w_node = na', w_conn = c' \<rparr>)"
    "handed c' = handed c @ map payload_frame (x # xs)" "length xs = length chunks"
    "ordered cv (peer_net na' la nb lb used ((x, env_bytes (envFor TypeFileOffer convID (offer_json off) (ids 0) (now 0))) #
       zip xs (map env_bytes (chunk_envs convID ids now 1 chunks))) [])"
proof -
  let ?env = "envFor TypeFileOffer convID (offer_json off) (ids 0) (now 0)"
  have e: "envelope_ok ?env" using utf8 times by (intro envFor_ok) simp_all
  have b1: "unat (r_ns (sess na la)) + 1001 < 2 ^ 32" using b by simp
  obtain na1 c1 x where s1: "link_SendEnvelope cv io la (fe 0) ?env \<lparr> w_node = na, w_conn = c \<rparr> =
      Some (Inr (), \<lparr> w_node = na1, w_conn = c1 \<rparr>)"
    "handed c1 = handed c @ [payload_frame x]" "takes (length chunks) c1" "link_live na1 la"
    "r_ns (sess na1 la) = r_ns (sess na la) + 1" "ordered cv (peer_net na1 la nb lb used ([] @ [(x, env_bytes ?env)]) [])"
    by (rule link_send [OF c o la e b1])
  have b2: "unat (r_ns (sess na1 la)) + length chunks + 1001 < 2 ^ 32"
    using b s1(5) unat_succ_bound [OF b1] by simp
  from send_chunks_run [where now = now and i = 1 and fe = fe and ids = ids, OF utf8 times s1(3,6,4) b2]
  obtain na' c' xs where s2: "send_chunks cv io la fe convID ids now 1 chunks \<lparr> w_node = na1, w_conn = c1 \<rparr> =
      Some (Inr (), \<lparr> w_node = na', w_conn = c' \<rparr>)"
    "length xs = length chunks" "handed c' = handed c1 @ map payload_frame xs"
    "ordered cv (peer_net na' la nb lb used (([] @ [(x, env_bytes ?env)]) @ zip xs (map env_bytes (chunk_envs convID ids now 1 chunks))) [])"
    by blast
  have "link_SendFile cv io la fe convID name mime data (Inr key) fid ids now \<lparr> w_node = na, w_conn = c \<rparr> =
      Some (Inr off, \<lparr> w_node = na', w_conn = c' \<rparr>)"
    using sp s1(1) s2(1) by (simp add: link_SendFile_def go_bind_run go_of_def go_ret_def)
  then show ?thesis by (rule that [where x = x and xs = xs]) (use s1(2) s2(2-4) in simp_all)
qed

lemma ReceiveFileBody_run:
  assumes cv: "curve_ok cv" and utf8: "utf8_valid convID" and times: "\<And>i. time_ok (now i)"
    and sp: "Split name mime data 0 (Inr key) fid = Inr (off, chunks)" and key: "length key = 32" and few: "length chunks < 2 ^ 32"
    and a: "arrived c = map payload_frame xs" "length xs = length chunks" and lb: "link_live nb lb"
    and o: "ordered cv (peer_net na la nb lb used (zip xs (map env_bytes (chunk_envs convID ids now 1 chunks))) qb)"
    and fr: "fresh_from cv used k 0 (length chunks)"
  shows "\<exists>w. ReceiveFileBody cv io lb (\<lambda>i. Inr (k i)) off \<lparr> w_node = nb, w_conn = c \<rparr> = Some (Inr data, w)"
proof -
  note nc = Split_num_chunks [OF sp key few]
  have ids_ok: "\<forall>c \<in> set chunks. utf8_valid (c_fileID c)" using nc newFileID_ascii by simp
  from recv_chunks_run [where now = now and acc = "[]" and i = 0, OF cv utf8 times a lb o _ ids_ok] fr
  obtain w where r: "recv_chunks cv io lb (\<lambda>i. Inr (k i)) 0 (length chunks) [] \<lparr> w_node = nb, w_conn = c \<rparr> = Some (Inr chunks, w)" by auto
  have "Reassemble off chunks = Inr data" by (rule split_reassemble_any [OF sp key]) (use few in simp_all)
  moreover have "num_chunks off = int (length chunks)" "make_ok (int (length chunks))" using nc by auto
  ultimately show ?thesis using r by (simp add: ReceiveFileBody_def go_bind_run go_of_def)
qed

lemma ReceiveFile_run:
  assumes cv: "curve_ok cv" and utf8: "utf8_valid convID" "utf8_valid name" "utf8_valid mime" and times: "\<And>i. time_ok (now i)"
    and sp: "Split name mime data 0 (Inr key) fid = Inr (off, chunks)" and key: "length key = 32" and few: "length chunks < 2 ^ 32"
    and a: "arrived c = map payload_frame (x # xs)" "length xs = length chunks" and lb: "link_live nb lb"
    and o: "ordered cv (peer_net na la nb lb used ((x, env_bytes (envFor TypeFileOffer convID (offer_json off) (ids 0) (now 0))) #
       zip xs (map env_bytes (chunk_envs convID ids now 1 chunks))) [])"
    and fr: "fresh_from cv used k 0 (Suc (length chunks))"
  shows "\<exists>w. ReceiveFile cv io lb (Inr (k 0)) (\<lambda>i. Inr (k (Suc i))) \<lparr> w_node = nb, w_conn = c \<rparr> = Some (Inr (off, data), w)"
proof -
  let ?env = "envFor TypeFileOffer convID (offer_json off) (ids 0) (now 0)"
  note fk = fresh_from_now [OF fr zero_less_Suc]
  have e: "envelope_ok ?env" using utf8 times by (intro envFor_ok) simp_all
  have a1: "arrived c = payload_frame x # map payload_frame xs" using a by simp
  obtain nb1 c1 where r1: "link_Receive cv io lb (Inr (k 0)) \<lparr> w_node = nb, w_conn = c \<rparr> =
      Some (Inr ?env, \<lparr> w_node = nb1, w_conn = c1 \<rparr>)" "arrived c1 = map payload_frame xs" "link_live nb1 lb"
    "ordered cv (peer_net na la nb1 lb (insert (x25519_base cv (k 0)) used) (zip xs (map env_bytes (chunk_envs convID ids now 1 chunks))) [])"
    by (rule link_recv [OF cv a1 o lb e conjunct1 [OF fk] conjunct2 [OF fk]])
  have frn: "fresh_from cv (insert (x25519_base cv (k 0)) used) (\<lambda>j. k (Suc j)) 0 (length chunks)"
    using fresh_from_shift [OF fresh_from_next [OF fr]] by simp
  from ReceiveFileBody_run [where now = now, OF cv utf8(1) times sp key few r1(2) a(2) r1(3,4) frn] show ?thesis
    using r1(1) offer_parsed [OF utf8(2,3) sp key few] by (auto simp: ReceiveFile_def go_bind_run go_of_def go_ret_def)
qed

end

section \<open>Properties\<close>

lemma pion_takes: "\<not> pc_done c \<Longrightarrow> pion_conn.takes (Inr ()) pc n c"
proof (induction n arbitrary: c)
  case (Suc n)
  have "conn_Send (pion_conn (Inr ()) pc) b c = Some (Inr (), c\<lparr> pc_sent := pc_sent c @ [b] \<rparr>)" for b
    using Suc.prems by (simp add: pion_conn_def pion_Send_def)
  with Suc.IH [of "c\<lparr> pc_sent := pc_sent c @ [_] \<rparr>"] Suc.prems show ?case by simp
qed simp

lemma pipe_takes: "\<not> pp_done p \<Longrightarrow> length (pipe_out e p) + n \<le> pipe_cap \<Longrightarrow> pipe_conn.takes pick e n p"
  by (induction n arbitrary: p) (simp_all add: pipe_Send_def)

definition pion_linked :: "curve \<Rightarrow> node \<Rightarrow> link \<Rightarrow> node \<Rightarrow> link \<Rightarrow> bytes set \<Rightarrow> bool" where
  "pion_linked cv na la nb lb used \<longleftrightarrow>
     link_live na la \<and> link_live nb lb \<and> ordered cv (peer_net na la nb lb used [] [])"

text \<open>A file arrives as it was sent. Between two nodes with a live pair of links, when \<open>SendFile\<close> on one side
  has run, the other side's \<open>ReceiveFile\<close>, reading the frames in the order they were handed to the data
  channel, returns the offer and exactly the bytes of the file. Both calls return.\<close>

theorem file_delivery:
  assumes cv: "curve_ok cv" and linked: "pion_linked cv na la nb lb used" and ca: "\<not> pc_done ca"
    and utf8: "utf8_valid convID" "utf8_valid name" "utf8_valid mime" and times: "\<And>i. time_ok (now i)"
    and sp: "Split name mime data 0 (Inr key) fid = Inr (off, chunks)" and key: "length key = 32"
    and b: "unat (r_ns (sess na la)) + length chunks + 1002 < 2 ^ 32"
    and fr: "fresh_from cv used k 0 (Suc (length chunks))"
  shows "\<exists>na' ca'. link_SendFile cv (pion_conn (Inr ()) pc) la fe convID name mime data (Inr key) fid ids now
      \<lparr> w_node = na, w_conn = ca \<rparr> = Some (Inr off, \<lparr> w_node = na', w_conn = ca' \<rparr>) \<and>
    (\<exists>frames. pc_sent ca' = pc_sent ca @ frames \<and>
      (\<forall>cb. pc_in cb = frames \<longrightarrow> (\<exists>w. ReceiveFile cv (pion_conn dc pc') lb (Inr (k 0)) (\<lambda>i. Inr (k (Suc i)))
        \<lparr> w_node = nb, w_conn = cb \<rparr> = Some (Inr (off, data), w))))"
proof -
  have la: "link_live na la" and lb: "link_live nb lb" and o: "ordered cv (peer_net na la nb lb used [] [])"
    using linked by (simp_all add: pion_linked_def)
  have few: "length chunks < 2 ^ 32" using b by simp
  obtain na' c' x xs where s: "link_SendFile cv (pion_conn (Inr ()) pc) la fe convID name mime data (Inr key) fid ids now
      \<lparr> w_node = na, w_conn = ca \<rparr> = Some (Inr off, \<lparr> w_node = na', w_conn = c' \<rparr>)"
    "pc_sent c' = pc_sent ca @ map payload_frame (x # xs)" "length xs = length chunks"
    "ordered cv (peer_net na' la nb lb used ((x, env_bytes (envFor TypeFileOffer convID (offer_json off) (ids 0) (now 0))) #
       zip xs (map env_bytes (chunk_envs convID ids now 1 chunks))) [])"
    by (rule pion_conn.SendFile_run [where now = now, OF utf8(1) times sp pion_takes [OF ca] o la b])
  have "\<exists>w. ReceiveFile cv (pion_conn dc pc') lb (Inr (k 0)) (\<lambda>i. Inr (k (Suc i))) \<lparr> w_node = nb, w_conn = cb \<rparr> =
      Some (Inr (off, data), w)" if "pc_in cb = map payload_frame (x # xs)" for cb
    by (rule pion_conn.ReceiveFile_run [where now = now, OF cv utf8 times sp key few that s(3) lb s(4) fr])
  with s(1,2) show ?thesis by blast
qed

lemma toy_linked:
  obtains na la nb lb where "pion_linked toy_curve na la nb lb (used_keys toy_curve (toy_node 2) (replicate 32 6))" "r_ns (sess na la) = 0"
proof -
  obtain la lb na' nb' where "link_live na' la" "link_live nb' lb" "r_ns (sess na' la) = 0"
    "ordered toy_curve (peer_net na' la nb' lb (used_keys toy_curve (toy_node 2) (replicate 32 6)) [] [])"
    by (rule live_handshake_run [OF toy_curve_ok toy_node_ok [of 1] toy_node_ok [of 2] idle_Pipe, of "replicate 32 5" "replicate 32 6" True True]) simp_all
  then show ?thesis by (intro that) (simp_all add: pion_linked_def)
qed

definition toy_draws :: "nat \<Rightarrow> bytes" where
  "toy_draws i = replicate 32 (of_nat (77 + i))"

lemma toy_draws_fresh: "fresh_from toy_curve (used_keys toy_curve (toy_node 2) (replicate 32 6)) toy_draws 0 2"
proof -
  have "{0..<2} = {0, Suc 0}" by auto
  then show ?thesis
    by (simp add: fresh_from_def toy_draws_def used_keys_def toy_curve_def toy_node_def node_New_def toy_account_def toy_prekeys_def)
qed

theorem file_delivery_witness:
  "\<exists>na la nb lb off w ca frames. link_SendFile toy_curve (pion_conn (Inr ()) (Inr ())) la (\<lambda>_. toy_env) ''c'' ''f'' ''m'' [1, 2, 3]
      (Inr (replicate 32 7)) [] (\<lambda>_. [1]) (\<lambda>_. zero_time) \<lparr> w_node = na, w_conn = newPionConn \<rparr> = Some (Inr off, w) \<and>
    pc_sent (w_conn w) = frames \<and>
    (\<exists>w'. ReceiveFile toy_curve (pion_conn (Inr ()) (Inr ())) lb (Inr (toy_draws 0)) (\<lambda>i. Inr (toy_draws (Suc i)))
      \<lparr> w_node = nb, w_conn = newPionConn\<lparr> pc_in := frames \<rparr> \<rparr> = Some (Inr (off, [1, 2, 3]), w'))"
proof -
  obtain na la nb lb where l: "pion_linked toy_curve na la nb lb (used_keys toy_curve (toy_node 2) (replicate 32 6))" "r_ns (sess na la) = 0"
    by (rule toy_linked)
  have b: "blocks (unat DefaultChunkSize) [1, 2, 3 :: byte] = [[1, 2, 3]]" by (simp add: blocks.simps DefaultChunkSize_def)
  have sl: "split_loop (replicate 32 7) fid DefaultChunkSize [1, 2, 3] 0 0 = Inr (seal_from (replicate 32 7) fid 0 [[1, 2, 3]])" for fid
    using split_loop_blocks [of "replicate 32 7" DefaultChunkSize fid "[1, 2, 3]" 0 0] b by (simp add: DefaultChunkSize_def)
  then obtain off chunks where sp: "Split ''f'' ''m'' [1, 2, 3] 0 (Inr (replicate 32 7)) [] = Inr (off, chunks)" and n: "length chunks = 1"
    by (simp add: Split_def Let_def)
  have fr: "fresh_from toy_curve (used_keys toy_curve (toy_node 2) (replicate 32 6)) toy_draws 0 (Suc (length chunks))"
    using toy_draws_fresh n by (simp add: eval_nat_numeral)
  have t: "time_ok zero_time" by (rule time_ok_zero)
  from file_delivery [OF toy_curve_ok l(1) _ _ _ _ _ sp _ _ fr, of newPionConn "''c''" "\<lambda>_. zero_time" "Inr ()" "\<lambda>_. toy_env" "\<lambda>_. [1]" "Inr ()" "Inr ()"]
  obtain na' ca' frames where "link_SendFile toy_curve (pion_conn (Inr ()) (Inr ())) la (\<lambda>_. toy_env) ''c'' ''f'' ''m'' [1, 2, 3]
      (Inr (replicate 32 7)) [] (\<lambda>_. [1]) (\<lambda>_. zero_time) \<lparr> w_node = na, w_conn = newPionConn \<rparr> = Some (Inr off, \<lparr> w_node = na', w_conn = ca' \<rparr>)"
    "pc_sent ca' = frames" and "\<forall>cb. pc_in cb = frames \<longrightarrow> (\<exists>w. ReceiveFile toy_curve (pion_conn (Inr ()) (Inr ())) lb (Inr (toy_draws 0))
      (\<lambda>i. Inr (toy_draws (Suc i))) \<lparr> w_node = nb, w_conn = cb \<rparr> = Some (Inr (off, [1, 2, 3]), w))"
    using n l(2) t by (auto simp: newPionConn_def utf8_valid_ascii)
  moreover from this(3) have "\<exists>w. ReceiveFile toy_curve (pion_conn (Inr ()) (Inr ())) lb (Inr (toy_draws 0))
      (\<lambda>i. Inr (toy_draws (Suc i))) \<lparr> w_node = nb, w_conn = newPionConn\<lparr> pc_in := frames \<rparr> \<rparr> = Some (Inr (off, [1, 2, 3]), w)"
    by simp
  ultimately show ?thesis
    by (intro exI [of _ na] exI [of _ la] exI [of _ nb] exI [of _ lb] exI [of _ off] exI [of _ "\<lparr> w_node = na', w_conn = ca' \<rparr>"]
        exI [of _ ca'] exI [of _ frames]) simp
qed

end
