(* ===== verification/Runtime_Delivery.thy ===== *)
theory Runtime_Delivery
  imports Runtime_Run Node_Transfer
begin

text \<open>
  What the runtime promises the app: stopping closes every registered link, a received file lies inside
  the files directory, the app's state survives a restart, and a text handed to one engine comes out of
  the other as a message event with the same id and text.
\<close>

section \<open>Closing links\<close>

context conn_laws
begin

lemma close_link_run:
  assumes "sk_conn sk = io" "p < length (rt_heap r)"
  shows "\<exists>r'. close_link sk p r = Some (Inr (), r') \<and> closed (snd (rt_heap r' ! p)) \<and> length (rt_heap r') = length (rt_heap r) \<and>
    (\<forall>q. q \<noteq> p \<longrightarrow> rt_heap r' ! q = rt_heap r ! q) \<and> rt_closed r' = rt_closed r \<and> rt_links r' = rt_links r"
proof -
  obtain x c' where "conn_Close io (snd (rt_heap r ! p)) = Some (x, c')" "closed c'" using close_sets by blast
  then show ?thesis using assms
    by (simp add: close_link_def go_ignore_def on_link_def link_Close_def on_conn_run)
qed

lemma close_all_run:
  assumes "sk_conn sk = io"
  shows "\<forall>p \<in> set ps. p < length (rt_heap r) \<Longrightarrow>
    \<exists>r'. close_all sk ps r = Some (Inr (), r') \<and> (\<forall>p < length (rt_heap r). p \<in> set ps \<or> closed (snd (rt_heap r ! p)) \<longrightarrow> closed (snd (rt_heap r' ! p))) \<and>
      length (rt_heap r') = length (rt_heap r) \<and> rt_closed r' = rt_closed r \<and> rt_links r' = rt_links r"
proof (induction ps arbitrary: r)
  case Nil
  then show ?case by (simp add: go_ret_def)
next
  case (Cons p ps)
  then have p: "p < length (rt_heap r)" by simp
  obtain r1 where c: "close_link sk p r = Some (Inr (), r1)" and c1: "closed (snd (rt_heap r1 ! p))" "length (rt_heap r1) = length (rt_heap r)"
    "\<And>q. q \<noteq> p \<Longrightarrow> rt_heap r1 ! q = rt_heap r ! q" "rt_closed r1 = rt_closed r" "rt_links r1 = rt_links r"
    using close_link_run [OF assms p] by blast
  have "\<forall>q \<in> set ps. q < length (rt_heap r1)" using Cons.prems c1(2) by simp
  from Cons.IH [OF this] obtain r' where r': "close_all sk ps r1 = Some (Inr (), r')"
    "\<And>q. q < length (rt_heap r1) \<Longrightarrow> q \<in> set ps \<or> closed (snd (rt_heap r1 ! q)) \<Longrightarrow> closed (snd (rt_heap r' ! q))"
    "length (rt_heap r') = length (rt_heap r1)" "rt_closed r' = rt_closed r1" "rt_links r' = rt_links r1"
    by blast
  have "closed (snd (rt_heap r' ! q))" if q: "q < length (rt_heap r)" "q \<in> set (p # ps) \<or> closed (snd (rt_heap r ! q))" for q
    using r'(2) [of q] q c1(1-3) by (cases "q = p") auto
  then show ?case using c r' c1 by (simp add: go_seq_def go_bind_run)
qed

end

lemma close_all_sig: "close_all sk ps r = Some (x, r') \<Longrightarrow> rt_sig r' = rt_sig r"
proof (induction ps arbitrary: r)
  case (Cons p ps)
  have "close_link sk p r = Some (y, r1) \<Longrightarrow> rt_sig r1 = rt_sig r" for y r1
    by (auto simp: close_link_def go_ignore_def on_link_def split: option.splits if_splits)
  with Cons show ?case by (auto simp: go_seq_def go_bind_def split: option.splits sum.splits)
qed (simp add: go_ret_def)

section \<open>File names\<close>

lemma int_string_chars: "CHR ''/'' \<notin> set (int_string i)"
  using dec_string_chars by (auto simp: int_string_def dec_digits_def)

lemma file_base_component: "CHR ''/'' \<notin> set (file_base name)"
  using path_Base_cases [of name] by (auto simp: file_base_def Let_def)

lemma saved_name_component: "component (int_string i @ CHR ''-'' # file_base name)"
proof -
  have n: "y \<noteq> [] \<and> y \<noteq> ''.'' \<and> y \<noteq> ''..''" if "CHR ''-'' \<in> set y" for y :: string using that by auto
  show ?thesis using int_string_chars [of i] file_base_component [of name] n [of "int_string i @ CHR ''-'' # file_base name"]
    by (simp add: component_def)
qed

section \<open>A text on the wire\<close>

lemma text_envelope:
  assumes "NewText fp text [] ids now = Inr e" "utf8_valid text" "m \<noteq> []" "utf8_valid m" "utf8_valid fp" "time_ok now"
  shows "envelope_ok (with_msgID m e)" "e_type (with_msgID m e) = TypeText" "e_msgID (with_msgID m e) = m" "text_of (with_msgID m e) = text"
proof -
  have e: "e = NewEnvelope TypeText fp (Some (marshal (textBody_json \<lparr> tb_text = text, tb_animatedEmoji = [] \<rparr>))) ids now"
    using assms(1) by (simp add: NewText_def)
  have "envelope_ok e" unfolding e by (rule NewEnvelope_ok) (use assms in \<open>simp_all add: TypeText_def utf8_valid_ascii\<close>)
  then show "envelope_ok (with_msgID m e)" using assms(4) by (simp add: with_msgID_def envelope_ok_def)
  show "e_type (with_msgID m e) = TypeText" "e_msgID (with_msgID m e) = m"
    using assms(3) by (simp_all add: with_msgID_def e NewEnvelope_def)
  from text_of_NewText [OF assms(2,1)] show "text_of (with_msgID m e) = text" by (simp add: with_msgID_def text_of_def)
qed

text \<open>Sending a receipt never blocks a reader, and only touches the connection.\<close>

lemma pion_Send_returns: "pion_Send dc b c \<noteq> None"
  by (simp add: pion_Send_def split: sum.split)

lemma encryptSend_returns:
  assumes "\<And>b c. conn_Send io b c \<noteq> None"
  shows "\<exists>x w'. encryptSendLocked cv io l env w = Some (x, w')"
proof -
  have "\<exists>x w'. on_conn (conn_Send io b) v = Some (x, w')" for b v
    using assms [of b "w_conn v"] by (auto simp: on_conn_def go_on_def)
  then show ?thesis
    by (auto simp: encryptSendLocked_def go_bind_def go_of_def on_node_def on_sessions_def go_on_def go_call_def split: sum.split prod.split option.split)
qed

lemma receipt_passes:
  assumes "\<And>b c. conn_Send (sk_conn sk) b c \<noteq> None" "p < length (rt_heap r)"
  shows "\<exists>r'. send_receipt sk env p fp m r = Some (Inr (), r') \<and> rt_events r' = rt_events r \<and> rt_lastIn r' = rt_lastIn r \<and>
    rt_files r' = rt_files r"
proof -
  obtain x w' where "link_SendReceipt (sk_curve sk) (sk_conn sk) (link_at r p) fp m StateDelivered (en_ids env 0) (en_now env 0)
      \<lparr> w_node = rt_node r, w_conn = snd (rt_heap r ! p) \<rparr> = Some (x, w')"
    using encryptSend_returns [OF assms(1)] by (fastforce simp: link_SendReceipt_def NewReceipt_def go_bind_def go_of_def)
  then show ?thesis using assms(2) by (simp add: send_receipt_def go_ignore_def on_link_def)
qed

lemma receipt_returns:
  assumes "sk_conn sk = pion_conn dc pc" "p < length (rt_heap r)"
  shows "\<exists>r'. send_receipt sk env p fp m r = Some (Inr (), r') \<and> rt_events r' = rt_events r \<and> rt_lastIn r' = rt_lastIn r \<and>
    rt_files r' = rt_files r"
  by (rule receipt_passes [OF _ assms(2)]) (simp add: assms(1) pion_conn_def pion_Send_returns)

section \<open>Texts and receipts over a link\<close>

text \<open>The worker's last step for a text request, and what it hands to the connection.\<close>

lemma text_sent:
  assumes ska: "sk_curve ska = cv" "sk_conn ska = pion_conn (Inr ()) pc"
    and a: "rt_worker ra = Sending q fp pa" "pa < length (rt_heap ra)" "rt_heap ra ! pa = (la, ca)" "\<not> pc_done ca"
    and o: "ordered cv (peer_net (rt_node ra) la nb lb used qa qb)" "link_live (rt_node ra) la"
    and ns: "unat (r_ns (sess (rt_node ra) la)) + 1001 < 2 ^ 32"
    and q: "rq_filePath q = []" "utf8_valid (rq_text q)" "rq_msgID q \<noteq> []" "utf8_valid (rq_msgID q)"
    and fp: "utf8_valid fp" "time_ok (en_now enva 0)"
  obtains env x na' c' where
    "worker_step ska enva pick ra =
       Some (Inr (), send_done (en_unix enva 0) fp q (ra\<lparr> rt_node := na', rt_heap := (rt_heap ra)[pa := (la, c')] \<rparr>))"
    "pc_sent c' = pc_sent ca @ [payload_frame x]" "pc_in c' = pc_in ca" "\<not> pc_done c'" "link_live na' la"
    "ordered cv (peer_net na' la nb lb used (qa @ [(x, env_bytes env)]) qb)"
    "envelope_ok env" "e_type env = TypeText" "e_msgID env = rq_msgID q" "text_of env = rq_text q"
proof -
  obtain e where e: "NewText fp (rq_text q) [] (en_ids enva 0) (en_now enva 0) = Inr e" by (simp add: NewText_def)
  let ?env = "with_msgID (rq_msgID q) e"
  note env = text_envelope [OF e q(2) q(3,4) fp]
  obtain na' c' x where s: "link_SendEnvelope cv (pion_conn (Inr ()) pc) la (en_flush enva 0) ?env \<lparr> w_node = rt_node ra, w_conn = ca \<rparr> =
      Some (Inr (), \<lparr> w_node = na', w_conn = c' \<rparr>)" "pc_sent c' = pc_sent ca @ [payload_frame x]" "link_live na' la"
    "ordered cv (peer_net na' la nb lb used (qa @ [(x, env_bytes ?env)]) qb)" "pc_in c' = pc_in ca" "pc_done c' = pc_done ca"
    by (rule pion_conn.link_send [where n = 0, OF pion_takes [OF a(4)] o env(1) ns])
  have ol: "on_link pa (send_op ska enva q fp (Inr ?env)) ra = Some (Inr (), ra\<lparr> rt_node := na', rt_heap := (rt_heap ra)[pa := (la, c')] \<rparr>)"
    using a(2,3) s(1) ska by (simp add: on_link_def send_op_def link_at_def)
  have "worker_step ska enva pick ra =
      Some (Inr (), send_done (en_unix enva 0) fp q (ra\<lparr> rt_node := na', rt_heap := (rt_heap ra)[pa := (la, c')] \<rparr>))"
    using a(1) ol q(1) e by (simp add: worker_step_def go_read_def deliver_send_def send_payload_def rbind_def go_either_def go_put_def)
  from this s(2,5) _ s(3,4) env show ?thesis by (rule that) (use s(6) a(4) in simp)
qed

text \<open>A reader's step on an arrived envelope: it is received and then handled.\<close>

context conn_flow
begin

lemma read_envelope:
  assumes cv: "curve_ok cv" and sk: "sk_curve sk = cv" "sk_conn sk = io"
    and r: "p < length (rt_heap r)" "rt_heap r ! p = (l, c)" "arrived c = payload_frame x # rest"
    and o: "ordered cv (peer_net n' l' (rt_node r) l used ((x, env_bytes env) # qa) qb)" "link_live (rt_node r) l" "envelope_ok env"
    and k: "en_recv en = Inr k" "length k = 32" "x25519_base cv k \<notin> used"
  obtains n c' where
    "recv_step sk en p r = go_seq (handle_envelope sk en p (lk_peerFP l) (peerURI l) env) (go_ret Continue)
       (r\<lparr> rt_node := n, rt_heap := (rt_heap r)[p := (l, c')] \<rparr>)"
    "arrived c' = rest" "handed c' = handed c" "closed c' = closed c" "link_live n l" "r_ns (sess n l) \<in> {r_ns (sess (rt_node r) l), 0}"
    "ordered cv (peer_net n' l' n l (insert (x25519_base cv k) used) qa qb)"
proof -
  obtain n c' where rc: "link_Receive cv io l (Inr k) \<lparr> w_node = rt_node r, w_conn = c \<rparr> =
      Some (Inr env, \<lparr> w_node = n, w_conn = c' \<rparr>)" "arrived c' = rest" "link_live n l"
    "ordered cv (peer_net n' l' n l (insert (x25519_base cv k) used) qa qb)" "closed c' = closed c" "handed c' = handed c"
    "r_ns (sess n l) \<in> {r_ns (sess (rt_node r) l), 0}"
    by (rule link_recv [OF cv r(3) o k(2,3)])
  have "on_link p (\<lambda>l. link_Receive (sk_curve sk) (sk_conn sk) l (en_recv en)) r =
      Some (Inr env, r\<lparr> rt_node := n, rt_heap := (rt_heap r)[p := (l, c')] \<rparr>)"
    using r rc(1) sk k(1) by (simp add: on_link_def link_at_def)
  then have "recv_step sk en p r = go_seq (handle_envelope sk en p (lk_peerFP l) (peerURI l) env) (go_ret Continue)
       (r\<lparr> rt_node := n, rt_heap := (rt_heap r)[p := (l, c')] \<rparr>)"
    using r by (simp add: recv_step_def go_read_def Let_def go_either_def link_at_def)
  from this rc(2,6,5,3,7,4) show ?thesis by (rule that)
qed

end

lemmas reader_run = pion_conn.read_envelope

text \<open>A text: the event, the remembered id, and then the receipt.\<close>

definition message_event :: "link \<Rightarrow> envelope \<Rightarrow> event" where
  "message_event l e = (new_event ''message'')\<lparr> ev_peerFP := lk_peerFP l, ev_peerURI := peerURI l, ev_msgID := e_msgID e, ev_text := text_of e \<rparr>"

lemma handle_text:
  "e_type e = TypeText \<Longrightarrow> handle_envelope sk en p (lk_peerFP l) (peerURI l) e r =
     send_receipt sk en p (lk_peerFP l) (e_msgID e) (push (en_unix en 0) (message_event l e) (setLastInbound (lk_peerFP l) (e_msgID e) r))"
  by (simp add: handle_envelope_def recv_text_def message_event_def go_seq_def go_bind_def go_put_def)

lemma control_sent:
  assumes sk: "sk_curve sk = cv" "sk_conn sk = pion_conn (Inr ()) pc"
    and r: "p < length (rt_heap r)" "rt_heap r ! p = (l, c)" "\<not> pc_done c" "link_live (rt_node r) l" and env: "envelope_ok env"
    and x: "x = sent_wire cv (rt_node r) l env"
  shows "go_ignore (on_link p (\<lambda>l. encryptSendLocked (sk_curve sk) (sk_conn sk) l env)) r =
    Some (Inr (), r\<lparr> rt_node := after_send (rt_node r) l, rt_heap := (rt_heap r)[p := (l, c\<lparr> pc_sent := pc_sent c @ [payload_frame x] \<rparr>)] \<rparr>)"
  using r sk encryptSend_run [OF r(4) env, of cv "pion_conn (Inr ()) pc" c]
  by (simp add: go_ignore_def on_link_def link_at_def x pion_conn_def pion_Send_def)

lemma SendReceipt_run: "NewReceipt fp m st ids now = Inr env \<Longrightarrow> link_SendReceipt cv io l fp m st ids now = encryptSendLocked cv io l env"
  by (simp add: fun_eq_iff link_SendReceipt_def go_bind_def go_of_def)

text \<open>The envelope of a receipt.\<close>

lemma receipt_envelope:
  assumes "utf8_valid fp" "utf8_valid m" "utf8_valid st" "time_ok now"
  obtains env where "NewReceipt fp m st ids now = Inr env" "envelope_ok env" "e_type env = TypeReceipt"
    "envelope_Receipt env = Inr \<lparr> rb_refMsgID = m, rb_state = st \<rparr>"
proof -
  obtain env where env: "NewReceipt fp m st ids now = Inr env" by (simp add: NewReceipt_def)
  have "envelope_ok env" "e_type env = TypeReceipt"
    using env assms by (auto simp: NewReceipt_def TypeReceipt_def utf8_valid_ascii NewEnvelope_def intro!: NewEnvelope_ok [unfolded NewEnvelope_def])
  from env this envelope_Receipt_NewReceipt [OF assms(2,3) env] show ?thesis by (rule that)
qed

lemma receipt_sent:
  assumes sk: "sk_curve sk = cv" "sk_conn sk = pion_conn (Inr ()) pc"
    and r: "p < length (rt_heap r)" "rt_heap r ! p = (l, c)" "\<not> pc_done c"
    and o: "ordered cv (peer_net (rt_node r) l n' l' used qa qb)" "link_live (rt_node r) l"
    and ns: "unat (r_ns (sess (rt_node r) l)) + 1001 < 2 ^ 32" and t: "utf8_valid fp" "utf8_valid m" "time_ok (en_now en 0)"
  obtains env x n c' where
    "send_receipt sk en p fp m r = Some (Inr (), r\<lparr> rt_node := n, rt_heap := (rt_heap r)[p := (l, c')] \<rparr>)"
    "pc_sent c' = pc_sent c @ [payload_frame x]" "pc_in c' = pc_in c" "\<not> pc_done c'" "link_live n l"
    "ordered cv (peer_net n l n' l' used (qa @ [(x, env_bytes env)]) qb)"
    "envelope_ok env" "e_type env = TypeReceipt" "envelope_Receipt env = Inr \<lparr> rb_refMsgID = m, rb_state = StateDelivered \<rparr>"
proof -
  have st: "utf8_valid StateDelivered" by (simp add: StateDelivered_def utf8_valid_ascii)
  obtain env where env: "NewReceipt fp m StateDelivered (en_ids en 0) (en_now en 0) = Inr env" "envelope_ok env" "e_type env = TypeReceipt"
    "envelope_Receipt env = Inr \<lparr> rb_refMsgID = m, rb_state = StateDelivered \<rparr>"
    by (rule receipt_envelope [OF t(1,2) st t(3)])
  have "send_receipt sk en p fp m r = go_ignore (on_link p (\<lambda>l. encryptSendLocked (sk_curve sk) (sk_conn sk) l env)) r"
    by (simp add: send_receipt_def SendReceipt_run [OF env(1)])
  from this [unfolded control_sent [OF sk r o(2) env(2) refl]] show ?thesis
    by (rule that) (use r(3) o env peer_send [OF o ns, of env] in simp_all)
qed

section \<open>The state blob\<close>

lemma gm_put_entries: "(k', v') \<in> set (gm_put k v m) \<Longrightarrow> (k', v') = (k, v) \<or> (k', v') \<in> set m"
  by (induction m) (auto simp: gm_put_def split: if_splits)

lemma db_ok_put_blob:
  "db_ok (fs_data st) \<Longrightarrow> db_ok (fs_data (with_data (\<lambda>d. d\<lparr> db_blobs := gm_put (stateNamespace @ ''/'' @ stateKey) v (db_blobs d) \<rparr>) st))"
proof -
  assume ok: "db_ok (fs_data st)"
  have "utf8_valid (stateNamespace @ ''/'' @ stateKey)" by (simp add: stateNamespace_def stateKey_def utf8_valid_ascii)
  then have "map_ok (\<lambda>_. True) (gm_put (stateNamespace @ ''/'' @ stateKey) v (db_blobs (fs_data st)))"
    using ok gm_put_entries by (fastforce simp: db_ok_def map_ok_def)
  with ok show ?thesis by (simp add: db_ok_def with_data_def)
qed

section \<open>Properties\<close>

text \<open>C20. A received file is written directly inside the files directory whatever name the peer's offer carries:
  the path is the cleaned directory followed by one path element, which no \<open>..\<close> and no slash of the
  offered name can leave, and the file holds exactly the received bytes.\<close>

theorem saved_file_inside:
  assumes "saveFile env name data r = (Inr path, r')" "rt_filesDir r \<noteq> []"
  shows "(\<exists>base. component base \<and> path = (if clean_elements (rt_filesDir r) = [] then (if path_rooted (rt_filesDir r) then ''/'' else [])
      else path_Clean (rt_filesDir r) @ ''/'') @ base) \<and> rt_files r' = rt_files r @ [(path, data)]"
proof -
  let ?b = "int_string (en_nano env) @ CHR ''-'' # file_base name"
  have "path = path_Join (rt_filesDir r) ?b" "rt_files r' = rt_files r @ [(path, data)]"
    using assms(1) by (auto simp: saveFile_def Let_def split: sum.splits option.splits)
  with path_Join_component [OF assms(2) saved_name_component, of "en_nano env" name] saved_name_component show ?thesis by auto
qed

theorem saved_file_inside_witness:
  "\<exists>path r'. saveFile toy_step_env ''../../etc/passwd'' [1] ((eg_rt toy_engine)\<lparr> rt_filesDir := ''/data/files'' \<rparr>) = (Inr path, r') \<and>
     path = ''/data/files/5-passwd'' \<and> (\<exists>base. component base \<and> path = ''/data/files'' @ ''/'' @ base)"
proof -
  let ?r = "(eg_rt toy_engine)\<lparr> rt_filesDir := ''/data/files'' \<rparr>"
  have c: "clean_elements ''/data/files'' = [''data'', ''files'']" "path_rooted ''/data/files''" "path_Clean ''/data/files'' = ''/data/files''"
    by code_simp+
  have p: "path_Join ''/data/files'' (int_string 5 @ CHR ''-'' # file_base ''../../etc/passwd'') = ''/data/files/5-passwd''" by code_simp
  have s: "saveFile toy_step_env ''../../etc/passwd'' [1] ?r = (Inr ''/data/files/5-passwd'', ?r\<lparr> rt_files := rt_files ?r @ [(''/data/files/5-passwd'', [1])] \<rparr>)"
    using p by (simp add: saveFile_def toy_step_env_def Let_def)
  from saved_file_inside [OF s] c have "\<exists>base. component base \<and> ''/data/files/5-passwd'' = ''/data/files'' @ ''/'' @ base" by auto
  with s show ?thesis by blast
qed

text \<open>C27. Stopping is final: the first \<open>Stop\<close> of a well-formed runtime returns, marks it closed, unregisters every
  link and closes the connection of each link that was registered; every later \<open>Stop\<close> does nothing.\<close>

theorem stop_closes_links:
  assumes ok: "rt_ok r" "\<not> rt_closed r" and sk: "sk_conn sk = pion_conn dc pc" and sig: "sg_Close (sk_sig sk) (rt_sig r) \<noteq> None"
  shows "\<exists>r'. rt_Stop sk r = Some (Inr (), r') \<and> rt_closed r' \<and> rt_links r' = [] \<and>
    (\<forall>fp p. getLink r fp = Some p \<longrightarrow> pc_done (snd (rt_heap r' ! p))) \<and> rt_Stop sk' r' = Some (Inr (), r')"
proof -
  let ?r = "r\<lparr> rt_closed := True, rt_links := [] \<rparr>"
  have p: "p \<in> set (gm_values (rt_links r)) \<and> p < length (rt_heap r)" if "getLink r fp = Some p" for fp p
    using that ok(1) gm_values_iff [of "rt_links r" p] by (auto simp: rt_ok_def getLink_def)
  have "\<forall>p \<in> set (gm_values (rt_links r)). p < length (rt_heap ?r)"
    using ok(1) gm_values_iff [of "rt_links r"] by (auto simp: rt_ok_def)
  from pion_conn.close_all_run [OF sk this] obtain r1 where r1: "close_all sk (gm_values (rt_links r)) ?r = Some (Inr (), r1)"
    "\<And>p. p < length (rt_heap ?r) \<Longrightarrow> p \<in> set (gm_values (rt_links r)) \<or> pc_done (snd (rt_heap ?r ! p)) \<Longrightarrow> pc_done (snd (rt_heap r1 ! p))"
    "rt_closed r1" "rt_links r1 = []"
    by auto
  have s1: "rt_sig r1 = rt_sig r" using close_all_sig [OF r1(1)] by simp
  obtain y g where g: "sg_Close (sk_sig sk) (rt_sig r) = Some (y, g)" using sig by auto
  let ?r2 = "r1\<lparr> rt_sig := g \<rparr>"
  have "rt_Stop sk r = Some (Inr (), ?r2)"
    using ok(2) r1(1) g s1 by (simp add: rt_Stop_def go_read_def go_seq_def go_bind_run go_ignore_def on_rt_sig_def go_on_def go_put_def)
  moreover have "rt_Stop sk' ?r2 = Some (Inr (), ?r2)" using r1(3) by (simp add: rt_Stop_def go_read_def go_ret_def)
  ultimately show ?thesis using r1 p by (intro exI [of _ ?r2]) auto
qed

theorem stop_closes_links_witness:
  "\<exists>(r :: (pionConn, fabric) runtime) r'. getLink r ''bob'' = Some 0 \<and> \<not> pc_done (snd (rt_heap r ! 0)) \<and>
     rt_Stop toy_stack r = Some (Inr (), r') \<and> rt_closed r' \<and> rt_links r' = [] \<and> pc_done (snd (rt_heap r' ! 0))"
proof -
  define l where "l = \<lparr> lk_session = 0, lk_peerFP = ''bob'', lk_peerKey = [1] \<rparr>"
  define r where "r = (eg_rt toy_engine)\<lparr> rt_links := [(''bob'', 0)], rt_heap := [(l, newPionConn)], rt_readers := [0] \<rparr>"
  have ok: "rt_ok r" "\<not> rt_closed r" "getLink r ''bob'' = Some 0" "\<not> pc_done (snd (rt_heap r ! 0))"
    by (auto simp: rt_ok_def r_def l_def getLink_def link_at_def newPionConn_def toy_engine_def engine_start_def StartWith_def gm_get_def gm_ok_def
        split: if_splits)
  have k: "sk_conn toy_stack = pion_conn (Inr ()) (Inr ())" by (simp add: toy_stack_def)
  have g: "sg_Close (sk_sig toy_stack) (rt_sig r) \<noteq> None"
    by (simp add: toy_stack_def mem_signaler_def mem_Close_def)
  from stop_closes_links [OF ok(1,2) k g, of toy_stack] ok(3,4) show ?thesis by blast
qed

text \<open>A link that is established while \<open>Stop\<close> runs escapes it: a \<open>Listen\<close> that was waiting and succeeds after the
  runtime was closed has its link registered and read as before, and every later \<open>Stop\<close> leaves it open.\<close>

theorem late_link_escapes_stop:
  assumes "rt_ok r" "rt_closed r" "rt_listener r = Waiting" "rt_Listen sk r = Some (Inr p, r1)" "rt_links r = []"
  shows "\<exists>r'. listen_step sk env r = Some (Inr (), r') \<and> rt_closed r' \<and> getLink r' (lk_peerFP (link_at r1 p)) = Some p \<and>
    p \<in> set (rt_readers r') \<and> rt_heap r' = rt_heap r1 \<and> rt_Stop sk' r' = Some (Inr (), r')"
proof -
  have r1: "rt_links r1 = []" "rt_closed r1"
    using assms(2,4,5) by (auto simp: rt_Listen_def go_read_def new_object_def split: option.splits sum.splits)
  then have "\<exists>r'. listen_step sk env r = Some (Inr (), r') \<and> rt_closed r' \<and> getLink r' (lk_peerFP (link_at r1 p)) = Some p \<and>
      p \<in> set (rt_readers r') \<and> rt_heap r' = rt_heap r1"
    using assms(3,4)
    by (simp add: listen_step_def go_read_def go_either_def adopt_def Let_def go_seq_def go_bind_def go_put_def go_ret_def push_def getLink_def)
  then show ?thesis by (auto simp: rt_Stop_def go_read_def go_ret_def)
qed

text \<open>C17. The app's state survives a restart: after \<open>SaveState\<close> has returned without an error, \<open>LoadState\<close> gives
  back exactly the saved text, and so does the \<open>LoadState\<close> of any runtime whose node has the store that
  opening the written file with the same key gives.\<close>

theorem state_survives_restart:
  fixes r r' :: "('c, 'g) runtime"
  assumes st: "nd_store (rt_node r) = Some st" "db_ok (fs_data st)" "length (fs_key st) = 32" "fs_path st \<noteq> []"
    and save: "rt_SaveState fe json r = (Inr (), r')" "fe_nonce fe = Inr n" "length n = 12"
  shows "rt_LoadState r' = json \<and>
    (\<exists>sealed t. map_option fs_disk (nd_store (rt_node r')) = Some (Some sealed) \<and>
       openFileStore (fs_path st) (fs_key st) (Inr ()) (Content sealed) = Inr t \<and>
       (\<forall>q :: ('c, 'g) runtime. nd_store (rt_node q) = Some t \<longrightarrow> rt_LoadState q = json))"
proof -
  let ?k = "stateNamespace @ ''/'' @ stateKey" and ?v = "if to_bytes json = [] then None else Some (to_bytes json)"
  let ?st = "with_data (\<lambda>d. d\<lparr> db_blobs := gm_put ?k ?v (db_blobs d) \<rparr>) st"
  obtain st' where f: "flush fe ?st = (Inr (), st')" and r': "r' = set_store st' r"
    using save(1) st(1) by (auto simp: rt_SaveState_def SaveBlob_def split: prod.splits)
  have ok: "db_ok (fs_data ?st)" using st(2) by (rule db_ok_put_blob)
  have key: "length (fs_key ?st) = 32" "fs_path ?st \<noteq> []" "fs_path ?st = fs_path st" "fs_key ?st = fs_key st"
    using st(3,4) by (simp_all add: with_data_def)
  obtain sealed where w: "fs_disk st' = Some sealed" "fs_data st' = fs_data ?st"
    "openFileStore (fs_path ?st) (fs_key ?st) (Inr ()) (Content sealed) =
       Inr \<lparr> fs_path = fs_path ?st, fs_key = fs_key ?st, fs_data = db_canon (fs_data ?st), fs_disk = Some sealed \<rparr>"
    using flush_open [OF f ok save(2,3) key(1,2)] by blast
  have "to_bytes json = [] \<longleftrightarrow> json = []" "of_bytes [] = []" by (simp_all add: to_bytes_def of_bytes_def)
  then have v: "of_bytes (slice_list ?v) = json" by (simp add: slice_list_def)
  have blobs: "gm_get (sort_keys (db_blobs (fs_data ?st))) = gm_get (db_blobs (fs_data ?st))"
    using ok sort_keys_get [of "db_blobs (fs_data ?st)"] by (simp add: db_ok_def map_ok_def)
  have load: "LoadBlob t stateNamespace stateKey = Inr (slice_list ?v)"
    if "gm_get (db_blobs (fs_data t)) = gm_get (db_blobs (fs_data ?st))" for t
    using that by (simp add: LoadBlob_def with_data_def)
  have "rt_LoadState r' = json" using r' load [of st'] w(2) v by (simp add: rt_LoadState_def set_store_def)
  moreover define t where "t = \<lparr> fs_path = fs_path ?st, fs_key = fs_key ?st, fs_data = db_canon (fs_data ?st), fs_disk = Some sealed \<rparr>"
  have "rt_LoadState q = json" if "nd_store (rt_node q) = Some t" for q :: "('c, 'g) runtime"
    using that load [of t] blobs v by (simp add: rt_LoadState_def db_canon_def t_def)
  moreover have "openFileStore (fs_path st) (fs_key st) (Inr ()) (Content sealed) = Inr t" using w(3) key(3,4) by (simp add: t_def)
  moreover have "map_option fs_disk (nd_store (rt_node r')) = Some (Some sealed)" using w(1) r' by (simp add: set_store_def)
  ultimately show ?thesis by blast
qed

theorem state_survives_restart_witness:
  "\<exists>r' sealed t. rt_SaveState toy_env ''hi'' ((eg_rt toy_engine)\<lparr> rt_node := (toy_node 1)\<lparr> nd_store := Some toy_store \<rparr> \<rparr>) = (Inr (), r') \<and>
     rt_LoadState r' = ''hi'' \<and> openFileStore ''db'' (replicate 32 1) (Inr ()) (Content sealed) = Inr t"
proof -
  let ?r = "(eg_rt toy_engine)\<lparr> rt_node := (toy_node 1)\<lparr> nd_store := Some toy_store \<rparr> \<rparr>"
  have st: "nd_store (rt_node ?r) = Some toy_store" "db_ok (fs_data toy_store)" "length (fs_key toy_store) = 32" "fs_path toy_store \<noteq> []"
    by (simp_all add: toy_store_def db_ok_def empty_db_def map_ok_def)
  obtain r' where s: "rt_SaveState toy_env ''hi'' ?r = (Inr (), r')"
    using db_times [OF db_ok_put_blob [OF st(2), of "Some (to_bytes ''hi'')"]]
    by (cases "rt_SaveState toy_env ''hi'' ?r")
       (auto simp: rt_SaveState_def SaveBlob_def flush_def toy_env_def vault_Seal_def newGCM_def KeySize_def st(3) with_data_def
         to_bytes_def toy_store_def split: prod.splits sum.splits)
  have e: "fe_nonce toy_env = Inr (replicate 12 2)" "fs_path toy_store = ''db''" "fs_key toy_store = replicate 32 1"
    by (simp_all add: toy_env_def toy_store_def)
  from state_survives_restart [OF st s e(1)] s show ?thesis unfolding e by auto
qed

text \<open>A text travels from engine to engine. The sender's worker holds a request over an open link; the
  receiver's reader waits on the other end. The worker's step returns and reports \<open>sent\<close> for the
  request's id; when the frame it handed to the data channel arrives, the reader's step returns and
  reports a \<open>message\<close> event with the same id and exactly the same text, under the fingerprint and the
  contact URI of the link's peer, and remembers the id for the read receipt.\<close>

theorem text_between_engines:
  fixes ra :: "(pionConn, 'g) runtime" and skb :: "(pionConn, 'h) stack"
  assumes cv: "curve_ok cv" and ska: "sk_curve ska = cv" "sk_conn ska = pion_conn (Inr ()) pc"
    and skb: "sk_curve skb = cv" "sk_conn skb = pion_conn dc pc'"
    and a: "rt_worker ra = Sending q fp pa" "pa < length (rt_heap ra)" "\<not> pc_done (snd (rt_heap ra ! pa))"
    and linked: "pion_linked cv (rt_node ra) (link_at ra pa) nb lb used"
    and ns: "unat (r_ns (sess (rt_node ra) (link_at ra pa))) + 1001 < 2 ^ 32"
    and q: "rq_filePath q = []" "utf8_valid (rq_text q)" "rq_msgID q \<noteq> []" "utf8_valid (rq_msgID q)"
    and fp: "utf8_valid fp" "time_ok (en_now enva 0)"
    and k: "en_recv envb = Inr k" "length k = 32" "x25519_base cv k \<notin> used"
  shows "\<exists>ra' frame. worker_step ska enva pick ra = Some (Inr (), ra') \<and> rt_worker ra' = Idle \<and>
    rt_events ra' = rt_events ra @ [(new_event ''sent'')\<lparr> ev_peerFP := fp, ev_msgID := rq_msgID q, ev_time := en_unix enva 0 \<rparr>] \<and>
    pc_sent (snd (rt_heap ra' ! pa)) = pc_sent (snd (rt_heap ra ! pa)) @ [frame] \<and>
    (\<forall>rb pb cb rest. rt_node rb = nb \<longrightarrow> pb < length (rt_heap rb) \<longrightarrow> rt_heap rb ! pb = (lb, cb) \<longrightarrow> pc_in cb = frame # rest \<longrightarrow>
      (\<exists>rb'. recv_step skb envb pb rb = Some (Inr Continue, rb') \<and>
        rt_events rb' = rt_events rb @ [(new_event ''message'')\<lparr> ev_peerFP := lk_peerFP lb, ev_peerURI := peerURI lb,
          ev_msgID := rq_msgID q, ev_text := rq_text q, ev_time := en_unix envb 0 \<rparr>] \<and>
        gm_get (rt_lastIn rb') (lk_peerFP lb) = Some (rq_msgID q)))"
proof -
  let ?la = "link_at ra pa" and ?c = "snd (rt_heap ra ! pa)"
  have h: "rt_heap ra ! pa = (?la, ?c)" by (simp add: link_at_def)
  have live: "link_live (rt_node ra) ?la" "link_live nb lb" and o: "ordered cv (peer_net (rt_node ra) ?la nb lb used [] [])"
    using linked by (simp_all add: pion_linked_def)
  obtain e x na' c' where s: "worker_step ska enva pick ra =
       Some (Inr (), send_done (en_unix enva 0) fp q (ra\<lparr> rt_node := na', rt_heap := (rt_heap ra)[pa := (?la, c')] \<rparr>))"
    "pc_sent c' = pc_sent ?c @ [payload_frame x]" "ordered cv (peer_net na' ?la nb lb used ([] @ [(x, env_bytes e)]) [])"
    and e: "envelope_ok e" "e_type e = TypeText" "e_msgID e = rq_msgID q" "text_of e = rq_text q"
    by (rule text_sent [OF ska a(1,2) h a(3) o live(1) ns q fp])
  have r: "\<exists>rb'. recv_step skb envb pb rb = Some (Inr Continue, rb') \<and>
      rt_events rb' = rt_events rb @ [(new_event ''message'')\<lparr> ev_peerFP := lk_peerFP lb, ev_peerURI := peerURI lb,
        ev_msgID := rq_msgID q, ev_text := rq_text q, ev_time := en_unix envb 0 \<rparr>] \<and> gm_get (rt_lastIn rb') (lk_peerFP lb) = Some (rq_msgID q)"
    if rb: "rt_node rb = nb" "pb < length (rt_heap rb)" "rt_heap rb ! pb = (lb, cb)" and arr: "pc_in cb = payload_frame x # rest"
    for rb :: "(pionConn, 'h) runtime" and pb cb rest
  proof -
    have o2: "ordered cv (peer_net na' ?la (rt_node rb) lb used ((x, env_bytes e) # []) [])" "link_live (rt_node rb) lb"
      using s(3) live(2) rb(1) by simp_all
    obtain nb' cb' where r1: "recv_step skb envb pb rb = go_seq (handle_envelope skb envb pb (lk_peerFP lb) (peerURI lb) e) (go_ret Continue)
        (rb\<lparr> rt_node := nb', rt_heap := (rt_heap rb)[pb := (lb, cb')] \<rparr>)"
      by (rule reader_run [OF cv skb rb(2,3) arr o2 e(1) k])
    let ?r = "push (en_unix envb 0) (message_event lb e) (setLastInbound (lk_peerFP lb) (e_msgID e) (rb\<lparr> rt_node := nb', rt_heap := (rt_heap rb)[pb := (lb, cb')] \<rparr>))"
    obtain rb' where "send_receipt skb envb pb (lk_peerFP lb) (e_msgID e) ?r = Some (Inr (), rb')"
      "rt_events rb' = rt_events ?r" "rt_lastIn rb' = rt_lastIn ?r"
      using receipt_returns [OF skb(2), of pb ?r envb "lk_peerFP lb" "e_msgID e"] rb(2) by (auto simp: push_def setLastInbound_def)
    with r1 e(2-4) show ?thesis
      by (simp add: handle_text go_seq_def go_bind_def go_ret_def push_def setLastInbound_def message_event_def)
  qed
  show ?thesis
    by (intro exI [of _ "send_done (en_unix enva 0) fp q (ra\<lparr> rt_node := na', rt_heap := (rt_heap ra)[pa := (?la, c')] \<rparr>)"] exI [of _ "payload_frame x"])
       (use s(1,2) r a(2) in \<open>auto simp: send_done_def push_def\<close>)
qed

theorem text_between_engines_witness:
  "\<exists>(ra :: (pionConn, fabric) runtime) (rb :: (pionConn, fabric) runtime) ra' rb'.
     worker_step toy_stack toy_step_env False ra = Some (Inr (), ra') \<and> map ev_kind (rt_events ra') = [''sent''] \<and>
     recv_step toy_stack toy_step_env 0 rb = Some (Inr Continue, rb') \<and>
     map (\<lambda>e. (ev_kind e, ev_msgID e, ev_text e)) (rt_events rb') = [(''message'', ''m'', ''hi'')]"
proof -
  obtain na la nb lb where l: "pion_linked toy_curve na la nb lb (used_keys toy_curve (toy_node 2) (replicate 32 6))" "r_ns (sess na la) = 0"
    by (rule toy_linked)
  define ra where "ra = (eg_rt toy_engine)\<lparr> rt_node := na, rt_heap := [(la, newPionConn)], rt_worker := Sending toy_request ''fp'' 0 \<rparr>"
  have a: "rt_worker ra = Sending toy_request ''fp'' 0" "0 < length (rt_heap ra)" "\<not> pc_done (snd (rt_heap ra ! 0))" "rt_events ra = []"
    "rt_node ra = na" "link_at ra 0 = la"
    by (simp_all add: ra_def newPionConn_def link_at_def toy_engine_def engine_start_def StartWith_def)
  have sk: "sk_curve toy_stack = toy_curve" "sk_conn toy_stack = pion_conn (Inr ()) (Inr ())" by (simp_all add: toy_stack_def)
  have e: "en_recv toy_step_env = Inr (toy_draws 0)" "en_now toy_step_env 0 = zero_time" by (simp_all add: toy_step_env_def toy_draws_def)
  have t: "time_ok zero_time" by (rule time_ok_zero)
  have q: "rq_filePath toy_request = []" "utf8_valid (rq_text toy_request)" "rq_msgID toy_request \<noteq> []" "utf8_valid (rq_msgID toy_request)"
    by (simp_all add: toy_request_def utf8_valid_ascii)
  have k: "length (toy_draws 0) = 32" "x25519_base toy_curve (toy_draws 0) \<notin> used_keys toy_curve (toy_node 2) (replicate 32 6)"
    using toy_draws_fresh by (simp_all add: fresh_from_def)
  have lk: "pion_linked toy_curve (rt_node ra) (link_at ra 0) nb lb (used_keys toy_curve (toy_node 2) (replicate 32 6))"
    and ns: "unat (r_ns (sess (rt_node ra) (link_at ra 0))) + 1001 < 2 ^ 32" and u: "utf8_valid ''fp''" "time_ok (en_now toy_step_env 0)"
    using l a(5,6) t e(2) by (simp_all add: utf8_valid_ascii)
  obtain ra' frame where w: "worker_step toy_stack toy_step_env False ra = Some (Inr (), ra')"
    "rt_events ra' = rt_events ra @ [(new_event ''sent'')\<lparr> ev_peerFP := ''fp'', ev_msgID := rq_msgID toy_request, ev_time := en_unix toy_step_env 0 \<rparr>]"
    and r: "\<forall>(rb :: (pionConn, fabric) runtime) pb cb rest. rt_node rb = nb \<longrightarrow> pb < length (rt_heap rb) \<longrightarrow> rt_heap rb ! pb = (lb, cb) \<longrightarrow> pc_in cb = frame # rest \<longrightarrow>
      (\<exists>rb'. recv_step toy_stack toy_step_env pb rb = Some (Inr Continue, rb') \<and>
        rt_events rb' = rt_events rb @ [(new_event ''message'')\<lparr> ev_peerFP := lk_peerFP lb, ev_peerURI := peerURI lb,
          ev_msgID := rq_msgID toy_request, ev_text := rq_text toy_request, ev_time := en_unix toy_step_env 0 \<rparr>] \<and>
        gm_get (rt_lastIn rb') (lk_peerFP lb) = Some (rq_msgID toy_request))"
    using text_between_engines [OF toy_curve_ok sk sk a(1-3) lk ns q u e(1) k, of False] by blast
  define rb where "rb = (eg_rt toy_engine)\<lparr> rt_node := nb, rt_heap := [(lb, newPionConn\<lparr> pc_in := [frame] \<rparr>)] \<rparr>"
  have b: "rt_node rb = nb" "0 < length (rt_heap rb)" "rt_heap rb ! 0 = (lb, newPionConn\<lparr> pc_in := [frame] \<rparr>)" "rt_events rb = []"
    by (simp_all add: rb_def toy_engine_def engine_start_def StartWith_def)
  obtain rb' where rb': "recv_step toy_stack toy_step_env 0 rb = Some (Inr Continue, rb')"
    "rt_events rb' = rt_events rb @ [(new_event ''message'')\<lparr> ev_peerFP := lk_peerFP lb, ev_peerURI := peerURI lb,
      ev_msgID := rq_msgID toy_request, ev_text := rq_text toy_request, ev_time := en_unix toy_step_env 0 \<rparr>]"
    using r [rule_format, OF b(1-3), of "[]"] by auto
  show ?thesis
    by (intro exI [of _ ra] exI [of _ rb] exI [of _ ra'] exI [of _ rb'])
       (use w rb' a(4) b(4) in \<open>simp add: new_event_def toy_request_def\<close>)
qed

end
