(* ===== verification/First_Contact.thy ===== *)
theory First_Contact
  imports Runtime_Delivery
begin

text \<open>
  Two engines that have never met. One is given the contact URI of the other and a text; its send worker
  finds the peer, dials, runs the handshake and sends, while the listener of the other accepts, runs its
  side of the handshake and starts a reader. The theorem follows the frames between them: what one
  engine hands to its data channel is what the other one's connection object delivers.
\<close>

section \<open>The steps of the two engines\<close>

lemma Fingerprint_utf8: "utf8_valid (Fingerprint k)"
proof (rule utf8_valid_ascii)
  have "set (Fingerprint k) \<subseteq> insert (CHR '' '') (set b32_std)"
    using b32_encode_chars [of "sha256 k"]
    by (auto simp: Fingerprint_def group_str_def dest!: set_zip_rightD split: if_splits)
  then show "\<forall>c \<in> set (Fingerprint k). of_char c < (128 :: nat)" by (auto simp: b32_std_def)
qed

definition presence_event :: "link \<Rightarrow> event" where
  "presence_event l = (new_event ''presence'')\<lparr> ev_peerFP := lk_peerFP l, ev_peerURI := peerURI l, ev_online := True \<rparr>"

lemma Connect_run:
  assumes "sg_Find (sk_sig sk) (DiscoveryKey key (rt_salt r)) (rt_sig r) = Some (Inr peer, g1)"
    and "sk_dial sk (pi_peerID peer) g1 = Some (Inr c, g2)"
    and "handshakeInitiator (sk_curve sk) (sk_conn sk) key (en_eph env) (en_ratchet env) \<lparr> w_node = rt_node r, w_conn = c \<rparr> =
      Some (Inr l, \<lparr> w_node = n, w_conn = c' \<rparr>)"
  shows "rt_Connect sk env key r = Some (Inr (length (rt_heap r)), r\<lparr> rt_node := n, rt_sig := g2, rt_heap := rt_heap r @ [(l, c')] \<rparr>)"
  using assms by (simp add: rt_Connect_def go_read_def new_object_def node_Connect_def go_bind_def on_snd_def go_on_def with_conn_def)

lemma Listen_run:
  assumes "sg_Advertise (sk_sig sk) (DiscoveryKey (node_key (rt_node r)) (rt_salt r)) (rt_sig r) = Some (Inr (), g1)"
    and "sk_accept sk g1 = Some (Inr c, g2)"
    and "responder_hello (sk_curve sk) (sk_conn sk) \<lparr> w_node = rt_node r, w_conn = c \<rparr> = Some (Inr (), w)"
    and "responder_finish (sk_curve sk) (sk_conn sk) w = Some (Inr l, \<lparr> w_node = n, w_conn = c' \<rparr>)"
  shows "rt_Listen sk r = Some (Inr (length (rt_heap r)), r\<lparr> rt_node := n, rt_sig := g2, rt_heap := rt_heap r @ [(l, c')] \<rparr>)"
  using assms
  by (simp add: rt_Listen_def go_read_def new_object_def node_Listen_def go_bind_def go_get_def on_snd_def go_on_def with_conn_def handshakeResponder_def)

lemma adopt_new:
  assumes "p < length (rt_heap r)" "rt_heap r ! p = (l, c)" "getLink r (lk_peerFP l) = None"
  shows "adopt sk now p r = Some (Inr (), push now (presence_event l)
    (r\<lparr> rt_links := gm_put (lk_peerFP l) p (rt_links r), rt_readers := rt_readers r @ [p] \<rparr>))"
  using assms
  by (simp add: adopt_def go_read_def link_at_def getLink_def Let_def go_seq_def go_bind_def go_ret_def go_put_def presence_event_def)

text \<open>The caller from the request to the open link.\<close>

lemma caller_connects:
  fixes env :: "nat \<Rightarrow> step_env"
  assumes r: "\<not> rt_closed r" "rt_worker r = Idle" "rt_outbox r = []" "getLink r (Fingerprint key) = None" and key: "length key = 32"
    and q: "q = \<lparr> rq_peerURI = contact_URI handle key, rq_text = text, rq_msgID = m, rq_filePath = [] \<rparr>"
    and c: "rt_Connect sk (env 1) key (r\<lparr> rt_worker := Connecting q (Fingerprint key) key 0 \<rparr>) =
      Some (Inr (length (rt_heap r)), r\<lparr> rt_worker := Connecting q (Fingerprint key) key 0, rt_node := n, rt_sig := g, rt_heap := rt_heap r @ [(l, c)] \<rparr>)"
    and l: "lk_peerFP l = Fingerprint key"
  shows "go_seq (rt_Send pick (contact_URI handle key) text m) (go_seq (worker_step sk (env 0) pk) (worker_step sk (env 1) pk)) r =
    Some (Inr (), (push (en_unix (env 1) 0) (presence_event l) (r\<lparr> rt_node := n, rt_sig := g, rt_heap := rt_heap r @ [(l, c)],
      rt_links := gm_put (lk_peerFP l) (length (rt_heap r)) (rt_links r), rt_readers := rt_readers r @ [length (rt_heap r)] \<rparr>))
      \<lparr> rt_worker := Sending q (Fingerprint key) (length (rt_heap r)) \<rparr>)"
proof -
  let ?r1 = "r\<lparr> rt_outbox := [q] \<rparr>" and ?r2 = "r\<lparr> rt_worker := Connecting q (Fingerprint key) key 0 \<rparr>"
  have s1: "rt_Send pick (contact_URI handle key) text m r = Some (Inr (), ?r1)"
    using r by (simp add: rt_Send_def enqueue_def q outbox_cap_def)
  have s2: "worker_step sk (env 0) pk ?r1 = Some (Inr (), ?r2)"
    using r by (simp add: worker_step_def go_read_def go_put_def deliver_begin_def q ParseURI_URI [OF key] contact_New_def getLink_def Let_def)
  let ?r3 = "?r2\<lparr> rt_node := n, rt_sig := g, rt_heap := rt_heap r @ [(l, c)] \<rparr>"
  have "getLink ?r3 (lk_peerFP l) = None" using r(4) l by (simp add: getLink_def)
  from adopt_new [of "length (rt_heap r)" ?r3, OF _ _ this] have ad: "adopt sk (en_unix (env 1) 0) (length (rt_heap r)) ?r3 =
      Some (Inr (), push (en_unix (env 1) 0) (presence_event l) (?r3\<lparr> rt_links := gm_put (lk_peerFP l) (length (rt_heap r)) (rt_links r),
        rt_readers := rt_readers r @ [length (rt_heap r)] \<rparr>))" by simp
  show ?thesis
    using r(1) c ad
    by (simp add: go_seq_def go_bind_def s1 s2, simp add: worker_step_def go_read_def deliver_attempt_def go_either_def go_seq_def go_bind_def go_put_def push_def)
qed

text \<open>The listener from its wait to the running reader.\<close>

lemma listener_accepts:
  assumes "rt_listener r = Waiting" "rt_Listen sk r = Some (Inr (length (rt_heap r)), r\<lparr> rt_node := n, rt_sig := g, rt_heap := rt_heap r @ [(l, c)] \<rparr>)"
    and "getLink r (lk_peerFP l) = None"
  shows "listen_step sk env r = Some (Inr (), (push (en_unix env 0) (presence_event l) (r\<lparr> rt_node := n, rt_sig := g,
    rt_heap := rt_heap r @ [(l, c)], rt_links := gm_put (lk_peerFP l) (length (rt_heap r)) (rt_links r),
    rt_readers := rt_readers r @ [length (rt_heap r)] \<rparr>))\<lparr> rt_listener := AtHead \<rparr>)"
proof -
  let ?r = "r\<lparr> rt_node := n, rt_sig := g, rt_heap := rt_heap r @ [(l, c)] \<rparr>"
  have "getLink ?r (lk_peerFP l) = None" using assms(3) by (simp add: getLink_def)
  from adopt_new [of "length (rt_heap r)" ?r, OF _ _ this] show ?thesis
    using assms(1,2) by (simp add: listen_step_def go_read_def go_either_def go_seq_def go_bind_def go_put_def)
qed

text \<open>A frame that the data channel delivers to the connection of a link.\<close>

definition frame_arrives :: "nat \<Rightarrow> bytes \<Rightarrow> (pionConn, 'g) runtime \<Rightarrow> (pionConn, 'g) runtime option" where
  "frame_arrives p b r = map_option (\<lambda>c. r\<lparr> rt_heap := (rt_heap r)[p := (link_at r p, c)] \<rparr>) (pion_onMessage False b (snd (rt_heap r ! p)))"

section \<open>The two sides\<close>

text \<open>The caller's four steps, given its side of the handshake.\<close>

lemma caller_sends:
  fixes r :: "(pionConn, 'g) runtime" and env :: "nat \<Rightarrow> step_env"
  assumes sk: "sk_curve sk = cv" "sk_conn sk = pion_conn (Inr ()) pc"
    and r: "\<not> rt_closed r" "rt_worker r = Idle" "rt_outbox r = []" "getLink r (Fingerprint key) = None" and key: "length key = 32"
    and find: "sg_Find (sk_sig sk) (DiscoveryKey key (rt_salt r)) (rt_sig r) = Some (Inr peer, g1)"
    and dial: "sk_dial sk (pi_peerID peer) g1 = Some (Inr c0, g2)"
    and hs: "handshakeInitiator cv (pion_conn (Inr ()) pc) key (en_eph (env 1)) (en_ratchet (env 1)) \<lparr> w_node = rt_node r, w_conn = c0 \<rparr> =
      Some (Inr l, \<lparr> w_node = n, w_conn = c \<rparr>)" "lk_peerFP l = Fingerprint key" "\<not> pc_done c"
    and o: "ordered cv (peer_net n l n' l' used [] [])" "link_live n l" "r_ns (sess n l) = 0"
    and m: "utf8_valid text" "m \<noteq> []" "utf8_valid m" "time_ok (en_now (env 2) 0)"
  obtains r' e x na c' where
    "go_seq (rt_Send pick (contact_URI handle key) text m)
       (go_seq (worker_step sk (env 0) pk) (go_seq (worker_step sk (env 1) pk) (worker_step sk (env 2) pk))) r = Some (Inr (), r')"
    "rt_events r' = rt_events r @ [(presence_event l)\<lparr> ev_time := en_unix (env 1) 0 \<rparr>,
       (new_event ''sent'')\<lparr> ev_peerFP := Fingerprint key, ev_msgID := m, ev_time := en_unix (env 2) 0 \<rparr>]"
    "rt_heap r' = rt_heap r @ [(l, c')]" "rt_node r' = na" "rt_worker r' = Idle" "getLink r' (Fingerprint key) = Some (length (rt_heap r))"
    "length (rt_heap r) \<in> set (rt_readers r')"
    "pc_sent c' = pc_sent c @ [payload_frame x]" "pc_in c' = pc_in c" "\<not> pc_done c'" "link_live na l"
    "ordered cv (peer_net na l n' l' used [(x, env_bytes e)] [])"
    "envelope_ok e" "e_type e = TypeText" "e_msgID e = m" "text_of e = text"
proof -
  let ?q = "\<lparr> rq_peerURI = contact_URI handle key, rq_text = text, rq_msgID = m, rq_filePath = [] \<rparr>" and ?p = "length (rt_heap r)"
  have "rt_Connect sk (env 1) key (r\<lparr> rt_worker := Connecting ?q (Fingerprint key) key 0 \<rparr>) =
      Some (Inr ?p, r\<lparr> rt_worker := Connecting ?q (Fingerprint key) key 0, rt_node := n, rt_sig := g2, rt_heap := rt_heap r @ [(l, c)] \<rparr>)"
    using Connect_run [of sk key "r\<lparr> rt_worker := Connecting ?q (Fingerprint key) key 0 \<rparr>" peer g1 c0 g2 "env 1" l n c] find dial hs(1) sk by simp
  note run = caller_connects [where env = env and pick = pick and pk = pk, OF r key refl this hs(2)]
  let ?r3 = "(push (en_unix (env 1) 0) (presence_event l) (r\<lparr> rt_node := n, rt_sig := g2, rt_heap := rt_heap r @ [(l, c)],
      rt_links := gm_put (lk_peerFP l) ?p (rt_links r), rt_readers := rt_readers r @ [?p] \<rparr>))\<lparr> rt_worker := Sending ?q (Fingerprint key) ?p \<rparr>"
  have s3: "rt_worker ?r3 = Sending ?q (Fingerprint key) ?p" "?p < length (rt_heap ?r3)" "rt_heap ?r3 ! ?p = (l, c)" "rt_node ?r3 = n"
    by (simp_all add: push_def)
  obtain e x na c' where s: "worker_step sk (env 2) pk ?r3 =
       Some (Inr (), send_done (en_unix (env 2) 0) (Fingerprint key) ?q (?r3\<lparr> rt_node := na, rt_heap := (rt_heap ?r3)[?p := (l, c')] \<rparr>))"
    and c': "pc_sent c' = pc_sent c @ [payload_frame x]" "pc_in c' = pc_in c" "\<not> pc_done c'" "link_live na l"
    "ordered cv (peer_net na l n' l' used ([] @ [(x, env_bytes e)]) [])"
    and e: "envelope_ok e" "e_type e = TypeText" "e_msgID e = rq_msgID ?q" "text_of e = rq_text ?q"
    by (rule text_sent [OF sk s3(1-3) hs(3), unfolded s3(4), OF o(1,2) _ _ _ _ _ Fingerprint_utf8 m(4), where pick = pk]) (use o(3) m in simp_all)
  let ?r4 = "send_done (en_unix (env 2) 0) (Fingerprint key) ?q (?r3\<lparr> rt_node := na, rt_heap := (rt_heap ?r3)[?p := (l, c')] \<rparr>)"
  have "go_seq (rt_Send pick (contact_URI handle key) text m)
       (go_seq (worker_step sk (env 0) pk) (go_seq (worker_step sk (env 1) pk) (worker_step sk (env 2) pk))) r =
     go_seq (go_seq (rt_Send pick (contact_URI handle key) text m) (go_seq (worker_step sk (env 0) pk) (worker_step sk (env 1) pk))) (worker_step sk (env 2) pk) r"
    by (simp add: go_seq_def go_bind_assoc)
  also have "\<dots> = Some (Inr (), ?r4)" by (subst go_seq_def, subst go_bind_def) (simp only: run s option.case prod.case sum.case)
  finally show ?thesis
    by (rule that) (use c' e hs(2) in \<open>simp_all add: send_done_def push_def list_update_append getLink_def\<close>)
qed

text \<open>The caller against a peer it has never met, with the handshake of both.\<close>

lemma caller_reaches:
  fixes r :: "(pionConn, 'g) runtime" and env :: "nat \<Rightarrow> step_env"
  assumes cv: "curve_ok cv" and nodes: "node_ok cv (rt_node r)" "node_ok cv nb"
    and sk: "sk_curve sk = cv" "sk_conn sk = pion_conn (Inr ()) pc"
    and r: "\<not> rt_closed r" "rt_worker r = Idle" "rt_outbox r = []" "getLink r (Fingerprint (node_key nb)) = None"
    and dial: "sg_Find (sk_sig sk) (DiscoveryKey (node_key nb) (rt_salt r)) (rt_sig r) = Some (Inr peer, g1)"
      "sk_dial sk (pi_peerID peer) g1 = Some (Inr c0, g2)" "pc_in c0 = [hello_frame cv nb]" "pc_sent c0 = []" "\<not> pc_done c0"
    and m: "utf8_valid text" "m \<noteq> []" "utf8_valid m" "time_ok (en_now (env 2) 0)"
    and d: "en_eph (env 1) = Inr eph" "length eph = 32" "en_ratchet (env 1) = Inr k0" "length k0 = 32"
  obtains r' l c na x e hs lb nb' where
    "go_seq (rt_Send pick (contact_URI handle (node_key nb)) text m)
       (go_seq (worker_step sk (env 0) pk) (go_seq (worker_step sk (env 1) pk) (worker_step sk (env 2) pk))) r = Some (Inr (), r')"
    "rt_events r' = rt_events r @ [(presence_event l)\<lparr> ev_time := en_unix (env 1) 0 \<rparr>,
       (new_event ''sent'')\<lparr> ev_peerFP := Fingerprint (node_key nb), ev_msgID := m, ev_time := en_unix (env 2) 0 \<rparr>]"
    "rt_heap r' = rt_heap r @ [(l, c)]" "rt_node r' = na" "pc_sent c = [handshake_frame hs, payload_frame x]" "pc_in c = []" "\<not> pc_done c" "link_live na l"
    "lk_peerFP l = Fingerprint (node_key nb)" "lk_peerKey lb = node_key (rt_node r)" "lk_peerFP lb = Fingerprint (node_key (rt_node r))"
    "\<forall>(io :: pionConn conn) c c1. conn_Recv io c = Some (Inr (handshake_frame hs), c1) \<longrightarrow>
       responder_finish cv io \<lparr> w_node = nb, w_conn = c \<rparr> = Some (Inr lb, \<lparr> w_node = nb', w_conn = c1 \<rparr>)"
    "link_live nb' lb" "r_ns (sess nb' lb) = 0" "ordered cv (peer_net na l nb' lb (used_keys cv nb k0) [(x, env_bytes e)] [])"
    "envelope_ok e" "e_type e = TypeText" "e_msgID e = m" "text_of e = text"
proof (rule handshake_peers [OF cv nodes d(2,4), where 'a = pionConn and 'b = pionConn], goal_cases)
  case peers: (1 hs l lb n nb')
  have len: "length (node_key nb) = 32" using nodes length_signing_pub [OF cv] by (simp add: node_ok_def account_ok_def)
  let ?c = "c0\<lparr> pc_in := [], pc_sent := [handshake_frame hs] \<rparr>"
  have "conn_Recv (pion_conn (Inr ()) pc) c0 = Some (Inr (hello_frame cv nb), c0\<lparr> pc_in := [] \<rparr>)"
    "conn_Send (pion_conn (Inr ()) pc) (handshake_frame hs) (c0\<lparr> pc_in := [] \<rparr>) = Some (Inr (), ?c)"
    using dial(3-5) by (simp_all add: pion_conn_def pion_Send_def pion_Recv_def)
  note hi = peers(2) [OF this]
  obtain r' e x na c where A: "go_seq (rt_Send pick (contact_URI handle (node_key nb)) text m)
      (go_seq (worker_step sk (env 0) pk) (go_seq (worker_step sk (env 1) pk) (worker_step sk (env 2) pk))) r = Some (Inr (), r')"
    "rt_events r' = rt_events r @ [(presence_event l)\<lparr> ev_time := en_unix (env 1) 0 \<rparr>,
       (new_event ''sent'')\<lparr> ev_peerFP := Fingerprint (node_key nb), ev_msgID := m, ev_time := en_unix (env 2) 0 \<rparr>]"
    "rt_heap r' = rt_heap r @ [(l, c)]" "rt_node r' = na"
    and c: "pc_sent c = pc_sent ?c @ [payload_frame x]" "pc_in c = pc_in ?c" "\<not> pc_done c" "link_live na l"
    and o: "ordered cv (peer_net na l nb' lb (used_keys cv nb k0) [(x, env_bytes e)] [])"
    and e: "envelope_ok e" "e_type e = TypeText" "e_msgID e = m" "text_of e = text"
    by (rule caller_sends [where env = env and pick = pick and pk = pk and handle = handle, OF sk r len dial(1,2)
        hi [folded d(1,3)] peers(5) _ peers(10,8,13) m]) (use dial(5) in auto)
  have fin: "\<forall>(io :: pionConn conn) c c1. conn_Recv io c = Some (Inr (handshake_frame hs), c1) \<longrightarrow>
       responder_finish cv io \<lparr> w_node = nb, w_conn = c \<rparr> = Some (Inr lb, \<lparr> w_node = nb', w_conn = c1 \<rparr>)"
    using peers(3) by blast
  show ?case
    by (rule that [OF A _ _ c(3,4) peers(5-7) fin peers(9) peers(14) o e]) (use c in simp_all)
qed

text \<open>The callee: the listener accepts, the reader takes the text and acknowledges it.\<close>

lemma callee_receives:
  fixes r :: "(pionConn, 'g) runtime"
  assumes cv: "curve_ok cv" and sk: "sk_curve sk = cv" "sk_conn sk = pion_conn (Inr ()) pc"
    and r: "rt_listener r = Waiting" "getLink r (lk_peerFP l) = None"
    and acc: "sg_Advertise (sk_sig sk) (DiscoveryKey (node_key (rt_node r)) (rt_salt r)) (rt_sig r) = Some (Inr (), g1)"
      "sk_accept sk g1 = Some (Inr c0, g2)"
    and c0: "pc_in c0 = [hs, payload_frame x]" "pc_sent c0 = []" "\<not> pc_done c0"
    and fin: "\<And>c c'. conn_Recv (pion_conn (Inr ()) pc) c = Some (Inr hs, c') \<Longrightarrow>
      responder_finish cv (pion_conn (Inr ()) pc) \<lparr> w_node = rt_node r, w_conn = c \<rparr> = Some (Inr l, \<lparr> w_node = n, w_conn = c' \<rparr>)"
    and o: "ordered cv (peer_net n' l' n l used [(x, env_bytes e)] [])" "link_live n l" "r_ns (sess n l) = 0"
    and e: "envelope_ok e" "e_type e = TypeText" "utf8_valid (e_msgID e)"
    and k: "en_recv env = Inr k" "length k = 32" "x25519_base cv k \<notin> used" and t: "utf8_valid (lk_peerFP l)" "time_ok (en_now env 0)"
  obtains r1 r2 rc y nb c where
    "listen_step sk envl r = Some (Inr (), r1)"
    "pc_sent (snd (rt_heap r1 ! length (rt_heap r))) = [hello_frame cv (rt_node r)]"
    "recv_step sk env (length (rt_heap r)) r1 = Some (Inr Continue, r2)"
    "rt_events r2 = rt_events r @ [(presence_event l)\<lparr> ev_time := en_unix envl 0 \<rparr>, (message_event l e)\<lparr> ev_time := en_unix env 0 \<rparr>]"
    "rt_heap r2 = rt_heap r @ [(l, c)]" "rt_node r2 = nb" "getLink r2 (lk_peerFP l) = Some (length (rt_heap r))"
    "gm_get (rt_lastIn r2) (lk_peerFP l) = Some (e_msgID e)"
    "pc_sent c = [hello_frame cv (rt_node r), payload_frame y]"
    "ordered cv (peer_net nb l n' l' (insert (x25519_base cv k) used) [(y, env_bytes rc)] [])"
    "envelope_ok rc" "e_type rc = TypeReceipt" "envelope_Receipt rc = Inr \<lparr> rb_refMsgID = e_msgID e, rb_state = StateDelivered \<rparr>"
proof -
  let ?h = "hello_frame cv (rt_node r)" and ?p = "length (rt_heap r)"
  let ?c1 = "c0\<lparr> pc_sent := [?h] \<rparr>" and ?c2 = "c0\<lparr> pc_sent := [?h], pc_in := [payload_frame x] \<rparr>"
  have "conn_Send (pion_conn (Inr ()) pc) ?h c0 = Some (Inr (), ?c1)" "conn_Recv (pion_conn (Inr ()) pc) ?c1 = Some (Inr hs, ?c2)"
    using c0 by (simp_all add: pion_conn_def pion_Send_def pion_Recv_def)
  note ls = Listen_run [OF acc, unfolded sk, OF responder_hello_run [OF this(1)] fin [OF this(2)]]
  let ?r1 = "(push (en_unix envl 0) (presence_event l) (r\<lparr> rt_node := n, rt_sig := g2, rt_heap := rt_heap r @ [(l, ?c2)],
    rt_links := gm_put (lk_peerFP l) ?p (rt_links r), rt_readers := rt_readers r @ [?p] \<rparr>))\<lparr> rt_listener := AtHead \<rparr>"
  note s1 = listener_accepts [OF r(1) ls r(2), of envl]
  have h1: "?p < length (rt_heap ?r1)" "rt_heap ?r1 ! ?p = (l, ?c2)" "pc_in ?c2 = payload_frame x # []" "rt_node ?r1 = n"
    by (simp_all add: push_def)
  obtain n1 c3 where rv: "recv_step sk env ?p ?r1 = go_seq (handle_envelope sk env ?p (lk_peerFP l) (peerURI l) e) (go_ret Continue)
       (?r1\<lparr> rt_node := n1, rt_heap := (rt_heap ?r1)[?p := (l, c3)] \<rparr>)"
    and c3: "pc_in c3 = []" "pc_sent c3 = pc_sent ?c2" "pc_done c3 = pc_done ?c2" "link_live n1 l" "r_ns (sess n1 l) \<in> {r_ns (sess n l), 0}"
    "ordered cv (peer_net n' l' n1 l (insert (x25519_base cv k) used) [] [])"
    by (rule reader_run [OF cv sk h1(1-3), unfolded h1(4), OF o(1,2) e(1) k])
  let ?r2 = "push (en_unix env 0) (message_event l e) (setLastInbound (lk_peerFP l) (e_msgID e) (?r1\<lparr> rt_node := n1, rt_heap := (rt_heap ?r1)[?p := (l, c3)] \<rparr>))"
  have h2: "?p < length (rt_heap ?r2)" "rt_heap ?r2 ! ?p = (l, c3)" "\<not> pc_done c3" "rt_node ?r2 = n1"
    using c3 c0 by (simp_all add: push_def setLastInbound_def)
  have o2: "ordered cv (peer_net n1 l n' l' (insert (x25519_base cv k) used) [] [])" using c3(6) by (simp add: ordered_swap)
  obtain rc y nb c4 where rs: "send_receipt sk env ?p (lk_peerFP l) (e_msgID e) ?r2 = Some (Inr (), ?r2\<lparr> rt_node := nb, rt_heap := (rt_heap ?r2)[?p := (l, c4)] \<rparr>)"
    and c4: "pc_sent c4 = pc_sent c3 @ [payload_frame y]" "ordered cv (peer_net nb l n' l' (insert (x25519_base cv k) used) ([] @ [(y, env_bytes rc)]) [])"
    and rc: "envelope_ok rc" "e_type rc = TypeReceipt" "envelope_Receipt rc = Inr \<lparr> rb_refMsgID = e_msgID e, rb_state = StateDelivered \<rparr>"
    by (rule receipt_sent [OF sk h2(1-3), unfolded h2(4), OF o2 c3(4) _ t(1) e(3) t(2)]) (use c3(5) o(3) in auto)
  have "recv_step sk env ?p ?r1 = Some (Inr Continue, ?r2\<lparr> rt_node := nb, rt_heap := (rt_heap ?r2)[?p := (l, c4)] \<rparr>)"
    by (simp only: rv go_seq_def go_bind_def handle_text [OF e(2)] rs option.case prod.case sum.case go_ret_def)
  from s1 _ this show ?thesis
    by (rule that) (use c3(2) c4 rc in \<open>simp_all add: push_def setLastInbound_def list_update_append getLink_def\<close>)
qed

text \<open>The acknowledgement at the caller.\<close>

lemma receipt_taken:
  fixes r :: "(pionConn, 'g) runtime"
  assumes cv: "curve_ok cv" and sk: "sk_curve sk = cv" "sk_conn sk = pion_conn dc pc"
    and r: "p < length (rt_heap r)" "rt_heap r ! p = (l, c)" "pc_in c = []" "\<not> pc_done c"
    and o: "ordered cv (peer_net n' l' (rt_node r) l used [(y, env_bytes rc)] qb)" "link_live (rt_node r) l"
    and rc: "envelope_ok rc" "e_type rc = TypeReceipt" "envelope_Receipt rc = Inr \<lparr> rb_refMsgID = m, rb_state = st \<rparr>"
    and k: "en_recv env = Inr k" "length k = 32" "x25519_base cv k \<notin> used"
  shows "\<exists>r1 r2. frame_arrives p (payload_frame y) r = Some r1 \<and> recv_step sk env p r1 = Some (Inr Continue, r2) \<and>
    rt_events r2 = rt_events r @ [(new_event ''receipt'')\<lparr> ev_peerFP := lk_peerFP l, ev_msgID := m, ev_detail := st, ev_time := en_unix env 0 \<rparr>]"
proof -
  let ?c = "c\<lparr> pc_in := [payload_frame y] \<rparr>"
  let ?r = "r\<lparr> rt_heap := (rt_heap r)[p := (l, ?c)] \<rparr>"
  have a: "frame_arrives p (payload_frame y) r = Some ?r"
    using r by (simp add: frame_arrives_def pion_onMessage_def link_at_def pipe_cap_def)
  have h: "p < length (rt_heap ?r)" "rt_heap ?r ! p = (l, ?c)" "pc_in ?c = payload_frame y # []" "rt_node ?r = rt_node r"
    using r(1) by simp_all
  obtain n c' where "recv_step sk env p ?r = go_seq (handle_envelope sk env p (lk_peerFP l) (peerURI l) rc) (go_ret Continue)
       (?r\<lparr> rt_node := n, rt_heap := (rt_heap ?r)[p := (l, c')] \<rparr>)"
    by (rule reader_run [OF cv sk h(1-3), unfolded h(4), OF o rc(1) k])
  then show ?thesis
    using rc(2,3) a
    by (simp add: handle_envelope_def TypeReceipt_def TypeText_def TypeFileOffer_def TypeTyping_def go_seq_def go_bind_def go_put_def go_ret_def push_def)
qed

section \<open>Properties\<close>

text \<open>C1. First contact works from the contact URI to the receipt. An engine with no link to the peer is asked to
  send a text to the peer's contact URI. Its worker finds the peer under the discovery key of that URI,
  dials, accepts the bundle frame the peer's listener sends, answers with its handshake and sends the
  text: three steps after the request the app has the events \<open>presence\<close> and \<open>sent\<close>. The two frames it
  handed to its data channel make the other engine's waiting \<open>Listen\<close> return a link named after the
  caller, having sent exactly the bundle frame the caller relied on, and make its reader report the text
  with the same id, under the caller's fingerprint and contact URI, and hand out one more frame.
  When that frame arrives, the caller's reader reports the request as delivered.\<close>

theorem first_contact:
  fixes ra :: "(pionConn, 'g) runtime" and rb :: "(pionConn, 'h) runtime" and enva :: "nat \<Rightarrow> step_env"
  defines "na \<equiv> rt_node ra" and "nb \<equiv> rt_node rb"
  assumes cv: "curve_ok cv" and nodes: "node_ok cv na" "node_ok cv nb"
    and ska: "sk_curve ska = cv" "sk_conn ska = pion_conn (Inr ()) pca"
    and a: "\<not> rt_closed ra" "rt_worker ra = Idle" "rt_outbox ra = []" "getLink ra (account_Fingerprint (nd_account nb)) = None"
    and b: "rt_listener rb = Waiting" "getLink rb (account_Fingerprint (nd_account na)) = None"
    and dial: "sg_Find (sk_sig ska) (DiscoveryKey (node_key nb) (rt_salt ra)) (rt_sig ra) = Some (Inr peer, g1)"
      "sk_dial ska (pi_peerID peer) g1 = Some (Inr ca, g2)" "pc_in ca = [hello_frame cv nb]" "pc_sent ca = []" "\<not> pc_done ca"
    and m: "utf8_valid body" "msgID \<noteq> []" "utf8_valid msgID" "time_ok (en_now (enva 2) 0)" "time_ok (en_now envb 0)"
    and d: "en_eph (enva 1) = Inr eph" "length eph = 32" "en_ratchet (enva 1) = Inr k0" "length k0 = 32"
    and kb: "en_recv envb = Inr kb" "length kb = 32" "x25519_base cv kb \<notin> used_keys cv nb k0"
    and ka: "en_recv enva' = Inr ka" "length ka = 32" "x25519_base cv ka \<notin> insert (x25519_base cv kb) (used_keys cv nb k0)"
  shows "\<exists>ra1 hs frame ca1.
    go_seq (rt_Send pick (ContactURI (nd_account nb) handle) body msgID)
      (go_seq (worker_step ska (enva 0) pk) (go_seq (worker_step ska (enva 1) pk) (worker_step ska (enva 2) pk))) ra = Some (Inr (), ra1) \<and>
    map (\<lambda>e. (ev_kind e, ev_peerFP e, ev_msgID e)) (rt_events ra1) = map (\<lambda>e. (ev_kind e, ev_peerFP e, ev_msgID e)) (rt_events ra) @
      [(''presence'', account_Fingerprint (nd_account nb), []), (''sent'', account_Fingerprint (nd_account nb), msgID)] \<and>
    snd (rt_heap ra1 ! length (rt_heap ra)) = ca1 \<and> pc_sent ca1 = [hs, frame] \<and>
    (\<forall>skb pcb h1 h2 cb. sk_curve skb = cv \<longrightarrow> sk_conn skb = pion_conn (Inr ()) pcb \<longrightarrow>
      sg_Advertise (sk_sig skb) (DiscoveryKey (node_key nb) (rt_salt rb)) (rt_sig rb) = Some (Inr (), h1) \<longrightarrow>
      sk_accept skb h1 = Some (Inr cb, h2) \<longrightarrow> pc_in cb = [hs, frame] \<longrightarrow> pc_sent cb = [] \<longrightarrow> \<not> pc_done cb \<longrightarrow>
      (\<exists>rb1 rb2 receipt.
        listen_step skb envl rb = Some (Inr (), rb1) \<and> pc_sent (snd (rt_heap rb1 ! length (rt_heap rb))) = pc_in ca \<and>
        recv_step skb envb (length (rt_heap rb)) rb1 = Some (Inr Continue, rb2) \<and>
        map (\<lambda>e. (ev_kind e, ev_peerFP e, ev_peerURI e, ev_msgID e, ev_text e)) (rt_events rb2) =
          map (\<lambda>e. (ev_kind e, ev_peerFP e, ev_peerURI e, ev_msgID e, ev_text e)) (rt_events rb) @
          [(''presence'', account_Fingerprint (nd_account na), ContactURI (nd_account na) [], [], []),
           (''message'', account_Fingerprint (nd_account na), ContactURI (nd_account na) [], msgID, body)] \<and>
        pc_sent (snd (rt_heap rb2 ! length (rt_heap rb))) = pc_in ca @ [receipt] \<and>
        (\<exists>ra2 ra3. frame_arrives (length (rt_heap ra)) receipt ra1 = Some ra2 \<and>
          recv_step ska enva' (length (rt_heap ra)) ra2 = Some (Inr Continue, ra3) \<and>
          rt_events ra3 = rt_events ra1 @ [(new_event ''receipt'')\<lparr> ev_peerFP := account_Fingerprint (nd_account nb), ev_msgID := msgID,
            ev_detail := StateDelivered, ev_time := en_unix enva' 0 \<rparr>])))"
proof -
  have len: "length (node_key na) = 32" "length (node_key nb) = 32"
    using nodes length_signing_pub [OF cv] by (simp_all add: node_ok_def account_ok_def)
  have fp: "account_Fingerprint (nd_account n) = Fingerprint (node_key n)" for n by (simp add: account_Fingerprint_def)
  obtain ra1 la c1 na1 x e hs lb nb' where A: "go_seq (rt_Send pick (contact_URI handle (node_key nb)) body msgID)
      (go_seq (worker_step ska (enva 0) pk) (go_seq (worker_step ska (enva 1) pk) (worker_step ska (enva 2) pk))) ra = Some (Inr (), ra1)"
    and evA: "rt_events ra1 = rt_events ra @ [(presence_event la)\<lparr> ev_time := en_unix (enva 1) 0 \<rparr>,
       (new_event ''sent'')\<lparr> ev_peerFP := Fingerprint (node_key nb), ev_msgID := msgID, ev_time := en_unix (enva 2) 0 \<rparr>]"
    and hA: "rt_heap ra1 = rt_heap ra @ [(la, c1)]" "rt_node ra1 = na1"
    and c1: "pc_sent c1 = [handshake_frame hs, payload_frame x]" "pc_in c1 = []" "\<not> pc_done c1" "link_live na1 la"
    and l: "lk_peerFP la = Fingerprint (node_key nb)" "lk_peerKey lb = node_key na" "lk_peerFP lb = Fingerprint (node_key na)"
    and fin: "\<forall>(io :: pionConn conn) c c1. conn_Recv io c = Some (Inr (handshake_frame hs), c1) \<longrightarrow>
       responder_finish cv io \<lparr> w_node = nb, w_conn = c \<rparr> = Some (Inr lb, \<lparr> w_node = nb', w_conn = c1 \<rparr>)"
    and o: "link_live nb' lb" "r_ns (sess nb' lb) = 0" and oA: "ordered cv (peer_net na1 la nb' lb (used_keys cv nb k0) [(x, env_bytes e)] [])"
    and e: "envelope_ok e" "e_type e = TypeText" "e_msgID e = msgID" "text_of e = body"
    unfolding na_def
    by (rule caller_reaches [where env = enva and pick = pick and pk = pk and handle = handle, OF cv nodes [unfolded na_def] ska a [unfolded fp] dial m(1-4) d])
  show ?thesis
  proof (rule exI [of _ ra1], rule exI [of _ "handshake_frame hs"], rule exI [of _ "payload_frame x"], rule exI [of _ c1], intro conjI allI impI, goal_cases)
    case (5 skb pcb h1 h2 cb)
    obtain rb1 rb2 rc y nb1 c2 where B: "listen_step skb envl rb = Some (Inr (), rb1)"
      "pc_sent (snd (rt_heap rb1 ! length (rt_heap rb))) = [hello_frame cv nb]" "recv_step skb envb (length (rt_heap rb)) rb1 = Some (Inr Continue, rb2)"
      and evB: "rt_events rb2 = rt_events rb @ [(presence_event lb)\<lparr> ev_time := en_unix envl 0 \<rparr>, (message_event lb e)\<lparr> ev_time := en_unix envb 0 \<rparr>]"
      and hB: "rt_heap rb2 = rt_heap rb @ [(lb, c2)]" "rt_node rb2 = nb1" "pc_sent c2 = [hello_frame cv nb, payload_frame y]"
      and oB: "ordered cv (peer_net nb1 lb na1 la (insert (x25519_base cv kb) (used_keys cv nb k0)) [(y, env_bytes rc)] [])"
      and rc: "envelope_ok rc" "e_type rc = TypeReceipt" "envelope_Receipt rc = Inr \<lparr> rb_refMsgID = e_msgID e, rb_state = StateDelivered \<rparr>"
      unfolding nb_def
      by (rule callee_receives [where env = envb and envl = envl and l = lb and n = nb' and hs = "handshake_frame hs" and r = rb and e = e,
          OF cv 5(1,2) b(1) _ 5(3,4) [unfolded nb_def] 5(5-7) fin [unfolded nb_def, rule_format] oA [unfolded nb_def] o e(1,2) _ kb [unfolded nb_def] _ m(5)])
         (use b(2) fp l m e Fingerprint_utf8 fin in \<open>simp_all add: nb_def\<close>)
    have A2: "length (rt_heap ra) < length (rt_heap ra1)" "rt_heap ra1 ! length (rt_heap ra) = (la, c1)" using hA by simp_all
    have "\<exists>ra2 ra3. frame_arrives (length (rt_heap ra)) (payload_frame y) ra1 = Some ra2 \<and>
        recv_step ska enva' (length (rt_heap ra)) ra2 = Some (Inr Continue, ra3) \<and>
        rt_events ra3 = rt_events ra1 @ [(new_event ''receipt'')\<lparr> ev_peerFP := lk_peerFP la, ev_msgID := e_msgID e,
          ev_detail := StateDelivered, ev_time := en_unix enva' 0 \<rparr>]"
      by (rule receipt_taken [OF cv ska A2 _ c1(3) oB [folded hA(2)] c1(4) [folded hA(2)] rc ka]) (use c1 in simp)
    with B evB hB e l len show ?case
      by (intro exI [of _ rb1] exI [of _ rb2] exI [of _ "payload_frame y"])
         (simp add: fp dial(3) presence_event_def message_event_def new_event_def peerURI_def ContactURI_def)
  qed (use A evA hA c1 l in \<open>simp_all add: fp ContactURI_def presence_event_def new_event_def\<close>)
qed

definition toy_caller :: "(pionConn, fabric) runtime" where
  "toy_caller = StartWith (toy_node 1) \<lparr> fb_reg = NewRegistry\<lparr> rg_advert :=
     [(hex_encode (DiscoveryKey (node_key (toy_node 2)) RendezvousSalt), ''b'')] \<rparr>, fb_last = (\<lambda>_. []) \<rparr> ''alice'' ''/tmp''"

definition toy_callee :: "(pionConn, fabric) runtime" where
  "toy_callee = (StartWith (toy_node 2) \<lparr> fb_reg = NewRegistry, fb_last = (\<lambda>_. []) \<rparr> ''bob'' ''/tmp'')\<lparr> rt_listener := Waiting \<rparr>"

theorem first_contact_witness:
  "\<exists>ra1 skb rb1 rb2 receipt ra2 ra3.
    go_seq (rt_Send False (ContactURI (nd_account (toy_node 2)) ''bob'') ''hi'' ''m'')
      (go_seq (worker_step (toy_stack\<lparr> sk_dial := (\<lambda>_. go_ret (newPionConn\<lparr> pc_in := [hello_frame toy_curve (toy_node 2)] \<rparr>)) \<rparr>) toy_step_env False)
      (go_seq (worker_step (toy_stack\<lparr> sk_dial := (\<lambda>_. go_ret (newPionConn\<lparr> pc_in := [hello_frame toy_curve (toy_node 2)] \<rparr>)) \<rparr>) toy_step_env False)
        (worker_step (toy_stack\<lparr> sk_dial := (\<lambda>_. go_ret (newPionConn\<lparr> pc_in := [hello_frame toy_curve (toy_node 2)] \<rparr>)) \<rparr>) toy_step_env False)))
      toy_caller = Some (Inr (), ra1) \<and>
    listen_step skb toy_step_env toy_callee = Some (Inr (), rb1) \<and> recv_step skb toy_step_env 0 rb1 = Some (Inr Continue, rb2) \<and>
    map (\<lambda>e. (ev_kind e, ev_msgID e, ev_text e)) (rt_events rb2) = [(''presence'', [], []), (''message'', ''m'', ''hi'')] \<and>
    frame_arrives 0 receipt ra1 = Some ra2 \<and>
    recv_step (toy_stack\<lparr> sk_dial := (\<lambda>_. go_ret (newPionConn\<lparr> pc_in := [hello_frame toy_curve (toy_node 2)] \<rparr>)) \<rparr>)
      (toy_step_env\<lparr> en_recv := Inr (toy_draws 1) \<rparr>) 0 ra2 = Some (Inr Continue, ra3) \<and>
    map (\<lambda>e. (ev_kind e, ev_msgID e)) (rt_events ra3) = [(''presence'', []), (''sent'', ''m''), (''receipt'', ''m'')]"
proof -
  let ?ca = "newPionConn\<lparr> pc_in := [hello_frame toy_curve (toy_node 2)] \<rparr>"
  let ?sk = "toy_stack\<lparr> sk_dial := (\<lambda>_. go_ret ?ca) \<rparr>" and ?ea = "toy_step_env\<lparr> en_recv := Inr (toy_draws 1) \<rparr>"
  let ?U = "used_keys toy_curve (toy_node 2) (replicate 32 6)"
  have n: "rt_node toy_caller = toy_node 1" "rt_node toy_callee = toy_node 2" "rt_heap toy_caller = []" "rt_heap toy_callee = []"
    "rt_events toy_caller = []" "rt_events toy_callee = []"
    by (simp_all add: toy_caller_def toy_callee_def StartWith_def)
  have k: "length (toy_draws 0) = 32" "x25519_base toy_curve (toy_draws 0) \<notin> ?U" "length (toy_draws 1) = 32"
    "x25519_base toy_curve (toy_draws 1) \<notin> insert (x25519_base toy_curve (toy_draws 0)) ?U"
    using fresh_from_now [OF toy_draws_fresh] fresh_from_now [OF fresh_from_next [OF toy_draws_fresh]] by simp_all
  have find: "sg_Find (sk_sig ?sk) (DiscoveryKey (node_key (rt_node toy_callee)) (rt_salt toy_caller)) (rt_sig toy_caller) =
      Some (Inr \<lparr> pi_peerID = ''b'', pi_addresses = [''inproc://b''] \<rparr>, rt_sig toy_caller)"
    by (simp add: toy_stack_def mem_signaler_def mem_Find_def toy_caller_def toy_callee_def StartWith_def gm_get_def)
  have nodes: "node_ok toy_curve (rt_node toy_caller)" "node_ok toy_curve (rt_node toy_callee)" using toy_node_ok by (simp_all add: n)
  have sk: "sk_curve ?sk = toy_curve" "sk_conn ?sk = pion_conn (Inr ()) (Inr ())" by (simp_all add: toy_stack_def)
  have a0: "\<not> rt_closed toy_caller" "rt_worker toy_caller = Idle" "rt_outbox toy_caller = []" "getLink toy_caller fp = None"
    and b0: "rt_listener toy_callee = Waiting" "getLink toy_callee fp = None" for fp
    by (simp_all add: toy_caller_def toy_callee_def StartWith_def getLink_def)
  have dial: "sk_dial ?sk p g = Some (Inr ?ca, g)" "pc_in ?ca = [hello_frame toy_curve (rt_node toy_callee)]" "pc_sent ?ca = []" "\<not> pc_done ?ca" for p g
    by (simp_all add: n newPionConn_def go_ret_def)
  have m: "utf8_valid ''hi''" "''m'' \<noteq> []" "utf8_valid ''m''" "time_ok (en_now toy_step_env 0)" "time_ok (en_now toy_step_env 0)"
    by (simp_all add: utf8_valid_ascii toy_step_env_def)
  have d: "en_eph toy_step_env = Inr (replicate 32 5)" "length (replicate 32 (5 :: byte)) = 32"
    "en_ratchet toy_step_env = Inr (replicate 32 6)" "length (replicate 32 (6 :: byte)) = 32" by (simp_all add: toy_step_env_def)
  have kb: "en_recv toy_step_env = Inr (toy_draws 0)" "length (toy_draws 0) = 32" "x25519_base toy_curve (toy_draws 0) \<notin> used_keys toy_curve (rt_node toy_callee) (replicate 32 6)"
    and ka: "en_recv ?ea = Inr (toy_draws 1)" "length (toy_draws 1) = 32"
      "x25519_base toy_curve (toy_draws 1) \<notin> insert (x25519_base toy_curve (toy_draws 0)) (used_keys toy_curve (rt_node toy_callee) (replicate 32 6))"
    using k by (simp_all add: n) (simp add: toy_step_env_def toy_draws_def)
  note run = first_contact [where ra = toy_caller and rb = toy_callee and cv = toy_curve and ska = ?sk and ca = ?ca and body = "''hi''" and msgID = "''m''" and
        enva = "\<lambda>_. toy_step_env" and envb = toy_step_env and envl = toy_step_env and enva' = ?ea and kb = "toy_draws 0" and ka = "toy_draws 1" and
        pick = False and pk = False and handle = "''bob''" and pca = "Inr ()", OF toy_curve_ok nodes sk a0 b0 find dial m d kb ka, unfolded n list.size]
  from run show ?thesis
  proof (elim exE conjE, goal_cases)
    case (1 ra1 hs frame ca1)
    let ?cb = "newPionConn\<lparr> pc_in := [hs, frame] \<rparr>"
    let ?skb = "toy_stack\<lparr> sk_accept := go_ret ?cb \<rparr>" and ?key = "DiscoveryKey (node_key (toy_node 2)) (rt_salt toy_callee)"
    obtain h where h: "mem_Advertise ''a'' ?key (rt_sig toy_callee) = Some (Inr (), h)" by (simp add: mem_Advertise_def)
    have "sk_curve ?skb = toy_curve" "sk_conn ?skb = pion_conn (Inr ()) (Inr ())" "sg_Advertise (sk_sig ?skb) ?key (rt_sig toy_callee) = Some (Inr (), h)"
      "sk_accept ?skb h = Some (Inr ?cb, h)" "pc_in ?cb = [hs, frame]" "pc_sent ?cb = []" "\<not> pc_done ?cb"
      using h by (simp_all add: toy_stack_def mem_signaler_def go_ret_def newPionConn_def)
    from 1(5) [rule_format, OF this] obtain rb1 rb2 receipt ra2 ra3 where b: "listen_step ?skb toy_step_env toy_callee = Some (Inr (), rb1)"
      "recv_step ?skb toy_step_env 0 rb1 = Some (Inr Continue, rb2)"
      "map (\<lambda>e. (ev_kind e, ev_peerFP e, ev_peerURI e, ev_msgID e, ev_text e)) (rt_events rb2) = map (\<lambda>e. (ev_kind e, ev_peerFP e, ev_peerURI e, ev_msgID e, ev_text e)) ([] :: event list) @
          [(''presence'', account_Fingerprint (nd_account (toy_node 1)), ContactURI (nd_account (toy_node 1)) [], [], []),
           (''message'', account_Fingerprint (nd_account (toy_node 1)), ContactURI (nd_account (toy_node 1)) [], ''m'', ''hi'')]"
      "frame_arrives 0 receipt ra1 = Some ra2" "recv_step ?sk ?ea 0 ra2 = Some (Inr Continue, ra3)"
      "rt_events ra3 = rt_events ra1 @ [(new_event ''receipt'')\<lparr> ev_peerFP := account_Fingerprint (nd_account (toy_node 2)), ev_msgID := ''m'',
         ev_detail := StateDelivered, ev_time := en_unix ?ea 0 \<rparr>]" by blast
    have "map (\<lambda>e. (ev_kind e, ev_msgID e, ev_text e)) (rt_events rb2) = [(''presence'', [], []), (''message'', ''m'', ''hi'')]"
      "map (\<lambda>e. (ev_kind e, ev_msgID e)) (rt_events ra3) = [(''presence'', []), (''sent'', ''m''), (''receipt'', ''m'')]"
      using b(3,6) 1(2) by (auto simp: new_event_def)
    with 1(1) b(1,2,4,5) show ?case
      by (intro exI [of _ ra1] exI [of _ ?skb] exI [of _ rb1] exI [of _ rb2] exI [of _ receipt] exI [of _ ra2] exI [of _ ra3] conjI)
  qed
qed

end
