(* ===== verification/Engine_Conversation.thy ===== *)
theory Engine_Conversation
  imports First_Contact "HOL-Library.Sublist"
begin

text \<open>
  Two linked engines that run side by side. Each has its app, its send worker and the reader of its end of
  the link, the network carries the frames from one data channel to the other, and all of these take
  their steps in any order. The invariant relates what the apps asked for, what the engines reported,
  and what is still on its way.
\<close>

section \<open>The system\<close>

record 'g pair =
  pa_rt :: "pipe_end \<Rightarrow> (pionConn, 'g) runtime"
  pa_carried :: "pipe_end \<Rightarrow> nat"
  pa_used :: "bytes set"
  pa_polled :: "pipe_end \<Rightarrow> event list"
  pa_asked :: "pipe_end \<Rightarrow> (string \<times> string) list"

text \<open>\<open>pa_carried e\<close> is how many of the frames that \<open>e\<close> handed to its data channel have been carried over, and
  \<open>pa_used\<close> the ratchet keys drawn so far. \<open>pa_polled\<close> are the events the app has taken, \<open>pa_asked\<close> the
  ids and texts of its requests. Parameters of the system are the stack of each engine, its link and where
  the link lies. An app asks for texts to the peer of the link under any of the peer's contact URIs.\<close>

definition pa_conn :: "(pipe_end \<Rightarrow> nat) \<Rightarrow> 'g pair \<Rightarrow> pipe_end \<Rightarrow> pionConn" where
  "pa_conn p s e = snd (rt_heap (pa_rt s e) ! p e)"

definition send_room :: "node \<Rightarrow> link \<Rightarrow> bool" where
  "send_room n l \<longleftrightarrow> unat (r_ns (sess n l)) + 1001 < 2 ^ 32"

definition peer_request :: "link \<Rightarrow> outReq \<Rightarrow> bool" where
  "peer_request l q \<longleftrightarrow> (\<exists>handle. rq_peerURI q = contact_URI handle (lk_peerKey l)) \<and> rq_filePath q = [] \<and>
     utf8_valid (rq_text q) \<and> rq_msgID q \<noteq> [] \<and> utf8_valid (rq_msgID q)"

definition set_rt :: "pipe_end \<Rightarrow> (pionConn, 'g) runtime \<Rightarrow> 'g pair \<Rightarrow> 'g pair" where
  "set_rt e r s = s\<lparr> pa_rt := (pa_rt s)(e := r) \<rparr>"

inductive pair_step :: "curve \<Rightarrow> (pipe_end \<Rightarrow> (pionConn, 'g) stack) \<Rightarrow> (pipe_end \<Rightarrow> link) \<Rightarrow> (pipe_end \<Rightarrow> nat) \<Rightarrow> 'g pair \<Rightarrow> 'g pair \<Rightarrow> bool"
  for cv sk lk p where
  ask: "peer_request (lk e) \<lparr> rq_peerURI = uri, rq_text = body, rq_msgID = m, rq_filePath = [] \<rparr> \<Longrightarrow>
    rt_Send pick uri body m (pa_rt s e) = Some (x, r) \<Longrightarrow>
    pair_step cv sk lk p s ((set_rt e r s)\<lparr> pa_asked := (pa_asked s)(e := pa_asked s e @ [(m, body)]) \<rparr>)"
| work: "\<forall>i. time_ok (en_now env i) \<Longrightarrow> send_room (rt_node (pa_rt s e)) (lk e) \<Longrightarrow>
    worker_step (sk e) env pick (pa_rt s e) = Some (x, r) \<Longrightarrow> pair_step cv sk lk p s (set_rt e r s)"
| carry: "pa_carried s e < length (pc_sent (pa_conn p s e)) \<Longrightarrow>
    frame_arrives (p (other_end e)) (pc_sent (pa_conn p s e) ! pa_carried s e) (pa_rt s (other_end e)) = Some r \<Longrightarrow>
    pair_step cv sk lk p s ((set_rt (other_end e) r s)\<lparr> pa_carried := (pa_carried s)(e := Suc (pa_carried s e)) \<rparr>)"
| read: "\<forall>i. time_ok (en_now env i) \<Longrightarrow> send_room (rt_node (pa_rt s e)) (lk e) \<Longrightarrow>
    en_recv env = Inr k \<Longrightarrow> length k = 32 \<Longrightarrow> x25519_base cv k \<notin> pa_used s \<Longrightarrow>
    recv_step (sk e) env (p e) (pa_rt s e) = Some (x, r) \<Longrightarrow>
    pair_step cv sk lk p s ((set_rt e r s)\<lparr> pa_used := insert (x25519_base cv k) (pa_used s) \<rparr>)"
| poll: "rt_Poll (pa_rt s e) = (es, r) \<Longrightarrow>
    pair_step cv sk lk p s ((set_rt e r s)\<lparr> pa_polled := (pa_polled s)(e := pa_polled s e @ es) \<rparr>)"
| typing: "\<forall>i. time_ok (en_now env i) \<Longrightarrow> send_room (rt_node (pa_rt s e)) (lk e) \<Longrightarrow>
    rt_SendTyping (sk e) env (contact_URI handle (lk_peerKey (lk e))) (pa_rt s e) = Some (x, r) \<Longrightarrow> pair_step cv sk lk p s (set_rt e r s)"
| mark: "\<forall>i. time_ok (en_now env i) \<Longrightarrow> send_room (rt_node (pa_rt s e)) (lk e) \<Longrightarrow>
    rt_MarkRead (sk e) env (contact_URI handle (lk_peerKey (lk e))) (pa_rt s e) = Some (x, r) \<Longrightarrow> pair_step cv sk lk p s (set_rt e r s)"

inductive pair_reach :: "curve \<Rightarrow> (pipe_end \<Rightarrow> (pionConn, 'g) stack) \<Rightarrow> (pipe_end \<Rightarrow> link) \<Rightarrow> (pipe_end \<Rightarrow> nat) \<Rightarrow> 'g pair \<Rightarrow> 'g pair \<Rightarrow> bool"
  for cv sk lk p where
  start: "pair_reach cv sk lk p s s"
| step: "pair_reach cv sk lk p s t \<Longrightarrow> pair_step cv sk lk p t u \<Longrightarrow> pair_reach cv sk lk p s u"

section \<open>What was asked, sent, received and acknowledged\<close>

text \<open>In an envelope on its way, and in an event.\<close>

definition text_in :: "envelope \<Rightarrow> (string \<times> string) list" where
  "text_in e = (if e_type e = TypeText then [(e_msgID e, text_of e)] else [])"

definition ack_in :: "envelope \<Rightarrow> string list" where
  "ack_in e = (if e_type e = TypeReceipt
     then (case envelope_Receipt e of Inr rb \<Rightarrow> if rb_state rb = StateDelivered then [rb_refMsgID rb] else [] | Inl _ \<Rightarrow> []) else [])"

definition reported :: "event list \<Rightarrow> (string \<times> string) list" where
  "reported es = map (\<lambda>e. (ev_msgID e, ev_text e)) (filter (\<lambda>e. ev_kind e = ''message'') es)"

definition sent_ids :: "event list \<Rightarrow> string list" where
  "sent_ids es = map ev_msgID (filter (\<lambda>e. ev_kind e = ''sent'') es)"

definition delivered_ids :: "event list \<Rightarrow> string list" where
  "delivered_ids es = map ev_msgID (filter (\<lambda>e. ev_kind e = ''receipt'' \<and> ev_detail e = StateDelivered) es)"

definition pa_events :: "'g pair \<Rightarrow> pipe_end \<Rightarrow> event list" where
  "pa_events s e = pa_polled s e @ rt_events (pa_rt s e)"

definition asked_for :: "outReq list \<Rightarrow> (string \<times> string) list" where
  "asked_for qs = map (\<lambda>q. (rq_msgID q, rq_text q)) qs"

definition texts_in :: "(bytes \<times> envelope) list \<Rightarrow> (string \<times> string) list" where
  "texts_in q = concat (map (text_in \<circ> snd) q)"

definition acks_in :: "(bytes \<times> envelope) list \<Rightarrow> string list" where
  "acks_in q = concat (map (ack_in \<circ> snd) q)"

lemma account_simps [simp]:
  "reported (es @ es') = reported es @ reported es'" "sent_ids (es @ es') = sent_ids es @ sent_ids es'"
  "delivered_ids (es @ es') = delivered_ids es @ delivered_ids es'"
  "reported [] = []" "sent_ids [] = []" "delivered_ids [] = []" "texts_in [] = []" "acks_in [] = []"
  "texts_in (q @ q') = texts_in q @ texts_in q'" "acks_in (q @ q') = acks_in q @ acks_in q'"
  "texts_in [(x, e)] = text_in e" "acks_in [(x, e)] = ack_in e"
  "asked_for (qs @ qs') = asked_for qs @ asked_for qs'" "asked_for [] = []" "asked_for [r] = [(rq_msgID r, rq_text r)]"
  by (simp_all add: reported_def sent_ids_def delivered_ids_def texts_in_def acks_in_def asked_for_def)

section \<open>The invariant\<close>

text \<open>One end: the link is where the runtime registered it, open and live, and the worker has requests to its
  peer only.\<close>

definition peer_named :: "link \<Rightarrow> bool" where
  "peer_named l \<longleftrightarrow> length (lk_peerKey l) = 32 \<and> lk_peerFP l = Fingerprint (lk_peerKey l)"

definition end_ok :: "link \<Rightarrow> nat \<Rightarrow> (pionConn, 'g) runtime \<Rightarrow> bool" where
  "end_ok l p r \<longleftrightarrow>
     p < length (rt_heap r) \<and> link_at r p = l \<and> \<not> pc_done (snd (rt_heap r ! p)) \<and> \<not> rt_closed r \<and>
     getLink r (lk_peerFP l) = Some p \<and> link_live (rt_node r) l \<and> peer_named l \<and>
     (rt_worker r = Idle \<or> (\<exists>q. rt_worker r = Sending q (lk_peerFP l) p)) \<and> list_all (peer_request l) (in_hand r) \<and>
     (\<forall>m. gm_get (rt_lastIn r) (lk_peerFP l) = Some m \<longrightarrow> utf8_valid m)"

definition wire_ok :: "bytes \<times> envelope \<Rightarrow> bool" where
  "wire_ok x \<longleftrightarrow> envelope_ok (snd x) \<and> e_type (snd x) \<noteq> TypeFileOffer"

text \<open>The two ends: \<open>q e\<close> are the ciphertexts and envelopes on their way from \<open>e\<close>.\<close>

definition pair_inv :: "curve \<Rightarrow> (pipe_end \<Rightarrow> link) \<Rightarrow> (pipe_end \<Rightarrow> nat) \<Rightarrow> (pipe_end \<Rightarrow> (bytes \<times> envelope) list) \<Rightarrow> 'g pair \<Rightarrow> bool" where
  "pair_inv cv lk p q s \<longleftrightarrow>
     (\<forall>e. end_ok (lk e) (p e) (pa_rt s e) \<and> list_all wire_ok (q e) \<and>
        pa_carried s e \<le> length (pc_sent (pa_conn p s e)) \<and>
        pc_in (pa_conn p s (other_end e)) @ drop (pa_carried s e) (pc_sent (pa_conn p s e)) = map (payload_frame \<circ> fst) (q e) \<and>
        pa_asked s e = reported (pa_events s (other_end e)) @ texts_in (q e) @ asked_for (in_hand (pa_rt s e)) \<and>
        sent_ids (pa_events s e) = map fst (reported (pa_events s (other_end e)) @ texts_in (q e)) \<and>
        map fst (reported (pa_events s (other_end e))) = delivered_ids (pa_events s e) @ acks_in (q (other_end e)) \<and>
        ordered cv (peer_net (rt_node (pa_rt s e)) (lk e) (rt_node (pa_rt s (other_end e))) (lk (other_end e)) (pa_used s)
          (map (apsnd env_bytes) (q e)) (map (apsnd env_bytes) (q (other_end e)))))"

lemma pair_invE:
  assumes "pair_inv cv lk p q s"
  shows "end_ok (lk e) (p e) (pa_rt s e)" "list_all wire_ok (q e)" "pa_carried s e \<le> length (pc_sent (pa_conn p s e))"
    "pc_in (pa_conn p s (other_end e)) @ drop (pa_carried s e) (pc_sent (pa_conn p s e)) = map (payload_frame \<circ> fst) (q e)"
    "pa_asked s e = reported (pa_events s (other_end e)) @ texts_in (q e) @ asked_for (in_hand (pa_rt s e))"
    "sent_ids (pa_events s e) = map fst (reported (pa_events s (other_end e)) @ texts_in (q e))"
    "map fst (reported (pa_events s (other_end e))) = delivered_ids (pa_events s e) @ acks_in (q (other_end e))"
    "ordered cv (peer_net (rt_node (pa_rt s e)) (lk e) (rt_node (pa_rt s (other_end e))) (lk (other_end e)) (pa_used s)
       (map (apsnd env_bytes) (q e)) (map (apsnd env_bytes) (q (other_end e))))"
  using assms unfolding pair_inv_def by simp_all

text \<open>Whatever an engine does in one step, it takes a few envelopes from its reader's side (\<open>qin\<close>) and hands a few
  to the data channel (\<open>out\<close>).\<close>

lemma pair_inv_move:
  assumes i: "pair_inv cv lk p q s" and qo: "q (other_end e) = qin @ rest"
    and ok: "end_ok (lk e) (p e) r" "list_all wire_ok out"
    and c: "c = snd (rt_heap r ! p e)" "pc_in (pa_conn p s e) = map (payload_frame \<circ> fst) qin @ pc_in c"
      "pc_sent c = pc_sent (pa_conn p s e) @ map (payload_frame \<circ> fst) out"
    and o: "ordered cv (peer_net (rt_node r) (lk e) (rt_node (pa_rt s (other_end e))) (lk (other_end e)) used
       (map (apsnd env_bytes) (q e @ out)) (map (apsnd env_bytes) rest))"
    and new: "polled @ rt_events r = pa_events s e @ new" "reported new = texts_in qin" "sent_ids new = map fst (texts_in out)"
      "delivered_ids new = acks_in qin" "map fst (texts_in qin) = acks_in out"
      "texts_in out @ asked_for (in_hand r) = asked_for (in_hand (pa_rt s e)) @ asks"
  shows "pair_inv cv lk p (q(e := q e @ out, other_end e := rest))
    ((set_rt e r s)\<lparr> pa_used := used, pa_polled := (pa_polled s)(e := polled), pa_asked := (pa_asked s)(e := pa_asked s e @ asks) \<rparr>)"
    (is "pair_inv cv lk p ?q ?s")
proof -
  note inv = pair_invE [OF i]
  have ne: "other_end e \<noteq> e" "e \<noteq> other_end e" using other_end_iff by metis+
  have conn: "pa_conn p ?s e = c" "pa_conn p ?s (other_end e) = pa_conn p s (other_end e)"
    and ev: "pa_events ?s e = pa_events s e @ new" "pa_events ?s (other_end e) = pa_events s (other_end e)"
    using ne c(1) new(1) by (simp_all add: pa_conn_def set_rt_def pa_events_def)
  have same: "pa_rt ?s e = r" "pa_rt ?s (other_end e) = pa_rt s (other_end e)" "pa_carried ?s = pa_carried s" "pa_used ?s = used"
    "pa_asked ?s e = pa_asked s e @ asks" "pa_asked ?s (other_end e) = pa_asked s (other_end e)" "?q e = q e @ out" "?q (other_end e) = rest"
    using ne by (simp_all add: set_rt_def)
  have here: "P e \<Longrightarrow> P (other_end e) \<Longrightarrow> \<forall>e. P e" for P using other_end_iff by metis
  show ?thesis unfolding pair_inv_def
  proof (rule here, goal_cases)
    case 1
    show ?case unfolding conn ev same
      using ok inv(3) [of e] inv(4) [of e] inv(5) [of e] inv(6) [of e] inv(7) [of e] inv(2) [of e] c o new qo by simp
  next
    case 2
    have o': "ordered cv (peer_net (rt_node (pa_rt s (other_end e))) (lk (other_end e)) (rt_node r) (lk e) used
        (map (apsnd env_bytes) rest) (map (apsnd env_bytes) (q e @ out)))"
      using o ordered_swap by blast
    have oo: "other_end (other_end e) = e" by (cases e) simp_all
    note inv' = inv [of "other_end e", unfolded oo]
    show ?case unfolding oo conn ev same
      using inv'(1-7) c o' new qo by (intro conjI) simp_all
  qed
qed

section \<open>The steps of one engine\<close>

lemma set_rt_same [simp]:
  "(set_rt e r s)\<lparr> pa_used := pa_used s, pa_polled := (pa_polled s)(e := pa_polled s e), pa_asked := (pa_asked s)(e := pa_asked s e @ []) \<rparr> = set_rt e r s"
  by (simp add: set_rt_def)

lemma end_okD:
  assumes "end_ok l p r"
  shows "p < length (rt_heap r)" "rt_heap r ! p = (l, snd (rt_heap r ! p))" "\<not> pc_done (snd (rt_heap r ! p))" "\<not> rt_closed r"
    "getLink r (lk_peerFP l) = Some p" "link_live (rt_node r) l" "length (lk_peerKey l) = 32" "lk_peerFP l = Fingerprint (lk_peerKey l)"
    "list_all (peer_request l) (in_hand r)" "utf8_valid (lk_peerFP l)"
  using assms Fingerprint_utf8 [of "lk_peerKey l"] by (auto simp: end_ok_def peer_named_def link_at_def)

lemma end_ok_conn:
  "end_ok l p r \<Longrightarrow> \<not> pc_done c \<Longrightarrow> link_live n l \<Longrightarrow> end_ok l p (r\<lparr> rt_node := n, rt_heap := (rt_heap r)[p := (l, c)] \<rparr>)"
  by (simp add: end_ok_def link_at_def getLink_def in_hand_def)

lemma end_ok_push [simp]: "end_ok l p (push now ev r) = end_ok l p r"
  by (simp add: end_ok_def push_def link_at_def getLink_def in_hand_def)

lemma in_hand_simps [simp]:
  "in_hand (push now ev r) = in_hand r" "in_hand (setLastInbound fp m r) = in_hand r" "in_hand (r\<lparr> rt_node := n \<rparr>) = in_hand r"
  "in_hand (r\<lparr> rt_heap := h \<rparr>) = in_hand r" "in_hand (r\<lparr> rt_events := es \<rparr>) = in_hand r"
  by (simp_all add: in_hand_def push_def setLastInbound_def)

text \<open>A typing notice or a read receipt.\<close>

lemma pair_inv_control:
  assumes i: "pair_inv cv lk p q s" and sk: "sk_curve (sk e) = cv" "sk_conn (sk e) = pion_conn (Inr ()) pc"
    and room: "send_room (rt_node (pa_rt s e)) (lk e)"
    and env: "envelope_ok env" "e_type env \<noteq> TypeText" "e_type env \<noteq> TypeFileOffer" "ack_in env = []"
    and run: "go_ignore (on_link (p e) (\<lambda>l. encryptSendLocked (sk_curve (sk e)) (sk_conn (sk e)) l env)) (pa_rt s e) = Some (x, r)"
  shows "\<exists>q'. pair_inv cv lk p q' (set_rt e r s)"
proof -
  note inv = pair_invE [OF i, of e]
  note ok = end_okD [OF inv(1)]
  let ?c = "snd (rt_heap (pa_rt s e) ! p e)" and ?w = "sent_wire cv (rt_node (pa_rt s e)) (lk e) env"
  let ?r = "(pa_rt s e)\<lparr> rt_node := after_send (rt_node (pa_rt s e)) (lk e),
    rt_heap := (rt_heap (pa_rt s e))[p e := (lk e, ?c\<lparr> pc_sent := pc_sent ?c @ [payload_frame ?w] \<rparr>)] \<rparr>"
  have r: "r = ?r" using control_sent [OF sk ok(1-3,6) env(1) refl] run by simp
  have o: "ordered cv (peer_net (rt_node ?r) (lk e) (rt_node (pa_rt s (other_end e))) (lk (other_end e)) (pa_used s)
      (map (apsnd env_bytes) (q e @ [(?w, env)])) (map (apsnd env_bytes) (q (other_end e))))"
    using peer_send [OF inv(8) ok(6), of env] room by (simp add: send_room_def)
  have "pair_inv cv lk p (q(e := q e @ [(?w, env)], other_end e := q (other_end e)))
     ((set_rt e ?r s)\<lparr> pa_used := pa_used s, pa_polled := (pa_polled s)(e := pa_polled s e), pa_asked := (pa_asked s)(e := pa_asked s e @ []) \<rparr>)"
    by (rule pair_inv_move [OF i _ end_ok_conn _ refl _ _ o, where qin = "[]" and new = "[]"])
       (use inv(1) ok env in \<open>simp_all add: wire_ok_def text_in_def pa_conn_def pa_events_def\<close>)
  then show ?thesis unfolding r set_rt_same by blast
qed

text \<open>A request and a poll.\<close>

lemma pair_inv_ask:
  assumes i: "pair_inv cv lk p q s" and q: "peer_request (lk e) \<lparr> rq_peerURI = uri, rq_text = body, rq_msgID = m, rq_filePath = [] \<rparr>"
    and run: "rt_Send pick uri body m (pa_rt s e) = Some (x, r)"
  shows "\<exists>q'. pair_inv cv lk p q' ((set_rt e r s)\<lparr> pa_asked := (pa_asked s)(e := pa_asked s e @ [(m, body)]) \<rparr>)"
proof -
  note inv = pair_invE [OF i, of e]
  note ok = end_okD [OF inv(1)]
  let ?q = "\<lparr> rq_peerURI = uri, rq_text = body, rq_msgID = m, rq_filePath = [] \<rparr>"
  let ?r = "(pa_rt s e)\<lparr> rt_outbox := rt_outbox (pa_rt s e) @ [?q] \<rparr>"
  have r: "r = ?r" using run ok(4) by (auto simp: rt_Send_def enqueue_def Let_def split: if_splits)
  have h: "in_hand ?r = in_hand (pa_rt s e) @ [?q]" by (simp add: in_hand_def)
  have e: "end_ok (lk e) (p e) ?r"
    using inv(1) q h by (simp add: end_ok_def link_at_def getLink_def)
  have "pair_inv cv lk p (q(e := q e @ [], other_end e := q (other_end e)))
     ((set_rt e ?r s)\<lparr> pa_used := pa_used s, pa_polled := (pa_polled s)(e := pa_polled s e), pa_asked := (pa_asked s)(e := pa_asked s e @ [(m, body)]) \<rparr>)"
    by (rule pair_inv_move [OF i _ e _ refl, where qin = "[]" and out = "[]" and new = "[]"])
       (use inv(8) h in \<open>simp_all add: pa_conn_def pa_events_def\<close>)
  then show ?thesis unfolding r by (auto simp: set_rt_def)
qed

lemma pair_inv_poll:
  assumes i: "pair_inv cv lk p q s" and run: "rt_Poll (pa_rt s e) = (es, r)"
  shows "\<exists>q'. pair_inv cv lk p q' ((set_rt e r s)\<lparr> pa_polled := (pa_polled s)(e := pa_polled s e @ es) \<rparr>)"
proof -
  note inv = pair_invE [OF i, of e]
  have r: "es = rt_events (pa_rt s e)" "r = (pa_rt s e)\<lparr> rt_events := [] \<rparr>" using run by (simp_all add: rt_Poll_def)
  have e: "end_ok (lk e) (p e) r" using inv(1) unfolding r by (simp add: end_ok_def link_at_def getLink_def)
  have "pair_inv cv lk p (q(e := q e @ [], other_end e := q (other_end e)))
     ((set_rt e r s)\<lparr> pa_used := pa_used s, pa_polled := (pa_polled s)(e := pa_polled s e @ es), pa_asked := (pa_asked s)(e := pa_asked s e @ []) \<rparr>)"
    by (rule pair_inv_move [OF i _ e _ refl, where qin = "[]" and out = "[]" and new = "[]"])
       (use inv(8) in \<open>simp_all add: pa_conn_def pa_events_def r\<close>)
  then show ?thesis by (auto simp: set_rt_def)
qed

text \<open>The worker: it takes a request, or sends its text.\<close>

lemma pair_work_idle:
  assumes i: "pair_inv cv lk p q s" and idle: "rt_worker (pa_rt s e) = Idle" and busy: "in_hand (pa_rt s e) \<noteq> []"
  shows "\<exists>r q'. worker_step sk env pick (pa_rt s e) = Some (Inr (), r) \<and> pair_inv cv lk p q' (set_rt e r s)"
proof -
  note inv = pair_invE [OF i, of e]
  note ok = end_okD [OF inv(1)]
  obtain rq qs where ob: "rt_outbox (pa_rt s e) = rq # qs"
    using busy idle by (cases "rt_outbox (pa_rt s e)") (simp_all add: in_hand_def)
  have hand: "in_hand (pa_rt s e) = rq # qs" by (simp add: in_hand_def idle ob)
  then obtain handle where uri: "rq_peerURI rq = contact_URI handle (lk_peerKey (lk e))"
    using ok(9) by (auto simp: peer_request_def)
  let ?r = "(pa_rt s e)\<lparr> rt_outbox := qs, rt_worker := Sending rq (lk_peerFP (lk e)) (p e) \<rparr>"
  have r: "worker_step sk env pick (pa_rt s e) = Some (Inr (), ?r)"
    using ok(4,5) ParseURI_URI [OF ok(7), of handle "en_now env 0"]
    by (simp add: worker_step_def go_read_def idle ob go_put_def deliver_begin_def uri contact_New_def getLink_def ok(8) Let_def)
  have h: "in_hand ?r = in_hand (pa_rt s e)" by (simp add: in_hand_def idle ob)
  have e: "end_ok (lk e) (p e) ?r" using inv(1) h by (simp add: end_ok_def link_at_def getLink_def)
  have "pair_inv cv lk p (q(e := q e @ [], other_end e := q (other_end e)))
     ((set_rt e ?r s)\<lparr> pa_used := pa_used s, pa_polled := (pa_polled s)(e := pa_polled s e), pa_asked := (pa_asked s)(e := pa_asked s e @ []) \<rparr>)"
    by (rule pair_inv_move [OF i _ e _ refl, where qin = "[]" and out = "[]" and new = "[]"])
       (use inv(8) h in \<open>simp_all add: pa_conn_def pa_events_def\<close>)
  with r show ?thesis unfolding set_rt_same by blast
qed

lemma pair_work_sending:
  assumes i: "pair_inv cv lk p q s" and sk: "sk_curve (sk e) = cv" "sk_conn (sk e) = pion_conn (Inr ()) pc"
    and t: "time_ok (en_now env 0)" and room: "send_room (rt_node (pa_rt s e)) (lk e)"
    and sending: "rt_worker (pa_rt s e) = Sending rq (lk_peerFP (lk e)) (p e)"
  shows "\<exists>r q'. worker_step (sk e) env pick (pa_rt s e) = Some (Inr (), r) \<and> pair_inv cv lk p q' (set_rt e r s)"
proof -
  note inv = pair_invE [OF i, of e]
  note ok = end_okD [OF inv(1)]
  have rq: "rq_filePath rq = []" "utf8_valid (rq_text rq)" "rq_msgID rq \<noteq> []" "utf8_valid (rq_msgID rq)"
    using ok(9) by (simp_all add: in_hand_def sending peer_request_def)
  obtain m w n c where s: "worker_step (sk e) env pick (pa_rt s e) = Some (Inr (), send_done (en_unix env 0) (lk_peerFP (lk e)) rq
        ((pa_rt s e)\<lparr> rt_node := n, rt_heap := (rt_heap (pa_rt s e))[p e := (lk e, c)] \<rparr>))"
    "pc_sent c = pc_sent (snd (rt_heap (pa_rt s e) ! p e)) @ [payload_frame w]" "pc_in c = pc_in (snd (rt_heap (pa_rt s e) ! p e))"
    "\<not> pc_done c" "link_live n (lk e)"
    "ordered cv (peer_net n (lk e) (rt_node (pa_rt s (other_end e))) (lk (other_end e)) (pa_used s)
       (map (apsnd env_bytes) (q e) @ [(w, env_bytes m)]) (map (apsnd env_bytes) (q (other_end e))))"
    and m: "envelope_ok m" "e_type m = TypeText" "e_msgID m = rq_msgID rq" "text_of m = rq_text rq"
    by (rule text_sent [OF sk sending ok(1-3) inv(8) ok(6) room [unfolded send_room_def] rq ok(10) t])
  let ?r0 = "(pa_rt s e)\<lparr> rt_node := n, rt_heap := (rt_heap (pa_rt s e))[p e := (lk e, c)] \<rparr>"
  let ?r = "send_done (en_unix env 0) (lk_peerFP (lk e)) rq ?r0"
  have h: "in_hand (pa_rt s e) = rq # in_hand ?r" by (simp add: send_done_def in_hand_def push_def sending)
  have e: "end_ok (lk e) (p e) ?r"
    using end_ok_conn [OF inv(1) s(4,5)] ok(1) s(4) h unfolding send_done_def end_ok_push
    by (simp add: end_ok_def link_at_def getLink_def)
  have "pair_inv cv lk p (q(e := q e @ [(w, m)], other_end e := q (other_end e)))
     ((set_rt e ?r s)\<lparr> pa_used := pa_used s, pa_polled := (pa_polled s)(e := pa_polled s e), pa_asked := (pa_asked s)(e := pa_asked s e @ []) \<rparr>)"
    by (rule pair_inv_move [OF i _ e _ refl, where qin = "[]" and
          new = "[(new_event ''sent'')\<lparr> ev_peerFP := lk_peerFP (lk e), ev_msgID := rq_msgID rq, ev_time := en_unix env 0 \<rparr>]"])
       (use s ok(1) m in \<open>simp_all add: h pa_conn_def pa_events_def wire_ok_def text_in_def ack_in_def TypeText_def TypeFileOffer_def
          TypeReceipt_def send_done_def push_def new_event_def reported_def sent_ids_def delivered_ids_def asked_for_def in_hand_def sending\<close>)
  with s(1) show ?thesis unfolding set_rt_same by blast
qed

lemma pair_work:
  assumes i: "pair_inv cv lk p q s" and sk: "sk_curve (sk e) = cv" "sk_conn (sk e) = pion_conn (Inr ()) pc"
    and t: "time_ok (en_now env 0)" and room: "send_room (rt_node (pa_rt s e)) (lk e)"
    and busy: "in_hand (pa_rt s e) \<noteq> []"
  shows "\<exists>r q'. worker_step (sk e) env pick (pa_rt s e) = Some (Inr (), r) \<and> pair_inv cv lk p q' (set_rt e r s)"
proof -
  consider "rt_worker (pa_rt s e) = Idle" | rq where "rt_worker (pa_rt s e) = Sending rq (lk_peerFP (lk e)) (p e)"
    using pair_invE(1) [OF i, of e] by (auto simp: end_ok_def)
  then show ?thesis
  proof cases
    case 1
    from pair_work_idle [OF i 1 busy] show ?thesis .
  next
    case 2
    from pair_work_sending [where sk = sk and e = e and p = p and lk = lk, OF i sk t room 2] show ?thesis .
  qed
qed

text \<open>A frame carried over.\<close>

lemma pair_inv_carry:
  assumes i: "pair_inv cv lk p q s" and b: "pa_carried s e < length (pc_sent (pa_conn p s e))"
    and run: "frame_arrives (p (other_end e)) (pc_sent (pa_conn p s e) ! pa_carried s e) (pa_rt s (other_end e)) = Some r"
  shows "pair_inv cv lk p q ((set_rt (other_end e) r s)\<lparr> pa_carried := (pa_carried s)(e := Suc (pa_carried s e)) \<rparr>)"
    (is "pair_inv cv lk p q ?s")
proof -
  note inv = pair_invE [OF i]
  note ok = end_okD [OF inv(1) [of "other_end e"]]
  let ?o = "other_end e" and ?f = "pc_sent (pa_conn p s e) ! pa_carried s e" and ?c = "pa_conn p s (other_end e)"
  have ne: "?o \<noteq> e" "e \<noteq> ?o" "other_end ?o = e" using other_end_iff by metis+
  have "link_at (pa_rt s ?o) (p ?o) = lk ?o" using inv(1) [of ?o] by (simp add: end_ok_def)
  then have r: "r = (pa_rt s ?o)\<lparr> rt_heap := (rt_heap (pa_rt s ?o))[p ?o := (lk ?o, ?c\<lparr> pc_in := pc_in ?c @ [?f] \<rparr>)] \<rparr>"
    using run ok(3) by (auto simp: frame_arrives_def pion_onMessage_def Let_def pa_conn_def split: if_splits)
  have e: "end_ok (lk ?o) (p ?o) r"
    using end_ok_conn [OF inv(1) [of ?o], of "?c\<lparr> pc_in := pc_in ?c @ [?f] \<rparr>" "rt_node (pa_rt s ?o)"] ok unfolding r by (simp add: pa_conn_def)
  have conn: "pa_conn p ?s ?o = ?c\<lparr> pc_in := pc_in ?c @ [?f] \<rparr>" "pa_conn p ?s e = pa_conn p s e"
    and ev: "pa_events ?s = pa_events s" using ne ok(1) by (auto simp: pa_conn_def set_rt_def pa_events_def r fun_eq_iff)
  have same: "pa_rt ?s e = pa_rt s e" "pa_rt ?s ?o = r" "pa_carried ?s e = Suc (pa_carried s e)" "pa_carried ?s ?o = pa_carried s ?o"
    "pa_used ?s = pa_used s" "pa_asked ?s = pa_asked s"
    using ne by (simp_all add: set_rt_def)
  have hand: "in_hand r = in_hand (pa_rt s ?o)" "rt_node r = rt_node (pa_rt s ?o)" unfolding r by simp_all
  have d: "drop (pa_carried s e) (pc_sent (pa_conn p s e)) = ?f # drop (Suc (pa_carried s e)) (pc_sent (pa_conn p s e))"
    using b by (simp add: Cons_nth_drop_Suc)
  have here: "P e \<Longrightarrow> P ?o \<Longrightarrow> \<forall>e. P e" for P using other_end_iff by metis
  show ?thesis unfolding pair_inv_def
  proof (rule here, goal_cases)
    case 1
    show ?case unfolding conn ev same hand using inv [of e] b d by (intro conjI) simp_all
  next
    case 2
    show ?case unfolding ne(3) conn ev same hand using inv [of ?o, unfolded ne(3)] e by (intro conjI) simp_all
  qed
qed

text \<open>The reader: an envelope that is neither a text nor a file only makes events.\<close>

lemma handle_quiet:
  assumes "e_type m \<noteq> TypeText" "e_type m \<noteq> TypeFileOffer"
  obtains evs where "handle_envelope sk en p fp uri m r = Some (Inr (), r\<lparr> rt_events := rt_events r @ evs \<rparr>)"
    "reported evs = []" "sent_ids evs = []" "delivered_ids evs = ack_in m"
proof (cases "e_type m = TypeTyping")
  case True
  with assms show ?thesis
    by (intro that [of "[(new_event ''typing'')\<lparr> ev_peerFP := fp, ev_peerURI := uri, ev_time := en_unix en 0 \<rparr>]"])
       (simp_all add: handle_envelope_def go_put_def push_def reported_def sent_ids_def delivered_ids_def ack_in_def new_event_def
         TypeTyping_def TypeReceipt_def)
next
  case F: False
  show ?thesis
  proof (cases "e_type m = TypeReceipt \<and> (\<exists>rb. envelope_Receipt m = Inr rb)")
    case True
    then obtain rb where "e_type m = TypeReceipt" "envelope_Receipt m = Inr rb" by blast
    with assms F show ?thesis
      by (intro that [of "[(new_event ''receipt'')\<lparr> ev_peerFP := fp, ev_msgID := rb_refMsgID rb, ev_detail := rb_state rb, ev_time := en_unix en 0 \<rparr>]"])
         (simp_all add: handle_envelope_def go_put_def push_def reported_def sent_ids_def delivered_ids_def ack_in_def new_event_def)
  next
    case False
    then have "handle_envelope sk en p fp uri m r = Some (Inr (), r)" "ack_in m = []"
      using assms F by (cases "envelope_Receipt m"; simp add: handle_envelope_def go_ret_def ack_in_def)+
    then show ?thesis by (intro that [of "[]"]) simp_all
  qed
qed

lemma recv_step_waits: "sk_conn sk = pion_conn dc pc \<Longrightarrow> pc_in (snd (rt_heap r ! p)) = [] \<Longrightarrow> \<not> pc_done (snd (rt_heap r ! p)) \<Longrightarrow> recv_step sk en p r = None"
  by (simp add: recv_step_def go_read_def Let_def go_either_def on_link_def link_Receive_def go_bind_def on_conn_def go_on_def
      pion_conn_def pion_Recv_def)

text \<open>A text is reported and acknowledged.\<close>

lemma text_handled:
  assumes sk: "sk_curve sk = cv" "sk_conn sk = pion_conn (Inr ()) pc" and r: "end_ok l p r" and t: "time_ok (en_now en 0)"
    and o: "ordered cv (peer_net (rt_node r) l n' l' used qa qb)" and room: "send_room (rt_node r) l"
    and m: "envelope_ok m" "e_type m = TypeText"
  obtains env x r' where "handle_envelope sk en p (lk_peerFP l) (peerURI l) m r = Some (Inr (), r')" "end_ok l p r'" "in_hand r' = in_hand r"
    "rt_events r' = rt_events r @ [(message_event l m)\<lparr> ev_time := en_unix en 0 \<rparr>]"
    "pc_sent (snd (rt_heap r' ! p)) = pc_sent (snd (rt_heap r ! p)) @ [payload_frame x]" "pc_in (snd (rt_heap r' ! p)) = pc_in (snd (rt_heap r ! p))"
    "ordered cv (peer_net (rt_node r') l n' l' used (qa @ [(x, env_bytes env)]) qb)"
    "wire_ok (x, env)" "text_in env = []" "ack_in env = [e_msgID m]"
proof -
  note ok = end_okD [OF r]
  let ?r = "push (en_unix en 0) (message_event l m) (setLastInbound (lk_peerFP l) (e_msgID m) r)"
  have id: "utf8_valid (e_msgID m)" using m(1) by (simp add: envelope_ok_def)
  have e: "end_ok l p ?r" using r id unfolding end_ok_push by (simp add: end_ok_def setLastInbound_def link_at_def getLink_def in_hand_def)
  have same: "rt_heap ?r = rt_heap r" "rt_node ?r = rt_node r" by (simp_all add: push_def setLastInbound_def)
  obtain env x n c' where s: "send_receipt sk en p (lk_peerFP l) (e_msgID m) ?r = Some (Inr (), ?r\<lparr> rt_node := n, rt_heap := (rt_heap r)[p := (l, c')] \<rparr>)"
    "pc_sent c' = pc_sent (snd (rt_heap r ! p)) @ [payload_frame x]" "pc_in c' = pc_in (snd (rt_heap r ! p))" "\<not> pc_done c'" "link_live n l"
    "ordered cv (peer_net n l n' l' used (qa @ [(x, env_bytes env)]) qb)"
    and env: "envelope_ok env" "e_type env = TypeReceipt" "envelope_Receipt env = Inr \<lparr> rb_refMsgID = e_msgID m, rb_state = StateDelivered \<rparr>"
    by (rule receipt_sent [of sk cv pc p ?r l "snd (rt_heap r ! p)", unfolded same,
          OF sk ok(1-3) o ok(6) room [unfolded send_room_def] ok(10) id t])
  show ?thesis
    by (rule that [where env = env and x = x, OF _ end_ok_conn [OF e s(4,5), unfolded same]])
       (use s ok(1) env m(2) in \<open>simp_all add: handle_text push_def setLastInbound_def in_hand_def wire_ok_def text_in_def ack_in_def
          TypeReceipt_def TypeText_def TypeFileOffer_def\<close>)
qed

lemma envelope_handled:
  assumes sk: "sk_curve sk = cv" "sk_conn sk = pion_conn (Inr ()) pc" and r: "end_ok l p r" and t: "time_ok (en_now en 0)"
    and o: "ordered cv (peer_net (rt_node r) l n' l' used (map (apsnd env_bytes) qa) qb)" and room: "send_room (rt_node r) l"
    and m: "envelope_ok m" "e_type m \<noteq> TypeFileOffer"
  obtains r' out new where "handle_envelope sk en p (lk_peerFP l) (peerURI l) m r = Some (Inr (), r')" "end_ok l p r'" "in_hand r' = in_hand r"
    "rt_events r' = rt_events r @ new" "pc_in (snd (rt_heap r' ! p)) = pc_in (snd (rt_heap r ! p))"
    "pc_sent (snd (rt_heap r' ! p)) = pc_sent (snd (rt_heap r ! p)) @ map (payload_frame \<circ> fst) out"
    "ordered cv (peer_net (rt_node r') l n' l' used (map (apsnd env_bytes) (qa @ out)) qb)"
    "list_all wire_ok out" "texts_in out = []" "reported new = text_in m" "sent_ids new = []" "delivered_ids new = ack_in m" "map fst (text_in m) = acks_in out"
proof (cases "e_type m = TypeText")
  case True
  from text_handled [OF sk r t o room m(1) True] obtain env x r' where h:
    "handle_envelope sk en p (lk_peerFP l) (peerURI l) m r = Some (Inr (), r')" "end_ok l p r'" "in_hand r' = in_hand r"
    "rt_events r' = rt_events r @ [(message_event l m)\<lparr> ev_time := en_unix en 0 \<rparr>]"
    "pc_sent (snd (rt_heap r' ! p)) = pc_sent (snd (rt_heap r ! p)) @ [payload_frame x]" "pc_in (snd (rt_heap r' ! p)) = pc_in (snd (rt_heap r ! p))"
    "ordered cv (peer_net (rt_node r') l n' l' used (map (apsnd env_bytes) qa @ [(x, env_bytes env)]) qb)"
    "wire_ok (x, env)" "text_in env = []" "ack_in env = [e_msgID m]" by metis
  have tm: "text_in m = [(e_msgID m, text_of m)]" "ack_in m = []" using True by (simp_all add: text_in_def ack_in_def TypeText_def TypeReceipt_def)
  show ?thesis
    by (rule that [of r' "[(message_event l m)\<lparr> ev_time := en_unix en 0 \<rparr>]" "[(x, env)]", OF h(1,2)])
       (use h tm in \<open>simp_all add: reported_def sent_ids_def delivered_ids_def message_event_def new_event_def\<close>)
next
  case False
  obtain evs where h: "handle_envelope sk en p (lk_peerFP l) (peerURI l) m r = Some (Inr (), r\<lparr> rt_events := rt_events r @ evs \<rparr>)"
    "reported evs = []" "sent_ids evs = []" "delivered_ids evs = ack_in m" by (rule handle_quiet [OF False m(2)])
  show ?thesis
    by (rule that [of _ evs "[]", OF h(1)]) (use h False r o in \<open>simp_all add: text_in_def end_ok_def link_at_def getLink_def\<close>)
qed

lemma pair_read:
  assumes cv: "curve_ok cv" and i: "pair_inv cv lk p q s" and sk: "sk_curve (sk e) = cv" "sk_conn (sk e) = pion_conn (Inr ()) pc"
    and t: "time_ok (en_now en 0)" and room: "send_room (rt_node (pa_rt s e)) (lk e)"
    and k: "en_recv en = Inr k" "length k = 32" "x25519_base cv k \<notin> pa_used s" and arrived: "pc_in (pa_conn p s e) \<noteq> []"
  shows "\<exists>r q'. recv_step (sk e) en (p e) (pa_rt s e) = Some (Inr Continue, r) \<and>
    pair_inv cv lk p q' ((set_rt e r s)\<lparr> pa_used := insert (x25519_base cv k) (pa_used s) \<rparr>)"
proof -
  let ?o = "other_end e" and ?used = "insert (x25519_base cv k) (pa_used s)"
  have oo: "other_end ?o = e" by (cases e) simp_all
  note inv = pair_invE [OF i, of e] and inv' = pair_invE [OF i, of ?o, unfolded oo]
  note ok = end_okD [OF inv(1)]
  obtain ins w m rest where w: "pc_in (snd (rt_heap (pa_rt s e) ! p e)) = payload_frame w # ins" "q ?o = (w, m) # rest"
    using arrived inv'(4) by (cases "q ?o"; cases "pc_in (pa_conn p s e)") (auto simp: pa_conn_def)
  have m: "envelope_ok m" "e_type m \<noteq> TypeFileOffer" using inv'(2) w(2) by (simp_all add: wire_ok_def)
  have o: "ordered cv (peer_net (rt_node (pa_rt s ?o)) (lk ?o) (rt_node (pa_rt s e)) (lk e) (pa_used s)
      ((w, env_bytes m) # map (apsnd env_bytes) rest) (map (apsnd env_bytes) (q e)))" using inv'(8) w(2) by simp
  obtain n c where r0: "recv_step (sk e) en (p e) (pa_rt s e) = go_seq (handle_envelope (sk e) en (p e) (lk_peerFP (lk e)) (peerURI (lk e)) m)
       (go_ret Continue) ((pa_rt s e)\<lparr> rt_node := n, rt_heap := (rt_heap (pa_rt s e))[p e := (lk e, c)] \<rparr>)"
    and c: "pc_in c = ins" "pc_sent c = pc_sent (snd (rt_heap (pa_rt s e) ! p e))" "pc_done c = pc_done (snd (rt_heap (pa_rt s e) ! p e))"
      "link_live n (lk e)" "r_ns (sess n (lk e)) \<in> {r_ns (sess (rt_node (pa_rt s e)) (lk e)), 0}"
    and o': "ordered cv (peer_net (rt_node (pa_rt s ?o)) (lk ?o) n (lk e) ?used (map (apsnd env_bytes) rest) (map (apsnd env_bytes) (q e)))"
    by (rule reader_run [OF cv sk ok(1,2) w(1) o ok(6) m(1) k])
  let ?r0 = "(pa_rt s e)\<lparr> rt_node := n, rt_heap := (rt_heap (pa_rt s e))[p e := (lk e, c)] \<rparr>"
  have e0: "end_ok (lk e) (p e) ?r0" by (rule end_ok_conn [OF inv(1)]) (use c ok(3) in simp_all)
  have heap0: "snd (rt_heap ?r0 ! p e) = c" using ok(1) by simp
  have o0: "ordered cv (peer_net (rt_node ?r0) (lk e) (rt_node (pa_rt s ?o)) (lk ?o) ?used (map (apsnd env_bytes) (q e)) (map (apsnd env_bytes) rest))"
    using o' ordered_swap by simp
  have room0: "send_room (rt_node ?r0) (lk e)" using room c(5) by (auto simp: send_room_def)
  obtain r out new where r: "handle_envelope (sk e) en (p e) (lk_peerFP (lk e)) (peerURI (lk e)) m ?r0 = Some (Inr (), r)" "end_ok (lk e) (p e) r"
    "in_hand r = in_hand ?r0" "rt_events r = rt_events ?r0 @ new" "pc_in (snd (rt_heap r ! p e)) = pc_in (snd (rt_heap ?r0 ! p e))"
    "pc_sent (snd (rt_heap r ! p e)) = pc_sent (snd (rt_heap ?r0 ! p e)) @ map (payload_frame \<circ> fst) out"
    "ordered cv (peer_net (rt_node r) (lk e) (rt_node (pa_rt s ?o)) (lk ?o) ?used (map (apsnd env_bytes) (q e @ out)) (map (apsnd env_bytes) rest))"
    "list_all wire_ok out" "texts_in out = []" "reported new = text_in m" "sent_ids new = []" "delivered_ids new = ack_in m" "map fst (text_in m) = acks_in out"
    by (rule envelope_handled [OF sk e0 t o0 room0 m])
  have "pair_inv cv lk p (q(e := q e @ out, ?o := rest))
     ((set_rt e r s)\<lparr> pa_used := ?used, pa_polled := (pa_polled s)(e := pa_polled s e), pa_asked := (pa_asked s)(e := pa_asked s e @ []) \<rparr>)"
    by (rule pair_inv_move [OF i _ r(2,8) refl _ _ r(7), where qin = "[(w, m)]" and new = new])
       (use w r c heap0 in \<open>simp_all add: pa_conn_def pa_events_def\<close>)
  then have "pair_inv cv lk p (q(e := q e @ out, ?o := rest)) ((set_rt e r s)\<lparr> pa_used := ?used \<rparr>)" by (simp add: set_rt_def)
  moreover have "recv_step (sk e) en (p e) (pa_rt s e) = Some (Inr Continue, r)" unfolding r0 using r(1) by (simp add: go_seq_def go_bind_def go_ret_def)
  ultimately show ?thesis by blast
qed

text \<open>Any step.\<close>

lemma worker_waits: "end_ok l p r \<Longrightarrow> in_hand r = [] \<Longrightarrow> worker_step sk env pick r = None"
  by (auto simp: end_ok_def in_hand_def worker_step_def go_read_def go_block_def)

lemma pair_inv_typing:
  assumes i: "pair_inv cv lk p q s" and sk: "sk_curve (sk e) = cv" "sk_conn (sk e) = pion_conn (Inr ()) pc"
    and t: "\<forall>i. time_ok (en_now env i)" and room: "send_room (rt_node (pa_rt s e)) (lk e)"
    and run: "rt_SendTyping (sk e) env (contact_URI handle (lk_peerKey (lk e))) (pa_rt s e) = Some (x, r)"
  shows "\<exists>q'. pair_inv cv lk p q' (set_rt e r s)"
proof -
  note ok = end_okD [OF pair_invE(1) [OF i, of e]]
  let ?m = "NewEnvelope TypeTyping (lk_peerFP (lk e)) None (en_ids env 0) (en_now env 1)"
  have m: "envelope_ok ?m" by (rule NewEnvelope_ok) (use t ok(10) in \<open>simp_all add: TypeTyping_def utf8_valid_ascii\<close>)
  have run': "go_ignore (on_link (p e) (\<lambda>l. encryptSendLocked (sk_curve (sk e)) (sk_conn (sk e)) l ?m)) (pa_rt s e) = Some (x, r)"
    using run ok(5) ParseURI_URI [OF ok(7), of handle "en_now env 0"]
    by (simp add: rt_SendTyping_def go_read_def contact_New_def ok(8) link_SendTyping_def Let_def)
  show ?thesis
    by (rule pair_inv_control [where e = e and sk = sk and lk = lk and p = p, OF i sk room m _ _ _ run'])
       (simp_all add: NewEnvelope_def ack_in_def TypeTyping_def TypeText_def TypeFileOffer_def TypeReceipt_def)
qed

lemma pair_inv_mark:
  assumes i: "pair_inv cv lk p q s" and sk: "sk_curve (sk e) = cv" "sk_conn (sk e) = pion_conn (Inr ()) pc"
    and t: "\<forall>i. time_ok (en_now env i)" and room: "send_room (rt_node (pa_rt s e)) (lk e)"
    and run: "rt_MarkRead (sk e) env (contact_URI handle (lk_peerKey (lk e))) (pa_rt s e) = Some (x, r)"
  shows "\<exists>q'. pair_inv cv lk p q' (set_rt e r s)"
proof -
  note inv = pair_invE [OF i, of e]
  note ok = end_okD [OF inv(1)]
  have st: "utf8_valid StateRead" "StateRead \<noteq> StateDelivered" by (simp_all add: StateRead_def StateDelivered_def utf8_valid_ascii)
  note eqs = rt_MarkRead_def go_read_def contact_New_def ok(8) Let_def ParseURI_URI [OF ok(7), of handle "en_now env 0"]
  show ?thesis
  proof (cases "\<exists>m. gm_get (rt_lastIn (pa_rt s e)) (lk_peerFP (lk e)) = Some m \<and> m \<noteq> []")
    case True
    then obtain m where m: "gm_get (rt_lastIn (pa_rt s e)) (lk_peerFP (lk e)) = Some m" "m \<noteq> []" by blast
    have u: "utf8_valid m" using inv(1) m(1) by (simp add: end_ok_def)
    obtain rc where rc: "NewReceipt (lk_peerFP (lk e)) m StateRead (en_ids env 0) (en_now env 1) = Inr rc" "envelope_ok rc" "e_type rc = TypeReceipt"
      "envelope_Receipt rc = Inr \<lparr> rb_refMsgID = m, rb_state = StateRead \<rparr>"
      by (rule receipt_envelope [OF ok(10) u st(1) t [rule_format]])
    have run': "go_ignore (on_link (p e) (\<lambda>l. encryptSendLocked (sk_curve (sk e)) (sk_conn (sk e)) l rc)) (pa_rt s e) = Some (x, r)"
      using run ok(5) m by (simp add: eqs SendReceipt_run [OF rc(1) [unfolded ok(8) One_nat_def]])
    show ?thesis
      by (rule pair_inv_control [where e = e and sk = sk and lk = lk and p = p, OF i sk room rc(2) _ _ _ run'])
         (use rc(3,4) st(2) in \<open>simp_all add: ack_in_def TypeText_def TypeFileOffer_def TypeReceipt_def\<close>)
  next
    case False
    then have "r = pa_rt s e" using run ok(5) by (auto simp: eqs go_ret_def split: option.splits if_splits)
    then have "set_rt e r s = s" by (simp add: set_rt_def)
    with i show ?thesis by auto
  qed
qed

lemma pair_inv_step:
  assumes cv: "curve_ok cv" and sk: "\<And>e. sk_curve (sk e) = cv" "\<And>e. sk_conn (sk e) = pion_conn (Inr ()) (pc e)"
    and i: "pair_inv cv lk p q s" and step: "pair_step cv sk lk p s t"
  shows "\<exists>q'. pair_inv cv lk p q' t"
  using step
proof cases
  case (ask e uri body m pick x r)
  from pair_inv_ask [OF i ask(2,3)] show ?thesis unfolding ask(1) .
next
  case (work env e pick x r)
  then have "in_hand (pa_rt s e) \<noteq> []" using worker_waits [OF pair_invE(1) [OF i, of e], of "sk e" env pick] by auto
  with pair_work [where e = e and sk = sk and lk = lk and p = p and env = env and pick = pick, OF i sk _ work(3)] work show ?thesis by auto
next
  case (carry e r)
  from pair_inv_carry [OF i carry(2,3)] show ?thesis unfolding carry(1) by blast
next
  case (read env e k x r)
  have "pc_in (pa_conn p s e) \<noteq> []"
    using recv_step_waits [OF sk(2), of "pa_rt s e" "p e" e env] end_okD(3) [OF pair_invE(1) [OF i, of e]] read(7) by (auto simp: pa_conn_def)
  with pair_read [where e = e and sk = sk and lk = lk and p = p, OF cv i sk _ read(3-6)] read show ?thesis by auto
next
  case (poll e es r)
  from pair_inv_poll [OF i poll(2)] show ?thesis unfolding poll(1) .
next
  case (typing env e handle x r)
  from pair_inv_typing [where e = e and sk = sk and lk = lk and p = p, OF i sk typing(2-4)] show ?thesis unfolding typing(1) .
next
  case (mark env e handle x r)
  from pair_inv_mark [where e = e and sk = sk and lk = lk and p = p, OF i sk mark(2-4)] show ?thesis unfolding mark(1) .
qed

lemma pair_inv_reach:
  assumes "pair_reach cv sk lk p s t" "curve_ok cv" "\<And>e. sk_curve (sk e) = cv" "\<And>e. sk_conn (sk e) = pion_conn (Inr ()) (pc e)"
    and "pair_inv cv lk p q s"
  shows "\<exists>q'. pair_inv cv lk p q' t"
  using assms(1,5)
proof (induction rule: pair_reach.induct)
  case (step s t u)
  then obtain q' where "pair_inv cv lk p q' t" by blast
  with step(2) show ?case using pair_inv_step [where sk = sk and lk = lk and p = p, OF assms(2-4)] by blast
qed blast

section \<open>The start, and progress\<close>

text \<open>Two engines as the handshake and \<open>adopt\<close> leave them: nothing asked, nothing on its way.\<close>

definition pair_start :: "curve \<Rightarrow> (pipe_end \<Rightarrow> link) \<Rightarrow> (pipe_end \<Rightarrow> nat) \<Rightarrow> 'g pair \<Rightarrow> bool" where
  "pair_start cv lk p s \<longleftrightarrow>
     pion_linked cv (rt_node (pa_rt s EndA)) (lk EndA) (rt_node (pa_rt s EndB)) (lk EndB) (pa_used s) \<and>
     (\<forall>e. end_ok (lk e) (p e) (pa_rt s e) \<and> in_hand (pa_rt s e) = [] \<and> pa_asked s e = [] \<and>
        pc_in (pa_conn p s e) = [] \<and> pa_carried s e = length (pc_sent (pa_conn p s e)) \<and>
        reported (pa_events s e) = [] \<and> sent_ids (pa_events s e) = [] \<and> delivered_ids (pa_events s e) = [])"

lemma pair_start_inv:
  assumes "pair_start cv lk p s"
  shows "pair_inv cv lk p (\<lambda>_. []) s"
proof -
  have "ordered cv (peer_net (rt_node (pa_rt s e)) (lk e) (rt_node (pa_rt s (other_end e))) (lk (other_end e)) (pa_used s) [] [])" for e
    using assms ordered_swap by (cases e) (auto simp: pair_start_def pion_linked_def)
  with assms show ?thesis by (simp add: pair_start_def pair_inv_def)
qed

text \<open>While something asked for is not delivered and acknowledged, a worker, the network or a reader can go on.\<close>

lemma pair_progress:
  assumes cv: "curve_ok cv" and sk: "\<And>e. sk_curve (sk e) = cv" "\<And>e. sk_conn (sk e) = pion_conn (Inr ()) (pc e)"
    and i: "pair_inv cv lk p q s" and t: "\<forall>i. time_ok (en_now env i)" and room: "\<forall>e. send_room (rt_node (pa_rt s e)) (lk e)"
    and k: "en_recv env = Inr k" "length k = 32" "x25519_base cv k \<notin> pa_used s"
    and todo: "delivered_ids (pa_events s e) \<noteq> map fst (pa_asked s e)"
  shows "\<exists>e r. worker_step (sk e) env pick (pa_rt s e) = Some (Inr (), r) \<or> recv_step (sk e) env (p e) (pa_rt s e) = Some (Inr Continue, r) \<or>
    frame_arrives (p (other_end e)) (pc_sent (pa_conn p s e) ! pa_carried s e) (pa_rt s (other_end e)) = Some r \<and>
      pa_carried s e < length (pc_sent (pa_conn p s e))"
proof -
  note inv = pair_invE [OF i]
  have "in_hand (pa_rt s e) \<noteq> [] \<or> q e \<noteq> [] \<or> q (other_end e) \<noteq> []"
    using todo inv(5) [of e] inv(7) [of e] by auto
  then consider (work) "in_hand (pa_rt s e) \<noteq> []" | (wire) d where "q d \<noteq> []" by blast
  then show ?thesis
  proof cases
    case work
    from pair_work [where e = e and sk = sk and lk = lk and p = p and env = env and pick = pick, OF i sk t [rule_format] room [rule_format] work]
    show ?thesis by blast
  next
    case wire
    show ?thesis
    proof (cases "pc_in (pa_conn p s (other_end d)) = []")
      case True
      then have "drop (pa_carried s d) (pc_sent (pa_conn p s d)) \<noteq> []" using inv(4) [of d] wire by auto
      then have "pa_carried s d < length (pc_sent (pa_conn p s d))" by simp
      moreover have "frame_arrives (p (other_end d)) b (pa_rt s (other_end d)) \<noteq> None" for b
        using True end_okD(3) [OF inv(1), of "other_end d"] by (simp add: frame_arrives_def pion_onMessage_def pa_conn_def pipe_cap_def)
      ultimately show ?thesis by blast
    next
      case False
      from pair_read [where e = "other_end d" and sk = sk and lk = lk and p = p, OF cv i sk t [rule_format] room [rule_format] k False]
      show ?thesis by blast
    qed
  qed
qed

section \<open>Properties\<close>

text \<open>C2. Two linked engines keep every conversation in order. Whatever the apps do (\<open>Send\<close>, \<open>Poll\<close>, \<open>SendTyping\<close>, \<open>MarkRead\<close>)
  and in whatever order workers, readers and the network take their steps: the messages one engine has
  reported are, text by text and in order, the first of those the other app asked for, none lost between
  two of them and none twice; the \<open>sent\<close> events run ahead of them and never ahead of the requests; and
  each delivered receipt stands for a message that was reported, in the same order. As long as a request has
  not been reported and acknowledged, a worker, the network or a reader has a step that succeeds.\<close>

theorem engines_converse:
  assumes cv: "curve_ok cv" and sk: "\<And>e. sk_curve (sk e) = cv" "\<And>e. sk_conn (sk e) = pion_conn (Inr ()) (pc e)"
    and start: "pair_start cv lk p s" and run: "pair_reach cv sk lk p s t"
  shows "prefix (reported (pa_events t (other_end e))) (pa_asked t e) \<and>
    prefix (sent_ids (pa_events t e)) (map fst (pa_asked t e)) \<and>
    prefix (map fst (reported (pa_events t (other_end e)))) (sent_ids (pa_events t e)) \<and>
    prefix (delivered_ids (pa_events t e)) (map fst (reported (pa_events t (other_end e)))) \<and>
    (\<forall>env k pick. (\<forall>i. time_ok (en_now env i)) \<and> (\<forall>e. send_room (rt_node (pa_rt t e)) (lk e)) \<and>
       en_recv env = Inr k \<and> length k = 32 \<and> x25519_base cv k \<notin> pa_used t \<and> delivered_ids (pa_events t e) \<noteq> map fst (pa_asked t e) \<longrightarrow>
       (\<exists>e r. worker_step (sk e) env pick (pa_rt t e) = Some (Inr (), r) \<or> recv_step (sk e) env (p e) (pa_rt t e) = Some (Inr Continue, r) \<or>
         frame_arrives (p (other_end e)) (pc_sent (pa_conn p t e) ! pa_carried t e) (pa_rt t (other_end e)) = Some r \<and>
           pa_carried t e < length (pc_sent (pa_conn p t e))))"
proof -
  obtain q where i: "pair_inv cv lk p q t" using pair_inv_reach [where sk = sk and lk = lk and p = p, OF run cv sk pair_start_inv [OF start]] by blast
  note inv = pair_invE [OF i, of e]
  have "prefix (reported (pa_events t (other_end e))) (pa_asked t e)" "prefix (sent_ids (pa_events t e)) (map fst (pa_asked t e))"
    unfolding inv(5,6) by simp_all
  moreover have "prefix (map fst (reported (pa_events t (other_end e)))) (sent_ids (pa_events t e))" unfolding inv(6) by simp
  moreover have "prefix (delivered_ids (pa_events t e)) (map fst (reported (pa_events t (other_end e))))" unfolding inv(7) by simp
  ultimately show ?thesis using pair_progress [where sk = sk and lk = lk and p = p and e = e, OF cv sk i] by blast
qed

definition toy_linked_engine :: "node \<Rightarrow> link \<Rightarrow> (pionConn, fabric) runtime" where
  "toy_linked_engine n l = (eg_rt toy_engine)\<lparr> rt_node := n, rt_heap := [(l, newPionConn)], rt_links := [(lk_peerFP l, 0)] \<rparr>"

lemma toy_linked_simps [simp]:
  "rt_node (toy_linked_engine n l) = n" "rt_heap (toy_linked_engine n l) = [(l, newPionConn)]" "rt_events (toy_linked_engine n l) = []"
  "in_hand (toy_linked_engine n l) = []" "rt_outbox (toy_linked_engine n l) = []" "\<not> rt_closed (toy_linked_engine n l)"
  "getLink (toy_linked_engine n l) (lk_peerFP l) = Some 0" "rt_worker (toy_linked_engine n l) = Idle" "rt_lastIn (toy_linked_engine n l) = []"
  by (simp_all add: toy_linked_engine_def toy_engine_def engine_start_def StartWith_def in_hand_def getLink_def gm_get_def)

theorem engines_converse_witness:
  "\<exists>lk (s :: fabric pair) t. pair_start toy_curve lk (\<lambda>_. 0) s \<and> pair_reach toy_curve (\<lambda>_. toy_stack) lk (\<lambda>_. 0) s t \<and>
     pa_asked t EndA = [(''m'', ''hi'')] \<and> prefix (reported (pa_events t EndB)) [(''m'', ''hi'')] \<and>
     (\<exists>e r. worker_step toy_stack toy_step_env False (pa_rt t e) = Some (Inr (), r) \<or> recv_step toy_stack toy_step_env 0 (pa_rt t e) = Some (Inr Continue, r) \<or>
       frame_arrives 0 (pc_sent (pa_conn (\<lambda>_. 0) t e) ! pa_carried t e) (pa_rt t (other_end e)) = Some r \<and>
         pa_carried t e < length (pc_sent (pa_conn (\<lambda>_. 0) t e)))"
proof (rule handshake_peers [OF toy_curve_ok toy_node_ok [of 1] toy_node_ok [of 2], of "replicate 32 5" "replicate 32 6", where 'a = unit and 'b = unit], goal_cases)
  case (3 hs la lb na nb)
  let ?used = "used_keys toy_curve (toy_node 2) (replicate 32 6)"
  define lk where "lk e = (case e of EndA \<Rightarrow> la | EndB \<Rightarrow> lb)" for e
  define s :: "fabric pair" where "s = \<lparr> pa_rt = (\<lambda>e. case e of EndA \<Rightarrow> toy_linked_engine na la | EndB \<Rightarrow> toy_linked_engine nb lb),
    pa_carried = (\<lambda>_. 0), pa_used = ?used, pa_polled = (\<lambda>_. []), pa_asked = (\<lambda>_. []) \<rparr>"
  have len: "length (node_key (toy_node b)) = 32" for b
    using toy_node_ok [of b] length_signing_pub [OF toy_curve_ok] by (simp add: node_ok_def account_ok_def)
  have ok: "end_ok l 0 (toy_linked_engine n l)" if "link_live n l" "lk_peerKey l = node_key (toy_node b)" "lk_peerFP l = Fingerprint (lk_peerKey l)" for n l b
    using that(1,2) len [of b] that(3) [symmetric]
    by (simp add: end_ok_def peer_named_def link_at_def newPionConn_def gm_get_def)
  have start: "pair_start toy_curve lk (\<lambda>_. 0) s" unfolding pair_start_def
    using ok [OF 3(7,3)] ok [OF 3(8,5)] 3(3-9)
    by (auto simp: s_def lk_def pion_linked_def pa_conn_def pa_events_def newPionConn_def split: pipe_end.split)
  let ?uri = "contact_URI [] (lk_peerKey la)"
  let ?q = "\<lparr> rq_peerURI = ?uri, rq_text = ''hi'', rq_msgID = ''m'', rq_filePath = [] \<rparr>"
  define r where "r = (toy_linked_engine na la)\<lparr> rt_outbox := [?q] \<rparr>"
  define t where "t = (set_rt EndA r s)\<lparr> pa_asked := (pa_asked s)(EndA := pa_asked s EndA @ [(''m'', ''hi'')]) \<rparr>"
  have "pair_step toy_curve (\<lambda>_. toy_stack) lk (\<lambda>_. 0) s t" unfolding t_def
    by (rule pair_step.ask [where pick = False and uri = ?uri and x = "Inr ()"])
       (auto simp: peer_request_def lk_def utf8_valid_ascii rt_Send_def enqueue_def outbox_cap_def s_def r_def)
  then have run: "pair_reach toy_curve (\<lambda>_. toy_stack) lk (\<lambda>_. 0) s t" by (rule pair_reach.step [OF pair_reach.start])
  have sk: "sk_curve toy_stack = toy_curve" "sk_conn toy_stack = pion_conn (Inr ()) (Inr ())" by (simp_all add: toy_stack_def)
  have k: "en_recv toy_step_env = Inr (toy_draws 0)" "length (toy_draws 0) = 32" "x25519_base toy_curve (toy_draws 0) \<notin> pa_used t"
    using toy_draws_fresh by (simp_all add: fresh_from_def t_def set_rt_def s_def) (simp add: toy_step_env_def toy_draws_def)
  have room: "\<forall>e. send_room (rt_node (pa_rt t e)) (lk e)"
    using 3(12,13) by (auto simp: send_room_def t_def set_rt_def s_def r_def lk_def split: pipe_end.split)
  have tm: "\<forall>i. time_ok (en_now toy_step_env i)" using time_ok_zero by (simp add: toy_step_env_def)
  have a: "pa_asked t EndA = [(''m'', ''hi'')]" "delivered_ids (pa_events t EndA) = []" by (simp_all add: t_def s_def set_rt_def r_def pa_events_def)
  from engines_converse [where sk = "\<lambda>_. toy_stack" and lk = lk and p = "\<lambda>_. 0" and pc = "\<lambda>_. Inr ()" and e = EndA, OF toy_curve_ok sk start run]
  show ?case using start run a k room tm by (intro exI [of _ lk] exI [of _ s] exI [of _ t]) auto
qed simp_all

end
