(* ===== verification/Engine_Files.thy ===== *)
theory Engine_Files
  imports Runtime_Delivery
begin

text \<open>
  A file between two engines: the send worker reads and splits it and sends the offer and the chunks over
  an open link, the reader of the other engine takes them, reassembles the file and saves it.
\<close>

section \<open>The two steps\<close>

lemma file_sent:
  assumes sk: "sk_curve sk = cv" "sk_conn sk = pion_conn (Inr ()) pc"
    and r: "rt_worker r = Sending q fp p" "p < length (rt_heap r)" "rt_heap r ! p = (l, c)" "\<not> pc_done c"
    and o: "ordered cv (peer_net (rt_node r) l nb lb used [] [])" "link_live (rt_node r) l"
    and q: "rq_filePath q \<noteq> []" "en_file env = Inr data" and fp: "utf8_valid fp" "\<And>i. time_ok (en_now env i)"
    and sp: "Split (path_Base (rq_filePath q)) (mimeOf env (path_Base (rq_filePath q))) data 0 (Inr key) (en_fid env) = Inr (off, chunks)"
      "en_key env = Inr key"
    and b: "unat (r_ns (sess (rt_node r) l)) + length chunks + 1002 < 2 ^ 32"
  obtains na c' x xs where
    "worker_step sk env pick r = Some (Inr (), send_done (en_unix env 0) fp q (r\<lparr> rt_node := na, rt_heap := (rt_heap r)[p := (l, c')] \<rparr>))"
    "pc_sent c' = pc_sent c @ map payload_frame (x # xs)" "length xs = length chunks"
    "ordered cv (peer_net na l nb lb used ((x, env_bytes (envFor TypeFileOffer fp (offer_json off) (en_ids env 0) (en_now env 0))) #
       zip xs (map env_bytes (chunk_envs fp (en_ids env) (en_now env) 1 chunks))) [])"
proof -
  obtain na c' x xs where s: "link_SendFile cv (pion_conn (Inr ()) pc) l (en_flush env) fp (path_Base (rq_filePath q)) (mimeOf env (path_Base (rq_filePath q)))
      data (Inr key) (en_fid env) (en_ids env) (en_now env) \<lparr> w_node = rt_node r, w_conn = c \<rparr> = Some (Inr off, \<lparr> w_node = na, w_conn = c' \<rparr>)"
    "pc_sent c' = pc_sent c @ map payload_frame (x # xs)" "length xs = length chunks"
    "ordered cv (peer_net na l nb lb used ((x, env_bytes (envFor TypeFileOffer fp (offer_json off) (en_ids env 0) (en_now env 0))) #
       zip xs (map env_bytes (chunk_envs fp (en_ids env) (en_now env) 1 chunks))) [])"
    by (rule pion_conn.SendFile_run [where now = "en_now env", OF fp sp(1) pion_takes [OF r(4)] o b])
  have "on_link p (send_op sk env q fp (Inl data)) r = Some (Inr (), r\<lparr> rt_node := na, rt_heap := (rt_heap r)[p := (l, c')] \<rparr>)"
    using r(2,3) s(1) sk sp(2) by (simp add: on_link_def send_op_def link_at_def Let_def go_bind_def go_ret_def)
  then have "worker_step sk env pick r =
      Some (Inr (), send_done (en_unix env 0) fp q (r\<lparr> rt_node := na, rt_heap := (rt_heap r)[p := (l, c')] \<rparr>))"
    using r(1) q by (simp add: worker_step_def go_read_def deliver_send_def send_payload_def rbind_def go_either_def go_put_def)
  then show ?thesis using s(2-4) by (rule that)
qed

definition file_event :: "link \<Rightarrow> offer \<Rightarrow> string \<Rightarrow> string \<Rightarrow> event" where
  "file_event l off m path = (new_event ''file'')\<lparr> ev_peerFP := lk_peerFP l, ev_peerURI := peerURI l, ev_msgID := m,
     ev_name := o_name off, ev_path := path, ev_detail := o_mime off \<rparr>"

context conn_flow
begin

lemma file_taken:
  assumes cv: "curve_ok cv" and sk: "sk_curve sk = cv" "sk_conn sk = io" and free: "\<And>b c. conn_Send io b c \<noteq> None"
    and r: "p < length (rt_heap r)" "rt_heap r ! p = (l, c)" "arrived c = map payload_frame (x # xs)" "length xs = length chunks"
    and o: "ordered cv (peer_net n' l' (rt_node r) l used ((x, env_bytes (envFor TypeFileOffer fp (offer_json off) (ids 0) (now 0))) #
       zip xs (map env_bytes (chunk_envs fp ids now 1 chunks))) [])" "link_live (rt_node r) l"
    and utf8: "utf8_valid fp" "utf8_valid name" "utf8_valid mime" and times: "\<And>i. time_ok (now i)"
    and sp: "Split name mime data 0 (Inr key) fid = Inr (off, chunks)" "length key = 32" "length chunks < 2 ^ 32"
    and k: "en_recv env = Inr (k 0)" "en_chunks env = (\<lambda>i. Inr (k (Suc i)))" "fresh_from cv used k 0 (Suc (length chunks))"
    and disk: "en_mkdir env = Inr ()" "en_write env = None"
  defines "path \<equiv> path_Join (rt_filesDir r) (int_string (en_nano env) @ CHR ''-'' # file_base (o_name off))"
    and "m \<equiv> e_msgID (envFor TypeFileOffer fp (offer_json off) (ids 0) (now 0))"
  shows "\<exists>r'. recv_step sk env p r = Some (Inr Continue, r') \<and> rt_files r' = rt_files r @ [(path, data)] \<and>
    rt_events r' = rt_events r @ [(file_event l off m path)\<lparr> ev_time := en_unix env 0 \<rparr>]"
proof -
  let ?e = "envFor TypeFileOffer fp (offer_json off) (ids 0) (now 0)"
  note fk = fresh_from_now [OF k(3) zero_less_Suc]
  have e: "envelope_ok ?e" using utf8 times by (intro envFor_ok) simp_all
  have arr: "arrived c = payload_frame x # map payload_frame xs" using r(3) by simp
  obtain n c1 where rv: "recv_step sk env p r = go_seq (handle_envelope sk env p (lk_peerFP l) (peerURI l) ?e) (go_ret Continue)
      (r\<lparr> rt_node := n, rt_heap := (rt_heap r)[p := (l, c1)] \<rparr>)" and c1: "arrived c1 = map payload_frame xs" "link_live n l"
    "ordered cv (peer_net n' l' n l (insert (x25519_base cv (k 0)) used) (zip xs (map env_bytes (chunk_envs fp ids now 1 chunks))) [])"
    by (rule read_envelope [OF cv sk r(1,2) arr o e k(1) conjunct1 [OF fk] conjunct2 [OF fk]])
  let ?r1 = "r\<lparr> rt_node := n, rt_heap := (rt_heap r)[p := (l, c1)] \<rparr>"
  have frn: "fresh_from cv (insert (x25519_base cv (k 0)) used) (\<lambda>j. k (Suc j)) 0 (length chunks)"
    using fresh_from_shift [OF fresh_from_next [OF k(3)]] by simp
  obtain w where bd: "ReceiveFileBody cv io l (\<lambda>i. Inr (k (Suc i))) off \<lparr> w_node = n, w_conn = c1 \<rparr> = Some (Inr data, w)"
    using ReceiveFileBody_run [where now = now, OF cv utf8(1) times sp c1(1) r(4) c1(2,3) frn] by blast
  let ?r2 = "r\<lparr> rt_node := w_node w, rt_heap := (rt_heap r)[p := (l, w_conn w)] \<rparr>"
  have ol: "on_link p (\<lambda>l. ReceiveFileBody (sk_curve sk) (sk_conn sk) l (en_chunks env) off) ?r1 = Some (Inr data, ?r2)"
    using r(1) bd sk k(2) by (simp add: on_link_def link_at_def)
  let ?r3 = "push (en_unix env 0) (file_event l off m path) (setLastInbound (lk_peerFP l) m (?r2\<lparr> rt_files := rt_files r @ [(path, data)] \<rparr>))"
  obtain r' where rs: "send_receipt sk env p (lk_peerFP l) m ?r3 = Some (Inr (), r')" "rt_events r' = rt_events ?r3" "rt_files r' = rt_files ?r3"
    using receipt_passes [of sk p ?r3 env "lk_peerFP l" m] r(1) free sk(2) by (auto simp: push_def setLastInbound_def)
  have ty: "e_type ?e \<noteq> TypeText" "e_type ?e = TypeFileOffer" by (simp_all add: envFor_body TypeText_def TypeFileOffer_def)
  have sv: "saveFile env (o_name off) data ?r2 = (Inr path, ?r2\<lparr> rt_files := rt_files r @ [(path, data)] \<rparr>)"
    using disk by (simp add: saveFile_def path_def Let_def)
  have "handle_envelope sk env p (lk_peerFP l) (peerURI l) ?e ?r1 = Some (Inr (), r')"
    using ol sv rs(1) offer_parsed [OF utf8(2,3) sp] ty
    by (simp add: handle_envelope_def recv_file_def go_either_def go_call_def go_seq_def go_bind_def go_put_def file_event_def m_def)
  then have "recv_step sk env p r = Some (Inr Continue, r')"
    by (simp only: rv go_seq_def go_bind_def option.case prod.case sum.case go_ret_def)
  then show ?thesis using rs(2,3) by (simp add: push_def setLastInbound_def)
qed

lemma file_crosses:
  fixes ra :: "(pionConn, 'g) runtime" and skb :: "('c, 'h) stack"
  assumes cv: "curve_ok cv" and ska: "sk_curve ska = cv" "sk_conn ska = pion_conn (Inr ()) pc"
    and skb: "sk_curve skb = cv" "sk_conn skb = io" "\<And>b c. conn_Send io b c \<noteq> None"
    and a: "rt_worker ra = Sending q fp pa" "pa < length (rt_heap ra)" "\<not> pc_done (snd (rt_heap ra ! pa))"
    and linked: "pion_linked cv (rt_node ra) (link_at ra pa) nb lb used"
    and q: "rq_filePath q \<noteq> []" "en_file enva = Inr data" and fp: "utf8_valid fp" "\<And>i. time_ok (en_now enva i)"
    and name: "utf8_valid (path_Base (rq_filePath q))" "utf8_valid (mimeOf enva (path_Base (rq_filePath q)))"
    and sp: "Split (path_Base (rq_filePath q)) (mimeOf enva (path_Base (rq_filePath q))) data 0 (Inr key) (en_fid enva) = Inr (off, chunks)"
      "en_key enva = Inr key" "length key = 32"
    and b: "unat (r_ns (sess (rt_node ra) (link_at ra pa))) + length chunks + 1002 < 2 ^ 32"
    and k: "en_recv envb = Inr (k 0)" "en_chunks envb = (\<lambda>i. Inr (k (Suc i)))" "fresh_from cv used k 0 (Suc (length chunks))"
    and disk: "en_mkdir envb = Inr ()" "en_write envb = None"
  shows "\<exists>ra' frames. worker_step ska enva pick ra = Some (Inr (), ra') \<and> rt_worker ra' = Idle \<and>
    rt_events ra' = rt_events ra @ [(new_event ''sent'')\<lparr> ev_peerFP := fp, ev_msgID := rq_msgID q, ev_time := en_unix enva 0 \<rparr>] \<and>
    pc_sent (snd (rt_heap ra' ! pa)) = pc_sent (snd (rt_heap ra ! pa)) @ frames \<and> length frames = Suc (length chunks) \<and>
    (\<forall>rb pb cb. rt_node rb = nb \<longrightarrow> pb < length (rt_heap rb) \<longrightarrow> rt_heap rb ! pb = (lb, cb) \<longrightarrow> arrived cb = frames \<longrightarrow>
      (\<exists>rb' path. recv_step skb envb pb rb = Some (Inr Continue, rb') \<and> saveFile envb (path_Base (rq_filePath q)) data rb = (Inr path, rb\<lparr> rt_files := rt_files rb' \<rparr>) \<and>
        rt_files rb' = rt_files rb @ [(path, data)] \<and>
        rt_events rb' = rt_events rb @ [(new_event ''file'')\<lparr> ev_peerFP := lk_peerFP lb, ev_peerURI := peerURI lb,
          ev_msgID := newID (en_ids enva 0), ev_name := path_Base (rq_filePath q), ev_path := path,
          ev_detail := mimeOf enva (path_Base (rq_filePath q)), ev_time := en_unix envb 0 \<rparr>]))"
proof -
  let ?la = "link_at ra pa" and ?c = "snd (rt_heap ra ! pa)"
  have h: "rt_heap ra ! pa = (?la, ?c)" by (simp add: link_at_def)
  have live: "link_live (rt_node ra) ?la" "link_live nb lb" and o: "ordered cv (peer_net (rt_node ra) ?la nb lb used [] [])"
    using linked by (simp_all add: pion_linked_def)
  have off: "o_name off = path_Base (rq_filePath q)" "o_mime off = mimeOf enva (path_Base (rq_filePath q))"
    using sp(1) by (auto simp: Split_def Let_def rbind_def split: sum.splits)
  obtain na c' x xs where s: "worker_step ska enva pick ra =
       Some (Inr (), send_done (en_unix enva 0) fp q (ra\<lparr> rt_node := na, rt_heap := (rt_heap ra)[pa := (?la, c')] \<rparr>))"
    "pc_sent c' = pc_sent ?c @ map payload_frame (x # xs)" "length xs = length chunks"
    "ordered cv (peer_net na ?la nb lb used ((x, env_bytes (envFor TypeFileOffer fp (offer_json off) (en_ids enva 0) (en_now enva 0))) #
       zip xs (map env_bytes (chunk_envs fp (en_ids enva) (en_now enva) 1 chunks))) [])"
    by (rule file_sent [where pick = pick, OF ska a(1,2) h a(3) o live(1) q fp sp(1,2) b])
  have few: "length chunks < 2 ^ 32" using b by simp
  have r: "\<exists>rb' path. recv_step skb envb pb rb = Some (Inr Continue, rb') \<and>
      saveFile envb (path_Base (rq_filePath q)) data rb = (Inr path, rb\<lparr> rt_files := rt_files rb' \<rparr>) \<and> rt_files rb' = rt_files rb @ [(path, data)] \<and>
      rt_events rb' = rt_events rb @ [(new_event ''file'')\<lparr> ev_peerFP := lk_peerFP lb, ev_peerURI := peerURI lb,
        ev_msgID := newID (en_ids enva 0), ev_name := path_Base (rq_filePath q), ev_path := path,
        ev_detail := mimeOf enva (path_Base (rq_filePath q)), ev_time := en_unix envb 0 \<rparr>]"
    if rb: "rt_node rb = nb" "pb < length (rt_heap rb)" "rt_heap rb ! pb = (lb, cb)" "arrived cb = map payload_frame (x # xs)"
    for rb :: "('c, 'h) runtime" and pb cb
    using file_taken [where now = "en_now enva" and ids = "en_ids enva", OF cv skb rb(2-4) s(3), unfolded rb(1), OF s(4) live(2) fp(1) name fp(2) sp(1,3) few k disk] off disk
    by (auto simp: file_event_def envFor_def NewEnvelope_def saveFile_def Let_def)
  show ?thesis
    by (intro exI [of _ "send_done (en_unix enva 0) fp q (ra\<lparr> rt_node := na, rt_heap := (rt_heap ra)[pa := (?la, c')] \<rparr>)"] exI [of _ "map payload_frame (x # xs)"])
       (use s(1-3) r a(2) in \<open>auto simp: send_done_def push_def\<close>)
qed

end

section \<open>Properties\<close>

lemma pion_conn_free: "conn_Send (pion_conn dc pc) b c \<noteq> None"
  by (simp add: pion_conn_def pion_Send_returns)

lemma fed_conn_free: "conn_Send (fed_conn dc pc) b c \<noteq> None"
  by (simp add: fed_conn_def fed_on_def pion_Send_returns)

text \<open>C10. A file travels from engine to engine. The sender's worker holds a request for a file over an open link; its
  step reads the file, sends the offer and all chunks and reports \<open>sent\<close>. When the frames it handed to
  the data channel have arrived, the step of the other engine's reader returns, has written exactly the
  bytes of the file below its files directory, and reports a \<open>file\<close> event with the sender's file name and
  that path. The event, and the receipt that is sent for it, carry the id of the offer's envelope,
  a fresh one, and not the id of the sender's request.\<close>

theorem file_between_engines:
  fixes ra :: "(pionConn, 'g) runtime" and skb :: "(pionConn, 'h) stack"
  assumes cv: "curve_ok cv" and ska: "sk_curve ska = cv" "sk_conn ska = pion_conn (Inr ()) pc"
    and skb: "sk_curve skb = cv" "sk_conn skb = pion_conn dc pc'"
    and a: "rt_worker ra = Sending q fp pa" "pa < length (rt_heap ra)" "\<not> pc_done (snd (rt_heap ra ! pa))"
    and linked: "pion_linked cv (rt_node ra) (link_at ra pa) nb lb used"
    and q: "rq_filePath q \<noteq> []" "en_file enva = Inr data" and fp: "utf8_valid fp" "\<And>i. time_ok (en_now enva i)"
    and name: "utf8_valid (path_Base (rq_filePath q))" "utf8_valid (mimeOf enva (path_Base (rq_filePath q)))"
    and sp: "Split (path_Base (rq_filePath q)) (mimeOf enva (path_Base (rq_filePath q))) data 0 (Inr key) (en_fid enva) = Inr (off, chunks)"
      "en_key enva = Inr key" "length key = 32"
    and b: "unat (r_ns (sess (rt_node ra) (link_at ra pa))) + length chunks + 1002 < 2 ^ 32"
    and k: "en_recv envb = Inr (k 0)" "en_chunks envb = (\<lambda>i. Inr (k (Suc i)))" "fresh_from cv used k 0 (Suc (length chunks))"
    and disk: "en_mkdir envb = Inr ()" "en_write envb = None"
  shows "\<exists>ra' frames. worker_step ska enva pick ra = Some (Inr (), ra') \<and> rt_worker ra' = Idle \<and>
    rt_events ra' = rt_events ra @ [(new_event ''sent'')\<lparr> ev_peerFP := fp, ev_msgID := rq_msgID q, ev_time := en_unix enva 0 \<rparr>] \<and>
    pc_sent (snd (rt_heap ra' ! pa)) = pc_sent (snd (rt_heap ra ! pa)) @ frames \<and>
    (\<forall>rb pb cb. rt_node rb = nb \<longrightarrow> pb < length (rt_heap rb) \<longrightarrow> rt_heap rb ! pb = (lb, cb) \<longrightarrow> pc_in cb = frames \<longrightarrow>
      (\<exists>rb' path. recv_step skb envb pb rb = Some (Inr Continue, rb') \<and> saveFile envb (path_Base (rq_filePath q)) data rb = (Inr path, rb\<lparr> rt_files := rt_files rb' \<rparr>) \<and>
        rt_files rb' = rt_files rb @ [(path, data)] \<and>
        rt_events rb' = rt_events rb @ [(new_event ''file'')\<lparr> ev_peerFP := lk_peerFP lb, ev_peerURI := peerURI lb,
          ev_msgID := newID (en_ids enva 0), ev_name := path_Base (rq_filePath q), ev_path := path,
          ev_detail := mimeOf enva (path_Base (rq_filePath q)), ev_time := en_unix envb 0 \<rparr>]))"
  using pion_conn.file_crosses [where pick = pick, OF cv ska skb pion_conn_free a linked q fp name sp b k disk]
  by (elim exE conjE) (intro exI conjI; assumption)

definition toy_file_request :: outReq where
  "toy_file_request = \<lparr> rq_peerURI = ''x'', rq_text = [], rq_msgID = ''m'', rq_filePath = ''/home/alice/f'' \<rparr>"

theorem file_between_engines_witness:
  "\<exists>(ra :: (pionConn, fabric) runtime) (rb :: (pionConn, fabric) runtime) ra' rb' path.
     worker_step toy_stack toy_step_env False ra = Some (Inr (), ra') \<and> map (\<lambda>e. (ev_kind e, ev_msgID e)) (rt_events ra') = [(''sent'', ''m'')] \<and>
     recv_step toy_stack (toy_step_env\<lparr> en_chunks := (\<lambda>i. Inr (toy_draws (Suc i))) \<rparr>) 0 rb = Some (Inr Continue, rb') \<and> rt_files rb' = [(path, [1])] \<and>
     map (\<lambda>e. (ev_kind e, ev_name e, ev_path e, ev_msgID e)) (rt_events rb') = [(''file'', ''f'', path, newID [1])]"
proof -
  let ?eb = "toy_step_env\<lparr> en_chunks := (\<lambda>i. Inr (toy_draws (Suc i))) \<rparr>"
  obtain na la nb lb where l: "pion_linked toy_curve na la nb lb (used_keys toy_curve (toy_node 2) (replicate 32 6))" "r_ns (sess na la) = 0"
    by (rule toy_linked)
  define ra where "ra = (eg_rt toy_engine)\<lparr> rt_node := na, rt_heap := [(la, newPionConn)], rt_worker := Sending toy_file_request ''fp'' 0 \<rparr>"
  have a: "rt_worker ra = Sending toy_file_request ''fp'' 0" "0 < length (rt_heap ra)" "\<not> pc_done (snd (rt_heap ra ! 0))" "rt_events ra = []"
    "rt_node ra = na" "link_at ra 0 = la"
    by (simp_all add: ra_def newPionConn_def link_at_def toy_engine_def engine_start_def StartWith_def)
  have sk: "sk_curve toy_stack = toy_curve" "sk_conn toy_stack = pion_conn (Inr ()) (Inr ())" by (simp_all add: toy_stack_def)
  have pb: "path_Base (rq_filePath toy_file_request) = ''f''" "path_Ext ''f'' = []" unfolding toy_file_request_def by (simp, code_simp) code_simp
  have mi: "mimeOf toy_step_env ''f'' = ''application/octet-stream''" by (simp add: mimeOf_def toy_step_env_def)
  have e: "en_recv ?eb = Inr (toy_draws 0)" "en_chunks ?eb = (\<lambda>i. Inr (toy_draws (Suc i)))" "en_now toy_step_env i = zero_time"
    "en_key toy_step_env = Inr (replicate 32 7)" "en_file toy_step_env = Inr [1]" "en_mkdir ?eb = Inr ()" "en_write ?eb = None"
    "en_ids toy_step_env i = [1]" for i
    by (simp_all add: toy_step_env_def) (simp add: toy_draws_def)
  have "blocks (unat DefaultChunkSize) [1 :: byte] = [[1]]" by (simp add: blocks.simps DefaultChunkSize_def)
  then have "split_loop (replicate 32 7) fid DefaultChunkSize [1] 0 0 = Inr (seal_from (replicate 32 7) fid 0 [[1]])" for fid
    using split_loop_blocks [of "replicate 32 7" DefaultChunkSize fid "[1]" 0 0] by (simp add: DefaultChunkSize_def)
  then obtain off chunks where sp: "Split (path_Base (rq_filePath toy_file_request)) (mimeOf toy_step_env (path_Base (rq_filePath toy_file_request))) [1] 0
      (Inr (replicate 32 7)) (en_fid toy_step_env) = Inr (off, chunks)" and n: "length chunks = 1"
    by (simp add: Split_def Let_def)
  have fr: "fresh_from toy_curve (used_keys toy_curve (toy_node 2) (replicate 32 6)) toy_draws 0 (Suc (length chunks))"
    using toy_draws_fresh n by (simp add: numeral_2_eq_2)
  have lk: "pion_linked toy_curve (rt_node ra) (link_at ra 0) nb lb (used_keys toy_curve (toy_node 2) (replicate 32 6))"
    and ns: "unat (r_ns (sess (rt_node ra) (link_at ra 0))) + length chunks + 1002 < 2 ^ 32" 
    and u: "utf8_valid ''fp''" "\<And>i. time_ok (en_now toy_step_env i)" and nm: "utf8_valid (path_Base (rq_filePath toy_file_request))"
      "utf8_valid (mimeOf toy_step_env (path_Base (rq_filePath toy_file_request)))" and kl: "length (replicate 32 (7 :: byte)) = 32"
    using l a(5,6) n by (simp_all add: utf8_valid_ascii e(3) pb mi)
  have q: "rq_filePath toy_file_request \<noteq> []" by (simp add: toy_file_request_def)
  obtain ra' frames where w: "worker_step toy_stack toy_step_env False ra = Some (Inr (), ra')"
    "rt_events ra' = rt_events ra @ [(new_event ''sent'')\<lparr> ev_peerFP := ''fp'', ev_msgID := rq_msgID toy_file_request, ev_time := en_unix toy_step_env 0 \<rparr>]"
    and r: "\<forall>(rb :: (pionConn, fabric) runtime) pb cb. rt_node rb = nb \<longrightarrow> pb < length (rt_heap rb) \<longrightarrow> rt_heap rb ! pb = (lb, cb) \<longrightarrow> pc_in cb = frames \<longrightarrow>
      (\<exists>rb' path. recv_step toy_stack ?eb pb rb = Some (Inr Continue, rb') \<and> rt_files rb' = rt_files rb @ [(path, [1])] \<and>
        rt_events rb' = rt_events rb @ [(new_event ''file'')\<lparr> ev_peerFP := lk_peerFP lb, ev_peerURI := peerURI lb,
          ev_msgID := newID [1], ev_name := ''f'', ev_path := path,
          ev_detail := mimeOf toy_step_env ''f'', ev_time := en_unix ?eb 0 \<rparr>])"
    using file_between_engines [OF toy_curve_ok sk sk a(1-3) lk q e(5) u nm sp e(4) kl ns e(1,2) fr e(6,7), of False] unfolding pb e(8) by blast
  define rb where "rb = (eg_rt toy_engine)\<lparr> rt_node := nb, rt_heap := [(lb, newPionConn\<lparr> pc_in := frames \<rparr>)] \<rparr>"
  have b: "rt_node rb = nb" "0 < length (rt_heap rb)" "rt_heap rb ! 0 = (lb, newPionConn\<lparr> pc_in := frames \<rparr>)" "rt_events rb = []" "rt_files rb = []"
    by (simp_all add: rb_def toy_engine_def engine_start_def StartWith_def)
  obtain rb' path where rb': "recv_step toy_stack ?eb 0 rb = Some (Inr Continue, rb')" "rt_files rb' = rt_files rb @ [(path, [1])]"
    "rt_events rb' = rt_events rb @ [(new_event ''file'')\<lparr> ev_peerFP := lk_peerFP lb, ev_peerURI := peerURI lb,
      ev_msgID := newID [1], ev_name := ''f'', ev_path := path, ev_detail := mimeOf toy_step_env ''f'', ev_time := en_unix ?eb 0 \<rparr>]"
    using r [rule_format, OF b(1-3)] by auto
  show ?thesis
    by (intro exI [of _ ra] exI [of _ rb] exI [of _ ra'] exI [of _ rb'] exI [of _ path])
       (use w rb' a(4) b(4,5) in \<open>simp add: new_event_def toy_file_request_def\<close>)
qed

text \<open>C28. A file may have more frames than the inbound queue of a connection holds (64): the reader takes them out while the
  data channel goes on delivering. As above, with the frames spread over the queue of the receiving connection
  and the way to it, each \<open>Recv\<close> preceded by the \<open>OnMessage\<close> callbacks the queue has room for: however
  long the file, the reader's step returns with all its bytes written and reported.\<close>

theorem file_longer_than_queue:
  fixes ra :: "(pionConn, 'g) runtime" and skb :: "(fedConn, 'h) stack"
  assumes cv: "curve_ok cv" and ska: "sk_curve ska = cv" "sk_conn ska = pion_conn (Inr ()) pc"
    and skb: "sk_curve skb = cv" "sk_conn skb = fed_conn dc pc'"
    and a: "rt_worker ra = Sending q fp pa" "pa < length (rt_heap ra)" "\<not> pc_done (snd (rt_heap ra ! pa))"
    and linked: "pion_linked cv (rt_node ra) (link_at ra pa) nb lb used"
    and q: "rq_filePath q \<noteq> []" "en_file enva = Inr data" and fp: "utf8_valid fp" "\<And>i. time_ok (en_now enva i)"
    and name: "utf8_valid (path_Base (rq_filePath q))" "utf8_valid (mimeOf enva (path_Base (rq_filePath q)))"
    and sp: "Split (path_Base (rq_filePath q)) (mimeOf enva (path_Base (rq_filePath q))) data 0 (Inr key) (en_fid enva) = Inr (off, chunks)"
      "en_key enva = Inr key" "length key = 32"
    and b: "unat (r_ns (sess (rt_node ra) (link_at ra pa))) + length chunks + 1002 < 2 ^ 32"
    and k: "en_recv envb = Inr (k 0)" "en_chunks envb = (\<lambda>i. Inr (k (Suc i)))" "fresh_from cv used k 0 (Suc (length chunks))"
    and disk: "en_mkdir envb = Inr ()" "en_write envb = None"
  shows "\<exists>ra' frames. worker_step ska enva pick ra = Some (Inr (), ra') \<and> rt_worker ra' = Idle \<and>
    rt_events ra' = rt_events ra @ [(new_event ''sent'')\<lparr> ev_peerFP := fp, ev_msgID := rq_msgID q, ev_time := en_unix enva 0 \<rparr>] \<and>
    pc_sent (snd (rt_heap ra' ! pa)) = pc_sent (snd (rt_heap ra ! pa)) @ frames \<and> length frames = Suc (length chunks) \<and>
    (\<forall>rb pb cb. rt_node rb = nb \<longrightarrow> pb < length (rt_heap rb) \<longrightarrow> rt_heap rb ! pb = (lb, cb) \<longrightarrow> fed_arrived cb = frames \<longrightarrow>
      (\<exists>rb' path. recv_step skb envb pb rb = Some (Inr Continue, rb') \<and> saveFile envb (path_Base (rq_filePath q)) data rb = (Inr path, rb\<lparr> rt_files := rt_files rb' \<rparr>) \<and>
        rt_files rb' = rt_files rb @ [(path, data)] \<and>
        rt_events rb' = rt_events rb @ [(new_event ''file'')\<lparr> ev_peerFP := lk_peerFP lb, ev_peerURI := peerURI lb,
          ev_msgID := newID (en_ids enva 0), ev_name := path_Base (rq_filePath q), ev_path := path,
          ev_detail := mimeOf enva (path_Base (rq_filePath q)), ev_time := en_unix envb 0 \<rparr>]))"
  by (rule fed_conn.file_crosses [OF cv ska skb fed_conn_free a linked q fp name sp b k disk])

text \<open>A file of seventy chunks.\<close>

definition long_file :: bytes where
  "long_file = replicate (70 * 16384) 1"

definition toy_fed_stack :: "(fedConn, fabric) stack" where
  "toy_fed_stack = \<lparr> sk_curve = toy_curve, sk_sig = mem_signaler ''b'', sk_dial = (\<lambda>_. go_err ''dial''), sk_accept = go_err ''accept'',
     sk_conn = fed_conn (Inr ()) (Inr ()) \<rparr>"

lemma toy_draws_many: "fresh_from toy_curve (used_keys toy_curve (toy_node 2) (replicate 32 6)) toy_draws 0 100"
proof -
  define d :: "nat \<Rightarrow> byte" where "d j = of_nat (77 + j)" for j
  have u: "unat (d j) = 77 + j" if "j < 100" for j
    unfolding d_def using that by (intro unat_of_nat_small) simp
  have b: "x25519_base toy_curve (toy_draws j) = replicate 32 (d j)" for j
    by (simp add: toy_draws_def toy_curve_def d_def)
  have used: "used_keys toy_curve (toy_node 2) (replicate 32 6) \<subseteq> {replicate 32 w |w. unat w < 77}"
    by (simp add: used_keys_def toy_curve_def toy_node_def node_New_def toy_account_def toy_prekeys_def)
  show ?thesis unfolding fresh_from_def
  proof (intro ballI conjI impI)
    fix j assume j: "j \<in> {0..<100 :: nat}"
    show "length (toy_draws j) = 32" by (simp add: toy_draws_def)
    show "x25519_base toy_curve (toy_draws j) \<notin> used_keys toy_curve (toy_node 2) (replicate 32 6)"
      using used u [of j] j unfolding b by auto
    show "j = j'" if "j' \<in> {0..<100}" "x25519_base toy_curve (toy_draws j) = x25519_base toy_curve (toy_draws j')" for j'
    proof -
      have "unat (d j) = unat (d j')" using that(2) unfolding b by simp
      then show ?thesis using u [of j] u [of j'] that(1) j by simp
    qed
  qed
qed

theorem file_longer_than_queue_witness:
  "\<exists>(ra :: (pionConn, fabric) runtime) (rb :: (fedConn, fabric) runtime) ra' rb' path.
     worker_step toy_stack (toy_step_env\<lparr> en_file := Inr long_file \<rparr>) False ra = Some (Inr (), ra') \<and>
     length (pc_sent (snd (rt_heap ra' ! 0))) = 71 \<and> fc_way (snd (rt_heap rb ! 0)) = pc_sent (snd (rt_heap ra' ! 0)) \<and>
     recv_step toy_fed_stack (toy_step_env\<lparr> en_chunks := (\<lambda>i. Inr (toy_draws (Suc i))) \<rparr>) 0 rb = Some (Inr Continue, rb') \<and>
     rt_files rb' = [(path, long_file)] \<and> map ev_kind (rt_events rb') = [''file'']"
proof -
  let ?ea = "toy_step_env\<lparr> en_file := Inr long_file \<rparr>" and ?eb = "toy_step_env\<lparr> en_chunks := (\<lambda>i. Inr (toy_draws (Suc i))) \<rparr>"
  let ?used = "used_keys toy_curve (toy_node 2) (replicate 32 6)" and ?q = toy_file_request
  obtain na la nb lb where l: "pion_linked toy_curve na la nb lb ?used" "r_ns (sess na la) = 0"
    by (rule toy_linked)
  define ra where "ra = (eg_rt toy_engine)\<lparr> rt_node := na, rt_heap := [(la, newPionConn)], rt_worker := Sending ?q ''fp'' 0 \<rparr>"
  have a: "rt_worker ra = Sending ?q ''fp'' 0" "0 < length (rt_heap ra)" "\<not> pc_done (snd (rt_heap ra ! 0))" "pc_sent (snd (rt_heap ra ! 0)) = []"
    "rt_node ra = na" "link_at ra 0 = la"
    by (simp_all add: ra_def newPionConn_def link_at_def)
  have sk: "sk_curve toy_stack = toy_curve" "sk_conn toy_stack = pion_conn (Inr ()) (Inr ())"
    "sk_curve toy_fed_stack = toy_curve" "sk_conn toy_fed_stack = fed_conn (Inr ()) (Inr ())"
    by (simp_all add: toy_stack_def toy_fed_stack_def)
  have pb: "path_Base (rq_filePath ?q) = ''f''" "path_Ext ''f'' = []" unfolding toy_file_request_def by (simp, code_simp) code_simp
  have mi: "mimeOf ?ea ''f'' = ''application/octet-stream''" by (simp add: mimeOf_def toy_step_env_def)
  have e: "en_recv ?eb = Inr (toy_draws 0)" "en_chunks ?eb = (\<lambda>i. Inr (toy_draws (Suc i)))" "en_now toy_step_env i = zero_time"
    "en_key ?ea = Inr (replicate 32 7)" "en_file ?ea = Inr long_file" "en_mkdir ?eb = Inr ()" "en_write ?eb = None" for i
    by (simp_all add: toy_step_env_def) (simp add: toy_draws_def)
  have kl: "length (replicate 32 (7 :: byte)) = 32" by simp
  obtain off chunks where sp: "Split (path_Base (rq_filePath ?q)) (mimeOf ?ea (path_Base (rq_filePath ?q))) long_file 0
      (Inr (replicate 32 7)) (en_fid ?ea) = Inr (off, chunks)"
    using Split_ok [OF kl] by metis
  have n: "length chunks = 70" using Split_chunks(2) [OF sp kl] by (simp add: long_file_def)
  have fr: "fresh_from toy_curve ?used toy_draws 0 (Suc (length chunks))"
    using toy_draws_many n by (auto simp: fresh_from_def)
  have lk: "pion_linked toy_curve (rt_node ra) (link_at ra 0) nb lb ?used"
    and ns: "unat (r_ns (sess (rt_node ra) (link_at ra 0))) + length chunks + 1002 < 2 ^ 32"
    and u: "utf8_valid ''fp''" "\<And>i. time_ok (en_now ?ea i)" and nm: "utf8_valid (path_Base (rq_filePath ?q))"
      "utf8_valid (mimeOf ?ea (path_Base (rq_filePath ?q)))"
    using l a(5,6) n time_ok_zero by (simp_all add: utf8_valid_ascii e(3) pb mi)
  have q: "rq_filePath ?q \<noteq> []" by (simp add: toy_file_request_def)
  obtain ra' frames where w: "worker_step toy_stack ?ea False ra = Some (Inr (), ra')"
    "pc_sent (snd (rt_heap ra' ! 0)) = pc_sent (snd (rt_heap ra ! 0)) @ frames" "length frames = Suc (length chunks)"
    and r: "\<forall>(rb :: (fedConn, fabric) runtime) pb cb. rt_node rb = nb \<longrightarrow> pb < length (rt_heap rb) \<longrightarrow> rt_heap rb ! pb = (lb, cb) \<longrightarrow> fed_arrived cb = frames \<longrightarrow>
      (\<exists>rb' path. recv_step toy_fed_stack ?eb pb rb = Some (Inr Continue, rb') \<and> rt_files rb' = rt_files rb @ [(path, long_file)] \<and>
        (\<exists>x. rt_events rb' = rt_events rb @ [(new_event ''file'')\<lparr> ev_peerFP := lk_peerFP lb, ev_peerURI := peerURI lb,
          ev_msgID := newID (en_ids ?ea 0), ev_name := path_Base (rq_filePath ?q), ev_path := path,
          ev_detail := mimeOf ?ea (path_Base (rq_filePath ?q)), ev_time := x \<rparr>]))"
    using file_longer_than_queue [OF toy_curve_ok sk a(1-3) lk q e(5) u nm sp e(4) kl ns e(1,2) fr e(6,7), of False] by blast
  define cb where "cb = \<lparr> fc_conn = newPionConn, fc_way = frames \<rparr>"
  define rb :: "(fedConn, fabric) runtime" where "rb = (StartWith (toy_node 2) (rt_sig (eg_rt toy_engine)) ''b'' [])\<lparr> rt_node := nb, rt_heap := [(lb, cb)] \<rparr>"
  have b: "rt_node rb = nb" "0 < length (rt_heap rb)" "rt_heap rb ! 0 = (lb, cb)" "fed_arrived cb = frames" "rt_events rb = []" "rt_files rb = []"
    by (simp_all add: rb_def StartWith_def fed_arrived_def cb_def newPionConn_def)
  obtain rb' path x where rb': "recv_step toy_fed_stack ?eb 0 rb = Some (Inr Continue, rb')" "rt_files rb' = rt_files rb @ [(path, long_file)]"
    "rt_events rb' = rt_events rb @ [(new_event ''file'')\<lparr> ev_peerFP := lk_peerFP lb, ev_peerURI := peerURI lb,
          ev_msgID := newID (en_ids ?ea 0), ev_name := path_Base (rq_filePath ?q), ev_path := path,
          ev_detail := mimeOf ?ea (path_Base (rq_filePath ?q)), ev_time := x \<rparr>]"
    using r [rule_format, OF b(1-4)] by blast
  have "length (pc_sent (snd (rt_heap ra' ! 0))) = 71" "fc_way (snd (rt_heap rb ! 0)) = pc_sent (snd (rt_heap ra' ! 0))"
    using w(2,3) a(4) n b(3) by (simp_all add: cb_def)
  moreover have "rt_files rb' = [(path, long_file)]" "map ev_kind (rt_events rb') = [''file'']"
    using rb'(2,3) b(5,6) by (simp_all add: new_event_def)
  ultimately show ?thesis using w(1) rb'(1) by - (intro exI conjI; assumption)
qed

end
