(* ===== verification/Emoji.thy ===== *)
theory Emoji
  imports Go_Map Messaging
begin

text \<open>
  \<open>src/core/pkg/emoji\<close>: the catalog of static emoji with the substitution of \<open>:shortcode:\<close> tokens
  (\<open>emoji.go\<close>) and the packs of animated emoji (\<open>animated.go\<close>). Emoji are the bytes of their UTF-8 encoding.
\<close>

section \<open>Shortcodes\<close>

definition shortcodes :: "(string \<times> string) list" where
  "shortcodes =
     [(''smile'', [CHR 0xF0, CHR 0x9F, CHR 0x98, CHR 0x84]),
      (''grin'', [CHR 0xF0, CHR 0x9F, CHR 0x98, CHR 0x81]),
      (''joy'', [CHR 0xF0, CHR 0x9F, CHR 0x98, CHR 0x82]),
      (''heart'', [CHR 0xE2, CHR 0x9D, CHR 0xA4, CHR 0xEF, CHR 0xB8, CHR 0x8F]),
      (''thumbsup'', [CHR 0xF0, CHR 0x9F, CHR 0x91, CHR 0x8D]),
      (''thumbsdown'', [CHR 0xF0, CHR 0x9F, CHR 0x91, CHR 0x8E]),
      (''fire'', [CHR 0xF0, CHR 0x9F, CHR 0x94, CHR 0xA5]),
      (''tada'', [CHR 0xF0, CHR 0x9F, CHR 0x8E, CHR 0x89]),
      (''rocket'', [CHR 0xF0, CHR 0x9F, CHR 0x9A, CHR 0x80]),
      (''eyes'', [CHR 0xF0, CHR 0x9F, CHR 0x91, CHR 0x80]),
      (''wave'', [CHR 0xF0, CHR 0x9F, CHR 0x91, CHR 0x8B]),
      (''lock'', [CHR 0xF0, CHR 0x9F, CHR 0x94, CHR 0x92])]"

text \<open>\<open>strings.ToLower\<close> as far as the result can be a key of the catalog, all of which are ASCII: besides the
  ASCII letters only U+0130 and U+212A (the Kelvin sign) have an ASCII letter as their lower case.\<close>

fun lower_key :: "string \<Rightarrow> string" where
  "lower_key [] = []"
| "lower_key (c # cs) =
     (if 65 \<le> cc c \<and> cc c \<le> 90 then char_of (cc c + 32 :: nat) # lower_key cs
      else case cs of
             d # ds \<Rightarrow>
               if c = CHR 0xC4 \<and> d = CHR 0xB0 then CHR ''i'' # lower_key ds
               else if c = CHR 0xE2 \<and> d = CHR 0x84 \<and> ds \<noteq> [] \<and> hd ds = CHR 0xAA then CHR ''k'' # lower_key (tl ds)
               else c # lower_key cs
           | [] \<Rightarrow> [c])"

definition Lookup :: "string \<Rightarrow> string option" where
  "Lookup shortcode = map_of shortcodes (lower_key shortcode)"

definition before_colon :: "string \<Rightarrow> string" where
  "before_colon s = takeWhile (\<lambda>c. c \<noteq> CHR '':'') s"

definition from_colon :: "string \<Rightarrow> string" where
  "from_colon s = dropWhile (\<lambda>c. c \<noteq> CHR '':'') s"

definition token :: "string \<Rightarrow> string" where
  "token name = (case Lookup name of Some e \<Rightarrow> e | None \<Rightarrow> '':'' @ name @ '':'')"

text \<open>The loop of \<open>Replace\<close>: text up to a colon, then a name up to the next colon.\<close>

function Replace :: "string \<Rightarrow> string" where
  "Replace s =
     (case from_colon s of
        [] \<Rightarrow> s
      | _ # r \<Rightarrow>
          (case from_colon r of
             [] \<Rightarrow> before_colon s @ from_colon s
           | _ # rest \<Rightarrow> before_colon s @ token (before_colon r) @ Replace rest))"
  by auto
termination
proof (relation "measure length")
  fix s c r d and rest :: string
  assume "from_colon s = c # r" "from_colon r = d # rest"
  then have "length (c # r) \<le> length s" "length (d # rest) \<le> length r"
    unfolding from_colon_def by (metis length_dropWhile_le)+
  then show "(rest, s) \<in> measure length" by simp
qed simp

declare Replace.simps [simp del]

section \<open>Animated packs\<close>

record animated =
  an_id :: string
  an_shortcode :: string
  an_format :: string
  an_assetRef :: string

record pack =
  pk_name :: string
  pk_emoji :: "animated list"
  pk_byID :: "animated gomap"
  pk_byShort :: "animated gomap"

definition trim_colons :: "string \<Rightarrow> string" where
  "trim_colons s = rev (dropWhile (\<lambda>c. c = CHR '':'') (rev (dropWhile (\<lambda>c. c = CHR '':'') s)))"

definition pack_index :: "pack \<Rightarrow> pack" where
  "pack_index p =
     p\<lparr> pk_byID := foldl (\<lambda>m e. gm_put (an_id e) e m) [] (pk_emoji p),
        pk_byShort := foldl (\<lambda>m e. gm_put (trim_colons (an_shortcode e)) e m) [] (pk_emoji p) \<rparr>"

definition NewPack :: "string \<Rightarrow> animated list \<Rightarrow> pack" where
  "NewPack name emoji = pack_index \<lparr> pk_name = name, pk_emoji = emoji, pk_byID = [], pk_byShort = [] \<rparr>"

definition zero_animated :: animated where
  "zero_animated = \<lparr> an_id = [], an_shortcode = [], an_format = [], an_assetRef = [] \<rparr>"

definition animated_fields :: "animated jfields" where
  "animated_fields =
     [jfield ''id'' an_id (\<lambda>v e. e\<lparr>an_id := v\<rparr>) jd_string,
      jfield ''shortcode'' an_shortcode (\<lambda>v e. e\<lparr>an_shortcode := v\<rparr>) jd_string,
      jfield ''format'' an_format (\<lambda>v e. e\<lparr>an_format := v\<rparr>) jd_string,
      jfield ''assetRef'' an_assetRef (\<lambda>v e. e\<lparr>an_assetRef := v\<rparr>) jd_string]"

definition pack_fields :: "pack jfields" where
  "pack_fields =
     [jfield ''name'' pk_name (\<lambda>v p. p\<lparr>pk_name := v\<rparr>) jd_string,
      jfield ''emoji'' pk_emoji (\<lambda>v p. p\<lparr>pk_emoji := v\<rparr>) (jd_list (json_into animated_fields) zero_animated)]"

definition LoadPack :: "bytes \<Rightarrow> pack result" where
  "LoadPack manifest =
     rbind (decode_json (json_into pack_fields) manifest \<lparr> pk_name = [], pk_emoji = [], pk_byID = [], pk_byShort = [] \<rparr>)
       (\<lambda>p. Inr (pack_index p))"

definition ByID :: "pack \<Rightarrow> string \<Rightarrow> animated option" where
  "ByID p i = gm_get (pk_byID p) i"

definition ByShortcode :: "pack \<Rightarrow> string \<Rightarrow> animated option" where
  "ByShortcode p shortcode = gm_get (pk_byShort p) (trim_colons shortcode)"

section \<open>Reference definitions\<close>

text \<open>The pieces between the colons; every second piece is a candidate for a name.\<close>

fun split_colon :: "string \<Rightarrow> string list" where
  "split_colon [] = [[]]"
| "split_colon (c # cs) =
     (if c = CHR '':'' then [] # split_colon cs
      else (c # hd (split_colon cs)) # tl (split_colon cs))"

fun render :: "string list \<Rightarrow> string" where
  "render [] = []"
| "render [p] = p"
| "render [p, q] = p @ '':'' @ q"
| "render (p # q # ps) = p @ token q @ render ps"

lemma split_colon_nonempty [simp]: "split_colon s \<noteq> []"
  by (cases s) simp_all

lemma split_colon_step:
  "split_colon s = (case from_colon s of [] \<Rightarrow> [s] | _ # r \<Rightarrow> before_colon s # split_colon r)"
proof (induction s)
  case (Cons c cs)
  then show ?case
    by (cases "dropWhile (\<lambda>c. c \<noteq> CHR '':'') cs") (simp_all add: from_colon_def before_colon_def del: dropWhile_eq_Nil_conv)
qed (simp add: from_colon_def)

lemma from_colon_empty: "from_colon s = [] \<Longrightarrow> before_colon s = s"
  by (simp add: from_colon_def before_colon_def takeWhile_eq_all_conv)

lemma from_colon_head: "from_colon s = c # r \<Longrightarrow> c = CHR '':''"
  using hd_dropWhile [of "\<lambda>c. c \<noteq> CHR '':''" s] by (simp add: from_colon_def)

lemma Replace_render: "Replace s = render (split_colon s)"
proof (induction s rule: Replace.induct)
  case (1 s)
  show ?case
  proof (cases "from_colon s")
    case Nil
    then show ?thesis by (simp add: Replace.simps [of s] split_colon_step [of s])
  next
    case (Cons c r)
    note c = from_colon_head [OF Cons]
    show ?thesis
    proof (cases "from_colon r")
      case Nil
      then show ?thesis using Cons c
        by (simp add: Replace.simps [of s] split_colon_step [of s] split_colon_step [of r] from_colon_empty)
    next
      case inner: (Cons d rest)
      obtain x xs where x: "split_colon rest = x # xs" by (cases "split_colon rest") auto
      show ?thesis using "1.IH" [OF Cons inner] Cons inner x
        by (simp add: Replace.simps [of s] split_colon_step [of s] split_colon_step [of r])
    qed
  qed
qed

lemma index_last:
  "gm_get (foldl (\<lambda>m e. gm_put (f e) e m) m0 es) k = (case find (\<lambda>e. f e = k) (rev es) of None \<Rightarrow> gm_get m0 k | Some e \<Rightarrow> Some e)"
proof (induction es arbitrary: m0)
  case (Cons e es)
  have "find P (xs @ ys) = (case find P xs of None \<Rightarrow> find P ys | Some x \<Rightarrow> Some x)" for P :: "'a \<Rightarrow> bool" and xs ys
    by (induction xs) simp_all
  with Cons show ?case by (simp split: option.split)
qed simp

section \<open>Properties\<close>

text \<open>\<open>Replace\<close> is the substitution its documentation describes, on the pieces between the colons: the text
  pieces stay, every second piece that lies between two colons becomes its emoji when it is a known
  shortcode in any case, and stays with its colons otherwise; an unpaired colon stays.\<close>

theorem replace_equals_rendering: "Replace s = render (split_colon s)"
  by (rule Replace_render)

text \<open>C31. The index of a pack refines its list of entries: looking up an id or a shortcode, with or without its
  colons, gives the last entry of the list that has it, and nothing when none has; so does the pack a
  manifest is loaded into.\<close>

theorem pack_lookup_refines_list:
  assumes "p = NewPack name es \<or> LoadPack manifest = Inr p"
  shows "ByID p i = find (\<lambda>e. an_id e = i) (rev (pk_emoji p)) \<and>
    ByShortcode p c = find (\<lambda>e. trim_colons (an_shortcode e) = trim_colons c) (rev (pk_emoji p))"
proof -
  obtain p0 where "p = pack_index p0"
    using assms by (auto simp: NewPack_def LoadPack_def rbind_eq_Inr_iff)
  then show ?thesis by (simp add: pack_index_def ByID_def ByShortcode_def index_last split: option.split)
qed

theorem pack_lookup_refines_list_witness:
  "ByShortcode (NewPack ''p'' [zero_animated\<lparr> an_id := ''pp'', an_shortcode := '':party:'' \<rparr>]) ''party'' =
     Some (zero_animated\<lparr> an_id := ''pp'', an_shortcode := '':party:'' \<rparr>)"
proof -
  let ?e = "zero_animated\<lparr> an_id := ''pp'', an_shortcode := '':party:'' \<rparr>"
  have "pk_emoji (NewPack ''p'' [?e]) = [?e]" by (simp add: NewPack_def pack_index_def)
  moreover have "trim_colons '':party:'' = ''party''" "trim_colons ''party'' = ''party''" by code_simp+
  ultimately show ?thesis
    using pack_lookup_refines_list [of "NewPack ''p'' [?e]" "''p''" "[?e]" "[]" "[]" "''party''"] by simp
qed

text \<open>The scan pairs colons from the left, so a known shortcode after a single colon is not found.\<close>

theorem replace_misses_token: "Replace ''10:30 :fire:'' = ''10:30 :fire:''"
  unfolding Replace_render by code_simp

end
