(* ===== verification/Netcheck.thy ===== *)
theory Netcheck
  imports Settings Safetynumber Contact
begin

text \<open>
  \<open>src/core/pkg/netcheck/netcheck.go\<close>, the STUN probe, and \<open>src/core/pkg/core/core.go\<close>, the facade of the core
  for the bindings. The candidates the WebRTC library reports during the probe, in order and up to the
  time limit, are an argument: \<open>Some\<close> candidate, or \<open>None\<close> for the end of gathering.
\<close>

section \<open>The probe\<close>

record stun_result =
  sr_ok :: bool
  sr_reflexiveAddr :: string
  sr_candidateTypes :: "string list"

record ice_candidate =
  ic_typ :: string
  ic_address :: string
  ic_port :: "16 word"

definition stun_Detail :: "stun_result \<Rightarrow> string" where
  "stun_Detail r =
     (if sr_ok r then ''STUN reachable '' @ em_dash @ '' public address '' @ sr_reflexiveAddr r
      else if length (sr_candidateTypes r) = 0 then
        ''No ICE candidates gathered. Check network connectivity and that '' @
        ''the app has network permission (Android INTERNET / macOS network entitlement).''
      else
        ''STUN did not respond (only local candidates). A direct P2P path may '' @
        ''require a TURN server on restrictive networks.'')"

record probe =
  pb_types :: "bool gomap"
  pb_res :: stun_result
  pb_done :: bool

definition srflx :: string where
  "srflx = ''srflx''"

definition onICECandidate :: "probe \<Rightarrow> ice_candidate option \<Rightarrow> probe" where
  "onICECandidate p c =
     (case c of
        None \<Rightarrow> p\<lparr> pb_done := True \<rparr>
      | Some c \<Rightarrow>
          let p = p\<lparr> pb_types := gm_put (ic_typ c) True (pb_types p) \<rparr> in
          if ic_typ c = srflx \<and> sr_reflexiveAddr (pb_res p) = []
          then p\<lparr> pb_res := (pb_res p)\<lparr> sr_ok := True,
                 sr_reflexiveAddr := ic_address c @ '':'' @ dec_string (unat (ic_port c)) \<rparr> \<rparr>
          else p)"

definition probe_start :: probe where
  "probe_start = \<lparr> pb_types = [], pb_res = \<lparr> sr_ok = False, sr_reflexiveAddr = [], sr_candidateTypes = [] \<rparr>, pb_done = False \<rparr>"

record stun_env =
  se_newPC :: "iceServer list \<Rightarrow> unit result"
  se_createDC :: "unit result"
  se_createOffer :: "unit result"
  se_setLocal :: "unit result"
  se_candidates :: "ice_candidate option list"

definition netcheck_toICEServers :: "iceServer list \<Rightarrow> iceServer list" where
  "netcheck_toICEServers =
     map (\<lambda>s. let srv = \<lparr> ice_urls = ice_urls s, ice_username = [], ice_credential = [] \<rparr> in
          if ice_username s \<noteq> [] then srv\<lparr> ice_username := ice_username s, ice_credential := ice_credential s \<rparr> else srv)"

definition STUN :: "stun_env \<Rightarrow> iceServer list \<Rightarrow> stun_result result" where
  "STUN env servers =
     rbind (se_newPC env (netcheck_toICEServers servers)) (\<lambda>_.
     rbind (se_createDC env) (\<lambda>_.
     rbind (se_createOffer env) (\<lambda>_.
     rbind (se_setLocal env) (\<lambda>_.
     let p = foldl onICECandidate probe_start (se_candidates env) in
     Inr ((pb_res p)\<lparr> sr_candidateTypes := map fst (pb_types p) \<rparr>)))))"

section \<open>The facade of the core\<close>

definition core_Version :: string where
  "core_Version = ''0.2.0''"

definition VersionString :: string where
  "VersionString = ''Stunner core '' @ core_Version"

definition CheckSTUN :: "stun_env \<Rightarrow> (bool \<times> string \<times> string) result" where
  "CheckSTUN env =
     rbind (STUN env DefaultICEServers) (\<lambda>res. Inr (sr_ok res, sr_reflexiveAddr res, stun_Detail res))"

definition NewIdentityFingerprint :: "curve \<Rightarrow> draw \<Rightarrow> draw \<Rightarrow> string result" where
  "NewIdentityFingerprint cv d1 d2 = rbind (Generate cv d1 d2) (\<lambda>i. Inr (Fingerprint (signing_pub i)))"

definition NewContactURI :: "curve \<Rightarrow> draw \<Rightarrow> draw \<Rightarrow> string \<Rightarrow> string result" where
  "NewContactURI cv d1 d2 handle = rbind (Generate cv d1 d2) (\<lambda>i. Inr (contact_URI handle (signing_pub i)))"

definition ValidateContactURI :: "string \<Rightarrow> gotime \<Rightarrow> (string \<times> string) result" where
  "ValidateContactURI uri now = rbind (ParseURI uri now) (\<lambda>c. Inr (ct_handle c, ct_fingerprint c))"

definition core_SafetyNumber :: "string \<Rightarrow> string \<Rightarrow> gotime \<Rightarrow> string result" where
  "core_SafetyNumber uriA uriB now =
     rbind (ParseURI uriA now) (\<lambda>a. rbind (ParseURI uriB now) (\<lambda>b. Inr (safety_Compute (ct_identityKey a) (ct_identityKey b))))"

section \<open>What the probe has seen\<close>

definition reflexive :: "ice_candidate option list \<Rightarrow> ice_candidate list" where
  "reflexive cs = filter (\<lambda>c. ic_typ c = srflx) (map the (filter (\<lambda>c. c \<noteq> None) cs))"

definition addr_of :: "ice_candidate \<Rightarrow> string" where
  "addr_of c = ic_address c @ '':'' @ dec_string (unat (ic_port c))"

lemma probe_inv:
  "pb_res (foldl onICECandidate probe_start cs) =
     \<lparr> sr_ok = (reflexive cs \<noteq> []), sr_reflexiveAddr = (case reflexive cs of [] \<Rightarrow> [] | c # _ \<Rightarrow> addr_of c), sr_candidateTypes = [] \<rparr> \<and>
   set (map fst (pb_types (foldl onICECandidate probe_start cs))) = {ic_typ c | c. Some c \<in> set cs} \<and>
   gm_ok (pb_types (foldl onICECandidate probe_start cs))"
proof (induction cs rule: rev_induct)
  case Nil
  then show ?case by (simp add: probe_start_def reflexive_def)
next
  case (snoc x cs)
  define p where "p = foldl onICECandidate probe_start cs"
  have step: "foldl onICECandidate probe_start (cs @ [x]) = onICECandidate p x" by (simp add: p_def)
  have keys: "set (map fst (gm_put k True m)) = insert k (set (map fst m))" for k :: string and m
    by (simp add: gm_put_def dom_update)
  show ?case
  proof (cases x)
    case (Some c)
    have s: "{ic_typ d | d. Some d \<in> set (cs @ [x])} = insert (ic_typ c) {ic_typ d | d. Some d \<in> set cs}" using Some by auto
    have "reflexive (cs @ [x]) = reflexive cs @ (if ic_typ c = srflx then [c] else [])" using Some by (simp add: reflexive_def)
    with snoc Some s keys show ?thesis
      unfolding step p_def [symmetric]
      by (cases "reflexive cs") (simp_all add: onICECandidate_def Let_def addr_of_def del: set_map)
  next
    case None
    then have "reflexive (cs @ [x]) = reflexive cs" "{ic_typ d | d. Some d \<in> set (cs @ [x])} = {ic_typ d | d. Some d \<in> set cs}"
      by (auto simp: reflexive_def)
    with snoc None show ?thesis unfolding step p_def [symmetric] by (simp add: onICECandidate_def del: set_map)
  qed
qed

section \<open>Properties\<close>

text \<open>The STUN probe reports exactly what was gathered: it succeeds iff every step of setting up the connection
  does, \<open>OK\<close> says that some server-reflexive candidate arrived in time, the reported address is that of
  the first such candidate, and the candidate types are the types seen, each once.\<close>

theorem stun_probe_exact:
  "(is_ok (STUN env servers) \<longleftrightarrow> is_ok (se_newPC env (netcheck_toICEServers servers)) \<and> is_ok (se_createDC env) \<and>
      is_ok (se_createOffer env) \<and> is_ok (se_setLocal env)) \<and>
   (\<forall>r. STUN env servers = Inr r \<longrightarrow>
      (sr_ok r \<longleftrightarrow> (\<exists>c. Some c \<in> set (se_candidates env) \<and> ic_typ c = srflx)) \<and>
      sr_reflexiveAddr r = (case reflexive (se_candidates env) of [] \<Rightarrow> [] | c # _ \<Rightarrow> addr_of c) \<and>
      set (sr_candidateTypes r) = {ic_typ c | c. Some c \<in> set (se_candidates env)} \<and> distinct (sr_candidateTypes r))"
proof -
  have r: "reflexive cs \<noteq> [] \<longleftrightarrow> (\<exists>c. Some c \<in> set cs \<and> ic_typ c = srflx)" for cs
    by (induction cs) (auto simp: reflexive_def)
  show ?thesis
    using probe_inv [of "se_candidates env"] r
    by (auto simp: STUN_def Let_def rbind_def is_ok_def gm_ok_def split: sum.splits)
qed

theorem stun_probe_exact_witness:
  "\<exists>r. STUN \<lparr> se_newPC = (\<lambda>_. Inr ()), se_createDC = Inr (), se_createOffer = Inr (), se_setLocal = Inr (),
      se_candidates = [Some \<lparr> ic_typ = ''host'', ic_address = ''10.0.0.1'', ic_port = 1 \<rparr>,
        Some \<lparr> ic_typ = ''srflx'', ic_address = ''1.2.3.4'', ic_port = 5 \<rparr>, None] \<rparr> [] = Inr r \<and>
     sr_ok r \<and> sr_reflexiveAddr r = ''1.2.3.4:5''"
proof -
  let ?env = "\<lparr> se_newPC = (\<lambda>_. Inr ()), se_createDC = Inr (), se_createOffer = Inr (), se_setLocal = Inr (),
      se_candidates = [Some \<lparr> ic_typ = ''host'', ic_address = ''10.0.0.1'', ic_port = 1 \<rparr>,
        Some \<lparr> ic_typ = ''srflx'', ic_address = ''1.2.3.4'', ic_port = 5 \<rparr>, None] \<rparr>"
  have a: "(case reflexive (se_candidates ?env) of [] \<Rightarrow> [] | c # _ \<Rightarrow> addr_of c) = ''1.2.3.4:5''"
    by (simp add: reflexive_def srflx_def addr_of_def dec_string.simps dec_digits_def)
  obtain r where r: "STUN ?env [] = Inr r" by (simp add: STUN_def Let_def)
  with stun_probe_exact [of ?env "[]"] a show ?thesis by (auto simp: srflx_def)
qed

text \<open>Contact cards: a contact URI made from a handle and an identity key validates to that handle and the
  fingerprint of that key, and the safety number of two cards is the same whichever of the two devices
  computes it.\<close>

theorem contact_cards:
  assumes "length a = 32" "length b = 32"
  shows "ValidateContactURI (contact_URI handle a) now = Inr (handle, Fingerprint a) \<and>
    core_SafetyNumber (contact_URI h1 a) (contact_URI h2 b) now = core_SafetyNumber (contact_URI h3 b) (contact_URI h4 a) now' \<and>
    is_ok (core_SafetyNumber (contact_URI h1 a) (contact_URI h2 b) now)"
proof -
  have "safety_Compute a b = safety_Compute b a" by (rule safety_Compute_commute)
  then show ?thesis using assms
    by (simp add: ValidateContactURI_def core_SafetyNumber_def ParseURI_URI contact_New_def)
qed

theorem contact_cards_witness:
  "ValidateContactURI (contact_URI ''ann'' (replicate 32 1)) zero_time = Inr (''ann'', Fingerprint (replicate 32 1)) \<and>
   core_SafetyNumber (contact_URI [] (replicate 32 1)) (contact_URI [] (replicate 32 2)) zero_time =
     core_SafetyNumber (contact_URI [] (replicate 32 2)) (contact_URI [] (replicate 32 1)) zero_time"
  using contact_cards [of "replicate 32 1" "replicate 32 2" "''ann''" zero_time "[]" "[]" "[]" "[]" zero_time] by simp

end
