(* ===== verification/Bindings.thy ===== *)
theory Bindings
  imports Runtime Netcheck
begin

text \<open>
  The two bindings of the core: \<open>src/core/ffi/ffi.go\<close> for the desktop app (C strings in and out) and
  \<open>src/core/mobile/api.go\<close> for the mobile apps. Both drive one process-wide runtime, here a \<open>runtime option\<close>.
  A call that hands a request to the runtime may block (\<open>None\<close>). A C string ends at its first NUL.
\<close>

type_synonym ('c, 'g) app = "('c, 'g) runtime option"

definition c_str :: "string \<Rightarrow> string" where
  "c_str s = takeWhile (\<lambda>c. c \<noteq> CHR 0x00) s"

definition tab :: string where
  "tab = [CHR 0x09]"

definition not_started :: string where
  "not_started = ''error: runtime not started''"

text \<open>The JSON of an event, and of the slice \<open>Poll\<close> returns: it is nil, hence \<open>null\<close>, when there is no event.\<close>

definition event_json :: "event \<Rightarrow> json" where
  "event_json e =
     JObj ((''kind'', JStr (ev_kind e)) #
       omit_if (ev_peerFP e = []) ''peerFp'' (JStr (ev_peerFP e)) @
       omit_if (ev_peerURI e = []) ''peerUri'' (JStr (ev_peerURI e)) @
       omit_if (ev_text e = []) ''text'' (JStr (ev_text e)) @
       omit_if (ev_name e = []) ''name'' (JStr (ev_name e)) @
       omit_if (ev_path e = []) ''path'' (JStr (ev_path e)) @
       omit_if (ev_msgID e = []) ''msgId'' (JStr (ev_msgID e)) @
       omit_if (\<not> ev_online e) ''online'' (JBool (ev_online e)) @
       omit_if (ev_detail e = []) ''detail'' (JStr (ev_detail e)) @
       [(''time'', je_int (ev_time e))])"

definition events_json :: "event list \<Rightarrow> json" where
  "events_json es = (if es = [] then JNull else JArr (map event_json es))"

text \<open>A call on the running engine; nothing happens when there is none.\<close>

definition with_runtime :: "(('c, 'g) runtime, 'a) go \<Rightarrow> ('c, 'g) app \<Rightarrow> ('c, 'g) app option" where
  "with_runtime m a = (case a of None \<Rightarrow> Some None | Some r \<Rightarrow> map_option (\<lambda>(_, r'). Some r') (m r))"

definition saying :: "string \<Rightarrow> ('c, 'g) app option \<Rightarrow> (string \<times> ('c, 'g) app) option" where
  "saying s = map_option (Pair (c_str s))"

section \<open>The desktop binding\<close>

definition StunnerStart :: "curve \<Rightarrow> start_env \<Rightarrow> string \<Rightarrow> string \<Rightarrow> 'g result \<Rightarrow> ('c, 'g) app \<Rightarrow> string \<times> ('c, 'g) app" where
  "StunnerStart cv env dataDir handle dht a =
     (let started = (\<lambda>r. (c_str (rt_MyURI r @ tab @ rt_Fingerprint r), Some r)) in
      case a of
        Some r \<Rightarrow> started r
      | None \<Rightarrow>
          (case rt_Start cv env (c_str dataDir) (c_str handle) dht of
             Inl e \<Rightarrow> (c_str (''error: '' @ e), None)
           | Inr r \<Rightarrow> started r))"

definition StunnerSend :: "bool \<Rightarrow> string \<Rightarrow> string \<Rightarrow> string \<Rightarrow> ('c, 'g) app \<Rightarrow> (string \<times> ('c, 'g) app) option" where
  "StunnerSend pick uri text msgID a =
     (if a = None then Some (not_started, None)
      else saying ''ok'' (with_runtime (rt_Send pick (c_str uri) (c_str text) (c_str msgID)) a))"

text \<open>\<open>Diagnose\<close> only starts a goroutine: the last component is the list of contacts to run \<open>runDiagnose\<close> for.\<close>

definition StunnerDiagnose :: "string \<Rightarrow> ('c, 'g) app \<Rightarrow> string \<times> ('c, 'g) app \<times> string list" where
  "StunnerDiagnose uri a = (''ok'', a, if a = None then [] else [c_str uri])"

definition StunnerSendTyping :: "('c, 'g) stack \<Rightarrow> step_env \<Rightarrow> string \<Rightarrow> ('c, 'g) app \<Rightarrow> (string \<times> ('c, 'g) app) option" where
  "StunnerSendTyping sk env uri a = saying ''ok'' (with_runtime (rt_SendTyping sk env (c_str uri)) a)"

definition StunnerGetSettings :: "('c, 'g) app \<Rightarrow> string" where
  "StunnerGetSettings a = (case a of None \<Rightarrow> ''{}'' | Some r \<Rightarrow> c_str (rt_Settings r))"

definition StunnerSetSettings :: "flush_env \<Rightarrow> string \<Rightarrow> ('c, 'g) app \<Rightarrow> string \<times> ('c, 'g) app" where
  "StunnerSetSettings fe json a =
     (case a of
        None \<Rightarrow> (not_started, None)
      | Some r \<Rightarrow>
          (case rt_SetSettings fe (c_str json) r of
             (Inl e, r') \<Rightarrow> (c_str (''error: '' @ e), Some r')
           | (Inr _, r') \<Rightarrow> (''ok'', Some r')))"

definition StunnerSaveState :: "flush_env \<Rightarrow> string \<Rightarrow> ('c, 'g) app \<Rightarrow> string \<times> ('c, 'g) app" where
  "StunnerSaveState fe json a =
     (case a of
        None \<Rightarrow> (not_started, None)
      | Some r \<Rightarrow>
          (case rt_SaveState fe (c_str json) r of
             (Inl e, r') \<Rightarrow> (c_str (''error: '' @ e), Some r')
           | (Inr _, r') \<Rightarrow> (''ok'', Some r')))"

definition StunnerLoadState :: "('c, 'g) app \<Rightarrow> string" where
  "StunnerLoadState a = (case a of None \<Rightarrow> [] | Some r \<Rightarrow> c_str (rt_LoadState r))"

definition StunnerSendFile :: "bool \<Rightarrow> string \<Rightarrow> string \<Rightarrow> string \<Rightarrow> ('c, 'g) app \<Rightarrow> (string \<times> ('c, 'g) app) option" where
  "StunnerSendFile pick uri path msgID a =
     (if a = None then Some (not_started, None)
      else saying ''ok'' (with_runtime (rt_SendFile pick (c_str uri) (c_str path) (c_str msgID)) a))"

definition StunnerMarkRead :: "('c, 'g) stack \<Rightarrow> step_env \<Rightarrow> string \<Rightarrow> ('c, 'g) app \<Rightarrow> (string \<times> ('c, 'g) app) option" where
  "StunnerMarkRead sk env uri a =
     (if a = None then Some (not_started, None)
      else saying ''ok'' (with_runtime (rt_MarkRead sk env (c_str uri)) a))"

definition StunnerPoll :: "('c, 'g) app \<Rightarrow> string \<times> ('c, 'g) app" where
  "StunnerPoll a =
     (case a of
        None \<Rightarrow> (''[]'', None)
      | Some r \<Rightarrow> (case rt_Poll r of (es, r') \<Rightarrow> (c_str (of_bytes (marshal (events_json es))), Some r')))"

definition StunnerMyURI :: "('c, 'g) app \<Rightarrow> string" where
  "StunnerMyURI a = (case a of None \<Rightarrow> [] | Some r \<Rightarrow> c_str (rt_MyURI r))"

definition StunnerStop :: "('c, 'g) stack \<Rightarrow> ('c, 'g) app \<Rightarrow> (string \<times> ('c, 'g) app) option" where
  "StunnerStop sk a =
     (case a of
        None \<Rightarrow> Some (''ok'', None)
      | Some r \<Rightarrow> map_option (\<lambda>_. (''ok'', None)) (rt_Stop sk r))"

definition StunnerVersion :: string where
  "StunnerVersion = c_str VersionString"

definition StunnerPing :: "string \<Rightarrow> string" where
  "StunnerPing msg = c_str (''pong: '' @ c_str msg)"

definition or_error :: "('a \<Rightarrow> string) \<Rightarrow> 'a result \<Rightarrow> string" where
  "or_error f x = c_str (case x of Inl e \<Rightarrow> ''error: '' @ e | Inr v \<Rightarrow> f v)"

definition StunnerNewIdentityFingerprint :: "curve \<Rightarrow> draw \<Rightarrow> draw \<Rightarrow> string" where
  "StunnerNewIdentityFingerprint cv d1 d2 = or_error (\<lambda>fp. fp) (NewIdentityFingerprint cv d1 d2)"

definition StunnerNewContactURI :: "curve \<Rightarrow> draw \<Rightarrow> draw \<Rightarrow> string \<Rightarrow> string" where
  "StunnerNewContactURI cv d1 d2 handle = or_error (\<lambda>u. u) (NewContactURI cv d1 d2 (c_str handle))"

definition StunnerSafetyNumber :: "string \<Rightarrow> string \<Rightarrow> gotime \<Rightarrow> string" where
  "StunnerSafetyNumber mine peer now = or_error (\<lambda>sn. sn) (core_SafetyNumber (c_str mine) (c_str peer) now)"

definition StunnerValidateContactURI :: "string \<Rightarrow> gotime \<Rightarrow> string" where
  "StunnerValidateContactURI uri now = or_error (\<lambda>(handle, fp). handle @ tab @ fp) (ValidateContactURI (c_str uri) now)"

definition StunnerCheckSTUN :: "stun_env \<Rightarrow> string" where
  "StunnerCheckSTUN env =
     or_error (\<lambda>(ok, addr, detail). (if ok then ''ok'' else ''fail'') @ tab @ addr @ tab @ detail) (CheckSTUN env)"

section \<open>The mobile binding\<close>

record startResult =
  sx_uri :: string
  sx_fingerprint :: string

definition mobile_Start ::
    "curve \<Rightarrow> start_env \<Rightarrow> string \<Rightarrow> string \<Rightarrow> 'g result \<Rightarrow> ('c, 'g) app \<Rightarrow> startResult result \<times> ('c, 'g) app" where
  "mobile_Start cv env dataDir handle dht a =
     (let started = (\<lambda>r. (Inr \<lparr> sx_uri = rt_MyURI r, sx_fingerprint = rt_Fingerprint r \<rparr>, Some r)) in
      case a of
        Some r \<Rightarrow> started r
      | None \<Rightarrow> (case rt_Start cv env dataDir handle dht of Inl e \<Rightarrow> (Inl e, None) | Inr r \<Rightarrow> started r))"

definition mobile_Send :: "bool \<Rightarrow> string \<Rightarrow> string \<Rightarrow> string \<Rightarrow> ('c, 'g) app \<Rightarrow> ('c, 'g) app option" where
  "mobile_Send pick uri text msgID = with_runtime (rt_Send pick uri text msgID)"

definition mobile_Diagnose :: "string \<Rightarrow> ('c, 'g) app \<Rightarrow> ('c, 'g) app \<times> string list" where
  "mobile_Diagnose uri a = (a, if a = None then [] else [uri])"

definition mobile_SendTyping :: "('c, 'g) stack \<Rightarrow> step_env \<Rightarrow> string \<Rightarrow> ('c, 'g) app \<Rightarrow> ('c, 'g) app option" where
  "mobile_SendTyping sk env uri = with_runtime (rt_SendTyping sk env uri)"

definition mobile_GetSettings :: "('c, 'g) app \<Rightarrow> string" where
  "mobile_GetSettings a = (case a of None \<Rightarrow> ''{}'' | Some r \<Rightarrow> rt_Settings r)"

definition mobile_SetSettings :: "flush_env \<Rightarrow> string \<Rightarrow> ('c, 'g) app \<Rightarrow> unit result \<times> ('c, 'g) app" where
  "mobile_SetSettings fe json a =
     (case a of None \<Rightarrow> (Inr (), None) | Some r \<Rightarrow> apsnd Some (rt_SetSettings fe json r))"

definition mobile_SaveState :: "flush_env \<Rightarrow> string \<Rightarrow> ('c, 'g) app \<Rightarrow> unit result \<times> ('c, 'g) app" where
  "mobile_SaveState fe json a =
     (case a of None \<Rightarrow> (Inr (), None) | Some r \<Rightarrow> apsnd Some (rt_SaveState fe json r))"

definition mobile_LoadState :: "('c, 'g) app \<Rightarrow> string" where
  "mobile_LoadState a = (case a of None \<Rightarrow> [] | Some r \<Rightarrow> rt_LoadState r)"

definition mobile_SendFile :: "bool \<Rightarrow> string \<Rightarrow> string \<Rightarrow> string \<Rightarrow> ('c, 'g) app \<Rightarrow> ('c, 'g) app option" where
  "mobile_SendFile pick uri path msgID = with_runtime (rt_SendFile pick uri path msgID)"

definition mobile_MarkRead :: "('c, 'g) stack \<Rightarrow> step_env \<Rightarrow> string \<Rightarrow> ('c, 'g) app \<Rightarrow> ('c, 'g) app option" where
  "mobile_MarkRead sk env uri = with_runtime (rt_MarkRead sk env uri)"


definition mobile_Stop :: "('c, 'g) stack \<Rightarrow> ('c, 'g) app \<Rightarrow> ('c, 'g) app option" where
  "mobile_Stop sk a = (case a of None \<Rightarrow> Some None | Some r \<Rightarrow> map_option (\<lambda>_. None) (rt_Stop sk r))"

definition mobile_Ping :: "string \<Rightarrow> string" where
  "mobile_Ping msg = ''pong: '' @ msg"

definition mobile_Version :: string where
  "mobile_Version = VersionString"

definition mobile_NewIdentityFingerprint :: "curve \<Rightarrow> draw \<Rightarrow> draw \<Rightarrow> string result" where
  "mobile_NewIdentityFingerprint cv d1 d2 = NewIdentityFingerprint cv d1 d2"

definition mobile_NewContactURI :: "curve \<Rightarrow> draw \<Rightarrow> draw \<Rightarrow> string \<Rightarrow> string result" where
  "mobile_NewContactURI cv d1 d2 handle = NewContactURI cv d1 d2 handle"

definition mobile_SafetyNumber :: "string \<Rightarrow> string \<Rightarrow> gotime \<Rightarrow> string result" where
  "mobile_SafetyNumber mine peer now = core_SafetyNumber mine peer now"

record contactInfo =
  cx_handle :: string
  cx_fingerprint :: string

definition mobile_ValidateContactURI :: "string \<Rightarrow> gotime \<Rightarrow> contactInfo result" where
  "mobile_ValidateContactURI uri now =
     rbind (ValidateContactURI uri now) (\<lambda>(handle, fp). Inr \<lparr> cx_handle = handle, cx_fingerprint = fp \<rparr>)"

record stunResult =
  tx_ok :: bool
  tx_reflexiveAddr :: string
  tx_detail :: string

definition mobile_CheckSTUN :: "stun_env \<Rightarrow> stunResult result" where
  "mobile_CheckSTUN env =
     rbind (CheckSTUN env) (\<lambda>(ok, addr, detail). Inr \<lparr> tx_ok = ok, tx_reflexiveAddr = addr, tx_detail = detail \<rparr>)"

section \<open>Properties\<close>

lemma c_str_id: "CHR 0x00 \<notin> set s \<Longrightarrow> c_str s = s"
  by (auto simp: c_str_def takeWhile_eq_all_conv)

lemma with_runtime_None [simp]: "with_runtime m None = Some None"
  by (simp add: with_runtime_def)
















text \<open>One engine per process: starting while an engine runs keeps it and reports its identity again, whatever
  the arguments; stopping forgets it, after which calls report that nothing runs and a poll gives an
  empty list.\<close>

theorem single_engine:
  "StunnerStart cv env dir handle dht (Some r) = (c_str (rt_MyURI r @ tab @ rt_Fingerprint r), Some r) \<and>
   (\<forall>x. StunnerStop sk (Some r) = Some x \<longrightarrow> x = (''ok'', None)) \<and> StunnerStop sk None = Some (''ok'', None) \<and>
   StunnerSend pick uri text msgID (None :: ('c, 'g) app) = Some (''error: runtime not started'', None) \<and>
   StunnerPoll (None :: ('c, 'g) app) = (''[]'', None) \<and> StunnerLoadState (None :: ('c, 'g) app) = []"
  by (auto simp: StunnerStart_def StunnerStop_def StunnerSend_def not_started_def StunnerPoll_def StunnerLoadState_def)

text \<open>A poll of a running engine with no pending event returns \<open>null\<close>, not an empty array.\<close>

theorem empty_poll_is_null: "rt_events r = [] \<Longrightarrow> StunnerPoll (Some r) = (''null'', Some r)"
proof -
  have "c_str (of_bytes (marshal JNull)) = ''null''" by (simp add: marshal_def c_str_def)
  then show "rt_events r = [] \<Longrightarrow> ?thesis" by (simp add: StunnerPoll_def rt_Poll_def events_json_def)
qed

text \<open>Handing over a request blocks the caller while sixty-four requests wait.\<close>

theorem send_blocks_when_full: "length (rt_outbox r) = 64 \<Longrightarrow> \<not> rt_closed r \<Longrightarrow> StunnerSend pick uri text msgID (Some r) = None"
  by (simp add: StunnerSend_def saying_def with_runtime_def rt_Send_def enqueue_def outbox_cap_def)

text \<open>The calls without an engine give, on strings without a NUL, the answers of the mobile binding as text.\<close>

lemma stateless_bindings_agree:
  assumes "CHR 0x00 \<notin> set s" "CHR 0x00 \<notin> set t"
  shows "StunnerSafetyNumber s t now = or_error (\<lambda>sn. sn) (mobile_SafetyNumber s t now)"
    "StunnerNewContactURI cv d1 d2 s = or_error (\<lambda>u. u) (mobile_NewContactURI cv d1 d2 s)"
    "StunnerNewIdentityFingerprint cv d1 d2 = or_error (\<lambda>fp. fp) (mobile_NewIdentityFingerprint cv d1 d2)"
    "StunnerValidateContactURI s now = or_error (\<lambda>c. cx_handle c @ tab @ cx_fingerprint c) (mobile_ValidateContactURI s now)"
    "StunnerCheckSTUN env =
       or_error (\<lambda>r. (if tx_ok r then ''ok'' else ''fail'') @ tab @ tx_reflexiveAddr r @ tab @ tx_detail r) (mobile_CheckSTUN env)"
    "StunnerPing s = c_str (mobile_Ping s)" "StunnerVersion = c_str mobile_Version"
  using assms
  by (simp_all add: c_str_id StunnerSafetyNumber_def mobile_SafetyNumber_def StunnerNewContactURI_def mobile_NewContactURI_def
      StunnerNewIdentityFingerprint_def mobile_NewIdentityFingerprint_def StunnerPing_def mobile_Ping_def StunnerVersion_def
      mobile_Version_def, auto simp: c_str_id StunnerValidateContactURI_def mobile_ValidateContactURI_def StunnerCheckSTUN_def
      mobile_CheckSTUN_def or_error_def rbind_def split: sum.split)

end
