(* ===== verification/Libsignal.thy ===== *)
theory Libsignal
  imports Go_Map Messaging
begin

text \<open>
  \<open>src/core/pkg/crypto/libsignal\<close>: the alternative session layer on top of the \<open>go.mau.fi/libsignal\<close> library:
  the in-memory stores the library calls back (\<open>stores.go\<close>), the participant and its sessions
  (\<open>libsignal.go\<close>), the wire form of a prekey bundle (\<open>bundle_wire.go\<close>) and the opt-in store (\<open>store.go\<close>). The
  library itself is the record \<open>lib\<close>; its key and record types are type parameters. A
  \<open>*protocol.SignalAddress\<close> is a pointer, here a number: \<open>NewSignalAddress\<close> gives a new one every time.
\<close>

section \<open>The stores\<close>

definition pm_get :: "('k \<times> 'v) list \<Rightarrow> 'k \<Rightarrow> 'v option" where
  "pm_get m k = map_of m k"

definition pm_put :: "'k \<Rightarrow> 'v \<Rightarrow> ('k \<times> 'v) list \<Rightarrow> ('k \<times> 'v) list" where
  "pm_put k v m = AList.update k v m"

definition pm_del :: "'k \<Rightarrow> ('k \<times> 'v) list \<Rightarrow> ('k \<times> 'v) list" where
  "pm_del k m = AList.delete k m"

definition pm_ok :: "('k \<times> 'v) list \<Rightarrow> bool" where
  "pm_ok m \<longleftrightarrow> distinct (map fst m)"

interpretation pm: map_laws "[]" pm_get pm_put pm_del pm_ok
  by unfold_locales
     (simp_all add: pm_get_def pm_put_def pm_del_def pm_ok_def update_conv' delete_conv' distinct_update distinct_delete)

record address =
  ad_name :: string
  ad_deviceID :: u32

record ('kp, 'key) identityStore =
  is_trusted :: "(nat \<times> 'key) list"
  is_keyPair :: 'kp
  is_regID :: u32

definition newIdentityStore :: "'kp \<Rightarrow> u32 \<Rightarrow> ('kp, 'key) identityStore" where
  "newIdentityStore kp regID = \<lparr> is_trusted = [], is_keyPair = kp, is_regID = regID \<rparr>"

definition GetIdentityKeyPair :: "('kp, 'key) identityStore \<Rightarrow> 'kp" where
  "GetIdentityKeyPair s = is_keyPair s"

definition GetLocalRegistrationID :: "('kp, 'key) identityStore \<Rightarrow> u32" where
  "GetLocalRegistrationID s = is_regID s"

definition SaveIdentity :: "nat \<Rightarrow> 'key \<Rightarrow> ('kp, 'key) identityStore \<Rightarrow> ('kp, 'key) identityStore" where
  "SaveIdentity addr key s = s\<lparr> is_trusted := pm_put addr key (is_trusted s) \<rparr>"

definition IsTrustedIdentity :: "('key \<Rightarrow> string) \<Rightarrow> nat \<Rightarrow> 'key \<Rightarrow> ('kp, 'key) identityStore \<Rightarrow> bool" where
  "IsTrustedIdentity fingerprint addr key s =
     (case pm_get (is_trusted s) addr of None \<Rightarrow> True | Some t \<Rightarrow> fingerprint t = fingerprint key)"

type_synonym 'r preKeyStore = "(u32 \<times> 'r) list"

definition newPreKeyStore :: "'r preKeyStore" where
  [simp]: "newPreKeyStore = []"

definition newSignedPreKeyStore :: "'r preKeyStore" where
  [simp]: "newSignedPreKeyStore = []"

definition LoadPreKey :: "'r preKeyStore \<Rightarrow> u32 \<Rightarrow> 'r option" where
  "LoadPreKey s i = pm_get s i"

definition StorePreKey :: "u32 \<Rightarrow> 'r \<Rightarrow> 'r preKeyStore \<Rightarrow> 'r preKeyStore" where
  "StorePreKey i r s = pm_put i r s"

definition ContainsPreKey :: "'r preKeyStore \<Rightarrow> u32 \<Rightarrow> bool" where
  "ContainsPreKey s i = (pm_get s i \<noteq> None)"

definition RemovePreKey :: "u32 \<Rightarrow> 'r preKeyStore \<Rightarrow> 'r preKeyStore" where
  "RemovePreKey i s = pm_del i s"

definition LoadSignedPreKey :: "'r preKeyStore \<Rightarrow> u32 \<Rightarrow> 'r option" where
  "LoadSignedPreKey s i = pm_get s i"

definition LoadSignedPreKeys :: "'r preKeyStore \<Rightarrow> 'r list" where
  "LoadSignedPreKeys s = map snd s"

definition StoreSignedPreKey :: "u32 \<Rightarrow> 'r \<Rightarrow> 'r preKeyStore \<Rightarrow> 'r preKeyStore" where
  "StoreSignedPreKey i r s = pm_put i r s"

definition ContainsSignedPreKey :: "'r preKeyStore \<Rightarrow> u32 \<Rightarrow> bool" where
  "ContainsSignedPreKey s i = (pm_get s i \<noteq> None)"

definition RemoveSignedPreKey :: "u32 \<Rightarrow> 'r preKeyStore \<Rightarrow> 'r preKeyStore" where
  "RemoveSignedPreKey i s = pm_del i s"

type_synonym 'se sessionStore = "(nat \<times> 'se) list"

definition newSessionStore :: "'se sessionStore" where
  [simp]: "newSessionStore = []"

definition ContainsSession :: "'se sessionStore \<Rightarrow> nat \<Rightarrow> bool" where
  "ContainsSession s addr = (pm_get s addr \<noteq> None)"

text \<open>A missing session is created empty and stored.\<close>

definition LoadSession :: "'se \<Rightarrow> nat \<Rightarrow> 'se sessionStore \<Rightarrow> 'se \<times> 'se sessionStore" where
  "LoadSession fresh addr s =
     (case pm_get s addr of Some r \<Rightarrow> (r, s) | None \<Rightarrow> (fresh, pm_put addr fresh s))"

definition GetSubDeviceSessions :: "(nat \<Rightarrow> address) \<Rightarrow> string \<Rightarrow> 'se sessionStore \<Rightarrow> u32 list" where
  "GetSubDeviceSessions deref name s =
     map (\<lambda>(k, _). ad_deviceID (deref k)) (filter (\<lambda>(k, _). ad_name (deref k) = name \<and> ad_deviceID (deref k) \<noteq> 1) s)"

definition StoreSession :: "nat \<Rightarrow> 'se \<Rightarrow> 'se sessionStore \<Rightarrow> 'se sessionStore" where
  "StoreSession addr r s = pm_put addr r s"

definition DeleteSession :: "nat \<Rightarrow> 'se sessionStore \<Rightarrow> 'se sessionStore" where
  "DeleteSession addr s = pm_del addr s"

definition DeleteAllSessions :: "'se sessionStore \<Rightarrow> 'se sessionStore" where
  "DeleteAllSessions s = []"

section \<open>The library\<close>

record 'pt pre_bundle =
  bu_registrationID :: u32
  bu_deviceID :: u32
  bu_preKeyID :: "u32 option"
  bu_signedPreKeyID :: u32
  bu_preKey :: 'pt
  bu_signedPreKey :: 'pt
  bu_signature :: bytes
  bu_identityKey :: 'pt

record ('kp, 'pt, 'pk, 'sk, 'se) stores =
  so_sessions :: "'se sessionStore"
  so_preKeys :: "'pk preKeyStore"
  so_signed :: "'sk preKeyStore"
  so_identities :: "('kp, 'pt) identityStore"

text \<open>
  What the package calls. The signature of a bundle is a \<open>[64]byte\<close>; \<open>lb_newPreKey i r\<close> is \<open>record.NewPreKey\<close> with
  the identifier \<open>i\<close> and the key pair of \<open>r\<close>, \<open>lb_newSigned\<close> the same for a signed prekey. \<open>ProcessBundle\<close>,
  \<open>Encrypt\<close> and the two decryptions of a cipher work on the stores of the participant that built it; they are
  given the address the cipher was made for. \<open>lb_parse\<close> stands for the two message constructors.
\<close>

datatype signal_type = PREKEY_TYPE | WHISPER_TYPE

record ('kp, 'pt, 'pk, 'sk, 'se, 'm) lib =
  lb_publicKey :: "'kp \<Rightarrow> 'pt"
  lb_fingerprint :: "'pt \<Rightarrow> string"
  lb_serialize :: "'pt \<Rightarrow> bytes"
  lb_decodePoint :: "bytes \<Rightarrow> 'pt result"
  lb_preKeyID :: "'pk \<Rightarrow> u32 option"
  lb_newPreKey :: "u32 \<Rightarrow> 'pk \<Rightarrow> 'pk"
  lb_preKeyPub :: "'pk \<Rightarrow> 'pt"
  lb_signedID :: "'sk \<Rightarrow> u32"
  lb_signedPub :: "'sk \<Rightarrow> 'pt"
  lb_signature :: "'sk \<Rightarrow> bytes"
  lb_newSigned :: "'sk \<Rightarrow> 'sk"
  lb_processBundle :: "nat \<Rightarrow> 'pt pre_bundle \<Rightarrow> ('kp, 'pt, 'pk, 'sk, 'se) stores \<Rightarrow> unit result \<times> ('kp, 'pt, 'pk, 'sk, 'se) stores"
  lb_encrypt :: "nat \<Rightarrow> bytes \<Rightarrow> ('kp, 'pt, 'pk, 'sk, 'se) stores \<Rightarrow> (signal_type \<times> bytes) result \<times> ('kp, 'pt, 'pk, 'sk, 'se) stores"
  lb_parse :: "signal_type \<Rightarrow> bytes \<Rightarrow> 'm result"
  lb_decrypt :: "signal_type \<Rightarrow> nat \<Rightarrow> 'm \<Rightarrow> ('kp, 'pt, 'pk, 'sk, 'se) stores \<Rightarrow> bytes result \<times> ('kp, 'pt, 'pk, 'sk, 'se) stores"

section \<open>The wire form of a bundle\<close>

record wireBundle =
  wb_registrationID :: u32
  wb_deviceID :: u32
  wb_preKeyID :: "u32 option"
  wb_preKeyPub :: bytes
  wb_signedPreKeyID :: u32
  wb_signedPreKeyPub :: bytes
  wb_signedPreKeySig :: bytes
  wb_identityKey :: bytes

definition wireBundle_json :: "wireBundle \<Rightarrow> json" where
  "wireBundle_json w =
     JObj ([(''registrationId'', je_uint (wb_registrationID w)), (''deviceId'', je_uint (wb_deviceID w))] @
       omit_if (wb_preKeyID w = None) ''preKeyId'' (je_uint (case wb_preKeyID w of Some i \<Rightarrow> i | None \<Rightarrow> 0)) @
       [(''preKeyPub'', je_bytes (wb_preKeyPub w)), (''signedPreKeyId'', je_uint (wb_signedPreKeyID w)),
        (''signedPreKeyPub'', je_bytes (wb_signedPreKeyPub w)), (''signedPreKeySig'', je_bytes (wb_signedPreKeySig w)),
        (''identityKey'', je_bytes (wb_identityKey w))])"

definition zero_wireBundle :: wireBundle where
  "zero_wireBundle = \<lparr> wb_registrationID = 0, wb_deviceID = 0, wb_preKeyID = None, wb_preKeyPub = [], wb_signedPreKeyID = 0,
     wb_signedPreKeyPub = [], wb_signedPreKeySig = [], wb_identityKey = [] \<rparr>"

definition wireBundle_fields :: "wireBundle jfields" where
  "wireBundle_fields =
     [jfield ''registrationId'' wb_registrationID (\<lambda>v w. w\<lparr>wb_registrationID := v\<rparr>) jd_uint,
      jfield ''deviceId'' wb_deviceID (\<lambda>v w. w\<lparr>wb_deviceID := v\<rparr>) jd_uint,
      jfield ''preKeyId'' wb_preKeyID (\<lambda>v w. w\<lparr>wb_preKeyID := v\<rparr>) (jd_ptr jd_uint 0),
      jfield ''preKeyPub'' wb_preKeyPub (\<lambda>v w. w\<lparr>wb_preKeyPub := v\<rparr>) jd_bytes,
      jfield ''signedPreKeyId'' wb_signedPreKeyID (\<lambda>v w. w\<lparr>wb_signedPreKeyID := v\<rparr>) jd_uint,
      jfield ''signedPreKeyPub'' wb_signedPreKeyPub (\<lambda>v w. w\<lparr>wb_signedPreKeyPub := v\<rparr>) jd_bytes,
      jfield ''signedPreKeySig'' wb_signedPreKeySig (\<lambda>v w. w\<lparr>wb_signedPreKeySig := v\<rparr>) jd_bytes,
      jfield ''identityKey'' wb_identityKey (\<lambda>v w. w\<lparr>wb_identityKey := v\<rparr>) jd_bytes]"

definition SerializeBundle :: "('kp, 'pt, 'pk, 'sk, 'se, 'm) lib \<Rightarrow> 'pt pre_bundle option \<Rightarrow> bytes result" where
  "SerializeBundle lb ob =
     (case ob of
        None \<Rightarrow> Inl ''libsignal: nil bundle''
      | Some b \<Rightarrow>
          Inr (marshal (wireBundle_json \<lparr> wb_registrationID = bu_registrationID b, wb_deviceID = bu_deviceID b, wb_preKeyID = bu_preKeyID b,
            wb_preKeyPub = lb_serialize lb (bu_preKey b), wb_signedPreKeyID = bu_signedPreKeyID b,
            wb_signedPreKeyPub = lb_serialize lb (bu_signedPreKey b), wb_signedPreKeySig = bu_signature b,
            wb_identityKey = lb_serialize lb (bu_identityKey b) \<rparr>)))"

definition DeserializeBundle :: "('kp, 'pt, 'pk, 'sk, 'se, 'm) lib \<Rightarrow> bytes \<Rightarrow> 'pt pre_bundle result" where
  "DeserializeBundle lb data =
     rbind (decode_json (json_into wireBundle_fields) data zero_wireBundle) (\<lambda>w.
     if length (wb_signedPreKeySig w) \<noteq> 64 then Inl ''libsignal: bad signed-prekey signature length''
     else
       rbind (lb_decodePoint lb (wb_preKeyPub w)) (\<lambda>pk.
       rbind (lb_decodePoint lb (wb_signedPreKeyPub w)) (\<lambda>sk.
       rbind (lb_decodePoint lb (wb_identityKey w)) (\<lambda>ik.
       Inr \<lparr> bu_registrationID = wb_registrationID w, bu_deviceID = wb_deviceID w, bu_preKeyID = wb_preKeyID w,
             bu_signedPreKeyID = wb_signedPreKeyID w, bu_preKey = pk, bu_signedPreKey = sk, bu_signature = wb_signedPreKeySig w,
             bu_identityKey = ik \<rparr>))))"

section \<open>Participants\<close>

record ('kp, 'pt, 'pk, 'sk, 'se) participant =
  pa_name :: string
  pa_deviceID :: u32
  pa_address :: nat
  pa_identityKeyPair :: 'kp
  pa_registrationID :: u32
  pa_preKeys :: "'pk list"
  pa_signedPreKey :: 'sk
  pa_stores :: "('kp, 'pt, 'pk, 'sk, 'se) stores"

text \<open>The addresses the process has made, in order; a pointer is an index of this list.\<close>

type_synonym addresses = "address list"

definition NewSignalAddress :: "string \<Rightarrow> u32 \<Rightarrow> addresses \<Rightarrow> nat \<times> addresses" where
  "NewSignalAddress name deviceID h = (length h, h @ [\<lparr> ad_name = name, ad_deviceID = deviceID \<rparr>])"

definition id_value :: "u32 option \<Rightarrow> u32" where
  "id_value i = (case i of None \<Rightarrow> 0 | Some v \<Rightarrow> v)"

text \<open>What the key helper draws, each draw with its possible failure.\<close>

record ('kp, 'pk, 'sk) key_draw =
  kd_identity :: "'kp result"
  kd_regID :: u32
  kd_preKeys :: "'pk list result"
  kd_signed :: "'sk result"

definition store_preKeys :: "('kp, 'pt, 'pk, 'sk, 'se, 'm) lib \<Rightarrow> 'pk list \<Rightarrow> 'pk preKeyStore" where
  "store_preKeys lb preKeys =
     fold (\<lambda>r. StorePreKey (id_value (lb_preKeyID lb r)) (lb_newPreKey lb (id_value (lb_preKeyID lb r)) r)) preKeys newPreKeyStore"

definition NewParticipant ::
    "('kp, 'pt, 'pk, 'sk, 'se, 'm) lib \<Rightarrow> ('kp, 'pk, 'sk) key_draw \<Rightarrow> string \<Rightarrow> u32 \<Rightarrow> addresses \<Rightarrow>
     ('kp, 'pt, 'pk, 'sk, 'se) participant result \<times> addresses" where
  "NewParticipant lb d name deviceID h =
     (case kd_identity d of Inl e \<Rightarrow> (Inl e, h) | Inr kp \<Rightarrow>
      case kd_preKeys d of Inl e \<Rightarrow> (Inl e, h) | Inr preKeys \<Rightarrow>
      case kd_signed d of Inl e \<Rightarrow> (Inl e, h) | Inr sk \<Rightarrow>
      case NewSignalAddress name deviceID h of (addr, h') \<Rightarrow>
        (Inr \<lparr> pa_name = name, pa_deviceID = deviceID, pa_address = addr, pa_identityKeyPair = kp, pa_registrationID = kd_regID d,
           pa_preKeys = preKeys, pa_signedPreKey = sk,
           pa_stores = \<lparr> so_sessions = newSessionStore, so_preKeys = store_preKeys lb preKeys,
             so_signed = StoreSignedPreKey (lb_signedID lb sk) (lb_newSigned lb sk) newSignedPreKeyStore,
             so_identities = newIdentityStore kp (kd_regID d) \<rparr> \<rparr>, h'))"

definition participant_Fingerprint :: "('kp, 'pt, 'pk, 'sk, 'se, 'm) lib \<Rightarrow> ('kp, 'pt, 'pk, 'sk, 'se) participant \<Rightarrow> string" where
  "participant_Fingerprint lb p = lb_fingerprint lb (lb_publicKey lb (pa_identityKeyPair p))"

text \<open>\<open>None\<close> is the index panic of a participant that has no prekeys.\<close>

definition participant_Bundle ::
    "('kp, 'pt, 'pk, 'sk, 'se, 'm) lib \<Rightarrow> ('kp, 'pt, 'pk, 'sk, 'se) participant \<Rightarrow> 'pt pre_bundle option" where
  "participant_Bundle lb p =
     (case pa_preKeys p of
        [] \<Rightarrow> None
      | k # _ \<Rightarrow>
          Some \<lparr> bu_registrationID = pa_registrationID p, bu_deviceID = pa_deviceID p, bu_preKeyID = lb_preKeyID lb k,
            bu_signedPreKeyID = lb_signedID lb (pa_signedPreKey p), bu_preKey = lb_preKeyPub lb k,
            bu_signedPreKey = lb_signedPub lb (pa_signedPreKey p), bu_signature = lb_signature lb (pa_signedPreKey p),
            bu_identityKey = lb_publicKey lb (pa_identityKeyPair p) \<rparr>)"

section \<open>Sessions\<close>

record ls_session =
  ls_remote :: nat
  ls_peerFP :: string

definition NewOutboundSession ::
    "('kp, 'pt, 'pk, 'sk, 'se, 'm) lib \<Rightarrow> string \<Rightarrow> u32 \<Rightarrow> 'pt pre_bundle \<Rightarrow> ('kp, 'pt, 'pk, 'sk, 'se) participant \<Rightarrow> addresses \<Rightarrow>
     ls_session result \<times> ('kp, 'pt, 'pk, 'sk, 'se) participant \<times> addresses" where
  "NewOutboundSession lb remoteName remoteDeviceID b p h =
     (case NewSignalAddress remoteName remoteDeviceID h of (remote, h') \<Rightarrow>
      case lb_processBundle lb remote b (pa_stores p) of (r, st) \<Rightarrow>
        (rbind r (\<lambda>_. Inr \<lparr> ls_remote = remote, ls_peerFP = lb_fingerprint lb (bu_identityKey b) \<rparr>), p\<lparr> pa_stores := st \<rparr>, h'))"

definition NewInboundSession :: "string \<Rightarrow> u32 \<Rightarrow> addresses \<Rightarrow> ls_session \<times> addresses" where
  "NewInboundSession remoteName remoteDeviceID h =
     (case NewSignalAddress remoteName remoteDeviceID h of (remote, h') \<Rightarrow> (\<lparr> ls_remote = remote, ls_peerFP = [] \<rparr>, h'))"

definition tagPreKey :: byte where "tagPreKey = 0x70"
definition tagSignal :: byte where "tagSignal = 0x73"

definition ls_Encrypt ::
    "('kp, 'pt, 'pk, 'sk, 'se, 'm) lib \<Rightarrow> ls_session \<Rightarrow> bytes \<Rightarrow> ('kp, 'pt, 'pk, 'sk, 'se) participant \<Rightarrow>
     bytes result \<times> ('kp, 'pt, 'pk, 'sk, 'se) participant" where
  "ls_Encrypt lb s plaintext p =
     (case lb_encrypt lb (ls_remote s) plaintext (pa_stores p) of (r, st) \<Rightarrow>
        (rbind r (\<lambda>(ty, body). Inr ((if ty = PREKEY_TYPE then tagPreKey else tagSignal) # body)), p\<lparr> pa_stores := st \<rparr>))"

definition ls_open ::
    "('kp, 'pt, 'pk, 'sk, 'se, 'm) lib \<Rightarrow> ls_session \<Rightarrow> signal_type \<Rightarrow> bytes \<Rightarrow> ('kp, 'pt, 'pk, 'sk, 'se) participant \<Rightarrow>
     bytes result \<times> ('kp, 'pt, 'pk, 'sk, 'se) participant" where
  "ls_open lb s ty body p =
     (case lb_parse lb ty body of
        Inl e \<Rightarrow> (Inl e, p)
      | Inr m \<Rightarrow> (case lb_decrypt lb ty (ls_remote s) m (pa_stores p) of (r, st) \<Rightarrow> (r, p\<lparr> pa_stores := st \<rparr>)))"

definition ls_Decrypt ::
    "('kp, 'pt, 'pk, 'sk, 'se, 'm) lib \<Rightarrow> ls_session \<Rightarrow> bytes \<Rightarrow> ('kp, 'pt, 'pk, 'sk, 'se) participant \<Rightarrow>
     bytes result \<times> ('kp, 'pt, 'pk, 'sk, 'se) participant" where
  "ls_Decrypt lb s ciphertext p =
     (case ciphertext of
        [] \<Rightarrow> (Inl ''libsignal: empty ciphertext'', p)
      | tag # body \<Rightarrow>
          if tag = tagPreKey then ls_open lb s PREKEY_TYPE body p
          else if tag = tagSignal then ls_open lb s WHISPER_TYPE body p
          else (Inl ''libsignal: unknown message tag'', p))"

definition ls_PeerFingerprint :: "ls_session \<Rightarrow> string" where
  "ls_PeerFingerprint s = ls_peerFP s"

section \<open>The opt-in store\<close>

definition Enabled :: "(string \<Rightarrow> string) \<Rightarrow> bool" where
  "Enabled getenv \<longleftrightarrow> getenv ''STUNNER_CRYPTO_LIBSIGNAL'' = ''1''"

definition NewStore ::
    "('kp, 'pt, 'pk, 'sk, 'se, 'm) lib \<Rightarrow> ('kp, 'pk, 'sk) key_draw \<Rightarrow> string \<Rightarrow> u32 \<Rightarrow> addresses \<Rightarrow>
     ('kp, 'pt, 'pk, 'sk, 'se) participant result \<times> addresses" where
  "NewStore lb d name deviceID h = NewParticipant lb d name deviceID h"

definition store_Fingerprint :: "('kp, 'pt, 'pk, 'sk, 'se, 'm) lib \<Rightarrow> ('kp, 'pt, 'pk, 'sk, 'se) participant \<Rightarrow> string" where
  "store_Fingerprint lb p = participant_Fingerprint lb p"

definition PublishBundle :: "('kp, 'pt, 'pk, 'sk, 'se, 'm) lib \<Rightarrow> ('kp, 'pt, 'pk, 'sk, 'se) participant \<Rightarrow> bytes result option" where
  "PublishBundle lb p = map_option (\<lambda>b. SerializeBundle lb (Some b)) (participant_Bundle lb p)"

definition ls_Initiate ::
    "('kp, 'pt, 'pk, 'sk, 'se, 'm) lib \<Rightarrow> string \<Rightarrow> u32 \<Rightarrow> bytes \<Rightarrow> ('kp, 'pt, 'pk, 'sk, 'se) participant \<Rightarrow> addresses \<Rightarrow>
     ls_session result \<times> ('kp, 'pt, 'pk, 'sk, 'se) participant \<times> addresses" where
  "ls_Initiate lb peerName peerDeviceID peerBundle p h =
     (case DeserializeBundle lb peerBundle of
        Inl e \<Rightarrow> (Inl e, p, h)
      | Inr b \<Rightarrow> NewOutboundSession lb peerName peerDeviceID b p h)"

definition ls_Accept :: "string \<Rightarrow> u32 \<Rightarrow> addresses \<Rightarrow> ls_session \<times> addresses" where
  "ls_Accept peerName peerDeviceID h = NewInboundSession peerName peerDeviceID h"

section \<open>Lemmas\<close>

lemmas pm_simps [simp] = pm.get_empty pm.get_put pm.get_del pm.ok_empty pm.ok_put pm.ok_del

lemma wireBundle_roundtrip: "decode_json (json_into wireBundle_fields) (marshal (wireBundle_json w)) zero_wireBundle = Inr w"
proof (rule decode_json_marshal)
  show "json_wf (wireBundle_json w)" by (simp add: wireBundle_json_def utf8_valid_ascii omit_if_def)
  have p: "jd_ptr jd_uint 0 (je_uint (i :: u32)) None = (Some i, True)" for i
    using jd_uint_je [of i 0] by (simp add: jd_ptr_def je_uint_def)
  show "json_into wireBundle_fields (wireBundle_json w) zero_wireBundle = (w, True)"
    by (cases w, cases "wb_preKeyID w") (simp_all add: wireBundle_json_def wireBundle_fields_def zero_wireBundle_def decoder_simps p)
qed

text \<open>The point encoding of the library: what it writes it reads back.\<close>

definition points_encode :: "('kp, 'pt, 'pk, 'sk, 'se, 'm) lib \<Rightarrow> bool" where
  "points_encode lb \<longleftrightarrow> (\<forall>p. lb_decodePoint lb (lb_serialize lb p) = Inr p)"

lemma bundle_roundtrip:
  assumes "points_encode lb" "length (bu_signature b) = 64"
  shows "\<exists>w. SerializeBundle lb (Some b) = Inr w \<and> DeserializeBundle lb w = Inr b"
  using assms by (simp add: SerializeBundle_def DeserializeBundle_def points_encode_def wireBundle_roundtrip)

lemma StorePreKey_put: "StorePreKey = pm_put"
  by (intro ext) (simp add: StorePreKey_def)

lemma store_preKeys_lookup:
  assumes "distinct (map (\<lambda>r. id_value (lb_preKeyID lb r)) ks)" "k \<in> set ks"
  shows "LoadPreKey (store_preKeys lb ks) (id_value (lb_preKeyID lb k)) = Some (lb_newPreKey lb (id_value (lb_preKeyID lb k)) k)"
proof -
  let ?i = "\<lambda>r. id_value (lb_preKeyID lb r)"
  have "pm_get (fold (\<lambda>r. pm_put (?i r) (lb_newPreKey lb (?i r) r)) ks m) (?i k) =
      (if k \<in> set ks then Some (lb_newPreKey lb (?i k) k) else pm_get m (?i k))"
    if "distinct (map ?i ks)" "k \<in> set ks \<or> ?i k \<notin> ?i ` set ks" for m using that
  proof (induction ks arbitrary: m)
    case (Cons a ks)
    then show ?case by (cases "k = a") auto
  qed simp
  with assms show ?thesis by (simp add: LoadPreKey_def store_preKeys_def StorePreKey_put)
qed

text \<open>The bundle a new account publishes reaches a peer unchanged, the peer's session names the account's
  fingerprint, and the account holds both prekeys the bundle mentions, so that it can answer the first message.\<close>

theorem published_bundle_usable:
  assumes "points_encode lb"
    and "NewStore lb d name dev h = (Inr bob, h')"
    and "kd_preKeys d = Inr (k # ks)" "distinct (map (\<lambda>r. id_value (lb_preKeyID lb r)) (k # ks))"
    and "kd_signed d = Inr sk" "length (lb_signature lb sk) = 64"
  shows "\<exists>wire b. PublishBundle lb bob = Some (Inr wire) \<and> participant_Bundle lb bob = Some b \<and>
    LoadPreKey (so_preKeys (pa_stores bob)) (id_value (bu_preKeyID b)) = Some (lb_newPreKey lb (id_value (bu_preKeyID b)) k) \<and>
    LoadSignedPreKey (so_signed (pa_stores bob)) (bu_signedPreKeyID b) = Some (lb_newSigned lb sk) \<and>
    (\<forall>peer pdev alice ha. ls_Initiate lb peer pdev wire alice ha = NewOutboundSession lb peer pdev b alice ha) \<and>
    (\<forall>peer pdev alice ha s. fst (ls_Initiate lb peer pdev wire alice ha) = Inr s \<longrightarrow>
       ls_PeerFingerprint s = participant_Fingerprint lb bob)"
proof -
  obtain kp where kp: "kd_identity d = Inr kp"
    using assms(2) by (auto simp: NewStore_def NewParticipant_def split: sum.splits)
  have bob: "pa_preKeys bob = k # ks" "pa_signedPreKey bob = sk"
      "so_preKeys (pa_stores bob) = store_preKeys lb (k # ks)" "so_signed (pa_stores bob) = StoreSignedPreKey (lb_signedID lb sk) (lb_newSigned lb sk) []"
    using assms(2,3,5) kp by (auto simp: NewStore_def NewParticipant_def NewSignalAddress_def)
  define b where "b = the (participant_Bundle lb bob)"
  have b: "participant_Bundle lb bob = Some b" "bu_preKeyID b = lb_preKeyID lb k" "bu_signedPreKeyID b = lb_signedID lb sk"
      "bu_signature b = lb_signature lb sk" "lb_fingerprint lb (bu_identityKey b) = participant_Fingerprint lb bob"
    by (simp_all add: b_def participant_Bundle_def participant_Fingerprint_def bob)
  obtain w where w: "SerializeBundle lb (Some b) = Inr w" "DeserializeBundle lb w = Inr b"
    using bundle_roundtrip [OF assms(1), of b] b(4) assms(6) by auto
  have i: "ls_Initiate lb peer pdev w alice ha = NewOutboundSession lb peer pdev b alice ha" for peer pdev alice ha
    by (simp add: ls_Initiate_def w(2))
  have f: "ls_PeerFingerprint s = participant_Fingerprint lb bob" if "fst (ls_Initiate lb peer pdev w alice ha) = Inr s" for peer pdev alice ha s
    using that by (auto simp: i NewOutboundSession_def NewSignalAddress_def rbind_def ls_PeerFingerprint_def b(5) split: prod.splits sum.splits)
  show ?thesis
    by (intro exI [of _ w] exI [of _ b])
       (use i f store_preKeys_lookup [OF assms(4), of k] in
         \<open>simp add: PublishBundle_def b w(1) bob LoadSignedPreKey_def StoreSignedPreKey_def\<close>)
qed

section \<open>Trust in identities\<close>

text \<open>The library records an identity only under the address the operation was given.\<close>

abbreviation pinned :: "('kp, 'pt, 'pk, 'sk, 'se) stores \<Rightarrow> nat set" where
  "pinned st \<equiv> fst ` set (is_trusted (so_identities st))"

definition lib_local :: "('kp, 'pt, 'pk, 'sk, 'se, 'm) lib \<Rightarrow> bool" where
  "lib_local lb \<longleftrightarrow>
     (\<forall>a b st. pinned (snd (lb_processBundle lb a b st)) \<subseteq> insert a (pinned st)) \<and>
     (\<forall>a x st. pinned (snd (lb_encrypt lb a x st)) \<subseteq> insert a (pinned st)) \<and>
     (\<forall>ty a m st. pinned (snd (lb_decrypt lb ty a m st)) \<subseteq> insert a (pinned st))"

text \<open>An account in use: it is created, starts and accepts sessions, and encrypts and decrypts on the sessions whose
  address the process has made.\<close>

inductive ls_reach ::
    "('kp, 'pt, 'pk, 'sk, 'se, 'm) lib \<Rightarrow> ('kp, 'pt, 'pk, 'sk, 'se) participant \<Rightarrow> addresses \<Rightarrow> bool" for lb where
  create: "NewStore lb d name dev h = (Inr p, h') \<Longrightarrow> ls_reach lb p h'"
| initiate: "ls_reach lb p h \<Longrightarrow> ls_Initiate lb name dev wire p h = (r, p', h') \<Longrightarrow> ls_reach lb p' h'"
| accept: "ls_reach lb p h \<Longrightarrow> ls_Accept name dev h = (s, h') \<Longrightarrow> ls_reach lb p h'"
| encrypt: "ls_reach lb p h \<Longrightarrow> ls_remote s < length h \<Longrightarrow> ls_Encrypt lb s x p = (r, p') \<Longrightarrow> ls_reach lb p' h"
| decrypt: "ls_reach lb p h \<Longrightarrow> ls_remote s < length h \<Longrightarrow> ls_Decrypt lb s c p = (r, p') \<Longrightarrow> ls_reach lb p' h"

lemma subset_insert_below: "A \<subseteq> insert a B \<Longrightarrow> a < n \<Longrightarrow> B \<subseteq> {..< n} \<Longrightarrow> A \<subseteq> {..< (n :: nat)}"
  by auto

lemma pinned_allocated:
  assumes "ls_reach lb p h" "lib_local lb" shows "pinned (pa_stores p) \<subseteq> {..< length h}"
  using assms
proof induction
  case (create d name dev h p h')
  then show ?case
    by (auto simp: NewStore_def NewParticipant_def NewSignalAddress_def newIdentityStore_def split: sum.splits)
next
  case (initiate p h name dev wire r p' h')
  then have L: "\<And>a b st. pinned (snd (lb_processBundle lb a b st)) \<subseteq> insert a (pinned st)" by (simp add: lib_local_def)
  show ?case
  proof (cases "DeserializeBundle lb wire")
    case (Inr b)
    then have "pa_stores p' = snd (lb_processBundle lb (length h) b (pa_stores p))" "length h' = Suc (length h)"
      using initiate.hyps(2) by (auto simp: ls_Initiate_def NewOutboundSession_def NewSignalAddress_def split: prod.splits)
    with L [of "length h" b "pa_stores p"] initiate.IH [OF initiate.prems] show ?thesis by fastforce
  qed (use initiate in \<open>simp add: ls_Initiate_def\<close>)
next
  case (accept p h name dev s h')
  then show ?case by (fastforce simp: ls_Accept_def NewInboundSession_def NewSignalAddress_def)
next
  case (encrypt p h s x r p')
  then have "pinned (snd (lb_encrypt lb (ls_remote s) x (pa_stores p))) \<subseteq> insert (ls_remote s) (pinned (pa_stores p))"
    by (simp add: lib_local_def)
  moreover have "pa_stores p' = snd (lb_encrypt lb (ls_remote s) x (pa_stores p))"
    using encrypt.hyps(3) by (auto simp: ls_Encrypt_def split: prod.splits)
  ultimately have "pinned (pa_stores p') \<subseteq> insert (ls_remote s) (pinned (pa_stores p))" by simp
  then show ?case using encrypt.hyps(2) encrypt.IH [OF encrypt.prems] by (rule subset_insert_below)
next
  case (decrypt p h s c r p')
  have "p' = p \<or> (\<exists>ty m. pa_stores p' = snd (lb_decrypt lb ty (ls_remote s) m (pa_stores p)))"
    using decrypt.hyps(3) by (auto simp: ls_Decrypt_def ls_open_def split: list.splits sum.splits prod.splits if_splits)
      (metis snd_conv)+
  then show ?case
  proof
    assume "\<exists>ty m. pa_stores p' = snd (lb_decrypt lb ty (ls_remote s) m (pa_stores p))"
    then obtain ty m where m: "pa_stores p' = snd (lb_decrypt lb ty (ls_remote s) m (pa_stores p))" by blast
    have "pinned (pa_stores p') \<subseteq> insert (ls_remote s) (pinned (pa_stores p))"
      using decrypt.prems unfolding m lib_local_def by blast
    then show ?thesis using decrypt.hyps(2) decrypt.IH [OF decrypt.prems] by (rule subset_insert_below)
  qed (use decrypt in simp)
qed

text \<open>C39. The identity store never refuses a key. Identities are stored under the pointer of an address, every new
  session makes a new address, and so each session starts with no identity stored for it: whatever keys the same
  peer name was seen with before, any key passes the check that is meant to notice a changed one.\<close>

theorem identity_change_unnoticed:
  assumes "lib_local lb" "ls_reach lb p h" "NewSignalAddress name dev h = (remote, h')"
  shows "IsTrustedIdentity fp remote key (so_identities (pa_stores p))"
proof -
  have "remote \<notin> pinned (pa_stores p)"
    using pinned_allocated [OF assms(2,1)] assms(3) by (auto simp: NewSignalAddress_def)
  then have "pm_get (is_trusted (so_identities (pa_stores p))) remote = None"
    by (simp add: pm_get_def map_of_eq_None_iff)
  then show ?thesis by (simp add: IsTrustedIdentity_def)
qed

text \<open>The two sides of the wire form agree: what \<open>Encrypt\<close> returns is never refused by the framing of \<open>Decrypt\<close>, which
  hands the library the same message under the same type.\<close>

theorem tagged_message_dispatch:
  assumes "ls_Encrypt lb s x p = (Inr w, p')"
  shows "\<exists>ty body. lb_encrypt lb (ls_remote s) x (pa_stores p) = (Inr (ty, body), pa_stores p') \<and> w \<noteq> [] \<and>
    (\<forall>t q. ls_Decrypt lb t w q = ls_open lb t ty body q)"
proof -
  obtain ty body st where e: "lb_encrypt lb (ls_remote s) x (pa_stores p) = (Inr (ty, body), st)" "p' = p\<lparr>pa_stores := st\<rparr>"
      "w = (if ty = PREKEY_TYPE then tagPreKey else tagSignal) # body"
    using assms by (auto simp: ls_Encrypt_def rbind_def split: prod.splits sum.splits)
  show ?thesis
    by (intro exI [of _ ty] exI [of _ body]) (cases ty; simp add: e ls_Decrypt_def tagPreKey_def tagSignal_def)
qed

section \<open>Witnesses\<close>

text \<open>A library over byte strings: identities are saved as bundles are processed, messages are not encrypted.\<close>

definition toy_lib :: "(bytes, bytes, u32 \<times> bytes, u32 \<times> bytes, unit, bytes) lib" where
  "toy_lib = \<lparr> lb_publicKey = (\<lambda>k. k), lb_fingerprint = of_bytes, lb_serialize = (\<lambda>p. 5 # p),
     lb_decodePoint = (\<lambda>b. case b of [] \<Rightarrow> Inl ''bad key length: 0'' | _ # p \<Rightarrow> Inr p),
     lb_preKeyID = (\<lambda>k. Some (fst k)), lb_newPreKey = (\<lambda>i k. (i, snd k)), lb_preKeyPub = snd,
     lb_signedID = fst, lb_signedPub = snd, lb_signature = (\<lambda>_. replicate 64 0), lb_newSigned = (\<lambda>k. k),
     lb_processBundle = (\<lambda>a b st. (Inr (), st\<lparr> so_identities := SaveIdentity a (bu_identityKey b) (so_identities st),
       so_sessions := StoreSession a () (so_sessions st) \<rparr>)),
     lb_encrypt = (\<lambda>a x st. (Inr (WHISPER_TYPE, x), st)), lb_parse = (\<lambda>ty b. Inr b), lb_decrypt = (\<lambda>ty a m st. (Inr m, st)) \<rparr>"

definition toy_key_draw :: "(bytes, u32 \<times> bytes, u32 \<times> bytes) key_draw" where
  "toy_key_draw = \<lparr> kd_identity = Inr [1], kd_regID = 7, kd_preKeys = Inr [(1, [2]), (2, [3])], kd_signed = Inr (0, [4]) \<rparr>"

definition toy_participant :: "(bytes, bytes, u32 \<times> bytes, u32 \<times> bytes, unit) participant" where
  "toy_participant = projr (fst (NewStore toy_lib toy_key_draw ''bob'' 1 []))"

lemma toy_NewStore: "NewStore toy_lib toy_key_draw ''bob'' 1 [] = (Inr toy_participant, [\<lparr> ad_name = ''bob'', ad_deviceID = 1 \<rparr>])"
  by (simp add: toy_participant_def NewStore_def NewParticipant_def toy_key_draw_def NewSignalAddress_def)

lemma toy_points: "points_encode toy_lib"
  by (simp add: points_encode_def toy_lib_def)

lemma toy_local: "lib_local toy_lib"
  by (simp add: lib_local_def toy_lib_def SaveIdentity_def pm_put_def dom_update subset_insertI)

lemma toy_published: "\<exists>wire b. PublishBundle toy_lib toy_participant = Some (Inr wire) \<and> DeserializeBundle toy_lib wire = Inr b"
proof -
  have "pa_preKeys toy_participant = [(1, [2]), (2, [3])]"
    by (simp add: toy_participant_def NewStore_def NewParticipant_def toy_key_draw_def NewSignalAddress_def)
  then obtain b where b: "participant_Bundle toy_lib toy_participant = Some b" "length (bu_signature b) = 64"
    by (auto simp: participant_Bundle_def toy_lib_def)
  show ?thesis using bundle_roundtrip [OF toy_points b(2)] by (auto simp: PublishBundle_def b(1))
qed

theorem published_bundle_usable_witness:
  "\<exists>wire b. PublishBundle toy_lib toy_participant = Some (Inr wire) \<and> DeserializeBundle toy_lib wire = Inr b \<and> bu_preKeyID b = Some 1 \<and>
    LoadPreKey (so_preKeys (pa_stores toy_participant)) 1 = Some (1, [2])"
proof -
  obtain wire b where w: "PublishBundle toy_lib toy_participant = Some (Inr wire)" "participant_Bundle toy_lib toy_participant = Some b"
      "LoadPreKey (so_preKeys (pa_stores toy_participant)) (id_value (bu_preKeyID b)) = Some (lb_newPreKey toy_lib (id_value (bu_preKeyID b)) (1, [2]))"
    using published_bundle_usable [OF toy_points toy_NewStore, of "(1, [2])" "[(2, [3])]" "(0, [4])"]
    by (auto simp: toy_key_draw_def toy_lib_def id_value_def)
  have p: "pa_preKeys toy_participant = [(1, [2]), (2, [3])]"
    by (simp add: toy_participant_def NewStore_def NewParticipant_def toy_key_draw_def NewSignalAddress_def)
  with w(2) have i: "bu_preKeyID b = Some 1" "length (bu_signature b) = 64"
    by (auto simp: participant_Bundle_def toy_lib_def)
  have "DeserializeBundle toy_lib wire = Inr b"
    using bundle_roundtrip [OF toy_points i(2)] w(1) by (auto simp: PublishBundle_def w(2))
  with w(1,3) i(1) show ?thesis by (auto simp: id_value_def toy_lib_def)
qed

text \<open>After a session with a peer whose key was \<open>[1]\<close>, the key \<open>[9]\<close> passes for the same peer.\<close>

theorem identity_change_unnoticed_witness:
  "let (r, p, h) = ls_Initiate toy_lib ''bob'' 1 (projr (the (PublishBundle toy_lib toy_participant))) toy_participant [\<lparr> ad_name = ''bob'', ad_deviceID = 1 \<rparr>]
   in fst ` set (is_trusted (so_identities (pa_stores p))) = {1} \<and>
      IsTrustedIdentity of_bytes (fst (NewSignalAddress ''bob'' 1 h)) [9] (so_identities (pa_stores p))"
proof -
  obtain wire b where w: "PublishBundle toy_lib toy_participant = Some (Inr wire)" "DeserializeBundle toy_lib wire = Inr b"
    using toy_published by blast
  obtain r p h where i: "ls_Initiate toy_lib ''bob'' 1 wire toy_participant [\<lparr> ad_name = ''bob'', ad_deviceID = 1 \<rparr>] = (r, p, h)"
    by (metis prod_cases3)
  then have p: "p = toy_participant\<lparr> pa_stores := snd (lb_processBundle toy_lib 1 b (pa_stores toy_participant)) \<rparr>"
    by (auto simp: ls_Initiate_def w(2) NewOutboundSession_def NewSignalAddress_def split: prod.splits)
  have "is_trusted (so_identities (pa_stores toy_participant)) = []"
    by (simp add: toy_participant_def NewStore_def NewParticipant_def toy_key_draw_def NewSignalAddress_def newIdentityStore_def)
  then have "fst ` set (is_trusted (so_identities (pa_stores p))) = {1}"
    by (simp add: p toy_lib_def SaveIdentity_def pm_put_def)
  moreover have "IsTrustedIdentity of_bytes (fst (NewSignalAddress ''bob'' 1 h)) [9] (so_identities (pa_stores p))"
    by (rule identity_change_unnoticed [OF toy_local ls_reach.initiate [OF ls_reach.create [OF toy_NewStore] i]])
       (simp add: NewSignalAddress_def)
  ultimately show ?thesis using w(1) i by simp
qed

end
