(* ===== verification/Stunnerd.thy ===== *)
theory Stunnerd
  imports Node_Transfer Node_Offline Netcheck Go_Path
begin

text \<open>
  \<open>src/core/cmd/stunnerd/main.go\<close>: the program that runs the whole pipeline between two accounts in one process.
  \<open>makeNode\<close> and \<open>run\<close> are modelled; the answers of the file system, the clock and the random source are the
  record \<open>run_env\<close>, and what the program prints is the record \<open>report\<close> of the printed values. Removing the
  temporary directory at the end has no influence on the result. Both nodes work on one pipe and one mailbox,
  the state \<open>demo\<close>.
\<close>

section \<open>The program\<close>

record node_env =
  ne_account :: account_env
  ne_storeDir :: "unit result"
  ne_store :: file_read

definition makeNode :: "curve \<Rightarrow> node_env \<Rightarrow> string \<Rightarrow> string \<Rightarrow> node result" where
  "makeNode cv env tmp name =
     (let key = concat (replicate 32 (take 1 (to_bytes (name @ ''-'')))); dir = path_Join tmp name in
      rbind (fst (LoadOrCreate cv (ne_account env) dir key)) (\<lambda>acc.
      rbind (openFileStore (path_Join dir ''db.bin'') key (ne_storeDir env) (ne_store env)) (\<lambda>store.
      Inr (node_New acc (Some store)))))"

record run_env =
  ru_tmp :: "string result"
  ru_start :: gotime
  ru_alice :: node_env
  ru_bob :: node_env
  ru_eph :: draw
  ru_ratchet :: draw
  ru_recv :: "nat \<Rightarrow> draw"
  ru_file :: bytes
  ru_key :: "bytes result"
  ru_fid :: bytes
  ru_ids :: "nat \<Rightarrow> bytes"
  ru_now :: "nat \<Rightarrow> gotime"
  ru_flush :: "nat \<Rightarrow> flush_env"
  ru_id' :: bytes
  ru_now' :: gotime
  ru_eph' :: draw
  ru_ratchet' :: draw
  ru_fetch :: "nat \<Rightarrow> draw"

record report =
  rp_alice :: string
  rp_bob :: string
  rp_safety :: string
  rp_text :: string
  rp_fileName :: string
  rp_fileLength :: nat
  rp_integrity :: bool
  rp_offline :: "string option"

record demo =
  dm_node :: "pipe_end \<Rightarrow> node"
  dm_pipe :: pipe
  dm_mailbox :: mailbox

definition on_end :: "pipe_end \<Rightarrow> (pipe world, 'a) go \<Rightarrow> (demo, 'a) go" where
  "on_end e m s =
     (case m \<lparr> w_node = dm_node s e, w_conn = dm_pipe s \<rparr> of
        None \<Rightarrow> None
      | Some (r, w) \<Rightarrow> Some (r, s\<lparr> dm_node := (dm_node s)(e := w_node w), dm_pipe := w_conn w \<rparr>))"

definition on_mailbox :: "pipe_end \<Rightarrow> (node \<times> mailbox, 'a) go \<Rightarrow> (demo, 'a) go" where
  "on_mailbox e m s =
     (case m (dm_node s e, dm_mailbox s) of
        None \<Rightarrow> None
      | Some (r, (n, mb)) \<Rightarrow> Some (r, s\<lparr> dm_node := (dm_node s)(e := n), dm_mailbox := mb \<rparr>))"

text \<open>The emoji of the three texts, in UTF-8.\<close>

definition party :: string where "party = [CHR 0xF0, CHR 0x9F, CHR 0x8E, CHR 0x89]"
definition padlock :: string where "padlock = [CHR 0xF0, CHR 0x9F, CHR 0x94, CHR 0x92]"
definition waving :: string where "waving = [CHR 0xF0, CHR 0x9F, CHR 0x91, CHR 0x8B]"

definition hello_text :: string where "hello_text = ''hello bob '' @ party @ padlock"
definition offline_text :: string where "offline_text = ''sent while you were offline '' @ waving"

text \<open>\<open>run\<close> from the link on; \<open>pk\<close> decides the \<open>select\<close> of the pipe when its end is closed.\<close>

definition pipeline :: "curve \<Rightarrow> bool \<Rightarrow> run_env \<Rightarrow> string \<Rightarrow> (demo, report) go" where
  "pipeline cv pk env sn =
     go_read (\<lambda>s.
       let a = dm_node s EndA; b = dm_node s EndB; io = pipe_conn pk in
       go_bind (on_end EndA (node_Dial cv (io EndA) (node_Bundle cv b) (ru_eph env) (ru_ratchet env))) (\<lambda>linkA.
       go_bind (on_end EndB (node_Accept cv (io EndB))) (\<lambda>linkB.
       go_bind (on_end EndA (link_SendText cv (io EndA) linkA (ru_flush env 0) ''conv'' hello_text (ru_ids env 0) (ru_now env 0))) (\<lambda>_.
       go_bind (on_end EndB (link_Receive cv (io EndB) linkB (ru_recv env 0))) (\<lambda>e.
       go_bind (on_end EndA (link_SendFile cv (io EndA) linkA (\<lambda>i. ru_flush env (Suc i)) ''conv'' ''secret.bin'' ''application/octet-stream''
         (ru_file env) (ru_key env) (ru_fid env) (\<lambda>i. ru_ids env (Suc i)) (\<lambda>i. ru_now env (Suc i)))) (\<lambda>_.
       go_bind (on_end EndB (ReceiveFile cv (io EndB) linkB (ru_recv env 1) (\<lambda>i. ru_recv env (Suc (Suc i))))) (\<lambda>(off, got).
       let offline = (case NewText ''conv'' offline_text [] (ru_id' env) (ru_now' env) of Inr e \<Rightarrow> e | Inl _ \<Rightarrow> zero_envelope) in
       go_bind (go_read (\<lambda>s. on_mailbox EndA (SendOffline cv (node_Bundle cv (dm_node s EndB)) offline (ru_eph' env) (ru_ratchet' env)))) (\<lambda>_.
       go_bind (on_mailbox EndB (FetchOffline cv (ru_fetch env))) (\<lambda>fetched.
       go_ret \<lparr> rp_alice = account_Fingerprint (nd_account a), rp_bob = account_Fingerprint (nd_account b), rp_safety = sn,
         rp_text = text_of e, rp_fileName = o_name off, rp_fileLength = length got, rp_integrity = (got = ru_file env),
         rp_offline = (case fetched of [] \<Rightarrow> None | o1 # _ \<Rightarrow> Some (text_of o1)) \<rparr>)))))))))"

definition run_setup :: "curve \<Rightarrow> run_env \<Rightarrow> (node \<times> node \<times> string) result" where
  "run_setup cv env =
     rbind (ru_tmp env) (\<lambda>tmp.
     rbind (makeNode cv (ru_alice env) tmp ''alice'') (\<lambda>a.
     rbind (makeNode cv (ru_bob env) tmp ''bob'') (\<lambda>b.
     rbind (core_SafetyNumber (ContactURI (nd_account a) ''alice'') (ContactURI (nd_account b) ''bob'') (ru_start env)) (\<lambda>sn.
     Inr (a, b, sn)))))"

text \<open>The result of the program; \<open>None\<close> if it hangs.\<close>

definition run :: "curve \<Rightarrow> bool \<Rightarrow> run_env \<Rightarrow> report result option" where
  "run cv pk env =
     (case run_setup cv env of
        Inl e \<Rightarrow> Some (Inl e)
      | Inr (a, b, sn) \<Rightarrow>
          map_option fst (pipeline cv pk env sn
            \<lparr> dm_node = (\<lambda>e. case e of EndA \<Rightarrow> a | EndB \<Rightarrow> b), dm_pipe = Pipe, dm_mailbox = NewMailbox \<rparr>))"

section \<open>Its nodes\<close>

text \<open>An environment in which a new account and an empty store are created.\<close>

definition new_node_env :: "node_env \<Rightarrow> bytes \<Rightarrow> bool" where
  "new_node_env env sp \<longleftrightarrow> ae_mkdir (ne_account env) = Inr () \<and> ae_read (ne_account env) = NotExist \<and>
     ae_write (ne_account env) = None \<and> is_ok (ae_nonce (ne_account env)) \<and>
     draw32 (ae_signing (ne_account env)) \<and> draw32 (ae_agreement (ne_account env)) \<and>
     ae_signedPre (ne_account env) = Inr sp \<and> length sp = 32 \<and> draw32 (ae_oneTime (ne_account env)) \<and>
     ne_storeDir env = Inr () \<and> ne_store env = NotExist"

lemma path_Join_nonempty: "path_Join d ''db.bin'' \<noteq> []"
proof (cases "d = []")
  case False
  then show ?thesis using path_Join_component [OF False, of "''db.bin''"] by (simp add: component_def)
qed (simp add: path_Join_def path_Clean_def path_rooted_def Let_def)

lemma makeNode_ok:
  assumes cv: "curve_ok cv" and env: "new_node_env env sp" and name: "name \<noteq> []"
  obtains n where "makeNode cv env tmp name = Inr n" "node_ok cv n" "pk_signedPre (ac_preKeys (nd_account n)) = sp"
proof -
  let ?key = "concat (replicate 32 (take 1 (to_bytes (name @ ''-''))))" and ?ae = "ne_account env"
  have key: "length ?key = 32" using name by (cases name) (simp_all add: to_bytes_def length_concat sum_list_replicate)
  obtain nonce where nonce: "ae_nonce ?ae = Inr nonce" using env by (cases "ae_nonce ?ae") (auto simp: new_node_env_def)
  obtain i where i: "Generate cv (ae_signing ?ae) (ae_agreement ?ae) = Inr i" "identity_ok cv i"
    using Generate_ok [OF cv] env by (auto simp: new_node_env_def)
  have d: "draw32 (ae_signedPre ?ae)" "draw32 (ae_oneTime ?ae)" using env by (auto simp: new_node_env_def draw32_def)
  obtain pre where pre: "GeneratePreKeys cv i (ae_signedPre ?ae) (ae_oneTime ?ae) = Inr pre" "pk_id pre = i" "prekeys_ok cv pre"
    using GeneratePreKeys_ok [OF cv i(2) d] by blast
  have sp: "pk_signedPre pre = sp" using pre(1) env by (auto simp: new_node_env_def GeneratePreKeys_def rbind_def split: sum.splits)
  obtain sealed where s: "vault_Seal ?key (Marshal i) (Inr nonce) = Inr sealed"
    using key by (simp add: vault_Seal_def newGCM_def KeySize_def)
  let ?acc = "\<lparr> ac_identity = i, ac_preKeys = pre, ac_contacts = NewMemory, ac_dir = path_Join tmp name, ac_key = ?key \<rparr>"
  have a: "fst (LoadOrCreate cv ?ae (path_Join tmp name) ?key) = Inr ?acc"
    using env key i(1) s nonce pre(1) by (simp add: new_node_env_def LoadOrCreate_def load_identity_def KeySize_def)
  obtain st where st: "openFileStore (path_Join (path_Join tmp name) ''db.bin'') ?key (ne_storeDir env) (ne_store env) = Inr st"
    using env key path_Join_nonempty by (simp add: new_node_env_def openFileStore_def KeySize_def Let_def)
  have ok: "node_ok cv (node_New ?acc (Some st))" by (rule node_ok_New) (use i(2) pre in \<open>simp add: account_ok_def\<close>)
  show ?thesis
    by (rule that [OF _ ok]) (use a st sp in \<open>simp_all add: makeNode_def Let_def node_New_def\<close>)
qed

section \<open>Its link\<close>

lemma Dial_Accept_run:
  assumes cv: "curve_ok cv" and n: "node_ok cv na" "node_ok cv nb" and d: "length eph = 32" "length k0 = 32"
  obtains la lb na' nb' p where
    "node_Dial cv (pipe_conn pk EndA) (node_Bundle cv nb) (Inr eph) (Inr k0) \<lparr> w_node = na, w_conn = Pipe \<rparr> =
       Some (Inr la, \<lparr> w_node = na', w_conn = p \<rparr>)"
    "node_Accept cv (pipe_conn pk EndB) \<lparr> w_node = nb, w_conn = p \<rparr> = Some (Inr lb, \<lparr> w_node = nb', w_conn = Pipe \<rparr>)"
    "link_live na' la" "link_live nb' lb" "ordered cv (peer_net na' la nb' lb (used_keys cv nb k0) [] [])" "r_ns (sess na' la) = 0"
proof -
  let ?ma = "nd_sessions na" and ?mb = "nd_sessions nb" and ?pre = "ac_preKeys (nd_account nb)"
  have a: "identity_ok cv (m_local ?ma)" and b: "m_pre ?mb = Some ?pre" "prekeys_ok cv ?pre" "pk_id ?pre = m_local ?mb"
    using n by (simp_all add: node_ok_def account_ok_def)
  obtain hs ma' mb' where i: "session_Initiate cv ?ma (Bundle cv ?pre) (Inr eph) (Inr k0) = (Inr (length (m_heap ?ma), hs), ma')"
    and r: "session_Accept cv ?mb hs = (Inr (length (m_heap ?mb)), mb')"
    and len: "length (m_heap ?ma) < length (m_heap ma')" "length (m_heap ?mb) < length (m_heap mb')"
    and ns: "r_ns (s_r (m_heap ma' ! length (m_heap ?ma))) = 0"
    by (rule handshake_sessions [OF cv a b d]) (auto simp: initiator_state_def case_prod_beta)
  let ?na = "na\<lparr> nd_sessions := ma' \<rparr>" and ?nb = "nb\<lparr> nd_sessions := mb' \<rparr>"
  let ?la = "new_link (length (m_heap ?ma)) (b_identitySign (node_Bundle cv nb)) ?na"
    and ?lb = "new_link (length (m_heap ?mb)) (hs_identitySign hs) ?nb"
  let ?f = "marshal (frame_json \<lparr> f_bundle = None, f_handshake = Some hs, f_payload = [] \<rparr>)"
  let ?p = "Pipe\<lparr> pp_a2b := [?f] \<rparr>"
  have e: "pipe_Send pk EndA ?f Pipe = Some (Inr (), ?p)" "pipe_Recv EndB ?p = Some (Inr ?f, Pipe)"
    by (simp_all add: pipe_Send_def pipe_Recv_def pipe_cap_def pipe_parts Let_def Pipe_def)
  have s1: "node_Dial cv (pipe_conn pk EndA) (node_Bundle cv nb) (Inr eph) (Inr k0) \<lparr> w_node = na, w_conn = Pipe \<rparr> =
      Some (Inr ?la, \<lparr> w_node = ?na, w_conn = ?p \<rparr>)"
    using i by (simp add: node_Dial_def go_of_def go_bind_def go_get_def EncodeFrame_def on_conn_run e on_sessions_run node_Bundle_def)
  have s2: "node_Accept cv (pipe_conn pk EndB) \<lparr> w_node = nb, w_conn = ?p \<rparr> = Some (Inr ?lb, \<lparr> w_node = ?nb, w_conn = Pipe \<rparr>)"
    by (simp add: node_Accept_def go_of_def go_bind_def go_get_def on_conn_run e on_sessions_run r)
  have o: "ordered cv (peer_net ?na ?la ?nb ?lb (used_keys cv nb k0) [] [])"
    using handshake_ordered [OF cv a b d i r] by (simp add: peer_net_def net_of_def sess_def new_link_def used_keys_def)
  show ?thesis
    by (rule that [OF s1 s2 _ _ o]) (use len ns in \<open>simp_all add: new_link_def link_live_def sess_def\<close>)
qed

section \<open>What the operations keep of a node\<close>

definition world_keys :: "'c world \<Rightarrow> 'c world \<Rightarrow> bool" where
  "world_keys w w' \<longleftrightarrow> same_keys (w_node w) (w_node w')"

interpretation kept: step_law world_keys
  by unfold_locales (auto simp: world_keys_def intro: same_keys_trans)

lemma kept_conn: "kept.law (on_conn m)"
  by (auto simp: kept.law_def on_conn_def go_on_def world_keys_def split: option.splits)

lemma on_sessions_world:
  "on_node (on_sessions f) w =
     Some (fst (f (nd_sessions (w_node w))), w\<lparr> w_node := (w_node w)\<lparr> nd_sessions := snd (f (nd_sessions (w_node w))) \<rparr> \<rparr>)"
  by (cases w) (simp add: on_sessions_run)

lemma kept_sessions:
  "(\<And>m. m_local (snd (f m)) = m_local m) \<Longrightarrow> (\<And>m. m_pre (snd (f m)) = m_pre m) \<Longrightarrow> kept.law (on_node (on_sessions f))"
  by (auto simp: kept.law_def on_sessions_world world_keys_def same_keys_def)

lemma session_Encrypt_sel [simp]:
  "m_local (snd (session_Encrypt cv m p pt)) = m_local m" "m_pre (snd (session_Encrypt cv m p pt)) = m_pre m"
  by (auto simp: session_Encrypt_def Let_def split: option.split sum.split prod.split)

lemma session_Initiate_sel [simp]:
  "m_local (snd (session_Initiate cv m b d d')) = m_local m" "m_pre (snd (session_Initiate cv m b d d')) = m_pre m"
  by (auto simp: session_Initiate_def Let_def split: option.split sum.split prod.split)

lemma store_sent_kept: "world_keys w (w\<lparr> w_node := store_sent fe env (w_node w) \<rparr>)"
  by (simp add: world_keys_def same_keys_def store_sent_def split: option.split)

lemmas kept_prims = kept.laws kept_conn kept_sessions store_sent_kept

lemma SendEnvelope_kept: "kept.law (link_SendEnvelope cv io l fe env)"
  unfolding link_SendEnvelope_def encryptSendLocked_def by (intro kept_prims; simp)

lemma Receive_kept: "kept.law (link_Receive cv io l d)"
  unfolding link_Receive_def by (intro kept_prims; simp)

lemma send_chunks_kept: "kept.law (send_chunks cv io l fe c ids now i cs)"
  by (induction cs arbitrary: i) (simp_all add: kept.law_ret kept.law_bind SendEnvelope_kept)

lemma recv_chunks_kept: "kept.law (recv_chunks cv io l d i n cs)"
  by (induction n arbitrary: i cs) (auto intro!: kept.laws Receive_kept)

lemma SendText_kept: "kept.law (link_SendText cv io l fe c text ids now)"
  unfolding link_SendText_def by (intro kept.laws SendEnvelope_kept)

lemma SendFile_kept: "kept.law (link_SendFile cv io l fe c name mime data key fid ids now)"
  unfolding link_SendFile_def case_prod_beta by (intro kept.laws SendEnvelope_kept send_chunks_kept)

lemma ReceiveFileBody_kept: "kept.law (ReceiveFileBody cv io l d off)"
proof -
  have "kept.law (go_bind (recv_chunks cv io l d 0 (nat (num_chunks off)) []) (\<lambda>chunks. go_of (Reassemble off chunks)))"
    by (intro kept.laws recv_chunks_kept)
  then show ?thesis by (auto simp: kept.law_def ReceiveFileBody_def split: if_splits)
qed

lemma ReceiveFile_kept: "kept.law (ReceiveFile cv io l d d')"
  unfolding ReceiveFile_def by (intro kept.laws Receive_kept ReceiveFileBody_kept)

section \<open>The run\<close>

definition demo_of :: "node \<Rightarrow> node \<Rightarrow> pipe \<Rightarrow> mailbox \<Rightarrow> demo" where
  "demo_of a b p mb = \<lparr> dm_node = (\<lambda>e. case e of EndA \<Rightarrow> a | EndB \<Rightarrow> b), dm_pipe = p, dm_mailbox = mb \<rparr>"

lemma ends_upd:
  "(\<lambda>e. case e of EndA \<Rightarrow> a | EndB \<Rightarrow> b)(EndA := c) = (\<lambda>e. case e of EndA \<Rightarrow> c | EndB \<Rightarrow> b)"
  "(\<lambda>e. case e of EndA \<Rightarrow> a | EndB \<Rightarrow> b)(EndB := c) = (\<lambda>e. case e of EndA \<Rightarrow> a | EndB \<Rightarrow> c)"
  by (auto simp: fun_eq_iff split: pipe_end.split)

lemma demo_sel [simp]: "dm_node (demo_of a b p mb) EndA = a" "dm_node (demo_of a b p mb) EndB = b"
  by (simp_all add: demo_of_def)

lemma on_end_run:
  "on_end EndA m (demo_of a b p mb) =
     (case m \<lparr> w_node = a, w_conn = p \<rparr> of None \<Rightarrow> None | Some (r, w) \<Rightarrow> Some (r, demo_of (w_node w) b (w_conn w) mb))"
  "on_end EndB m (demo_of a b p mb) =
     (case m \<lparr> w_node = b, w_conn = p \<rparr> of None \<Rightarrow> None | Some (r, w) \<Rightarrow> Some (r, demo_of a (w_node w) (w_conn w) mb))"
  by (simp_all add: on_end_def demo_of_def ends_upd split: option.split)

lemma on_mailbox_run:
  "on_mailbox EndA m (demo_of a b p mb) =
     (case m (a, mb) of None \<Rightarrow> None | Some (r, (n, mb')) \<Rightarrow> Some (r, demo_of n b p mb'))"
  "on_mailbox EndB m' (demo_of a b p mb) =
     (case m' (b, mb) of None \<Rightarrow> None | Some (r, (n, mb')) \<Rightarrow> Some (r, demo_of a n p mb'))"
  by (simp_all add: on_mailbox_def demo_of_def ends_upd split: option.split)

lemma texts_utf8: "utf8_valid hello_text" "utf8_valid offline_text"
  by (simp_all add: hello_text_def offline_text_def party_def padlock_def waving_def utf8_tail_def is_cont_def)

text \<open>A text and a file over the fresh link of two nodes.\<close>

lemma text_stage:
  assumes cv: "curve_ok cv" and o: "ordered cv (peer_net na la nb lb used [] [])" and l: "link_live na la" "link_live nb lb"
    and ns: "r_ns (sess na la) = 0" and p: "pipe_out EndA p = []" "\<not> pp_done p"
    and k: "length k = 32" "x25519_base cv k \<notin> used" and t: "utf8_valid text" "time_ok now"
  obtains e na' nb' p1 p2 where
    "link_SendText cv (pipe_conn pk EndA) la fe ''conv'' text ids now \<lparr> w_node = na, w_conn = p \<rparr> = Some (Inr e, \<lparr> w_node = na', w_conn = p1 \<rparr>)"
    "link_Receive cv (pipe_conn pk EndB) lb (Inr k) \<lparr> w_node = nb, w_conn = p1 \<rparr> = Some (Inr e, \<lparr> w_node = nb', w_conn = p2 \<rparr>)"
    "text_of e = text" "pipe_out EndA p2 = []" "\<not> pp_done p2" "link_live na' la" "link_live nb' lb" "r_ns (sess na' la) = 1"
    "ordered cv (peer_net na' la nb' lb (insert (x25519_base cv k) used) [] [])"
proof -
  have u: "utf8_valid ''conv''" and b: "unat (r_ns (sess na la)) + 1001 < 2 ^ 32" by (simp_all add: ns utf8_valid_ascii)
  show ?thesis
  proof (rule pipe_duplex.text_run [OF cv o l b p(2,1) k u t, where pick = "\<lambda>_. pk" and fe = fe and ids = ids])
    fix e na' nb' p1 p2
    assume r: "link_SendText cv (pipe_conn pk EndA) la fe ''conv'' text ids now \<lparr> w_node = na, w_conn = p \<rparr> = Some (Inr e, \<lparr> w_node = na', w_conn = p1 \<rparr>)"
      "link_Receive cv (pipe_conn pk (other_end EndA)) lb (Inr k) \<lparr> w_node = nb, w_conn = p1 \<rparr> = Some (Inr e, \<lparr> w_node = nb', w_conn = p2 \<rparr>)"
      and q: "(\<lambda>e. pipe_out e p2) = (\<lambda>e. pipe_out e p)" and n: "r_ns (sess na' la) = r_ns (sess na la) + 1"
    assume x: "text_of e = text" "\<not> pp_done p2" "link_live na' la" "link_live nb' lb"
      "ordered cv (peer_net na' la nb' lb (insert (x25519_base cv k) used) [] [])"
    have "pipe_out EndA p2 = []" using fun_cong [OF q, of EndA] p(1) by simp
    then show thesis using that r x n ns by simp
  qed
qed

lemma file_stage:
  assumes cv: "curve_ok cv" and o: "ordered cv (peer_net na la nb lb used [] [])" and l: "link_live na la" "link_live nb lb"
    and ns: "r_ns (sess na la) = 1" and p: "pipe_out EndA p = []" "\<not> pp_done p" and key: "length key = 32"
    and data: "length data = 40 * 1024" and fr: "fresh_from cv used k 0 4" and times: "\<And>i. time_ok (now i)"
  obtains off na' nb' p1 p2 where
    "link_SendFile cv (pipe_conn pk EndA) la fe ''conv'' ''secret.bin'' ''application/octet-stream'' data (Inr key) fid ids now
       \<lparr> w_node = na, w_conn = p \<rparr> = Some (Inr off, \<lparr> w_node = na', w_conn = p1 \<rparr>)"
    "ReceiveFile cv (pipe_conn pk EndB) lb (Inr (k 0)) (\<lambda>i. Inr (k (Suc i))) \<lparr> w_node = nb, w_conn = p1 \<rparr> =
       Some (Inr (off, data), \<lparr> w_node = nb', w_conn = p2 \<rparr>)"
    "o_name off = ''secret.bin''"
proof -
  obtain off chunks where sp: "Split ''secret.bin'' ''application/octet-stream'' data 0 (Inr key) fid = Inr (off, chunks)"
    by (rule Split_ok [OF key])
  have len: "length chunks = 3" using Split_chunks(2) [OF sp key] data by simp
  have tk: "pipe_conn.takes pk EndA (Suc (length chunks)) p" by (rule pipe_takes) (use p len in \<open>simp_all add: pipe_cap_def\<close>)
  have u: "utf8_valid ''conv''" "utf8_valid ''secret.bin''" "utf8_valid ''application/octet-stream''" by (simp_all add: utf8_valid_ascii)
  have b: "unat (r_ns (sess na la)) + length chunks + 1002 < 2 ^ 32" by (simp add: ns len)
  obtain na' p1 x xs where s: "link_SendFile cv (pipe_conn pk EndA) la fe ''conv'' ''secret.bin'' ''application/octet-stream'' data (Inr key) fid ids now
       \<lparr> w_node = na, w_conn = p \<rparr> = Some (Inr off, \<lparr> w_node = na', w_conn = p1 \<rparr>)"
    "pipe_out EndA p1 = pipe_out EndA p @ map payload_frame (x # xs)" "length xs = length chunks"
    "ordered cv (peer_net na' la nb lb used ((x, env_bytes (envFor TypeFileOffer ''conv'' (offer_json off) (ids 0) (now 0))) #
       zip xs (map env_bytes (chunk_envs ''conv'' ids now 1 chunks))) [])"
    by (rule pipe_conn.SendFile_run [where now = now, OF u(1) times sp tk o l(1) b])
  have a: "pipe_in EndB p1 = map payload_frame (x # xs)" using s(2) p(1) by simp
  have few: "length chunks < 2 ^ 32" and "Suc (length chunks) = 4" using len by simp_all
  then have fr': "fresh_from cv used k 0 (Suc (length chunks))" using fr by simp
  obtain w where r: "ReceiveFile cv (pipe_conn pk EndB) lb (Inr (k 0)) (\<lambda>i. Inr (k (Suc i))) \<lparr> w_node = nb, w_conn = p1 \<rparr> = Some (Inr (off, data), w)"
    using pipe_conn.ReceiveFile_run [where now = now, OF cv u times sp key few a s(3) l(2) s(4) fr'] by blast
  show ?thesis by (rule that [OF s(1), of "w_node w" "w_conn w"]) (use r Split_num_chunks [OF sp key few] in auto)
qed

lemma offline_stage:
  assumes cv: "curve_ok cv" and n: "node_ok cv na" "node_ok cv nb" and d: "length eph = 32" "length k0 = 32" and e: "envelope_ok e"
    and k: "d' 0 = Inr k" "length k = 32" "x25519_base cv k \<notin> used_keys cv nb k0"
  obtains na' nb' mb mb' where
    "SendOffline cv (node_Bundle cv nb) e (Inr eph) (Inr k0) (na, NewMailbox) = Some (Inr (), (na', mb))"
    "FetchOffline cv d' (nb, mb) = Some (Inr [e], (nb', mb'))"
proof -
  obtain raw na' where s: "SendOffline cv (node_Bundle cv nb) e (Inr eph) (Inr k0) (na, NewMailbox) =
      Some (Inr (), (na', snd (mb_Put NewMailbox (recipient nb) raw)))" and c: "carries cv nb raw k0 e"
    by (rule SendOffline_run [OF cv n d e])
  have q: "mb_queue (snd (mb_Put NewMailbox (recipient nb) raw)) (recipient nb) = [raw]"
    using mem_mb.put_queue [of NewMailbox "recipient nb" raw] by (simp add: NewMailbox_def mb_queue_def)
  obtain n' where "fetch_loop cv d' 0 [raw] [] nb = Some (Inr [e], n')"
    using c k same_keys_refl [of nb] unfolding carries_def by (metis append_Nil fetch_loop.simps(1) go_ret_def)
  then have "FetchOffline cv d' (nb, snd (mb_Put NewMailbox (recipient nb) raw)) =
      Some (Inr [e], (n', snd (mb_Fetch (snd (mb_Put NewMailbox (recipient nb) raw)) (recipient nb))))"
    by (simp add: FetchOffline_run q del: fetch_loop.simps)
  with s show ?thesis by (rule that)
qed

lemma connect_kept:
  "kept.law (node_Dial cv io bd d1 d2)" "kept.law (node_Accept cv io)"
proof -
  have g: "kept.law (go_get f)" for f :: "'a world \<Rightarrow> link" by (simp add: kept.law_def go_get_def kept.R_refl)
  have e: "kept.law (go_err x)" for x by (simp add: kept.law_def go_err_def kept.R_refl)
  show "kept.law (node_Dial cv io bd d1 d2)"
    unfolding node_Dial_def case_prod_beta by (intro kept_prims g; simp)
  show "kept.law (node_Accept cv io)"
    unfolding node_Accept_def by (intro kept_prims g e; simp)
qed

text \<open>All stages, from the two nodes to the report.\<close>

lemma pipeline_run:
  assumes cv: "curve_ok cv" and n: "node_ok cv na" "node_ok cv nb"
    and d: "ru_eph env = Inr eph" "length eph = 32" "ru_ratchet env = Inr k0" "length k0 = 32"
    and k: "ru_recv env = (\<lambda>i. Inr (k i))" "fresh_from cv (used_keys cv nb k0) k 0 5"
    and f: "length (ru_file env) = 40 * 1024" "ru_key env = Inr key" "length key = 32"
    and m: "ru_eph' env = Inr eph'" "length eph' = 32" "ru_ratchet' env = Inr k1" "length k1 = 32"
      "ru_fetch env 0 = Inr kf" "length kf = 32" "x25519_base cv kf \<notin> used_keys cv nb k1"
    and times: "\<And>i. time_ok (ru_now env i)" "time_ok (ru_now' env)"
  shows "map_option fst (pipeline cv pk env sn (demo_of na nb Pipe NewMailbox)) =
    Some (Inr \<lparr> rp_alice = account_Fingerprint (nd_account na), rp_bob = account_Fingerprint (nd_account nb), rp_safety = sn,
      rp_text = hello_text, rp_fileName = ''secret.bin'', rp_fileLength = 40 * 1024, rp_integrity = True, rp_offline = Some offline_text \<rparr>)"
proof -
  obtain la lb na1 nb1 p where c: "node_Dial cv (pipe_conn pk EndA) (node_Bundle cv nb) (Inr eph) (Inr k0) \<lparr> w_node = na, w_conn = Pipe \<rparr> =
       Some (Inr la, \<lparr> w_node = na1, w_conn = p \<rparr>)"
    "node_Accept cv (pipe_conn pk EndB) \<lparr> w_node = nb, w_conn = p \<rparr> = Some (Inr lb, \<lparr> w_node = nb1, w_conn = Pipe \<rparr>)"
    "link_live na1 la" "link_live nb1 lb" "ordered cv (peer_net na1 la nb1 lb (used_keys cv nb k0) [] [])" "r_ns (sess na1 la) = 0"
    by (rule Dial_Accept_run [OF cv n d(2,4)])
  have P: "pipe_out EndA Pipe = []" "\<not> pp_done Pipe" by (simp_all add: Pipe_def pipe_out_def)
  have k0: "length (k 0) = 32" "x25519_base cv (k 0) \<notin> used_keys cv nb k0" using fresh_from_now [OF k(2)] by simp_all
  obtain e na2 nb2 p1 p2 where t:
    "link_SendText cv (pipe_conn pk EndA) la (ru_flush env 0) ''conv'' hello_text (ru_ids env 0) (ru_now env 0) \<lparr> w_node = na1, w_conn = Pipe \<rparr> =
       Some (Inr e, \<lparr> w_node = na2, w_conn = p1 \<rparr>)"
    "link_Receive cv (pipe_conn pk EndB) lb (Inr (k 0)) \<lparr> w_node = nb1, w_conn = p1 \<rparr> = Some (Inr e, \<lparr> w_node = nb2, w_conn = p2 \<rparr>)"
    "text_of e = hello_text" "pipe_out EndA p2 = []" "\<not> pp_done p2" "link_live na2 la" "link_live nb2 lb" "r_ns (sess na2 la) = 1"
    "ordered cv (peer_net na2 la nb2 lb (insert (x25519_base cv (k 0)) (used_keys cv nb k0)) [] [])"
    by (rule text_stage [OF cv c(5,3,4,6) P k0 texts_utf8(1) times(1)])
  have fr: "fresh_from cv (insert (x25519_base cv (k 0)) (used_keys cv nb k0)) (\<lambda>j. k (Suc j)) 0 4"
    using fresh_from_shift [of cv _ k 0 4] fresh_from_next [OF k(2)] by simp
  have times': "time_ok (ru_now env (Suc i))" for i by (rule times(1))
  obtain off na3 nb3 p3 p4 where fl:
    "link_SendFile cv (pipe_conn pk EndA) la (\<lambda>i. ru_flush env (Suc i)) ''conv'' ''secret.bin'' ''application/octet-stream'' (ru_file env) (Inr key)
       (ru_fid env) (\<lambda>i. ru_ids env (Suc i)) (\<lambda>i. ru_now env (Suc i)) \<lparr> w_node = na2, w_conn = p2 \<rparr> = Some (Inr off, \<lparr> w_node = na3, w_conn = p3 \<rparr>)"
    "ReceiveFile cv (pipe_conn pk EndB) lb (Inr (k (Suc 0))) (\<lambda>i. Inr (k (Suc (Suc i)))) \<lparr> w_node = nb2, w_conn = p3 \<rparr> =
       Some (Inr (off, ru_file env), \<lparr> w_node = nb3, w_conn = p4 \<rparr>)"
    "o_name off = ''secret.bin''"
    by (rule file_stage [where now = "\<lambda>i. ru_now env (Suc i)", OF cv t(9,6,7,8,4,5) f(3,1) fr times'])
  have sa: "same_keys na na3"
    using kept.lawD [OF connect_kept(1) c(1)] kept.lawD [OF SendText_kept t(1)] kept.lawD [OF SendFile_kept fl(1)]
    by (simp add: world_keys_def) (meson same_keys_trans)
  have sb: "same_keys nb nb3"
    using kept.lawD [OF connect_kept(2) c(2)] kept.lawD [OF Receive_kept t(2)] kept.lawD [OF ReceiveFile_kept fl(2)]
    by (simp add: world_keys_def) (meson same_keys_trans)
  obtain e2 where e2: "NewText ''conv'' offline_text [] (ru_id' env) (ru_now' env) = Inr e2" by (simp add: NewText_def)
  have ok2: "envelope_ok e2" using e2 times(2) by (auto simp: NewText_def TypeText_def utf8_valid_ascii intro!: NewEnvelope_ok)
  have n3: "node_ok cv na3" "node_ok cv nb3" and kf: "x25519_base cv kf \<notin> used_keys cv nb3 k1"
    using node_ok_same [OF n(1) sa] node_ok_same [OF n(2) sb] m(7) by simp_all
  obtain na4 nb4 mb mb' where mm:
    "SendOffline cv (node_Bundle cv nb3) e2 (Inr eph') (Inr k1) (na3, NewMailbox) = Some (Inr (), (na4, mb))"
    "FetchOffline cv (ru_fetch env) (nb3, mb) = Some (Inr [e2], (nb4, mb'))"
    by (rule offline_stage [where d' = "ru_fetch env", OF cv n3 m(2,4) ok2 m(5,6) kf])
  note t2 = text_of_NewText [OF texts_utf8(2) e2]
  show ?thesis
    by (simp add: pipeline_def go_read_def Let_def go_bind_def on_end_run on_mailbox_run c(1,2) t(1,2) fl(1,2) mm d k(1) f m e2 go_ret_def t(3) t2 fl(3))
qed

lemma run_setup_ok:
  assumes cv: "curve_ok cv" and tmp: "ru_tmp env = Inr tmp" and n: "new_node_env (ru_alice env) spa" "new_node_env (ru_bob env) spb"
  obtains a b where "makeNode cv (ru_alice env) tmp ''alice'' = Inr a" "makeNode cv (ru_bob env) tmp ''bob'' = Inr b"
    "run_setup cv env = Inr (a, b, safety_Compute (node_key a) (node_key b))" "node_ok cv a" "node_ok cv b"
    "used_keys cv b = (\<lambda>k0. {x25519_base cv spb, x25519_base cv k0})"
proof -
  obtain a where a: "makeNode cv (ru_alice env) tmp ''alice'' = Inr a" "node_ok cv a" by (rule makeNode_ok [OF cv n(1), of "''alice''" tmp]) simp_all
  obtain b where b: "makeNode cv (ru_bob env) tmp ''bob'' = Inr b" "node_ok cv b" "pk_signedPre (ac_preKeys (nd_account b)) = spb"
    by (rule makeNode_ok [OF cv n(2), of "''bob''" tmp]) simp_all
  have len: "length (node_key x) = 32" if "node_ok cv x" for x
  proof -
    have i: "identity_ok cv (ac_identity (nd_account x))" using that by (simp add: node_ok_def account_ok_def)
    then have "node_key x = drop 32 (signing_priv (ac_identity (nd_account x)))" "length (signing_priv (ac_identity (nd_account x))) = 64"
      by (simp_all add: identity_ok_def)
    then show ?thesis by simp
  qed
  show ?thesis
    by (rule that [OF a(1) b(1) _ a(2) b(2)])
       (use tmp a b len in \<open>simp_all add: run_setup_def core_SafetyNumber_def ContactURI_def ParseURI_URI contact_New_def used_keys_def fun_eq_iff\<close>)
qed

section \<open>A concrete run\<close>

definition toy_node_env :: "byte \<Rightarrow> node_env" where
  "toy_node_env x = \<lparr> ne_account = toy_account_env\<lparr> ae_signing := Inr (replicate 32 x) \<rparr>, ne_storeDir = Inr (), ne_store = NotExist \<rparr>"

definition toy_run_env :: run_env where
  "toy_run_env = \<lparr> ru_tmp = Inr ''tmp'', ru_start = zero_time, ru_alice = toy_node_env 1, ru_bob = toy_node_env 2,
     ru_eph = Inr (replicate 32 5), ru_ratchet = Inr (replicate 32 6), ru_recv = (\<lambda>i. Inr (toy_draws i)),
     ru_file = replicate (40 * 1024) 1, ru_key = Inr (replicate 32 7), ru_fid = [], ru_ids = (\<lambda>_. [1]), ru_now = (\<lambda>_. zero_time),
     ru_flush = (\<lambda>_. toy_env), ru_id' = [2], ru_now' = zero_time, ru_eph' = Inr (replicate 32 8), ru_ratchet' = Inr (replicate 32 9),
     ru_fetch = (\<lambda>_. Inr (replicate 32 10)) \<rparr>"

lemma toy_node_env_new: "new_node_env (toy_node_env x) (replicate 32 3)"
  by (simp add: new_node_env_def toy_node_env_def toy_account_env_def draw32_def)

lemma toy_run_fresh: "fresh_from toy_curve {x25519_base toy_curve (replicate 32 3), x25519_base toy_curve (replicate 32 6)} toy_draws 0 5"
proof -
  have "{0..<5} = {0, 1, 2, 3, 4 :: nat}" by auto
  then show ?thesis by (simp add: fresh_from_def toy_draws_def toy_curve_def)
qed

end
