(* ===== verification/Stunnerd_Live.thy ===== *)
theory Stunnerd_Live
  imports Stunnerd Webrtc
begin

text \<open>
  \<open>src/core/cmd/stunnerd/main.go\<close>, \<open>runLive\<close> and \<open>main\<close>: two nodes find each other in a registry, negotiate a WebRTC
  data channel, run the interactive handshake over it and exchange a text in each direction. Bob's
  \<open>Listen\<close> runs in its own goroutine. It is cut where it waits for Alice (for her offer, for her
  handshake), and Alice's \<open>Connect\<close> where she waits for him; between the cuts each of them works without
  the other. \<open>early\<close> says whether his goroutine gets to advertise before Alice looks him up. Closing the
  links and removing the directory at the end have no influence on the result.
\<close>

section \<open>The program\<close>

record live_env =
  le_tmp :: "string result"
  le_alice :: node_env
  le_bob :: node_env
  le_pion :: "pipe_end \<Rightarrow> pion_env"
  le_dcSend :: "unit result"
  le_pcClose :: "unit result"
  le_eph :: draw
  le_ratchet :: draw
  le_recv :: "pipe_end \<Rightarrow> draw"
  le_ids :: "pipe_end \<Rightarrow> bytes"
  le_now :: "pipe_end \<Rightarrow> gotime"
  le_flush :: "pipe_end \<Rightarrow> flush_env"

record live =
  lv_node :: "pipe_end \<Rightarrow> node"
  lv_sig :: fabric
  lv_pc :: "pipe_end \<Rightarrow> bool"
  lv_chan :: data_channel

record live_report =
  lr_alice :: string
  lr_bob :: string
  lr_toBob :: string
  lr_toAlice :: string

definition thumbsUp :: string where "thumbsUp = [CHR 0xF0, CHR 0x9F, CHR 0x91, CHR 0x8D]"

definition live_hello :: string where "live_hello = ''hello bob over webrtc '' @ party @ padlock"
definition live_reply :: string where "live_reply = ''got it, fully P2P '' @ thumbsUp"

definition live_salt :: bytes where "live_salt = to_bytes ''stunnerd-live''"

definition bobDiscoveryKey :: "node \<Rightarrow> bytes \<Rightarrow> bytes" where
  "bobDiscoveryKey n salt = DiscoveryKey (signing_pub (ac_identity (nd_account n))) salt"

definition on_signaler :: "(fabric, 'a) go \<Rightarrow> (live, 'a) go" where
  "on_signaler = go_on lv_sig (\<lambda>f s. s\<lparr> lv_sig := f \<rparr>)"

definition on_negotiation :: "pipe_end \<Rightarrow> (fabric negotiation, 'a) go \<Rightarrow> (live, 'a) go" where
  "on_negotiation e = go_on (\<lambda>s. \<lparr> ng_sig = lv_sig s, ng_open = lv_pc s e \<rparr>)
     (\<lambda>n s. s\<lparr> lv_sig := ng_sig n, lv_pc := (lv_pc s)(e := ng_open n) \<rparr>)"

definition on_channel :: "pipe_end \<Rightarrow> (data_channel world, 'a) go \<Rightarrow> (live, 'a) go" where
  "on_channel e = go_on (\<lambda>s. \<lparr> w_node = lv_node s e, w_conn = lv_chan s \<rparr>)
     (\<lambda>w s. s\<lparr> lv_node := (lv_node s)(e := w_node w), lv_chan := w_conn w \<rparr>)"

text \<open>A negotiated connection becomes the channel's end.\<close>

definition adopt_conn :: "pipe_end \<Rightarrow> pionConn \<Rightarrow> (live, unit) go" where
  "adopt_conn e c = go_put (\<lambda>s. s\<lparr> lv_chan := dn_put e c (lv_chan s) \<rparr>)"

text \<open>\<open>if err != nil \{ conn.Close(); return nil, err \}\<close> after a handshake.\<close>

definition or_hang_up :: "data_channel conn \<Rightarrow> pipe_end \<Rightarrow> (live, 'a) go \<Rightarrow> (live, 'a) go" where
  "or_hang_up io e m = go_catch m (\<lambda>err. go_seq (go_ignore (on_channel e (on_conn (conn_Close io)))) (go_err err))"

text \<open>Another goroutine: it may still wait (\<open>None\<close>), have failed, or have come to a value from which it goes on.\<close>

definition go_spawn :: "('s, 'a) go \<Rightarrow> ('s, 'a result option) go" where
  "go_spawn m s = (case m s of None \<Rightarrow> Some (Inr None, s) | Some (r, t) \<Rightarrow> Some (Inr (Some r), t))"

definition go_resume :: "'a result option \<Rightarrow> ('a \<Rightarrow> ('s, 'b) go) \<Rightarrow> ('s, 'b result option) go" where
  "go_resume p f = (case p of None \<Rightarrow> go_ret None | Some (Inl e) \<Rightarrow> go_ret (Some (Inl e)) | Some (Inr x) \<Rightarrow> go_spawn (f x))"

definition go_wrap :: "string \<Rightarrow> ('s, 'a) go \<Rightarrow> ('s, 'a) go" where
  "go_wrap prefix m = go_catch m (\<lambda>e. go_err (prefix @ e))"

subsection \<open>Alice's \<open>Connect\<close>\<close>

definition connect_offer :: "live_env \<Rightarrow> fabric signaler \<Rightarrow> bytes \<Rightarrow> (live, string) go" where
  "connect_offer env sig key =
     go_bind (on_signaler (sg_Find sig key)) (\<lambda>peer.
     go_bind (on_negotiation EndA (dial_offer sig (le_pion env EndA) (pi_peerID peer))) (\<lambda>_.
     go_ret (pi_peerID peer)))"

definition connect_finish :: "live_env \<Rightarrow> fabric signaler \<Rightarrow> string \<Rightarrow> (live, unit) go" where
  "connect_finish env sig peerID =
     go_bind (on_negotiation EndA (dial_finish sig (le_pion env EndA) peerID)) (adopt_conn EndA)"

definition connect_handshake :: "curve \<Rightarrow> live_env \<Rightarrow> bytes \<Rightarrow> (live, link) go" where
  "connect_handshake cv env peerIdentity =
     (let io = data_conn (le_dcSend env) (le_pcClose env) EndA in
      or_hang_up io EndA (on_channel EndA (handshakeInitiator cv io peerIdentity (le_eph env) (le_ratchet env))))"

subsection \<open>Bob's \<open>Listen\<close>\<close>

definition listen_advertise :: "fabric signaler \<Rightarrow> bytes \<Rightarrow> (live, unit) go" where
  "listen_advertise sig key = on_signaler (sg_Advertise sig key)"

definition listen_accept :: "live_env \<Rightarrow> fabric signaler \<Rightarrow> (live, unit) go" where
  "listen_accept env sig = go_bind (on_negotiation EndB (pion_Accept sig (le_pion env EndB))) (adopt_conn EndB)"

definition listen_hello :: "curve \<Rightarrow> live_env \<Rightarrow> (live, unit) go" where
  "listen_hello cv env =
     (let io = data_conn (le_dcSend env) (le_pcClose env) EndB in or_hang_up io EndB (on_channel EndB (responder_hello cv io)))"

definition listen_finish :: "curve \<Rightarrow> live_env \<Rightarrow> (live, link) go" where
  "listen_finish cv env =
     (let io = data_conn (le_dcSend env) (le_pcClose env) EndB in or_hang_up io EndB (on_channel EndB (responder_finish cv io)))"

subsection \<open>Both\<close>

definition live_links :: "curve \<Rightarrow> bool \<Rightarrow> live_env \<Rightarrow> node \<Rightarrow> node \<Rightarrow> (live, link \<times> link) go" where
  "live_links cv early env a b =
     (let sigA = mem_signaler (account_Fingerprint (nd_account a));
          sigB = mem_signaler (account_Fingerprint (nd_account b));
          key = bobDiscoveryKey b live_salt;
          advertise = go_spawn (listen_advertise sigB key) in
      go_bind (on_signaler (sg_Advertise sigB key)) (\<lambda>_.
      go_bind (if early then advertise else go_ret None) (\<lambda>b0.
      go_bind (go_wrap ''alice connect: '' (connect_offer env sigA (DiscoveryKey (signing_pub (ac_identity (nd_account b))) live_salt))) (\<lambda>peerID.
      go_bind (if early then go_ret b0 else advertise) (\<lambda>b1.
      go_bind (go_resume b1 (\<lambda>_. listen_accept env sigB)) (\<lambda>b2.
      go_bind (go_wrap ''alice connect: '' (connect_finish env sigA peerID)) (\<lambda>_.
      go_bind (go_resume b2 (\<lambda>_. listen_hello cv env)) (\<lambda>b3.
      go_bind (go_wrap ''alice connect: '' (connect_handshake cv env (signing_pub (ac_identity (nd_account b))))) (\<lambda>linkA.
      go_bind (go_resume b3 (\<lambda>_. listen_finish cv env)) (\<lambda>rb.
      (case rb of
         None \<Rightarrow> go_err ''bob listen timed out''
       | Some (Inl e) \<Rightarrow> go_err (''bob listen: '' @ e)
       | Some (Inr linkB) \<Rightarrow> go_ret (linkA, linkB))))))))))))"

definition live_texts :: "curve \<Rightarrow> live_env \<Rightarrow> node \<Rightarrow> node \<Rightarrow> link \<times> link \<Rightarrow> (live, live_report) go" where
  "live_texts cv env a b = (\<lambda>(linkA, linkB).
     (let io = data_conn (le_dcSend env) (le_pcClose env);
          send = (\<lambda>e l text. on_channel e (link_SendText cv (io e) l (le_flush env e) ''conv'' text (le_ids env e) (le_now env e)));
          receive = (\<lambda>e l. on_channel e (link_Receive cv (io e) l (le_recv env e))) in
      go_bind (send EndA linkA live_hello) (\<lambda>_.
      go_bind (receive EndB linkB) (\<lambda>env1.
      go_bind (send EndB linkB live_reply) (\<lambda>_.
      go_bind (receive EndA linkA) (\<lambda>env2.
      go_ret \<lparr> lr_alice = account_Fingerprint (nd_account a), lr_bob = account_Fingerprint (nd_account b),
        lr_toBob = text_of env1, lr_toAlice = text_of env2 \<rparr>))))))"

definition live_start :: "node \<Rightarrow> node \<Rightarrow> live" where
  "live_start a b =
     \<lparr> lv_node = (\<lambda>e. case e of EndA \<Rightarrow> a | EndB \<Rightarrow> b),
       lv_sig = reg_Join (account_Fingerprint (nd_account b)) (reg_Join (account_Fingerprint (nd_account a))
         \<lparr> fb_reg = NewRegistry, fb_last = (\<lambda>_. []) \<rparr>),
       lv_pc = (\<lambda>_. False),
       lv_chan = \<lparr> dn_conn = (\<lambda>_. newPionConn), dn_flight = (\<lambda>_. []) \<rparr> \<rparr>"

definition runLive :: "curve \<Rightarrow> bool \<Rightarrow> live_env \<Rightarrow> live_report result option" where
  "runLive cv early env =
     (case rbind (le_tmp env) (\<lambda>tmp.
           rbind (makeNode cv (le_alice env) tmp ''alice'') (\<lambda>a.
           rbind (makeNode cv (le_bob env) tmp ''bob'') (\<lambda>b.
           rbind (pion_New []) (\<lambda>_. rbind (pion_New []) (\<lambda>_. Inr (a, b)))))) of
        Inl e \<Rightarrow> Some (Inl e)
      | Inr (a, b) \<Rightarrow>
          map_option fst (go_bind (live_links cv early env a b) (live_texts cv env a b) (live_start a b)))"

text \<open>\<open>main\<close>: the exit status and the error printed, if the chosen run comes to an end.\<close>

definition stunnerd_main :: "curve \<Rightarrow> bool \<Rightarrow> bool \<Rightarrow> bool \<Rightarrow> run_env \<Rightarrow> live_env \<Rightarrow> (nat \<times> string) option" where
  "stunnerd_main cv pk early live renv lenv =
     map_option (\<lambda>r. case r of Inl e \<Rightarrow> (1, ''error: '' @ e) | Inr _ \<Rightarrow> (0, []))
       (if live then map_option (map_sum id (\<lambda>_. ())) (runLive cv early lenv) else map_option (map_sum id (\<lambda>_. ())) (run cv pk renv))"


section \<open>Running it\<close>

definition live_of :: "node \<Rightarrow> node \<Rightarrow> fabric \<Rightarrow> bool \<Rightarrow> bool \<Rightarrow> data_channel \<Rightarrow> live" where
  "live_of a b f pa pb d = \<lparr> lv_node = (\<lambda>e. case e of EndA \<Rightarrow> a | EndB \<Rightarrow> b), lv_sig = f,
     lv_pc = (\<lambda>e. case e of EndA \<Rightarrow> pa | EndB \<Rightarrow> pb), lv_chan = d \<rparr>"

lemma on_signaler_run:
  "on_signaler m (live_of a b f pa pb d) = (case m f of None \<Rightarrow> None | Some (r, f') \<Rightarrow> Some (r, live_of a b f' pa pb d))"
  by (simp add: on_signaler_def go_on_def live_of_def split: option.split)

lemma on_negotiation_run:
  "on_negotiation EndA m (live_of a b f pa pb d) =
     (case m \<lparr> ng_sig = f, ng_open = pa \<rparr> of None \<Rightarrow> None | Some (r, n) \<Rightarrow> Some (r, live_of a b (ng_sig n) (ng_open n) pb d))"
  "on_negotiation EndB m (live_of a b f pa pb d) =
     (case m \<lparr> ng_sig = f, ng_open = pb \<rparr> of None \<Rightarrow> None | Some (r, n) \<Rightarrow> Some (r, live_of a b (ng_sig n) pa (ng_open n) d))"
  by (simp_all add: on_negotiation_def go_on_def live_of_def ends_upd split: option.split)

lemma on_channel_run:
  "on_channel EndA m (live_of a b f pa pb d) =
     (case m \<lparr> w_node = a, w_conn = d \<rparr> of None \<Rightarrow> None | Some (r, w) \<Rightarrow> Some (r, live_of (w_node w) b f pa pb (w_conn w)))"
  "on_channel EndB m (live_of a b f pa pb d) =
     (case m \<lparr> w_node = b, w_conn = d \<rparr> of None \<Rightarrow> None | Some (r, w) \<Rightarrow> Some (r, live_of a (w_node w) f pa pb (w_conn w)))"
  by (simp_all add: on_channel_def go_on_def live_of_def ends_upd split: option.split)

lemma adopt_conn_run: "adopt_conn e c (live_of a b f pa pb d) = Some (Inr (), live_of a b f pa pb (dn_put e c d))"
  by (simp add: adopt_conn_def go_put_def live_of_def)

lemmas live_run = on_signaler_run on_negotiation_run on_channel_run adopt_conn_run go_spawn_def go_resume_def go_wrap_def
  or_hang_up_def go_catch_def go_bind_def go_ret_def connect_offer_def connect_finish_def connect_handshake_def
  listen_advertise_def listen_accept_def listen_hello_def listen_finish_def

text \<open>The registry: advertising touches neither offers nor answers, and a lookup finds who advertised.\<close>

definition advertised_as :: "string \<Rightarrow> bytes \<Rightarrow> fabric \<Rightarrow> fabric" where
  "advertised_as me key f = f\<lparr> fb_reg := (fb_reg f)\<lparr> rg_advert := gm_put (hex_encode key) me (rg_advert (fb_reg f)) \<rparr> \<rparr>"

lemma advertised_run:
  "mem_Advertise me key f = Some (Inr (), advertised_as me key f)"
  "mem_Find key (advertised_as me key f) = Some (Inr \<lparr> pi_peerID = me, pi_addresses = [''inproc://'' @ me] \<rparr>, advertised_as me key f)"
  "mem_offers (advertised_as me key f) = mem_offers f" "mem_answers (advertised_as me key f) = mem_answers f"
  by (auto simp: mem_Advertise_def mem_Find_def advertised_as_def mem_defs fun_eq_iff split: option.splits)

lemma joined_idle:
  "mem_offers (lv_sig (live_start a b)) p = []" "mem_answers (lv_sig (live_start a b)) p q = []"
  by (auto simp: live_start_def reg_Join_def NewRegistry_def mem_defs Let_def)

text \<open>The negotiation of the two nodes, in either order of the goroutines.\<close>

lemma live_negotiation:
  assumes agree: "pion_agree ea eb" and p: "pa \<noteq> []" "pb \<noteq> []"
  obtains f1 f2 f3 where
    "dial_offer (mem_signaler pa) ea pb \<lparr> ng_sig = (if early then advertised_as pb key (advertised_as pb key (lv_sig (live_start a b)))
        else advertised_as pb key (lv_sig (live_start a b))), ng_open = False \<rparr> = Some (Inr (), \<lparr> ng_sig = f1, ng_open = True \<rparr>)"
    "pion_Accept (mem_signaler pb) eb \<lparr> ng_sig = (if early then f1 else advertised_as pb key f1), ng_open = False \<rparr> =
       Some (Inr (pe_conn eb), \<lparr> ng_sig = f2, ng_open = True \<rparr>)"
    "dial_finish (mem_signaler pa) ea pb \<lparr> ng_sig = f2, ng_open = True \<rparr> = Some (Inr (pe_conn ea), \<lparr> ng_sig = f3, ng_open = True \<rparr>)"
proof -
  let ?f = "if early then advertised_as pb key (advertised_as pb key (lv_sig (live_start a b))) else advertised_as pb key (lv_sig (live_start a b))"
  have idle: "mem_offers ?f pb = []" "mem_answers ?f pa pb = []" by (simp_all add: advertised_run joined_idle)
  have sg: "sg_SendSDP (mem_signaler m) = mem_SendSDP m" "sg_RecvSDP (mem_signaler m) = mem_RecvSDP m" for m
    by (simp_all add: mem_signaler_def)
  obtain f1 where f1: "dial_offer (mem_signaler pa) ea pb \<lparr> ng_sig = ?f, ng_open = False \<rparr> = Some (Inr (), \<lparr> ng_sig = f1, ng_open = True \<rparr>)"
    "mem_offers f1 = (mem_offers ?f)(pb := [(pa, pe_local ea)])" "mem_answers f1 = mem_answers ?f"
    by (rule mem_sdp.offer_part [OF sg(1) [of pa] agree TrueI p(2) TrueI idle(1)])
  let ?g = "if early then f1 else advertised_as pb key f1"
  have g: "mem_offers ?g pb = [(pa, pe_local ea)]" "mem_answers ?g pa pb = []" using f1(2,3) by (simp_all add: advertised_run joined_idle)
  obtain f2 where f2: "pion_Accept (mem_signaler pb) eb \<lparr> ng_sig = ?g, ng_open = False \<rparr> = Some (Inr (pe_conn eb), \<lparr> ng_sig = f2, ng_open = True \<rparr>)"
    "mem_answers f2 = (mem_answers ?g)(pa := (mem_answers ?g pa)(pb := [pe_local eb]))"
    by (rule mem_sdp.accept_part [OF sg [of pb] agree TrueI p(1) TrueI g])
  have "mem_answers f2 pa pb = [pe_local eb]" by (simp add: f2(2))
  from mem_sdp.finish_part [OF sg(2) [of pa] agree TrueI p(2) this] obtain f3 where
    "dial_finish (mem_signaler pa) ea pb \<lparr> ng_sig = f2, ng_open = True \<rparr> = Some (Inr (pe_conn ea), \<lparr> ng_sig = f3, ng_open = True \<rparr>)" by blast
  with f1(1) f2(1) show ?thesis by (rule that)
qed

text \<open>What the run needs of its environment.\<close>

definition fresh_conn :: "pionConn \<Rightarrow> bool" where
  "fresh_conn c \<longleftrightarrow> pc_in c = [] \<and> \<not> pc_done c"

lemma fresh_channel:
  assumes "fresh_conn ca" "fresh_conn cb"
  shows "dn_up (dn_put EndA ca (dn_put EndB cb (lv_chan (live_start a b))))"
    "dn_queue (dn_put EndA ca (dn_put EndB cb (lv_chan (live_start a b)))) = (\<lambda>_. [])"
  using assms by (auto simp: dn_up_def dn_queue_def dn_put_def live_start_def fresh_conn_def newPionConn_def fun_eq_iff split: pipe_end.split)

lemma live_links_run:
  assumes cv: "curve_ok cv" and n: "node_ok cv a" "node_ok cv b"
    and agree: "pion_agree (le_pion env EndA) (le_pion env EndB)"
    and conns: "fresh_conn (pe_conn (le_pion env EndA))" "fresh_conn (pe_conn (le_pion env EndB))"
    and d: "le_dcSend env = Inr ()" "le_eph env = Inr eph" "length eph = 32" "le_ratchet env = Inr k0" "length k0 = 32"
  obtains la lb a' b' f c where
    "live_links cv early env a b (live_start a b) = Some (Inr (la, lb), live_of a' b' f True True c)"
    "dn_up c" "dn_queue c = (\<lambda>_. [])" "link_live a' la" "link_live b' lb"
    "ordered cv (peer_net a' la b' lb (used_keys cv b k0) [] [])" "r_ns (sess a' la) = 0" "r_ns (sess b' lb) = 0"
proof -
  let ?pa = "account_Fingerprint (nd_account a)" and ?pb = "account_Fingerprint (nd_account b)"
  let ?key = "DiscoveryKey (node_key b) live_salt" and ?f = "lv_sig (live_start a b)"
  have p: "?pa \<noteq> []" "?pb \<noteq> []" using length_Fingerprint by (auto simp: account_Fingerprint_def dest: arg_cong [where f = length])
  obtain f1 f2 f3 where ng:
    "dial_offer (mem_signaler ?pa) (le_pion env EndA) ?pb \<lparr> ng_sig = (if early then advertised_as ?pb ?key (advertised_as ?pb ?key ?f)
        else advertised_as ?pb ?key ?f), ng_open = False \<rparr> = Some (Inr (), \<lparr> ng_sig = f1, ng_open = True \<rparr>)"
    "pion_Accept (mem_signaler ?pb) (le_pion env EndB) \<lparr> ng_sig = (if early then f1 else advertised_as ?pb ?key f1), ng_open = False \<rparr> =
       Some (Inr (pe_conn (le_pion env EndB)), \<lparr> ng_sig = f2, ng_open = True \<rparr>)"
    "dial_finish (mem_signaler ?pa) (le_pion env EndA) ?pb \<lparr> ng_sig = f2, ng_open = True \<rparr> =
       Some (Inr (pe_conn (le_pion env EndA)), \<lparr> ng_sig = f3, ng_open = True \<rparr>)"
    by (rule live_negotiation [OF agree p])
  let ?c = "dn_put EndA (pe_conn (le_pion env EndA)) (dn_put EndB (pe_conn (le_pion env EndB)) (lv_chan (live_start a b)))"
  let ?io = "data_conn (Inr ()) (le_pcClose env)"
  obtain la lb a' b' c1 c2 c3 where hs:
    "responder_hello cv (?io EndB) \<lparr> w_node = b, w_conn = ?c \<rparr> = Some (Inr (), \<lparr> w_node = b, w_conn = c1 \<rparr>)"
    "handshakeInitiator cv (?io EndA) (node_key b) (Inr eph) (Inr k0) \<lparr> w_node = a, w_conn = c1 \<rparr> = Some (Inr la, \<lparr> w_node = a', w_conn = c2 \<rparr>)"
    "responder_finish cv (?io EndB) \<lparr> w_node = b, w_conn = c2 \<rparr> = Some (Inr lb, \<lparr> w_node = b', w_conn = c3 \<rparr>)"
    "dn_up c3" "dn_queue c3 = dn_queue ?c" "link_live a' la" "link_live b' lb"
    "ordered cv (peer_net a' la b' lb (used_keys cv b k0) [] [])" "r_ns (sess a' la) = 0" "r_ns (sess b' lb) = 0"
    by (rule data_duplex.handshake_run [OF cv n fresh_channel [OF conns] d(3,5)])
  have start: "live_start a b = live_of a b ?f False False (lv_chan (live_start a b))"
    by (auto simp: live_start_def live_of_def fun_eq_iff split: pipe_end.split)
  have "live_links cv early env a b (live_of a b ?f False False (lv_chan (live_start a b))) = Some (Inr (la, lb), live_of a' b' f3 True True c3)"
    using ng hs(1-3) d
    by (cases early) (simp_all add: live_links_def bobDiscoveryKey_def live_run mem_signaler_def advertised_run Let_def)
  then have "live_links cv early env a b (live_start a b) = Some (Inr (la, lb), live_of a' b' f3 True True c3)"
    unfolding start [symmetric] .
  moreover have "dn_queue c3 = (\<lambda>_. [])" using hs(5) fresh_channel(2) [OF conns] by simp
  ultimately show ?thesis by (rule that [OF _ hs(4) _ hs(6-10)])
qed

lemma live_utf8: "utf8_valid live_hello" "utf8_valid live_reply"
  by (simp_all add: live_hello_def live_reply_def party_def padlock_def thumbsUp_def utf8_tail_def is_cont_def)

lemma live_texts_run:
  assumes cv: "curve_ok cv" and o: "ordered cv (peer_net a la b lb used [] [])" and l: "link_live a la" "link_live b lb"
    and ns: "r_ns (sess a la) = 0" "r_ns (sess b lb) = 0" and c: "dn_up c" "dn_queue c = (\<lambda>_. [])"
    and d: "le_dcSend env = Inr ()" "le_recv env EndB = Inr kb" "le_recv env EndA = Inr ka"
    and k: "length kb = 32" "x25519_base cv kb \<notin> used" "length ka = 32" "x25519_base cv ka \<notin> insert (x25519_base cv kb) used"
    and t: "time_ok (le_now env EndA)" "time_ok (le_now env EndB)"
  shows "\<exists>s. live_texts cv env a0 b0 (la, lb) (live_of a b f pa pb c) =
    Some (Inr \<lparr> lr_alice = account_Fingerprint (nd_account a0), lr_bob = account_Fingerprint (nd_account b0),
      lr_toBob = live_hello, lr_toAlice = live_reply \<rparr>, s)"
proof -
  let ?io = "data_conn (Inr ()) (le_pcClose env)"
  have u: "utf8_valid ''conv''" by (simp add: utf8_valid_ascii)
  have b1: "unat (r_ns (sess a la)) + 1001 < 2 ^ 32" by (simp add: ns)
  have q: "dn_queue c e = []" for e by (simp add: c(2))
  obtain e1 a1 b1 c1 c2 where s1:
    "link_SendText cv (?io EndA) la (le_flush env EndA) ''conv'' live_hello (le_ids env EndA) (le_now env EndA) \<lparr> w_node = a, w_conn = c \<rparr> =
       Some (Inr e1, \<lparr> w_node = a1, w_conn = c1 \<rparr>)"
    "link_Receive cv (?io (other_end EndA)) lb (Inr kb) \<lparr> w_node = b, w_conn = c1 \<rparr> = Some (Inr e1, \<lparr> w_node = b1, w_conn = c2 \<rparr>)"
    "text_of e1 = live_hello" "dn_up c2" "dn_queue c2 = dn_queue c" "link_live a1 la" "link_live b1 lb" "r_ns (sess b1 lb) \<in> {r_ns (sess b lb), 0}"
    "ordered cv (peer_net a1 la b1 lb (insert (x25519_base cv kb) used) [] [])"
    by (rule data_duplex.text_run [OF cv o l b1 c(1) q k(1,2) u live_utf8(1) t(1)])
  have b2: "unat (r_ns (sess b1 lb)) + 1001 < 2 ^ 32" using s1(8) ns(2) by simp
  have q2: "dn_queue c2 e = []" for e using s1(5) c(2) by simp
  obtain e2 b2 a2 c3 c4 where s2:
    "link_SendText cv (?io EndB) lb (le_flush env EndB) ''conv'' live_reply (le_ids env EndB) (le_now env EndB) \<lparr> w_node = b1, w_conn = c2 \<rparr> =
       Some (Inr e2, \<lparr> w_node = b2, w_conn = c3 \<rparr>)"
    "link_Receive cv (?io (other_end EndB)) la (Inr ka) \<lparr> w_node = a1, w_conn = c3 \<rparr> = Some (Inr e2, \<lparr> w_node = a2, w_conn = c4 \<rparr>)"
    "text_of e2 = live_reply"
    by (rule data_duplex.text_run [OF cv s1(9) [unfolded ordered_swap [of cv a1]] s1(7,6) b2 s1(4) q2 k(3,4) u live_utf8(2) t(2)])
  show ?thesis
    using s1(1-3) s2 d by (simp add: live_texts_def Let_def go_bind_def on_channel_run go_ret_def)
qed

section \<open>Properties\<close>

text \<open>C6. The live path works from end to end: when the accounts can be created, the WebRTC library agrees on both
  sides and the random source gives fresh keys, \<open>runLive\<close> finishes without an error, whichever goroutine
  comes first: Alice finds Bob in the registry, both negotiate the data channel, the handshake over it
  pins Bob's identity, and each side prints exactly the text the other one sent.\<close>

theorem live_completes:
  assumes cv: "curve_ok cv" and tmp: "le_tmp env = Inr tmp"
    and n: "new_node_env (le_alice env) spa" "new_node_env (le_bob env) spb"
    and agree: "pion_agree (le_pion env EndA) (le_pion env EndB)"
    and conns: "fresh_conn (pe_conn (le_pion env EndA))" "fresh_conn (pe_conn (le_pion env EndB))" "le_dcSend env = Inr ()"
    and d: "le_eph env = Inr eph" "length eph = 32" "le_ratchet env = Inr k0" "length k0 = 32"
    and k: "le_recv env EndB = Inr kb" "length kb = 32" "x25519_base cv kb \<notin> {x25519_base cv spb, x25519_base cv k0}"
      "le_recv env EndA = Inr ka" "length ka = 32" "x25519_base cv ka \<notin> {x25519_base cv kb, x25519_base cv spb, x25519_base cv k0}"
    and t: "time_ok (le_now env EndA)" "time_ok (le_now env EndB)"
  shows "\<exists>a b. makeNode cv (le_alice env) tmp ''alice'' = Inr a \<and> makeNode cv (le_bob env) tmp ''bob'' = Inr b \<and>
    runLive cv early env = Some (Inr \<lparr> lr_alice = account_Fingerprint (nd_account a), lr_bob = account_Fingerprint (nd_account b),
      lr_toBob = live_hello, lr_toAlice = live_reply \<rparr>) \<and>
    stunnerd_main cv pk early True renv env = Some (0, [])"
proof -
  obtain a where a: "makeNode cv (le_alice env) tmp ''alice'' = Inr a" "node_ok cv a" by (rule makeNode_ok [OF cv n(1), of "''alice''" tmp]) simp_all
  obtain b where b: "makeNode cv (le_bob env) tmp ''bob'' = Inr b" "node_ok cv b" "pk_signedPre (ac_preKeys (nd_account b)) = spb"
    by (rule makeNode_ok [OF cv n(2), of "''bob''" tmp]) simp_all
  obtain la lb a' b' f c where l:
    "live_links cv early env a b (live_start a b) = Some (Inr (la, lb), live_of a' b' f True True c)"
    "dn_up c" "dn_queue c = (\<lambda>_. [])" "link_live a' la" "link_live b' lb"
    "ordered cv (peer_net a' la b' lb (used_keys cv b k0) [] [])" "r_ns (sess a' la) = 0" "r_ns (sess b' lb) = 0"
    by (rule live_links_run [OF cv a(2) b(2) agree conns d])
  have fresh: "x25519_base cv kb \<notin> used_keys cv b k0" "x25519_base cv ka \<notin> insert (x25519_base cv kb) (used_keys cv b k0)"
    using k(3,6) b(3) by (simp_all add: used_keys_def)
  obtain s where s: "live_texts cv env a b (la, lb) (live_of a' b' f True True c) =
    Some (Inr \<lparr> lr_alice = account_Fingerprint (nd_account a), lr_bob = account_Fingerprint (nd_account b),
      lr_toBob = live_hello, lr_toAlice = live_reply \<rparr>, s)"
    using live_texts_run [OF cv l(6,4,5,7,8,2,3) conns(3) k(1,4,2) fresh(1) k(5) fresh(2) t] by blast
  have "runLive cv early env = Some (Inr \<lparr> lr_alice = account_Fingerprint (nd_account a), lr_bob = account_Fingerprint (nd_account b),
      lr_toBob = live_hello, lr_toAlice = live_reply \<rparr>)"
    using tmp a(1) b(1) l(1) s by (simp add: runLive_def pion_New_def go_bind_def)
  then show ?thesis using a(1) b(1) by (simp add: stunnerd_main_def)
qed

definition toy_live_env :: live_env where
  "toy_live_env = \<lparr> le_tmp = Inr ''tmp'', le_alice = toy_node_env 1, le_bob = toy_node_env 2,
     le_pion = (\<lambda>e. toy_pion\<lparr> pe_setRemote := (\<lambda>_. Inr ()) \<rparr>), le_dcSend = Inr (), le_pcClose = Inr (),
     le_eph = Inr (replicate 32 5), le_ratchet = Inr (replicate 32 6),
     le_recv = (\<lambda>e. Inr (toy_draws (case e of EndA \<Rightarrow> 0 | EndB \<Rightarrow> 1))), le_ids = (\<lambda>_. [1]), le_now = (\<lambda>_. zero_time),
     le_flush = (\<lambda>_. toy_env) \<rparr>"

theorem live_completes_witness:
  "\<exists>a b. makeNode toy_curve (le_alice toy_live_env) ''tmp'' ''alice'' = Inr a \<and> makeNode toy_curve (le_bob toy_live_env) ''tmp'' ''bob'' = Inr b \<and>
    runLive toy_curve True toy_live_env = Some (Inr \<lparr> lr_alice = account_Fingerprint (nd_account a), lr_bob = account_Fingerprint (nd_account b),
      lr_toBob = live_hello, lr_toAlice = live_reply \<rparr>) \<and>
    stunnerd_main toy_curve True True True toy_run_env toy_live_env = Some (0, [])"
proof (rule live_completes [OF toy_curve_ok])
  show "le_tmp toy_live_env = Inr ''tmp''" "le_dcSend toy_live_env = Inr ()" by (simp_all add: toy_live_env_def)
  show "new_node_env (le_alice toy_live_env) (replicate 32 3)" "new_node_env (le_bob toy_live_env) (replicate 32 3)"
    by (simp_all add: toy_live_env_def toy_node_env_new)
  show "pion_agree (le_pion toy_live_env EndA) (le_pion toy_live_env EndB)"
    "fresh_conn (pe_conn (le_pion toy_live_env EndA))" "fresh_conn (pe_conn (le_pion toy_live_env EndB))"
    by (simp_all add: toy_live_env_def pion_agree_def toy_pion_def newPionConn_def fresh_conn_def)
  show "le_eph toy_live_env = Inr (replicate 32 5)" "length (replicate 32 (5::byte)) = 32"
    "le_ratchet toy_live_env = Inr (replicate 32 6)" "length (replicate 32 (6::byte)) = 32"
    "le_recv toy_live_env EndB = Inr (toy_draws 1)" "le_recv toy_live_env EndA = Inr (toy_draws 0)"
    by (simp_all add: toy_live_env_def)
  show "length (toy_draws 1) = 32" "length (toy_draws 0) = 32"
    "x25519_base toy_curve (toy_draws 1) \<notin> {x25519_base toy_curve (replicate 32 3), x25519_base toy_curve (replicate 32 6)}"
    "x25519_base toy_curve (toy_draws 0) \<notin> {x25519_base toy_curve (toy_draws 1), x25519_base toy_curve (replicate 32 3), x25519_base toy_curve (replicate 32 6)}"
    by (simp_all add: toy_draws_def toy_curve_def)
  show "time_ok (le_now toy_live_env EndA)" "time_ok (le_now toy_live_env EndB)" by (simp_all add: toy_live_env_def)
qed

end
