(* ===== verification/Spec2Isabelle.thy ===== *)
theory Spec2Isabelle
  imports Vault Dht_Net Node_Offline Conversation Store_Refinement Engine_Conversation Engine_Files Emoji Bindings Libsignal Stunnerd_Live
begin

text \<open>
  Stunner is a peer-to-peer messenger. Its core, the Go code under \<open>src/core\<close>, is verified here; the Flutter
  app that drives it is not.

  \<^bold>\<open>The program.\<close> An account holds an identity (an Ed25519 and an X25519 key pair) and prekeys. Two accounts
  agree on a secret by X3DH and talk over a Double Ratchet session. A node ties an account, its sessions and an
  encrypted store to connections: WebRTC data channels negotiated over a signaler (the libp2p DHT, or an
  in-process registry), an in-process pipe, or a mailbox for peers that are offline. The runtime is the
  long-lived engine around a node: a listener, a send worker, a reader per link and a re-advertiser work on
  one shared state, the app enqueues requests and polls events through one of two bindings.

  \<^bold>\<open>Library.\<close> \<open>Prelude\<close> has the types, the result type of fallible code and the shared rules. \<open>Sha2\<close> and \<open>Aes_Gcm\<close>
  are executable SHA-256, SHA-512, HMAC and AES-256-GCM; \<open>Encoding\<close> has hexadecimal, base32, base64, decimal and
  UTF-8; \<open>Json\<close> and \<open>Json_Struct\<close> are \<open>encoding/json\<close> with its round trip; \<open>Go_Time\<close>, \<open>Go_Map\<close>, \<open>Go_Path\<close> and \<open>Go_Io\<close>
  model the parts of the Go library the code uses. \<open>Go_Io.go\<close> is the type of stateful code: from a state to a
  result and the next state, or \<open>None\<close> when the code waits for ever or panics. \<open>Curve\<close> has the two curves as a
  record of functions with the named assumption \<open>curve_ok\<close> (key lengths, agreement of the two sides of
  Diffie-Hellman, verification of own signatures), and an instance that satisfies it.

  \<^bold>\<open>Cryptography\<close> (\<open>src/core/pkg/identity\<close>, \<open>src/core/pkg/crypto\<close>, \<open>vault\<close>, \<open>safetynumber\<close>).
  \<^item> \<open>Identity\<close>, \<open>Kdf\<close>, \<open>X3dh\<close>: identities and fingerprints, HKDF, prekeys and the two sides of X3DH; both sides
    derive the same secret, a bundle is only accepted with a valid signature.
  \<^item> \<open>Ratchet\<close> (\<open>ratchet.go\<close>, \<open>wire.go\<close>) with counters at their 32 bits and the skipped keys; \<open>Ratchet_Receive\<close>: which
    key a decrypted message was sealed with and that this key is spent, the bound on one skip, the wrap-around near the counter
    limit, what a forgery costs.
  \<^item> \<open>Session\<close>: session objects in a heap and the store, with an invariant of every state its operations reach. \<open>Ratchet_Sync\<close> relates
    the two ends of a session over a network that reorders and loses messages, by rule induction over its steps.
    Its steps deliver any message in flight, in the window or not, except into a gap the code does not handle (\<open>chain_gap\<close>: a
    receiver without a receiving chain and a message that is not the first); the end of that theory shows what
    the code does there, and what a responder that speaks first gives away. \<open>Ratchet_Fifo\<close> is the same for an ordered
    connection, where no such gap arises.
  \<^item> \<open>Vault\<close>, \<open>Safetynumber\<close>: sealing at rest, PBKDF2 against its RFC, the comparison number.
  \<^item> \<open>Libsignal\<close>: the adapter around the libsignal library (stores, participants, wire bundle, opt-in store).

  \<^bold>\<open>Data and storage.\<close> \<open>Messaging\<close> (envelopes, frames, receipts), \<open>Contact\<close> (contact URIs and the book with trust on
  first use), \<open>Mailbox\<close>, \<open>Settings\<close>, \<open>Storage\<close> (the sealed-file store; the map of file contents and the failures of
  the operating system are explicit), \<open>Filetransfer\<close> (splitting, sealing, reassembly in any order), \<open>Account\<close>, \<open>Emoji\<close>.
  \<open>Store_Refinement\<close> states the \<open>Store\<close> interface (\<open>storage.go\<close>) as an abstract database with a saved copy; the file
  store refines it under every sequence of mutations, failed flushes and restarts, as long as a failed write
  leaves the file as it was; a write that fails half way may leave a file that does not open, which is out of its scope.

  \<^bold>\<open>Connections.\<close> \<open>Transport\<close> states the \<open>Conn\<close> interface as the locales \<open>conn_flow\<close> (sending and receiving) and
  \<open>conn_laws\<close> (which adds closing), interpreted on the in-process pipe and on the WebRTC connection object;
  \<open>conn_flow\<close> also on such an object that is fed by the network while it is read. \<open>Duplex\<close> states what two nodes rely on when they talk over the two ends of one
  connection, as the locale \<open>duplex\<close>; the pipe and a data channel between two connection objects keep it, and the
  handshake, text and conversation lemmas of the node are proved in it once for both. \<open>Signaling\<close> has the registry and the
  contract of an exchange of session descriptions (\<open>sdp_exchange\<close>, and \<open>sdp_exchange_stable\<close> which adds that an answer
  follows the offer that was taken). \<open>Signaling_Dht\<close> has the DHT signaler from its construction to its shutdown, or to the
  end of the context it was made with, with an invariant of every state it reaches; \<open>Dht_Net\<close> joins such signalers by the streams they write and interprets
  \<open>sdp_exchange\<close>, not the stronger contract, on them. \<open>Webrtc\<close> has the negotiation in \<open>Dial\<close> and \<open>Accept\<close>, which
  succeeds over every such exchange. \<open>Netcheck\<close> has the STUN probe and the facade \<open>core.go\<close>.

  \<^bold>\<open>Node\<close> (\<open>src/core/pkg/node\<close>). \<open>Node\<close> has every operation of nodes and links. \<open>Node_Delivery\<close>: the live handshake,
  pinning of the expected identity and the first message, over every \<open>duplex\<close> connection. \<open>Conversation\<close>: each side
  receives what the other sends, in order, under any interleaving of sends and receives. \<open>Node_Transfer\<close>: files.
  \<open>Node_Offline\<close>: the mailbox.

  \<^bold>\<open>Runtime\<close> (\<open>src/core/pkg/runtime\<close>). \<open>Runtime\<close> has each call and each goroutine as steps between two waits; the
  send worker's \<open>deliver\<close> is cut at its connection attempts with its position kept in the state. \<open>Runtime_Laws\<close>
  interprets the locale \<open>step_law\<close> of \<open>Go_Io\<close>, how a relation between states passes through an operation, for the
  relations the invariants need. \<open>Runtime_Run\<close> interleaves the steps in the relation
  \<open>engine_step\<close>: requests are accounted for, links are well formed, delivery ends.
  \<open>Runtime_Delivery\<close> composes two linked engines, and has saved files, the app's state and \<open>Stop\<close>. \<open>First_Contact\<close>
  follows two engines that never met from a contact URI over discovery, handshake and text to the delivered receipt,
  \<open>Engine_Files\<close> a file from the send worker of one engine to the disk of the other, also when it has more frames
  than the inbound queue holds. \<open>Engine_Conversation\<close> lets the
  apps, workers and readers of two linked engines and the network between them take steps in any order: messages
  are reported in order and once, receipts stand for reported messages, and the system goes on until all is
  acknowledged. \<open>Bindings\<close> models the
  desktop and the mobile binding (\<open>ffi.go\<close>, \<open>api.go\<close>) and shows that the app reads back every event it polls. \<open>Stunnerd\<close> has the demonstration program
  (\<open>cmd/stunnerd/main.go\<close>), which goes through accounts, stores, links, files and the mailbox; that its run
  completes is proved at the end of this theory. \<open>Stunnerd_Live\<close> has its live mode, in which two nodes find each
  other in a registry, negotiate a WebRTC channel while one of them runs in another goroutine, and exchange
  texts over it, and that this completes in either order of the goroutines.

  \<^bold>\<open>Bounds.\<close> The counters of the ratchet are 32-bit words; delivery theorems assume that the send counter stays
  1001 below the limit, because \<open>skip\<close> refuses every message ahead beyond that point. The JSON reader has fuel equal
  to the length of its input, which is shown to be enough for every document the program writes. The connection
  loop makes 12 attempts, hence the bound of 26 steps on a delivery; the outbox holds 64 requests and the pipe 64
  messages, as in the code. Freshness of randomly drawn ratchet keys is a hypothesis where it is needed.

  \<^bold>\<open>Not modelled.\<close> The Flutter app, the printing of \<open>cmd/stunnerd\<close> (its values are a record instead) and \<open>StunnerFree\<close>, which
  returns memory to the C allocator. Locks are not modelled: an operation that holds a lock is one step, and a step of the runtime
  reaches from one wait to the next, so races inside such a stretch are out of scope: \<open>adopt\<close>
  registers a link, announces it and starts its reader in one step, and a reader takes a whole file in one step, over a
  connection that may be fed meanwhile. Timers appear as choices of the
  environment. The libraries pion, libp2p, libsignal and the elliptic curves are parameters. Values are as in Go
  except that a nil and an empty byte slice are told apart only where the code does.
\<close>

section \<open>Properties that span the components\<close>

text \<open>C7. The whole pipeline works. When the system calls of \<open>stunnerd\<close> succeed and its random ratchet keys are fresh,
  the program creates both accounts and stores, prints the safety number of the two identities, connects the
  accounts, and returns: the text and the 40 KiB file arrive over the encrypted link exactly as sent, and the
  message left in the mailbox is fetched and decrypted to its text.\<close>

theorem pipeline_completes:
  assumes "curve_ok cv" "ru_tmp env = Inr tmp" "new_node_env (ru_alice env) spa" "new_node_env (ru_bob env) spb"
    and "ru_eph env = Inr eph" "length eph = 32" "ru_ratchet env = Inr kd" "length kd = 32"
    and "ru_recv env = (\<lambda>i. Inr (k i))" "fresh_from cv {x25519_base cv spb, x25519_base cv kd} k 0 5"
    and "length (ru_file env) = 40 * 1024" "ru_key env = Inr key" "length key = 32"
    and "ru_eph' env = Inr eph'" "length eph' = 32" "ru_ratchet' env = Inr kr" "length kr = 32"
    and "ru_fetch env 0 = Inr kf" "length kf = 32" "x25519_base cv kf \<notin> {x25519_base cv spb, x25519_base cv kr}"
    and "\<And>i. time_ok (ru_now env i)" "time_ok (ru_now' env)"
  shows "\<exists>a b. makeNode cv (ru_alice env) tmp ''alice'' = Inr a \<and> makeNode cv (ru_bob env) tmp ''bob'' = Inr b \<and>
    run cv pk env = Some (Inr \<lparr> rp_alice = account_Fingerprint (nd_account a), rp_bob = account_Fingerprint (nd_account b),
      rp_safety = safety_Compute (node_key a) (node_key b), rp_text = hello_text, rp_fileName = ''secret.bin'',
      rp_fileLength = 40 * 1024, rp_integrity = True, rp_offline = Some offline_text \<rparr>)"
proof -
  obtain a b where n: "makeNode cv (ru_alice env) tmp ''alice'' = Inr a" "makeNode cv (ru_bob env) tmp ''bob'' = Inr b"
    "run_setup cv env = Inr (a, b, safety_Compute (node_key a) (node_key b))" "node_ok cv a" "node_ok cv b"
    "used_keys cv b = (\<lambda>kd. {x25519_base cv spb, x25519_base cv kd})"
    by (rule run_setup_ok [OF assms(1-4)])
  have f: "fresh_from cv (used_keys cv b kd) k 0 5" "x25519_base cv kf \<notin> used_keys cv b kr"
    using assms(10,20) n(6) by simp_all
  note p = pipeline_run [OF assms(1) n(4,5) assms(5-9) f(1) assms(11-19) f(2) assms(21,22), of pk "safety_Compute (node_key a) (node_key b)"]
  show ?thesis using n p by (intro exI [of _ a] exI [of _ b]) (simp add: run_def demo_of_def)
qed

theorem pipeline_completes_witness:
  "\<exists>rp. run toy_curve False toy_run_env = Some (Inr rp) \<and> rp_text rp = hello_text \<and> rp_integrity rp \<and> rp_offline rp = Some offline_text"
proof -
  have t: "time_ok zero_time" by (rule time_ok_zero)
  have k: "x25519_base toy_curve (replicate 32 10) \<notin> {x25519_base toy_curve (replicate 32 3), x25519_base toy_curve (replicate 32 9)}"
    by (simp add: toy_curve_def fit_def)
  obtain a b where "run toy_curve False toy_run_env = Some (Inr \<lparr> rp_alice = account_Fingerprint (nd_account a),
      rp_bob = account_Fingerprint (nd_account b), rp_safety = safety_Compute (node_key a) (node_key b), rp_text = hello_text,
      rp_fileName = ''secret.bin'', rp_fileLength = 40 * 1024, rp_integrity = True, rp_offline = Some offline_text \<rparr>)"
    using pipeline_completes [where cv = toy_curve and env = toy_run_env and tmp = "''tmp''" and k = toy_draws and eph = "replicate 32 5" and
        spa = "replicate 32 3" and spb = "replicate 32 3" and kd = "replicate 32 6" and key = "replicate 32 7" and eph' = "replicate 32 8" and
        kr = "replicate 32 9" and kf = "replicate 32 10" and pk = False] toy_curve_ok toy_run_fresh toy_node_env_new k t
    by (auto simp: toy_run_env_def)
  then show ?thesis by simp
qed

end
